(* ===== verification/Prelude.thy ===== *)
theory Prelude
  imports Main "HOL-Library.Word"
begin

text \<open>
  Shared vocabulary of the development: machine integer types, C division, C strings, and
  the generic facts on lists, maps and words that the component theories use. Nothing here
  models a line of the program.
\<close>

section \<open>Machine integers\<close>

type_synonym u8 = "8 word"
type_synonym u16 = "16 word"
type_synonym u32 = "32 word"
type_synonym u64 = "64 word"
type_synonym s64 = "64 word"

text \<open>Facts that unfold the record and error plumbing of the component models.\<close>

named_theorems bomx_simps
named_theorems port_simps
named_theorems power_simps

text \<open>C rounds integer division towards zero.\<close>

definition c_div :: "int \<Rightarrow> int \<Rightarrow> int" where
  "c_div a b = sgn a * sgn b * (\<bar>a\<bar> div \<bar>b\<bar>)"

lemma c_div_nonneg: "0 \<le> a \<Longrightarrow> 0 < b \<Longrightarrow> c_div a b = a div b"
  by (cases "a = 0") (auto simp: c_div_def sgn_if)

lemma c_div_neg: "a < 0 \<Longrightarrow> 0 < b \<Longrightarrow> c_div a b = - ((- a) div b)"
  by (auto simp: c_div_def sgn_if)

lemma sint_word_of_int_small:
  "0 \<le> k \<Longrightarrow> k < 2 ^ 63 \<Longrightarrow> sint (word_of_int k :: 64 word) = k"
  by (simp add: sint_word_ariths signed_take_bit_int_eq_self_iff sint_sbintrunc')

lemma uint_word_of_int_small:
  "0 \<le> k \<Longrightarrow> k < 2 ^ 32 \<Longrightarrow> uint (word_of_int k :: 32 word) = k"
  by (simp add: uint_word_of_int_eq take_bit_int_eq_self_iff)

lemma uint32_lt: "uint (w :: 32 word) < 4294967296"
  using uint_lt2p [of w] by simp

lemma u32_lt: "unat (w :: 32 word) < 4294967296"
  using unsigned_less [of w] uint_nat [of w] by simp

lemma u16_lt: "unat (w :: 16 word) < 65536"
  using unsigned_less [of w] uint_nat [of w] by simp

lemma of_nat_eq_0_word_iff_small:
  "n < 2 ^ 32 \<Longrightarrow> (of_nat n :: 32 word) = 0 \<longleftrightarrow> n = 0"
  by (auto simp: word_of_nat_eq_0_iff dest: nat_dvd_not_less)

lemma of_nat_eq_word_iff: "n < 2 ^ 32 \<Longrightarrow> (of_nat n :: 32 word) = w \<longleftrightarrow> n = unat w"
  by (auto simp: unat_of_nat)

text \<open>The status codes of the Android platform that the code uses.\<close>

datatype status_t =
    NO_ERROR | NO_INIT | BAD_VALUE | NAME_NOT_FOUND | PERMISSION_DENIED | UNKNOWN_ERROR
  | INVALID_OPERATION | MINUS_EAGAIN | FAILED_TRANSACTION | DEAD_OBJECT | NO_MEMORY | TIMED_OUT | ErrorCode int

section \<open>Lists\<close>

text \<open>
  The intrusive tail queues of the code (\<open>BLST_Q\<close>) are modelled by the list of their
  elements, first element first. Removing an element that occurs once is \<^const>\<open>remove1\<close>.
\<close>

lemma length_remove1_mem: "x \<in> set xs \<Longrightarrow> Suc (length (remove1 x xs)) = length xs"
  by (induction xs) auto

lemma of_nat_length_remove1:
  "x \<in> set xs \<Longrightarrow> (of_nat (length (remove1 x xs)) :: 'a::len word) = of_nat (length xs) - 1"
proof -
  assume "x \<in> set xs"
  then have "Suc (length (remove1 x xs)) = length xs" by (rule length_remove1_mem)
  then have "(of_nat (length xs) :: 'a word) = of_nat (Suc (length (remove1 x xs)))" by simp
  then show ?thesis by simp
qed

lemma find_Some_iff_mem: "find P xs = Some x \<Longrightarrow> x \<in> set xs \<and> P x"
  by (induction xs) (auto split: if_splits)

lemma distinct_remove1_notin: "distinct xs \<Longrightarrow> x \<notin> set (remove1 x xs)"
  by (simp add: set_remove1_eq)

text \<open>A C string comparison to zero is equality of the strings.\<close>

definition strcmp_eq :: "string \<Rightarrow> string \<Rightarrow> bool" where
  "strcmp_eq a b \<longleftrightarrow> a = b"

text \<open>
  \<open>strncpy (dst, src, n)\<close> copies at most \<open>n\<close> characters and pads with NULs: the string
  the destination then holds, when a terminator fits, is the prefix of the source.
\<close>

definition strncpy_str :: "nat \<Rightarrow> string \<Rightarrow> string" where
  "strncpy_str n s = take n s"

end
