(* ===== verification/Bomx_Utils.thy ===== *)
theory Bomx_Utils
  imports Prelude
begin

text \<open>
  The OMX vocabulary the BOMX library uses and the helpers of
  \<open>media/libstagefrighthw/bomx_utils.cpp\<close> and \<open>bomx_utils.h\<close>: the error table and its
  trace functions, structure validation, and the conversion between OMX ticks (microseconds,
  signed 64 bit) and 45 kHz presentation time stamps (unsigned 32 bit).
\<close>

section \<open>OMX enumerations\<close>

text \<open>The error codes named by \<open>g_errorTable\<close>; any other code is \<open>OMX_ErrorOther\<close>.\<close>

datatype OMX_ERRORTYPE =
    OMX_ErrorNone
  | OMX_ErrorInsufficientResources | OMX_ErrorUndefined | OMX_ErrorInvalidComponentName
  | OMX_ErrorComponentNotFound | OMX_ErrorInvalidComponent | OMX_ErrorBadParameter
  | OMX_ErrorNotImplemented | OMX_ErrorUnderflow | OMX_ErrorOverflow | OMX_ErrorHardware
  | OMX_ErrorInvalidState | OMX_ErrorStreamCorrupt | OMX_ErrorPortsNotCompatible
  | OMX_ErrorResourcesLost | OMX_ErrorNoMore | OMX_ErrorVersionMismatch | OMX_ErrorNotReady
  | OMX_ErrorTimeout | OMX_ErrorSameState | OMX_ErrorResourcesPreempted
  | OMX_ErrorPortUnresponsiveDuringAllocation | OMX_ErrorPortUnresponsiveDuringDeallocation
  | OMX_ErrorPortUnresponsiveDuringStop | OMX_ErrorIncorrectStateTransition
  | OMX_ErrorIncorrectStateOperation | OMX_ErrorUnsupportedSetting | OMX_ErrorUnsupportedIndex
  | OMX_ErrorBadPortIndex | OMX_ErrorPortUnpopulated | OMX_ErrorComponentSuspended
  | OMX_ErrorDynamicResourcesUnavailable | OMX_ErrorMbErrorsInFrame | OMX_ErrorFormatNotDetected
  | OMX_ErrorContentPipeOpenFailed | OMX_ErrorContentPipeCreationFailed
  | OMX_ErrorSeperateTablesUsed | OMX_ErrorTunnelingUnsupported
  | OMX_ErrorOther u32

datatype OMX_STATETYPE =
    OMX_StateInvalid | OMX_StateLoaded | OMX_StateIdle | OMX_StateExecuting | OMX_StatePause
  | OMX_StateWaitForResources | OMX_StateOther u32

datatype OMX_DIRTYPE = OMX_DirInput | OMX_DirOutput

datatype OMX_PORTDOMAINTYPE =
    OMX_PortDomainAudio | OMX_PortDomainVideo | OMX_PortDomainImage | OMX_PortDomainOther

datatype OMX_BUFFERSUPPLIERTYPE =
    OMX_BufferSupplyUnspecified | OMX_BufferSupplyInput | OMX_BufferSupplyOutput
  | OMX_BufferSupplyOther u32

section \<open>Error tracing\<close>

definition g_errorTable :: "(OMX_ERRORTYPE \<times> string) list" where
  "g_errorTable =
    [(OMX_ErrorInsufficientResources, ''OMX_ErrorInsufficientResources''),
     (OMX_ErrorUndefined, ''OMX_ErrorUndefined''),
     (OMX_ErrorInvalidComponentName, ''OMX_ErrorInvalidComponentName''),
     (OMX_ErrorComponentNotFound, ''OMX_ErrorComponentNotFound''),
     (OMX_ErrorInvalidComponent, ''OMX_ErrorInvalidComponent''),
     (OMX_ErrorBadParameter, ''OMX_ErrorBadParameter''),
     (OMX_ErrorNotImplemented, ''OMX_ErrorNotImplemented''),
     (OMX_ErrorUnderflow, ''OMX_ErrorUnderflow''),
     (OMX_ErrorOverflow, ''OMX_ErrorOverflow''),
     (OMX_ErrorHardware, ''OMX_ErrorHardware''),
     (OMX_ErrorInvalidState, ''OMX_ErrorInvalidState''),
     (OMX_ErrorStreamCorrupt, ''OMX_ErrorStreamCorrupt''),
     (OMX_ErrorPortsNotCompatible, ''OMX_ErrorPortsNotCompatible''),
     (OMX_ErrorResourcesLost, ''OMX_ErrorResourcesLost''),
     (OMX_ErrorNoMore, ''OMX_ErrorNoMore''),
     (OMX_ErrorVersionMismatch, ''OMX_ErrorVersionMismatch''),
     (OMX_ErrorNotReady, ''OMX_ErrorNotReady''),
     (OMX_ErrorTimeout, ''OMX_ErrorTimeout''),
     (OMX_ErrorSameState, ''OMX_ErrorSameState''),
     (OMX_ErrorResourcesPreempted, ''OMX_ErrorResourcesPreempted''),
     (OMX_ErrorPortUnresponsiveDuringAllocation, ''OMX_ErrorPortUnresponsiveDuringAllocation''),
     (OMX_ErrorPortUnresponsiveDuringDeallocation, ''OMX_ErrorPortUnresponsiveDuringDeallocation''),
     (OMX_ErrorPortUnresponsiveDuringStop, ''OMX_ErrorPortUnresponsiveDuringStop''),
     (OMX_ErrorIncorrectStateTransition, ''OMX_ErrorIncorrectStateTransition''),
     (OMX_ErrorIncorrectStateOperation, ''OMX_ErrorIncorrectStateOperation''),
     (OMX_ErrorUnsupportedSetting, ''OMX_ErrorUnsupportedSetting''),
     (OMX_ErrorUnsupportedIndex, ''OMX_ErrorUnsupportedIndex''),
     (OMX_ErrorBadPortIndex, ''OMX_ErrorBadPortIndex''),
     (OMX_ErrorPortUnpopulated, ''OMX_ErrorPortUnpopulated''),
     (OMX_ErrorComponentSuspended, ''OMX_ErrorComponentSuspended''),
     (OMX_ErrorDynamicResourcesUnavailable, ''OMX_ErrorDynamicResourcesUnavailable''),
     (OMX_ErrorMbErrorsInFrame, ''OMX_ErrorMbErrorsInFrame''),
     (OMX_ErrorFormatNotDetected, ''OMX_ErrorFormatNotDetected''),
     (OMX_ErrorContentPipeOpenFailed, ''OMX_ErrorContentPipeOpenFailed''),
     (OMX_ErrorContentPipeCreationFailed, ''OMX_ErrorContentPipeCreationFailed''),
     (OMX_ErrorSeperateTablesUsed, ''OMX_ErrorSeperateTablesUsed''),
     (OMX_ErrorTunnelingUnsupported, ''OMX_ErrorTunnelingUnsupported''),
     (OMX_ErrorNone, ''OMX_ErrorNone'')]"

text \<open>The search loop of \<open>BOMX_PrintError\<close>: it stops at the \<open>OMX_ErrorNone\<close> entry.\<close>

fun errorTable_lookup :: "(OMX_ERRORTYPE \<times> string) list \<Rightarrow> OMX_ERRORTYPE \<Rightarrow> string" where
  "errorTable_lookup [] omxerr = ''unknown''"
| "errorTable_lookup ((err, pString) # rest) omxerr =
     (if err = OMX_ErrorNone then ''unknown''
      else if err = omxerr then pString
      else errorTable_lookup rest omxerr)"

text \<open>The value returned, and the error name logged, if any.\<close>

definition BOMX_PrintError :: "OMX_ERRORTYPE \<Rightarrow> OMX_ERRORTYPE \<times> string option" where
  "BOMX_PrintError omxerr =
     (if omxerr = OMX_ErrorNone then (OMX_ErrorNone, None)
      else if omxerr = OMX_ErrorNoMore then (OMX_ErrorNoMore, None)
      else (omxerr, Some (errorTable_lookup g_errorTable omxerr)))"

definition BOMX_ERR_TRACE :: "OMX_ERRORTYPE \<Rightarrow> OMX_ERRORTYPE" where
  "BOMX_ERR_TRACE omxerr =
     (if omxerr = OMX_ErrorNone then OMX_ErrorNone else fst (BOMX_PrintError omxerr))"

text \<open>Tracing never changes the code that is returned.\<close>

lemma BOMX_ERR_TRACE_id [simp]: "BOMX_ERR_TRACE e = e"
  by (simp add: BOMX_ERR_TRACE_def BOMX_PrintError_def)

fun BOMX_StateName :: "OMX_STATETYPE \<Rightarrow> string" where
  "BOMX_StateName OMX_StateInvalid = ''Invalid''"
| "BOMX_StateName OMX_StateLoaded = ''Loaded''"
| "BOMX_StateName OMX_StateIdle = ''Idle''"
| "BOMX_StateName OMX_StateExecuting = ''Executing''"
| "BOMX_StateName OMX_StatePause = ''Pause''"
| "BOMX_StateName OMX_StateWaitForResources = ''Wait For Resources''"
| "BOMX_StateName (OMX_StateOther _) = ''Unknown''"

section \<open>Structure validation\<close>

text \<open>
  Every OMX structure starts with its size and a version. The ABI constants that come from
  the OMX headers are the parameter \<open>omx_abi\<close>: the size of each structure, the value
  \<open>OMX_ALL\<close>, the cast of a command parameter to a state, and the string bound.
\<close>

datatype omx_struct =
    PORTDEFINITION | BUFFERSUPPLIER | PORT_PARAM | AUDIO_PORTFORMAT | VIDEO_PORTFORMAT
  | IMAGE_PORTFORMAT | OTHER_PORTFORMAT | COMPONENTROLE | BUFFERHEADER
  | AUDIO_AC3 | AUDIO_MP3 | AUDIO_AAC | AUDIO_PCM

record omx_abi =
  sizeof_struct :: "omx_struct \<Rightarrow> u32"
  OMX_ALL :: u32
  OMX_STATETYPE_of :: "u32 \<Rightarrow> OMX_STATETYPE"
  OMX_MAX_STRINGNAME_SIZE :: nat

text \<open>An instance with the values of the OMX IL headers, for evaluation on concrete inputs.\<close>

definition omx_il_abi :: omx_abi where
  "omx_il_abi =
     \<lparr>sizeof_struct = (\<lambda>_. 64), OMX_ALL = 4294967295,
      OMX_STATETYPE_of = (\<lambda>n. if n = 0 then OMX_StateInvalid else if n = 1 then OMX_StateLoaded
        else if n = 2 then OMX_StateIdle else if n = 3 then OMX_StateExecuting
        else if n = 4 then OMX_StatePause else if n = 5 then OMX_StateWaitForResources
        else OMX_StateOther n),
      OMX_MAX_STRINGNAME_SIZE = 128\<rparr>"

record omx_version =
  nVersionMajor :: u8
  nVersionMinor :: u8
  nRevision :: u8
  nStep :: u8

record omx_header =
  nSize :: u32
  nVersion :: omx_version

definition BOMX_STRUCT_INIT :: "omx_abi \<Rightarrow> omx_struct \<Rightarrow> omx_header" where
  "BOMX_STRUCT_INIT abi ty =
     \<lparr>nSize = sizeof_struct abi ty,
      nVersion = \<lparr>nVersionMajor = 1, nVersionMinor = 0, nRevision = 0, nStep = 0\<rparr>\<rparr>"

text \<open>A null structure pointer is \<open>None\<close>; \<open>OMX_ErrorNone\<close> means the macro falls through.\<close>

definition BOMX_STRUCT_VALIDATE :: "omx_abi \<Rightarrow> omx_struct \<Rightarrow> omx_header option \<Rightarrow> OMX_ERRORTYPE"
where
  "BOMX_STRUCT_VALIDATE abi ty hdr =
     (case hdr of
        None \<Rightarrow> BOMX_ERR_TRACE OMX_ErrorBadParameter
      | Some h \<Rightarrow>
          if nSize h \<noteq> sizeof_struct abi ty then BOMX_ERR_TRACE OMX_ErrorBadParameter
          else if nVersionMajor (nVersion h) \<noteq> 1 \<or> nVersionMinor (nVersion h) \<noteq> 0
               \<or> nRevision (nVersion h) \<noteq> 0 \<or> nStep (nVersion h) \<noteq> 0
          then BOMX_ERR_TRACE OMX_ErrorVersionMismatch
          else OMX_ErrorNone)"

lemma BOMX_STRUCT_VALIDATE_init [simp]:
  "BOMX_STRUCT_VALIDATE abi ty (Some (BOMX_STRUCT_INIT abi ty)) = OMX_ErrorNone"
  by (simp add: BOMX_STRUCT_VALIDATE_def BOMX_STRUCT_INIT_def)

lemma BOMX_STRUCT_VALIDATE_None_iff:
  "BOMX_STRUCT_VALIDATE abi ty hdr = OMX_ErrorNone \<longleftrightarrow> hdr = Some (BOMX_STRUCT_INIT abi ty)"
  by (auto simp: BOMX_STRUCT_VALIDATE_def BOMX_STRUCT_INIT_def split: option.splits)

section \<open>Ticks and presentation time stamps\<close>

definition BOMX_TickToPts :: "s64 \<Rightarrow> u32" where
  "BOMX_TickToPts pTicks =
     (let ticks = sint pTicks
      in if ticks \<le> 0 then 0 else word_of_int (c_div ticks 1000 * 45))"

definition BOMX_PtsToTick :: "u32 \<Rightarrow> s64" where
  "BOMX_PtsToTick pts = word_of_int (c_div (uint pts * 1000) 45)"

text \<open>Both operands are truncated to 32 bit before the subtraction.\<close>

definition BOMX_TickDiffMs :: "s64 \<Rightarrow> s64 \<Rightarrow> 32 word" where
  "BOMX_TickDiffMs pTime1 pTime2 =
     (let ms1 = word_of_int (c_div (sint pTime1) 1000) :: 32 word;
          ms2 = word_of_int (c_div (sint pTime2) 1000) :: 32 word
      in ms2 - ms1)"

lemma sint_PtsToTick: "sint (BOMX_PtsToTick pts) = uint pts * 1000 div 45"
proof -
  have b: "uint pts < 4294967296" by (rule uint32_lt)
  have "0 \<le> uint pts * 1000 div 45" by (simp add: pos_imp_zdiv_nonneg_iff)
  moreover have "uint pts * 1000 div 45 < 2 ^ 63" using b by simp
  ultimately have "sint (word_of_int (uint pts * 1000 div 45) :: s64) = uint pts * 1000 div 45"
    by (rule sint_word_of_int_small)
  then show ?thesis
    unfolding BOMX_PtsToTick_def by (subst c_div_nonneg) simp_all
qed

lemma uint_TickToPts:
  assumes "0 \<le> sint t" "sint t < 95443718000"
  shows "uint (BOMX_TickToPts t) = sint t div 1000 * 45"
proof (cases "sint t \<le> 0")
  case True
  with assms show ?thesis by (simp add: BOMX_TickToPts_def)
next
  case False
  have "0 \<le> sint t div 1000 * 45" using assms by (simp add: pos_imp_zdiv_nonneg_iff)
  moreover have "sint t div 1000 \<le> 95443717" using assms by linarith
  then have "sint t div 1000 * 45 < 2 ^ 32" by simp
  ultimately have "uint (word_of_int (sint t div 1000 * 45) :: u32) = sint t div 1000 * 45"
    by (rule uint_word_of_int_small)
  with False show ?thesis
    unfolding BOMX_TickToPts_def Let_def by (subst c_div_nonneg) simp_all
qed

lemma TickToPts_mono:
  assumes "0 \<le> sint a" "sint a \<le> sint b" "sint b < 95443718000"
  shows "BOMX_TickToPts a \<le> BOMX_TickToPts b"
  using assms by (simp add: word_le_def uint_TickToPts zdiv_mono1)

text \<open>converting a 45 kHz time stamp to ticks and back rounds it down to a whole
  millisecond, and changes nothing else: no time stamp is lost to overflow or sign.\<close>

theorem pts_tick_roundtrip: "uint (BOMX_TickToPts (BOMX_PtsToTick pts)) = uint pts div 45 * 45"
proof -
  have b: "uint pts < 4294967296" by (rule uint32_lt)
  have "0 \<le> sint (BOMX_PtsToTick pts)" "sint (BOMX_PtsToTick pts) < 95443718000"
    using b by (simp_all add: sint_PtsToTick pos_imp_zdiv_nonneg_iff)
  then have "uint (BOMX_TickToPts (BOMX_PtsToTick pts)) = (uint pts * 1000 div 45) div 1000 * 45"
    by (simp add: uint_TickToPts sint_PtsToTick)
  also have "(uint pts * 1000 div 45) div 1000 = uint pts * 1000 div (45 * 1000)"
    by (rule zdiv_zmult2_eq [symmetric]) simp
  also have "\<dots> = uint pts div 45"
    by (rule div_mult_mult2) simp
  finally show ?thesis .
qed

text \<open>on every non-negative time whose time stamp fits 32 bits, ticks to time stamp
  and back rounds down to a whole millisecond.\<close>

theorem tick_pts_roundtrip:
  assumes "0 \<le> sint t" "sint t < 95443718000"
  shows "sint (BOMX_PtsToTick (BOMX_TickToPts t)) = sint t div 1000 * 1000"
  using assms by (simp add: sint_PtsToTick uint_TickToPts)

theorem tick_pts_roundtrip_witness: "sint (BOMX_PtsToTick (BOMX_TickToPts 1234567)) = 1234000"
  using tick_pts_roundtrip [of 1234567] by simp

end
