(* ===== verification/Bomx_Buffer.thy ===== *)
theory Bomx_Buffer
  imports Bomx_Utils
begin

text \<open>
  \<open>media/libstagefrighthw/bomx_buffer.cpp\<close>: the buffer header shared with the OMX client
  and the two buffer classes. Pointers are addresses (\<open>nat\<close>, 0 is NULL); the 32 bit length
  fields keep their width. An operation whose \<open>ALOG_ASSERT\<close> fails returns \<open>None\<close>.
\<close>

type_synonym addr = nat

abbreviation (input) NULL :: addr where "NULL \<equiv> 0"

section \<open>Headers and constructors\<close>

record OMX_BUFFERHEADERTYPE =
  bh_struct :: omx_header
  bh_pBuffer :: addr
  nAllocLen :: u32
  nFilledLen :: u32
  nOffset :: u32
  pAppPrivate :: addr
  pPlatformPrivate :: addr
  pInputPortPrivate :: addr
  pOutputPortPrivate :: addr
  nTimeStamp :: s64
  nFlags :: u32
  nInputPortIndex :: u32
  nOutputPortIndex :: u32

text \<open>\<open>m_dir\<close> is the dynamic class of the object: \<open>BOMX_InputBuffer\<close> or \<open>BOMX_OutputBuffer\<close>.\<close>

record BOMX_Buffer =
  m_header :: OMX_BUFFERHEADERTYPE
  m_dir :: OMX_DIRTYPE

definition new_BOMX_Buffer :: "omx_abi \<Rightarrow> addr \<Rightarrow> addr \<Rightarrow> u32 \<Rightarrow> addr \<Rightarrow> OMX_BUFFERHEADERTYPE" where
  "new_BOMX_Buffer abi this appPrivate nSizeBytes buffer =
     \<lparr>bh_struct = BOMX_STRUCT_INIT abi BUFFERHEADER, bh_pBuffer = buffer,
      nAllocLen = nSizeBytes, nFilledLen = 0, nOffset = 0,
      pAppPrivate = appPrivate, pPlatformPrivate = this,
      pInputPortPrivate = NULL, pOutputPortPrivate = NULL,
      nTimeStamp = 0, nFlags = 0, nInputPortIndex = 0, nOutputPortIndex = 0\<rparr>"

definition new_BOMX_InputBuffer ::
  "omx_abi \<Rightarrow> addr \<Rightarrow> addr \<Rightarrow> u32 \<Rightarrow> addr \<Rightarrow> addr \<Rightarrow> BOMX_Buffer" where
  "new_BOMX_InputBuffer abi this appPrivate nSizeBytes buffer pComponentPrivate =
     \<lparr>m_header = (new_BOMX_Buffer abi this appPrivate nSizeBytes buffer)
        \<lparr>pOutputPortPrivate := appPrivate, pInputPortPrivate := pComponentPrivate\<rparr>,
      m_dir = OMX_DirInput\<rparr>"

definition new_BOMX_OutputBuffer ::
  "omx_abi \<Rightarrow> addr \<Rightarrow> addr \<Rightarrow> u32 \<Rightarrow> addr \<Rightarrow> addr \<Rightarrow> BOMX_Buffer" where
  "new_BOMX_OutputBuffer abi this appPrivate nSizeBytes buffer pComponentPrivate =
     \<lparr>m_header = (new_BOMX_Buffer abi this appPrivate nSizeBytes buffer)
        \<lparr>pInputPortPrivate := appPrivate, pOutputPortPrivate := pComponentPrivate\<rparr>,
      m_dir = OMX_DirOutput\<rparr>"

definition GetComponentPrivate :: "BOMX_Buffer \<Rightarrow> addr" where
  "GetComponentPrivate b =
     (case m_dir b of OMX_DirInput \<Rightarrow> pInputPortPrivate (m_header b)
                    | OMX_DirOutput \<Rightarrow> pOutputPortPrivate (m_header b))"

section \<open>Access to the data\<close>

text \<open>Result: the data pointer (NULL when there is none) and the length.\<close>

definition InputBuffer_GetBuffer :: "OMX_BUFFERHEADERTYPE \<Rightarrow> addr \<times> u32" where
  "InputBuffer_GetBuffer h =
     (if nOffset h + nFilledLen h \<le> nAllocLen h
      then (bh_pBuffer h + unat (nOffset h), nFilledLen h)
      else (NULL, 0))"

definition InputBuffer_UpdateBuffer :: "OMX_BUFFERHEADERTYPE \<Rightarrow> u32 \<Rightarrow> OMX_BUFFERHEADERTYPE option"
where
  "InputBuffer_UpdateBuffer h amountUsed =
     (if amountUsed \<le> nFilledLen h
      then Some (h\<lparr>nOffset := nOffset h + amountUsed, nFilledLen := nFilledLen h - amountUsed\<rparr>)
      else None)"

definition InputBuffer_Reset :: "OMX_BUFFERHEADERTYPE \<Rightarrow> u32 \<Rightarrow> OMX_BUFFERHEADERTYPE option" where
  "InputBuffer_Reset h off = Some h"

definition OutputBuffer_GetBuffer :: "OMX_BUFFERHEADERTYPE \<Rightarrow> addr \<times> u32" where
  "OutputBuffer_GetBuffer h =
     (if nFilledLen h + nOffset h < nAllocLen h
      then (bh_pBuffer h + unat (nFilledLen h) + unat (nOffset h),
            nAllocLen h - (nFilledLen h + nOffset h))
      else (NULL, 0))"

definition OutputBuffer_UpdateBuffer :: "OMX_BUFFERHEADERTYPE \<Rightarrow> u32 \<Rightarrow> OMX_BUFFERHEADERTYPE option"
where
  "OutputBuffer_UpdateBuffer h amountUsed =
     (if nFilledLen h + amountUsed + nOffset h \<le> nAllocLen h
      then Some (h\<lparr>nFilledLen := nFilledLen h + amountUsed\<rparr>)
      else None)"

definition OutputBuffer_Reset :: "OMX_BUFFERHEADERTYPE \<Rightarrow> u32 \<Rightarrow> OMX_BUFFERHEADERTYPE option" where
  "OutputBuffer_Reset h off =
     (if off \<le> nAllocLen h
      then Some (h\<lparr>nOffset := off, nFilledLen := 0, nTimeStamp := 0\<rparr>)
      else None)"

section \<open>Window invariant\<close>

text \<open>The filled window lies inside the allocation, counted without wrap-around.\<close>

definition window_ok :: "OMX_BUFFERHEADERTYPE \<Rightarrow> bool" where
  "window_ok h \<longleftrightarrow> unat (nOffset h) + unat (nFilledLen h) \<le> unat (nAllocLen h)"

lemma window_no_wrap:
  "window_ok h \<Longrightarrow> unat (nOffset h + nFilledLen h) = unat (nOffset h) + unat (nFilledLen h)"
  using u32_lt [of "nAllocLen h"] by (simp add: window_ok_def unat_word_ariths)

lemma window_ok_new: "window_ok (new_BOMX_Buffer abi this p n b)"
  by (simp add: window_ok_def new_BOMX_Buffer_def)

lemma InputBuffer_UpdateBuffer_window:
  assumes "window_ok h" "InputBuffer_UpdateBuffer h n = Some h'"
  shows "window_ok h'"
    and "unat (nOffset h') = unat (nOffset h) + unat n"
    and "unat (nFilledLen h') = unat (nFilledLen h) - unat n"
    and "bh_pBuffer h' = bh_pBuffer h" and "nAllocLen h' = nAllocLen h"
proof -
  from assms(2) have le: "unat n \<le> unat (nFilledLen h)"
    and h': "h' = h\<lparr>nOffset := nOffset h + n, nFilledLen := nFilledLen h - n\<rparr>"
    by (auto simp: InputBuffer_UpdateBuffer_def word_le_nat_alt split: if_splits)
  have "unat (nOffset h) + unat n < 4294967296"
    using assms(1) le u32_lt [of "nAllocLen h"] by (simp add: window_ok_def)
  then show o: "unat (nOffset h') = unat (nOffset h) + unat n"
    by (simp add: h' unat_word_ariths)
  show f: "unat (nFilledLen h') = unat (nFilledLen h) - unat n"
    using le by (simp add: h' unat_sub word_le_nat_alt)
  show "window_ok h'" "bh_pBuffer h' = bh_pBuffer h" "nAllocLen h' = nAllocLen h"
    using assms(1) le o f by (simp_all add: window_ok_def h')
qed

lemma OutputBuffer_UpdateBuffer_window:
  assumes "window_ok h" "n \<le> snd (OutputBuffer_GetBuffer h)"
  shows "\<exists>h'. OutputBuffer_UpdateBuffer h n = Some h' \<and> window_ok h'
           \<and> unat (nFilledLen h') = unat (nFilledLen h) + unat n
           \<and> nOffset h' = nOffset h \<and> nAllocLen h' = nAllocLen h \<and> bh_pBuffer h' = bh_pBuffer h"
proof -
  let ?s = "unat (nFilledLen h) + unat (nOffset h)"
  have s: "unat (nFilledLen h + nOffset h) = ?s"
    using window_no_wrap [OF assms(1)] by (simp add: add.commute)
  have fit: "unat n + ?s \<le> unat (nAllocLen h)"
  proof (cases "nFilledLen h + nOffset h < nAllocLen h")
    case True
    then have "unat (nAllocLen h - (nFilledLen h + nOffset h)) = unat (nAllocLen h) - ?s"
      using s by (simp add: unat_sub less_imp_le)
    with True assms(2) s show ?thesis
      by (simp add: OutputBuffer_GetBuffer_def word_le_nat_alt word_less_nat_alt)
  next
    case False
    with assms show ?thesis
      by (simp add: OutputBuffer_GetBuffer_def window_ok_def)
  qed
  have lt: "unat (nFilledLen h) + unat n + unat (nOffset h) < 4294967296"
    using fit u32_lt [of "nAllocLen h"] by simp
  then have w: "unat (nFilledLen h + n + nOffset h) = unat (nFilledLen h) + unat n + unat (nOffset h)"
    and f: "unat (nFilledLen h + n) = unat (nFilledLen h) + unat n"
    by (simp_all add: unat_word_ariths)
  from fit w f show ?thesis
    by (simp add: OutputBuffer_UpdateBuffer_def window_ok_def word_le_nat_alt)
qed

section \<open>Properties\<close>

text \<open>C40: the bytes an input buffer hands to the decoder lie inside the client's
  allocation, for every header whose offset and filled length do not wrap when added.\<close>

theorem InputBuffer_GetBuffer_in_bounds:
  assumes "unat (nOffset h) + unat (nFilledLen h) < 2 ^ 32"
    and "InputBuffer_GetBuffer h = (p, len)" and "p \<noteq> NULL"
  shows "bh_pBuffer h \<le> p \<and> p + unat len \<le> bh_pBuffer h + unat (nAllocLen h)"
  using assms
  by (auto simp: InputBuffer_GetBuffer_def word_le_nat_alt unat_word_ariths split: if_splits)

theorem InputBuffer_GetBuffer_in_bounds_witness:
  "let h = (new_BOMX_Buffer omx_il_abi 1 2 100 4096)\<lparr>nOffset := 10, nFilledLen := 50\<rparr>
   in InputBuffer_GetBuffer h = (4106, 50) \<and> (4106::nat) + 50 \<le> 4096 + 100"
  using InputBuffer_GetBuffer_in_bounds
    [of "(new_BOMX_Buffer omx_il_abi 1 2 100 4096)\<lparr>nOffset := 10, nFilledLen := 50\<rparr>" 4106 50]
  by (simp add: InputBuffer_GetBuffer_def new_BOMX_Buffer_def)

text \<open>the bounds check adds two 32 bit client values without guarding the wrap-around:
  some header passes the check although the window it selects ends outside the allocation.\<close>

theorem InputBuffer_GetBuffer_wraps:
  "\<exists>h p len. InputBuffer_GetBuffer h = (p, len) \<and> p \<noteq> NULL
     \<and> p + unat len > bh_pBuffer h + unat (nAllocLen h)"
proof (intro exI conjI)
  let ?h = "(new_BOMX_Buffer omx_il_abi 1 2 100 4096)\<lparr>nOffset := 4294967295, nFilledLen := 2\<rparr>"
  show "InputBuffer_GetBuffer ?h = (4096 + 4294967295, 2)"
    by (simp add: InputBuffer_GetBuffer_def new_BOMX_Buffer_def)
qed (simp_all add: new_BOMX_Buffer_def)

text \<open>consuming input in two steps is consuming it in one, and each step moves the
  start of the remaining data by exactly the amount used, never past the filled data.\<close>

theorem InputBuffer_consume:
  assumes "window_ok h" "unat a + unat b \<le> unat (nFilledLen h)"
  shows "Option.bind (InputBuffer_UpdateBuffer h a) (\<lambda>h'. InputBuffer_UpdateBuffer h' b)
           = InputBuffer_UpdateBuffer h (a + b)
       \<and> (\<exists>h'. InputBuffer_UpdateBuffer h (a + b) = Some h'
            \<and> InputBuffer_GetBuffer h' =
                (bh_pBuffer h + unat (nOffset h) + unat a + unat b, nFilledLen h - (a + b)))"
proof -
  have ab: "unat (a + b) = unat a + unat b"
    using assms(2) u32_lt [of "nFilledLen h"] by (simp add: unat_word_ariths)
  have le: "a \<le> nFilledLen h" "a + b \<le> nFilledLen h" "b \<le> nFilledLen h - a"
    using assms(2) ab by (simp_all add: word_le_nat_alt unat_sub)
  have two: "Option.bind (InputBuffer_UpdateBuffer h a) (\<lambda>h'. InputBuffer_UpdateBuffer h' b)
           = InputBuffer_UpdateBuffer h (a + b)"
    using le by (simp add: InputBuffer_UpdateBuffer_def add.assoc diff_diff_eq)
  obtain h' where h': "InputBuffer_UpdateBuffer h (a + b) = Some h'"
    using le by (simp add: InputBuffer_UpdateBuffer_def)
  note w = InputBuffer_UpdateBuffer_window [OF assms(1) h']
  have "nOffset h' + nFilledLen h' \<le> nAllocLen h'"
    using w(1) window_no_wrap [OF w(1)] by (simp add: word_le_nat_alt window_ok_def)
  moreover have "nFilledLen h' = nFilledLen h - (a + b)"
    using h' by (auto simp: InputBuffer_UpdateBuffer_def split: if_splits)
  ultimately have "InputBuffer_GetBuffer h' =
      (bh_pBuffer h + unat (nOffset h) + unat a + unat b, nFilledLen h - (a + b))"
    using w(2,4) ab by (simp add: InputBuffer_GetBuffer_def)
  with two h' show ?thesis by blast
qed

theorem InputBuffer_consume_witness:
  "let h = (new_BOMX_Buffer omx_il_abi 1 2 100 4096)\<lparr>nFilledLen := 50\<rparr>
   in window_ok h \<and> Option.bind (InputBuffer_UpdateBuffer h 20) (\<lambda>h'. InputBuffer_UpdateBuffer h' 5)
        = InputBuffer_UpdateBuffer h (20 + 5)"
  using InputBuffer_consume [of "(new_BOMX_Buffer omx_il_abi 1 2 100 4096)\<lparr>nFilledLen := 50\<rparr>" 20 5]
  by (simp add: window_ok_def new_BOMX_Buffer_def)

text \<open>filling an output buffer by no more than the room it reports never trips the
  assertion and keeps the filled window inside the allocation.\<close>

theorem OutputBuffer_fill_ok:
  assumes "window_ok h" "n \<le> snd (OutputBuffer_GetBuffer h)"
  shows "\<exists>h'. OutputBuffer_UpdateBuffer h n = Some h' \<and> window_ok h'
           \<and> unat (nFilledLen h') = unat (nFilledLen h) + unat n"
  using OutputBuffer_UpdateBuffer_window [OF assms] by blast

theorem OutputBuffer_fill_ok_witness:
  "let h = new_BOMX_Buffer omx_il_abi 1 2 100 4096
   in \<exists>h'. OutputBuffer_UpdateBuffer h 60 = Some h' \<and> window_ok h' \<and> unat (nFilledLen h') = 60"
  using OutputBuffer_fill_ok [of "new_BOMX_Buffer omx_il_abi 1 2 100 4096" 60]
  by (simp add: window_ok_def new_BOMX_Buffer_def OutputBuffer_GetBuffer_def)

end
