(* ===== verification/Bomx_Tracker.thy ===== *)
theory Bomx_Tracker
  imports Bomx_Buffer "HOL-Library.Multiset"
begin

text \<open>
  \<open>media/libstagefrighthw/bomx_buffer_tracker.cpp\<close>: the tracker that remembers the exact
  timestamp and flags of every input buffer under its 45 kHz PTS, because the decoder only
  returns the PTS. The two node queues are lists of node contents; an allocation is an
  argument (\<open>None\<close> when it fails, otherwise the uninitialised node).
\<close>

section \<open>Data and constructor\<close>

record BOMX_BufferTrackerNode =
  ticks :: s64
  tflags :: u32
  pts :: u32

record BOMX_BufferTracker =
  m_allocList :: "BOMX_BufferTrackerNode list"
  m_freeList :: "BOMX_BufferTrackerNode list"
  m_minAllocated :: u32
  m_maxAllocated :: u32
  m_valid :: bool

definition BUFTR_CLEANUP_THRESHOLD :: u32 where "BUFTR_CLEANUP_THRESHOLD = 300"
definition BUFTR_CLEANUP_KEEP :: u32 where "BUFTR_CLEANUP_KEEP = 30"

text \<open>The allocation loop of the constructor: \<open>k\<close> nodes to go, the \<open>i\<close>-th one next.\<close>

fun alloc_nodes ::
  "(nat \<Rightarrow> BOMX_BufferTrackerNode option) \<Rightarrow> nat \<Rightarrow> nat \<Rightarrow> BOMX_BufferTrackerNode list
   \<Rightarrow> BOMX_BufferTrackerNode list \<times> bool" where
  "alloc_nodes newNode i 0 free = (free, True)"
| "alloc_nodes newNode i (Suc k) free =
     (case newNode i of
        None \<Rightarrow> (free, False)
      | Some n \<Rightarrow> alloc_nodes newNode (Suc i) k (free @ [n]))"

definition new_BOMX_BufferTracker ::
  "(nat \<Rightarrow> BOMX_BufferTrackerNode option) \<Rightarrow> u32 \<Rightarrow> BOMX_BufferTracker" where
  "new_BOMX_BufferTracker newNode minEntries =
     (let (free, ok) = alloc_nodes newNode 0 (unat minEntries) [] in
      \<lparr>m_allocList = [], m_freeList = free, m_minAllocated = minEntries,
       m_maxAllocated = minEntries, m_valid = ok\<rparr>)"

text \<open>The destructor frees both lists; it returns the nodes in the order they are deleted.\<close>

fun move_heads :: "BOMX_BufferTrackerNode list \<Rightarrow> BOMX_BufferTrackerNode list \<Rightarrow> BOMX_BufferTrackerNode list"
where
  "move_heads [] dest = dest"
| "move_heads (n # ns) dest = move_heads ns (dest @ [n])"

definition delete_BOMX_BufferTracker ::
  "BOMX_BufferTracker \<Rightarrow> BOMX_BufferTrackerNode list \<times> BOMX_BufferTracker" where
  "delete_BOMX_BufferTracker t =
     (let deleted = move_heads (m_freeList t) (move_heads (m_allocList t) []) in
      (deleted, t\<lparr>m_allocList := [], m_freeList := [], m_valid := False\<rparr>))"

section \<open>Add\<close>

text \<open>
  The backward scan: the nodes before the scan position, nearest first, and those after it.
  \<open>None\<close>: the scan runs off the head and the assertion \<open>NULL != pPrev\<close> fails.
\<close>

fun scan_back ::
  "BOMX_BufferTrackerNode \<Rightarrow> BOMX_BufferTrackerNode list \<Rightarrow> BOMX_BufferTrackerNode list
   \<Rightarrow> BOMX_BufferTrackerNode list option" where
  "scan_back n [] after = None"
| "scan_back n (p # before) after =
     (if pts p > pts n then scan_back n before (p # after)
      else Some (rev before @ p # n # after))"

definition insert_node ::
  "BOMX_BufferTrackerNode list \<Rightarrow> BOMX_BufferTrackerNode \<Rightarrow> BOMX_BufferTrackerNode list option" where
  "insert_node xs n =
     (if xs = [] \<or> pts (last xs) \<le> pts n then Some (xs @ [n])
      else if pts n < pts (hd xs) then Some (n # xs)
      else scan_back n (tl (rev xs)) [last xs])"

text \<open>Result: success, the PTS written to \<open>pPts\<close>, and the tracker.\<close>

definition Tracker_Add ::
  "BOMX_BufferTrackerNode option \<Rightarrow> BOMX_BufferTracker \<Rightarrow> OMX_BUFFERHEADERTYPE
   \<Rightarrow> (bool \<times> u32 option \<times> BOMX_BufferTracker) option" where
  "Tracker_Add newNode t pHeader =
     (case (case m_freeList t of
              n # rest \<Rightarrow> Some (n, t\<lparr>m_freeList := rest\<rparr>)
            | [] \<Rightarrow> (case newNode of
                       None \<Rightarrow> None
                     | Some n \<Rightarrow> Some (n, t\<lparr>m_maxAllocated := m_maxAllocated t + 1\<rparr>))) of
        None \<Rightarrow> Some (False, None, t)
      | Some (n, t1) \<Rightarrow>
          (let n1 = n\<lparr>ticks := nTimeStamp pHeader, tflags := nFlags pHeader,
                      pts := BOMX_TickToPts (nTimeStamp pHeader)\<rparr> in
           case insert_node (m_allocList t1) n1 of
             None \<Rightarrow> None
           | Some xs \<Rightarrow> Some (True, Some (pts n1), t1\<lparr>m_allocList := xs\<rparr>)))"

section \<open>Remove, Flush and Last\<close>

text \<open>The clean-up loop: the nodes kept and the nodes moved to the free list, in order.\<close>

fun cleanup_scan ::
  "s64 \<Rightarrow> BOMX_BufferTrackerNode list \<Rightarrow> u32
   \<Rightarrow> BOMX_BufferTrackerNode list \<times> BOMX_BufferTrackerNode list" where
  "cleanup_scan ts [] miss = ([], [])"
| "cleanup_scan ts (n # ns) miss =
     (if \<not> miss \<ge> BUFTR_CLEANUP_KEEP then (n # ns, [])
      else if ticks n \<noteq> 0 \<and> sint (ticks n) < sint ts
      then (let (kept, freed) = cleanup_scan ts ns (miss - 1) in (kept, n # freed))
      else (let (kept, freed) = cleanup_scan ts ns miss in (n # kept, freed)))"

text \<open>The search: the nodes passed over, the match and the rest.\<close>

fun find_pts ::
  "u32 \<Rightarrow> BOMX_BufferTrackerNode list
   \<Rightarrow> (BOMX_BufferTrackerNode list \<times> BOMX_BufferTrackerNode \<times> BOMX_BufferTrackerNode list) option" where
  "find_pts k [] = None"
| "find_pts k (n # ns) =
     (if pts n = k then Some ([], n, ns)
      else map_option (\<lambda>(before, m, after). (n # before, m, after)) (find_pts k ns))"

definition Tracker_Remove ::
  "BOMX_BufferTracker \<Rightarrow> u32 \<Rightarrow> OMX_BUFFERHEADERTYPE
   \<Rightarrow> bool \<times> OMX_BUFFERHEADERTYPE \<times> BOMX_BufferTracker" where
  "Tracker_Remove t k pHeader =
     (case find_pts k (m_allocList t) of
        None \<Rightarrow> (False, pHeader\<lparr>nTimeStamp := BOMX_PtsToTick k, nFlags := 0\<rparr>, t)
      | Some (before, n, after) \<Rightarrow>
          (let miss = of_nat (length before);
               h = pHeader\<lparr>nFlags := tflags n, nTimeStamp := ticks n\<rparr>;
               t1 = t\<lparr>m_allocList := before @ after, m_freeList := m_freeList t @ [n]\<rparr>
           in if miss > BUFTR_CLEANUP_THRESHOLD
              then let (kept, freed) = cleanup_scan (nTimeStamp h) (m_allocList t1) miss
                   in (True, h, t1\<lparr>m_allocList := kept, m_freeList := m_freeList t1 @ freed\<rparr>)
              else (True, h, t1)))"

definition Tracker_Flush :: "BOMX_BufferTracker \<Rightarrow> BOMX_BufferTracker" where
  "Tracker_Flush t = t\<lparr>m_allocList := [], m_freeList := move_heads (m_allocList t) (m_freeList t)\<rparr>"

definition Tracker_Last :: "BOMX_BufferTracker \<Rightarrow> s64 \<Rightarrow> bool" where
  "Tracker_Last t tk \<longleftrightarrow> find (\<lambda>n. sint (ticks n) > sint tk) (m_allocList t) = None"

section \<open>The order of the tracked nodes\<close>

text \<open>Reference insertion: behind every node with an equal or smaller PTS.\<close>

definition insert_by_pts ::
  "BOMX_BufferTrackerNode list \<Rightarrow> BOMX_BufferTrackerNode \<Rightarrow> BOMX_BufferTrackerNode list" where
  "insert_by_pts xs n = takeWhile (\<lambda>x. pts x \<le> pts n) xs @ n # dropWhile (\<lambda>x. pts x \<le> pts n) xs"

abbreviation sorted_pts :: "BOMX_BufferTrackerNode list \<Rightarrow> bool" where
  "sorted_pts xs \<equiv> sorted (map pts xs)"

lemma move_heads_eq [simp]: "move_heads xs dest = dest @ xs"
  by (induction xs arbitrary: dest) auto

lemma sorted_map_filter_split:
  "sorted_pts xs \<Longrightarrow> \<forall>x \<in> set (dropWhile (\<lambda>x. pts x \<le> k) xs). pts x > k"
  by (induction xs) (auto simp: not_le intro: less_le_trans)

lemma insert_by_pts_split:
  assumes "\<forall>x \<in> set xs. pts x \<le> pts n" "\<forall>x \<in> set ys. pts x > pts n"
  shows "insert_by_pts (xs @ ys) n = xs @ n # ys"
  using assms by (cases ys) (auto simp: insert_by_pts_def takeWhile_append dropWhile_append not_le)

lemma sorted_pts_insert_between:
  "sorted_pts (xs @ ys) \<Longrightarrow> \<forall>x \<in> set xs. pts x \<le> pts n \<Longrightarrow> \<forall>x \<in> set ys. pts n \<le> pts x
   \<Longrightarrow> sorted_pts (xs @ n # ys)"
  by (simp add: sorted_append)

lemma insert_by_pts_sorted:
  assumes "sorted_pts xs"
  shows "sorted_pts (insert_by_pts xs n)"
proof -
  let ?T = "takeWhile (\<lambda>x. pts x \<le> pts n) xs" and ?D = "dropWhile (\<lambda>x. pts x \<le> pts n) xs"
  have td: "sorted_pts (?T @ ?D)" using assms by simp
  have t: "\<forall>x \<in> set ?T. pts x \<le> pts n" by (auto dest: set_takeWhileD)
  have d: "\<forall>x \<in> set ?D. pts n \<le> pts x"
    using sorted_map_filter_split [OF assms, of "pts n"] by (auto intro: less_imp_le)
  show ?thesis unfolding insert_by_pts_def by (rule sorted_pts_insert_between [OF td t d])
qed

lemma insert_by_pts_mset: "mset (insert_by_pts xs n) = add_mset n (mset xs)"
proof -
  have "mset xs = mset (takeWhile (\<lambda>x. pts x \<le> pts n) xs) + mset (dropWhile (\<lambda>x. pts x \<le> pts n) xs)"
    by (metis mset_append takeWhile_dropWhile_id)
  then show ?thesis by (simp add: insert_by_pts_def)
qed

lemma scan_back_insert:
  assumes "sorted_pts (rev before @ after)" "before \<noteq> []" "pts (last before) \<le> pts n"
    "\<forall>x \<in> set after. pts x > pts n"
  shows "scan_back n before after = Some (insert_by_pts (rev before @ after) n)"
  using assms
proof (induction before arbitrary: after)
  case (Cons p before)
  show ?case
  proof (cases "pts p > pts n")
    case True
    then have "before \<noteq> []" using Cons.prems(3) by auto
    with True Cons show ?thesis by simp
  next
    case False
    have "\<forall>x \<in> set (rev before @ [p]). pts x \<le> pts n"
      using Cons.prems(1) False by (auto simp: sorted_append not_less intro: order_trans)
    then have "insert_by_pts ((rev before @ [p]) @ after) n = (rev before @ [p]) @ n # after"
      using Cons.prems(4) by (rule insert_by_pts_split)
    with False show ?thesis by simp
  qed
qed simp

lemma sorted_pts_le_last: "sorted_pts xs \<Longrightarrow> x \<in> set xs \<Longrightarrow> pts x \<le> pts (last xs)"
  by (induction xs rule: rev_induct) (auto simp: sorted_append)

lemma insert_node_eq:
  assumes "sorted_pts xs"
  shows "insert_node xs n = Some (insert_by_pts xs n)"
proof -
  consider (tail) "xs = [] \<or> pts (last xs) \<le> pts n" | (head) "xs \<noteq> []" "pts n < pts (last xs)" "pts n < pts (hd xs)"
    | (mid) "xs \<noteq> []" "pts n < pts (last xs)" "pts (hd xs) \<le> pts n" by fastforce
  then show ?thesis
  proof cases
    case tail
    then have "\<forall>x \<in> set xs. pts x \<le> pts n"
      using sorted_pts_le_last [OF assms] order_trans by fastforce
    with tail insert_by_pts_split [of xs n "[]"] show ?thesis by (simp add: insert_node_def)
  next
    case head
    then have "\<forall>x \<in> set xs. pts x > pts n" using assms by (cases xs) (auto intro: less_le_trans)
    with head(1) insert_by_pts_split [of "[]" n xs] have "insert_by_pts xs n = n # xs" by simp
    with head show ?thesis by (simp add: insert_node_def not_le [symmetric])
  next
    case mid
    define before where "before = tl (rev xs)"
    have rx: "rev xs = last xs # before" using mid(1) by (cases xs rule: rev_cases) (auto simp: before_def)
    then have xs: "xs = rev before @ [last xs]" by (metis rev.simps(2) rev_rev_ident)
    have ne: "before \<noteq> []" using mid xs by (metis append_Nil hd_append2 last_ConsL list.sel(1) not_less rev.simps(1))
    have "last before = hd xs" using xs ne by (metis hd_append2 hd_rev rev_is_Nil_conv)
    then have "scan_back n before [last xs] = Some (insert_by_pts (rev before @ [last xs]) n)"
      using scan_back_insert [of before "[last xs]" n] assms mid ne xs by simp
    moreover have "\<not> pts (last xs) \<le> pts n" "\<not> pts n < pts (hd xs)" using mid by auto
    ultimately show ?thesis using mid(1) xs [symmetric] by (simp add: insert_node_def before_def)
  qed
qed

lemma find_pts_Some:
  "find_pts k xs = Some (before, n, after) \<Longrightarrow>
   xs = before @ n # after \<and> pts n = k \<and> k \<notin> pts ` set before"
  by (induction xs arbitrary: before) (auto split: if_splits)

lemma find_pts_None: "find_pts k xs = None \<longleftrightarrow> k \<notin> pts ` set xs"
  by (induction xs) auto

lemma cleanup_scan_mset:
  "cleanup_scan ts ns miss = (kept, freed) \<Longrightarrow> mset ns = mset kept + mset freed"
  by (induction ns arbitrary: miss kept freed) (auto split: if_splits prod.splits)

lemma cleanup_scan_sorted:
  "cleanup_scan ts ns miss = (kept, freed) \<Longrightarrow> sorted_pts ns \<Longrightarrow> sorted_pts kept \<and> set kept \<subseteq> set ns"
  by (induction ns arbitrary: miss kept freed) (fastforce split: if_splits prod.splits)+

lemma cleanup_scan_freed:
  "cleanup_scan ts ns miss = (kept, freed) \<Longrightarrow> \<forall>n \<in> set freed. ticks n \<noteq> 0 \<and> sint (ticks n) < sint ts"
  by (induction ns arbitrary: miss kept freed) (auto split: if_splits prod.splits)

lemma cleanup_scan_bound:
  "cleanup_scan ts ns miss = (kept, freed) \<Longrightarrow> miss \<ge> BUFTR_CLEANUP_KEEP \<Longrightarrow> length freed \<le> unat miss - 29"
proof (induction ns arbitrary: miss kept freed)
  case (Cons n ns)
  show ?case
  proof (cases "ticks n \<noteq> 0 \<and> sint (ticks n) < sint ts")
    case True
    with Cons.prems obtain f where f: "freed = n # f" "cleanup_scan ts ns (miss - 1) = (kept, f)"
      by (auto split: prod.splits)
    have m: "unat miss \<ge> 30" using Cons.prems(2) by (simp add: BUFTR_CLEANUP_KEEP_def word_le_nat_alt)
    then have m1: "unat (miss - 1) = unat miss - 1" by (simp add: unat_sub word_le_nat_alt)
    show ?thesis
    proof (cases "miss - 1 \<ge> BUFTR_CLEANUP_KEEP")
      case True
      with Cons.IH [OF f(2)] f(1) m1 m show ?thesis
        by (simp add: BUFTR_CLEANUP_KEEP_def word_le_nat_alt)
    next
      case False
      then have "f = []" using f(2) by (cases ns) auto
      with f(1) m show ?thesis by simp
    qed
  next
    case False
    with Cons show ?thesis by (auto split: prod.splits)
  qed
qed simp

section \<open>Operations on an ordered tracker\<close>

definition tracker_inv :: "BOMX_BufferTracker \<Rightarrow> bool" where
  "tracker_inv t \<longleftrightarrow> sorted_pts (m_allocList t)
     \<and> (m_valid t \<longrightarrow> m_maxAllocated t = of_nat (length (m_allocList t) + length (m_freeList t)))"

definition tracked :: "OMX_BUFFERHEADERTYPE \<Rightarrow> BOMX_BufferTrackerNode \<Rightarrow> BOMX_BufferTrackerNode" where
  "tracked h n = n\<lparr>ticks := nTimeStamp h, tflags := nFlags h, pts := BOMX_TickToPts (nTimeStamp h)\<rparr>"

lemma alloc_nodes_length:
  "alloc_nodes newNode i k free = (free', True) \<Longrightarrow> length free' = length free + k"
  by (induction newNode i k free rule: alloc_nodes.induct) (auto split: option.splits)

lemma new_tracker_inv: "tracker_inv (new_BOMX_BufferTracker newNode n)"
  using alloc_nodes_length [of newNode 0 "unat n" "[]"]
  by (auto simp: new_BOMX_BufferTracker_def tracker_inv_def split: prod.splits)

lemma Tracker_Add_result:
  assumes "sorted_pts (m_allocList t)"
  shows "Tracker_Add newNode t h =
    (case m_freeList t of
       n # rest \<Rightarrow> Some (True, Some (BOMX_TickToPts (nTimeStamp h)),
          t\<lparr>m_freeList := rest, m_allocList := insert_by_pts (m_allocList t) (tracked h n)\<rparr>)
     | [] \<Rightarrow> (case newNode of
         None \<Rightarrow> Some (False, None, t)
       | Some n \<Rightarrow> Some (True, Some (BOMX_TickToPts (nTimeStamp h)),
          t\<lparr>m_maxAllocated := m_maxAllocated t + 1,
            m_allocList := insert_by_pts (m_allocList t) (tracked h n)\<rparr>)))"
  using assms by (simp add: Tracker_Add_def Let_def tracked_def insert_node_eq split: list.splits option.splits)

lemma length_insert_by_pts: "length (insert_by_pts xs n) = Suc (length xs)"
  using insert_by_pts_mset [of xs n] by (metis size_add_mset size_mset)

lemma Tracker_Add_inv:
  assumes "tracker_inv t" "Tracker_Add newNode t h = Some (ok, k, t')"
  shows "tracker_inv t'"
proof -
  have srt: "sorted_pts (m_allocList t)" using assms(1) by (simp add: tracker_inv_def)
  show ?thesis
    using assms unfolding Tracker_Add_result [OF srt]
    by (auto simp: tracker_inv_def insert_by_pts_sorted length_insert_by_pts algebra_simps
        split: list.splits option.splits)
qed

lemma Tracker_Remove_mset:
  assumes "Tracker_Remove t k h = (ok, h', t')"
  shows "mset (m_allocList t') + mset (m_freeList t') = mset (m_allocList t) + mset (m_freeList t)"
  using assms
  by (auto simp: Tracker_Remove_def Let_def dest!: find_pts_Some cleanup_scan_mset
      split: option.splits if_splits prod.splits)

lemma sorted_pts_drop_mid: "sorted_pts (xs @ n # ys) \<Longrightarrow> sorted_pts (xs @ ys)"
  by (auto simp: sorted_append)

lemma Tracker_Remove_sorted:
  assumes srt: "sorted_pts (m_allocList t)" and res: "Tracker_Remove t k h = (ok, h', t')"
  shows "sorted_pts (m_allocList t')"
proof (cases "find_pts k (m_allocList t)")
  case (Some r)
  obtain before n after where r: "r = (before, n, after)" by (cases r)
  from find_pts_Some [OF Some [unfolded r]] srt have s: "sorted_pts (before @ after)"
    using sorted_pts_drop_mid [of before n after] by auto
  obtain kept freed where c: "cleanup_scan (ticks n) (before @ after) (of_nat (length before)) = (kept, freed)"
    by fastforce
  show ?thesis using res Some r s c cleanup_scan_sorted [OF c s]
    by (auto simp: Tracker_Remove_def Let_def split: if_splits)
qed (use assms in \<open>simp add: Tracker_Remove_def\<close>)

lemma Tracker_Remove_inv:
  assumes "tracker_inv t" "Tracker_Remove t k h = (ok, h', t')"
  shows "tracker_inv t'"
proof -
  have "length (m_allocList t') + length (m_freeList t') = length (m_allocList t) + length (m_freeList t)"
    using Tracker_Remove_mset [OF assms(2)] by (metis size_mset size_union)
  moreover have "m_valid t' = m_valid t" "m_maxAllocated t' = m_maxAllocated t"
    using assms(2) by (auto simp: Tracker_Remove_def Let_def split: option.splits if_splits prod.splits)
  ultimately show ?thesis
    using assms(1) Tracker_Remove_sorted [OF _ assms(2)] unfolding tracker_inv_def by metis
qed

lemma Tracker_Flush_inv: "tracker_inv t \<Longrightarrow> tracker_inv (Tracker_Flush t)"
  by (simp add: tracker_inv_def Tracker_Flush_def algebra_simps)

section \<open>The contract of a time stamp store\<close>

text \<open>
  What a decoder relies on: an entry added under its key is kept in arrival order with the
  entries of equal key, and fetching a key returns its oldest entry, as long as no more than
  \<open>cap\<close> entries are outstanding.
\<close>

fun add_all :: "('s \<Rightarrow> 'v \<Rightarrow> 's option) \<Rightarrow> 's \<Rightarrow> 'v list \<Rightarrow> 's option" where
  "add_all add s [] = Some s"
| "add_all add s (v # vs) = Option.bind (add s v) (\<lambda>s'. add_all add s' vs)"

fun fetch_all :: "('s \<Rightarrow> 'k \<Rightarrow> 'v option \<times> 's) \<Rightarrow> 's \<Rightarrow> 'k list \<Rightarrow> 'v option list \<times> 's" where
  "fetch_all fetch s [] = ([], s)"
| "fetch_all fetch s (k # ks) =
     (let (v, s1) = fetch s k; (vs, s2) = fetch_all fetch s1 ks in (v # vs, s2))"

locale timestamp_store =
  fixes add :: "'s \<Rightarrow> 'v \<Rightarrow> 's option"
    and fetch :: "'s \<Rightarrow> 'k \<Rightarrow> 'v option \<times> 's"
    and key :: "'v \<Rightarrow> 'k"
    and vals :: "'s \<Rightarrow> 'k \<Rightarrow> 'v list"
    and outstanding :: "'s \<Rightarrow> nat"
    and cap :: nat
    and inv :: "'s \<Rightarrow> bool"
  assumes add_ok: "inv s \<Longrightarrow> \<exists>s'. add s v = Some s' \<and> inv s' \<and> outstanding s' = Suc (outstanding s)
      \<and> vals s' = (vals s)(key v := vals s (key v) @ [v])"
    and fetch_ok: "inv s \<Longrightarrow> outstanding s \<le> cap \<Longrightarrow> vals s k = v # vs \<Longrightarrow>
      \<exists>s'. fetch s k = (Some v, s') \<and> inv s' \<and> outstanding s' = outstanding s - 1
         \<and> vals s' = (vals s)(k := vs)"
begin

lemma add_all_ok:
  "inv s \<Longrightarrow> \<exists>s'. add_all add s vs = Some s' \<and> inv s' \<and> outstanding s' = outstanding s + length vs
     \<and> vals s' = (\<lambda>k. vals s k @ filter (\<lambda>v. key v = k) vs)"
proof (induction vs arbitrary: s)
  case (Cons v vs)
  obtain s1 where s1: "add s v = Some s1" "inv s1" "outstanding s1 = Suc (outstanding s)"
    "vals s1 = (vals s)(key v := vals s (key v) @ [v])"
    using add_ok [OF Cons.prems, of v] by auto
  from Cons.IH [OF s1(2)] s1 show ?case by (auto simp: fun_eq_iff)
qed auto

lemma fetch_all_ok:
  "inv s \<Longrightarrow> outstanding s \<le> cap \<Longrightarrow> distinct ks \<Longrightarrow> \<forall>k \<in> set ks. vals s k = [f k]
   \<Longrightarrow> \<exists>s'. fetch_all fetch s ks = (map (Some \<circ> f) ks, s') \<and> inv s' \<and> (\<forall>k. vals s' k = (if k \<in> set ks then [] else vals s k))"
proof (induction ks arbitrary: s)
  case (Cons k ks)
  obtain s1 where s1: "fetch s k = (Some (f k), s1)" "inv s1" "outstanding s1 = outstanding s - 1"
    "vals s1 = (vals s)(k := [])"
    using fetch_ok [of s k "f k" "[]"] Cons.prems by auto
  have "outstanding s1 \<le> cap" "distinct ks" "\<forall>k \<in> set ks. vals s1 k = [f k]"
    using Cons.prems s1 by auto
  from Cons.IH [OF s1(2) this] s1 show ?case by (auto simp: Let_def)
qed auto

text \<open>Whatever order the decoder returns them in, every entry comes back as it was added.\<close>

lemma reorder_ok:
  assumes "inv s" "vals s = (\<lambda>_. [])" "outstanding s + length vs \<le> cap"
    and "distinct (map key vs)" "distinct ks" "set ks \<subseteq> key ` set vs"
  shows "\<exists>s1 s2. add_all add s vs = Some s1
     \<and> fetch_all fetch s1 ks = (map (\<lambda>k. find (\<lambda>v. key v = k) vs) ks, s2)"
proof -
  obtain s1 where s1: "add_all add s vs = Some s1" "inv s1" "outstanding s1 = outstanding s + length vs"
    "vals s1 = (\<lambda>k. filter (\<lambda>v. key v = k) vs)"
    using add_all_ok [OF assms(1), of vs] assms(2) by auto
  define f where "f k = the (find (\<lambda>v. key v = k) vs)" for k
  have one: "find (\<lambda>v. key v = k) vs = Some (f k) \<and> filter (\<lambda>v. key v = k) vs = [f k]"
    if "k \<in> key ` set vs" for k
    using that assms(4) unfolding f_def
    by (induction vs) (auto simp: filter_empty_conv image_iff)
  then have "\<forall>k \<in> set ks. vals s1 k = [f k]" using assms(6) s1(4) by auto
  then obtain s2 where s2: "fetch_all fetch s1 ks = (map (Some \<circ> f) ks, s2)"
    using fetch_all_ok [of s1 ks f] s1 assms(3,5) by auto
  moreover have "map (Some \<circ> f) ks = map (\<lambda>k. find (\<lambda>v. key v = k) vs) ks"
    using one assms(6) by (auto simp: subset_iff)
  ultimately show ?thesis using s1(1) by auto
qed

end

text \<open>The tracker as a store of (ticks, flags) pairs; \<open>h0\<close> is the header the pair is carried in
  and \<open>n0\<close> the contents of a newly allocated node.\<close>

definition tracker_add ::
  "OMX_BUFFERHEADERTYPE \<Rightarrow> BOMX_BufferTrackerNode \<Rightarrow> BOMX_BufferTracker \<Rightarrow> s64 \<times> u32 \<Rightarrow> BOMX_BufferTracker option"
where
  "tracker_add h0 n0 t v =
     (case Tracker_Add (Some n0) t (h0\<lparr>nTimeStamp := fst v, nFlags := snd v\<rparr>) of
        Some (True, _, t') \<Rightarrow> Some t' | _ \<Rightarrow> None)"

definition tracker_fetch ::
  "OMX_BUFFERHEADERTYPE \<Rightarrow> BOMX_BufferTracker \<Rightarrow> u32 \<Rightarrow> (s64 \<times> u32) option \<times> BOMX_BufferTracker" where
  "tracker_fetch h0 t k =
     (let (ok, h, t') = Tracker_Remove t k h0
      in (if ok then Some (nTimeStamp h, nFlags h) else None, t'))"

definition tracker_vals :: "BOMX_BufferTracker \<Rightarrow> u32 \<Rightarrow> (s64 \<times> u32) list" where
  "tracker_vals t k = map (\<lambda>n. (ticks n, tflags n)) (filter (\<lambda>n. pts n = k) (m_allocList t))"

lemma filter_insert_by_pts:
  assumes "sorted_pts xs"
  shows "filter (\<lambda>x. pts x = k) (insert_by_pts xs n) =
           filter (\<lambda>x. pts x = k) xs @ (if pts n = k then [n] else [])"
proof -
  let ?T = "takeWhile (\<lambda>x. pts x \<le> pts n) xs" and ?D = "dropWhile (\<lambda>x. pts x \<le> pts n) xs"
  have "filter (\<lambda>x. pts x = pts n) ?D = []"
    using sorted_map_filter_split [OF assms, of "pts n"] by (auto simp: filter_empty_conv)
  moreover have "filter (\<lambda>x. pts x = k) xs = filter (\<lambda>x. pts x = k) ?T @ filter (\<lambda>x. pts x = k) ?D"
    by (metis filter_append takeWhile_dropWhile_id)
  ultimately show ?thesis by (auto simp: insert_by_pts_def)
qed

lemma tracked_simps [simp]:
  "ticks (tracked h n) = nTimeStamp h" "tflags (tracked h n) = nFlags h"
  "pts (tracked h n) = BOMX_TickToPts (nTimeStamp h)"
  by (simp_all add: tracked_def)

lemma tracker_add_ok:
  assumes "tracker_inv t"
  shows "\<exists>t'. tracker_add h0 n0 t v = Some t' \<and> tracker_inv t'
     \<and> length (m_allocList t') = Suc (length (m_allocList t))
     \<and> tracker_vals t' = (tracker_vals t)(BOMX_TickToPts (fst v) := tracker_vals t (BOMX_TickToPts (fst v)) @ [v])"
proof -
  let ?h = "h0\<lparr>nTimeStamp := fst v, nFlags := snd v\<rparr>"
  have srt: "sorted_pts (m_allocList t)" using assms by (simp add: tracker_inv_def)
  obtain n t' where t': "Tracker_Add (Some n0) t ?h = Some (True, Some (BOMX_TickToPts (fst v)), t')"
    and al: "m_allocList t' = insert_by_pts (m_allocList t) (tracked ?h n)"
    using Tracker_Add_result [OF srt, of "Some n0" ?h] by (cases "m_freeList t") auto
  have "tracker_vals t' = (tracker_vals t)(BOMX_TickToPts (fst v) := tracker_vals t (BOMX_TickToPts (fst v)) @ [v])"
    using filter_insert_by_pts [OF srt] by (auto simp: tracker_vals_def al fun_eq_iff)
  with t' al Tracker_Add_inv [OF assms t'] show ?thesis
    by (simp add: tracker_add_def length_insert_by_pts)
qed

lemma tracker_fetch_ok:
  assumes inv: "tracker_inv t" and small: "length (m_allocList t) \<le> 301" and v: "tracker_vals t k = v # vs"
  shows "\<exists>t'. tracker_fetch h0 t k = (Some v, t') \<and> tracker_inv t'
     \<and> length (m_allocList t') = length (m_allocList t) - 1 \<and> tracker_vals t' = (tracker_vals t)(k := vs)"
proof -
  have "find_pts k (m_allocList t) \<noteq> None" using v by (auto simp: tracker_vals_def find_pts_None filter_eq_Cons_iff)
  then obtain before n after where f: "find_pts k (m_allocList t) = Some (before, n, after)" by auto
  from find_pts_Some [OF f] have sp: "m_allocList t = before @ n # after" "pts n = k" "k \<notin> pts ` set before"
    by auto
  have nb: "filter (\<lambda>x. pts x = k) before = []" using sp(3) by (auto simp: filter_empty_conv)
  have "length before \<le> 300" using small sp(1) by simp
  then have "\<not> (of_nat (length before) :: u32) > BUFTR_CLEANUP_THRESHOLD"
    by (simp add: BUFTR_CLEANUP_THRESHOLD_def word_less_nat_alt unat_of_nat)
  then have res: "Tracker_Remove t k h0 = (True, h0\<lparr>nFlags := tflags n, nTimeStamp := ticks n\<rparr>,
      t\<lparr>m_allocList := before @ after, m_freeList := m_freeList t @ [n]\<rparr>)"
    using f by (simp add: Tracker_Remove_def Let_def)
  have "v = (ticks n, tflags n)" "tracker_vals (t\<lparr>m_allocList := before @ after, m_freeList := m_freeList t @ [n]\<rparr>)
      = (tracker_vals t)(k := vs)"
    using v sp nb by (auto simp: tracker_vals_def fun_eq_iff)
  with res Tracker_Remove_inv [OF inv res] sp show ?thesis by (simp add: tracker_fetch_def)
qed

interpretation tracker_store: timestamp_store "tracker_add h0 n0" "tracker_fetch h0"
  "\<lambda>v. BOMX_TickToPts (fst v)" tracker_vals "\<lambda>t. length (m_allocList t)" 301 tracker_inv
  for h0 n0
  by unfold_locales (use tracker_add_ok tracker_fetch_ok in \<open>blast+\<close>)

section \<open>Properties\<close>

text \<open>C3: the tracker gives every buffer its exact time stamp and flags back. However many
  nodes it was built with, if at most 301 headers with pairwise different PTS are added, then
  removing any of those PTS, in any order, finds each one and returns the ticks and flags of
  the header that was added with it.\<close>

theorem tracker_restores_timestamps:
  assumes "length vs \<le> 301" "distinct (map (\<lambda>v. BOMX_TickToPts (fst v)) vs)"
    and "distinct ks" "set ks \<subseteq> (\<lambda>v. BOMX_TickToPts (fst v)) ` set vs"
  shows "\<exists>t1 t2. add_all (tracker_add h0 n0) (new_BOMX_BufferTracker newNode n) vs = Some t1
     \<and> fetch_all (tracker_fetch h0) t1 ks =
         (map (\<lambda>k. find (\<lambda>v. BOMX_TickToPts (fst v) = k) vs) ks, t2)"
proof -
  have "tracker_vals (new_BOMX_BufferTracker newNode n) = (\<lambda>_. [])"
    "m_allocList (new_BOMX_BufferTracker newNode n) = []"
    by (simp_all add: new_BOMX_BufferTracker_def tracker_vals_def fun_eq_iff split: prod.splits)
  with tracker_store.reorder_ok [OF new_tracker_inv, of newNode n vs ks h0 n0] assms
  show ?thesis by simp
qed

text \<open>adding keeps the tracked nodes in PTS order whatever branch it takes (tail, head or
  backward scan) and never runs off the list: on an ordered tracker it is insertion behind the
  nodes with an equal or smaller PTS. No node is lost: a node comes from the free list when
  there is one, and when none can be allocated the tracker is unchanged.\<close>

theorem Tracker_Add_ordered_insert:
  assumes "tracker_inv t"
  shows "\<exists>ok k t'. Tracker_Add newNode t h = Some (ok, k, t') \<and> tracker_inv t'
     \<and> (if m_freeList t = [] \<and> newNode = None then \<not> ok \<and> t' = t
        else ok \<and> k = Some (BOMX_TickToPts (nTimeStamp h))
           \<and> (\<exists>n. (ticks n, tflags n, pts n) = (nTimeStamp h, nFlags h, BOMX_TickToPts (nTimeStamp h))
                \<and> m_allocList t' = insert_by_pts (m_allocList t) n)
           \<and> length (m_freeList t') = length (m_freeList t) - 1)"
proof -
  have srt: "sorted_pts (m_allocList t)" using assms by (simp add: tracker_inv_def)
  obtain ok k t' where r: "Tracker_Add newNode t h = Some (ok, k, t')"
    unfolding Tracker_Add_result [OF srt] by (cases "m_freeList t"; cases newNode) auto
  have "\<exists>m. (ticks m, tflags m, pts m) = (nTimeStamp h, nFlags h, BOMX_TickToPts (nTimeStamp h))
      \<and> insert_by_pts xs (tracked h n) = insert_by_pts xs m" for xs n
    by (rule exI [of _ "tracked h n"]) simp
  with r Tracker_Add_inv [OF assms r] show ?thesis
    unfolding Tracker_Add_result [OF srt] by (cases "m_freeList t"; cases newNode) auto
qed

text \<open>removing a PTS never loses a node, keeps the order, and drops other nodes only when
  more than 300 nodes were passed over, and then only nodes with a non-zero time stamp before
  the returned one, at most \<open>miss - 29\<close> of them; a PTS that is not tracked yields the rounded
  time stamp, no flags, and an unchanged tracker.\<close>

theorem Tracker_Remove_cleanup:
  assumes "tracker_inv t" "length (m_allocList t) < 2 ^ 32" "Tracker_Remove t k h = (ok, h', t')"
  shows "tracker_inv t'
     \<and> mset (m_allocList t') + mset (m_freeList t') = mset (m_allocList t) + mset (m_freeList t)
     \<and> (case find_pts k (m_allocList t) of
          None \<Rightarrow> \<not> ok \<and> nTimeStamp h' = BOMX_PtsToTick k \<and> nFlags h' = 0 \<and> t' = t
        | Some (before, n, after) \<Rightarrow> ok \<and> (nTimeStamp h', nFlags h') = (ticks n, tflags n)
            \<and> (\<exists>freed. m_freeList t' = m_freeList t @ n # freed
                 \<and> list_all (\<lambda>m. ticks m \<noteq> 0 \<and> sint (ticks m) < sint (ticks n)) freed
                 \<and> length freed \<le> (if length before \<le> 300 then 0 else length before - 29)))"
proof (cases "find_pts k (m_allocList t)")
  case None
  with assms show ?thesis
    using Tracker_Remove_inv [OF assms(1,3)] by (auto simp: Tracker_Remove_def)
next
  case (Some r)
  obtain before n after where r: "r = (before, n, after)" by (cases r)
  obtain kept freed where c: "cleanup_scan (ticks n) (before @ after) (of_nat (length before)) = (kept, freed)"
    by fastforce
  have "length before < 2 ^ 32" using assms(2) find_pts_Some [OF Some [unfolded r]] by simp
  then have un: "unat (of_nat (length before) :: u32) = length before" by (simp add: unat_of_nat)
  then have th: "(of_nat (length before) :: u32) > BUFTR_CLEANUP_THRESHOLD \<longleftrightarrow> length before > 300"
    by (simp add: BUFTR_CLEANUP_THRESHOLD_def word_less_nat_alt)
  have "length before > 300 \<Longrightarrow> length freed \<le> length before - 29"
    using cleanup_scan_bound [OF c] un by (simp add: BUFTR_CLEANUP_KEEP_def word_le_nat_alt)
  with assms(3) Some r c th cleanup_scan_freed [OF c]
    Tracker_Remove_inv [OF assms(1,3)] Tracker_Remove_mset [OF assms(3)]
  show ?thesis
    by (cases "length before > 300") (auto simp: Tracker_Remove_def Let_def list_all_iff)
qed

text \<open>\<open>Last\<close> tells whether no tracked buffer has a later time stamp; after a flush that holds
  for every time, and the flush keeps every node for reuse.\<close>

theorem Tracker_Last_Flush:
  "(Tracker_Last t tk \<longleftrightarrow> list_all (\<lambda>n. sint (ticks n) \<le> sint tk) (m_allocList t))
   \<and> Tracker_Last (Tracker_Flush t) tk
   \<and> mset (m_freeList (Tracker_Flush t)) = mset (m_allocList t) + mset (m_freeList t)"
  by (auto simp: Tracker_Last_def Tracker_Flush_def find_None_iff list_all_iff not_less)

section \<open>Witnesses\<close>

abbreviation demo_node :: BOMX_BufferTrackerNode where "demo_node \<equiv> \<lparr>ticks = 0, tflags = 0, pts = 0\<rparr>"

definition demo_tracker :: BOMX_BufferTracker where
  "demo_tracker = new_BOMX_BufferTracker (\<lambda>_. Some demo_node) 1"

lemma demo_tracker_simp: "demo_tracker = \<lparr>m_allocList = [], m_freeList = [demo_node],
    m_minAllocated = 1, m_maxAllocated = 1, m_valid = True\<rparr>"
  by (simp add: demo_tracker_def new_BOMX_BufferTracker_def)

theorem tracker_restores_timestamps_witness:
  "\<exists>t1 t2. add_all (tracker_add (new_BOMX_Buffer omx_il_abi 1 0 100 4096) demo_node) demo_tracker
       [(5000123, 1), (4000456, 2)] = Some t1
     \<and> fetch_all (tracker_fetch (new_BOMX_Buffer omx_il_abi 1 0 100 4096)) t1 [180000, 225000]
         = ([Some (4000456, 2), Some (5000123, 1)], t2)"
proof -
  have p: "BOMX_TickToPts 5000123 = 225000" "BOMX_TickToPts 4000456 = 180000"
    by (simp_all add: BOMX_TickToPts_def c_div_def)
  show ?thesis
    using tracker_restores_timestamps [of "[(5000123, 1), (4000456, 2)]" "[180000, 225000]"
        "new_BOMX_Buffer omx_il_abi 1 0 100 4096" demo_node "\<lambda>_. Some demo_node" 1]
    by (simp add: p demo_tracker_def)
qed

theorem Tracker_Add_ordered_insert_witness:
  "\<exists>ok k t'. Tracker_Add None demo_tracker (new_BOMX_Buffer omx_il_abi 1 0 100 4096) = Some (ok, k, t') \<and> ok"
  using Tracker_Add_ordered_insert [of demo_tracker None "new_BOMX_Buffer omx_il_abi 1 0 100 4096"]
    new_tracker_inv [of "\<lambda>_. Some demo_node" 1]
  by (auto simp: demo_tracker_simp demo_tracker_def [symmetric])

theorem Tracker_Remove_cleanup_witness:
  "let t = demo_tracker\<lparr>m_allocList := [demo_node\<lparr>ticks := 5, pts := 9\<rparr>], m_freeList := []\<rparr>
   in \<exists>h' t'. Tracker_Remove t 9 (new_BOMX_Buffer omx_il_abi 1 0 100 4096) = (True, h', t')
        \<and> nTimeStamp h' = 5"
proof -
  let ?t = "demo_tracker\<lparr>m_allocList := [demo_node\<lparr>ticks := 5, pts := 9\<rparr>], m_freeList := []\<rparr>"
  let ?r = "Tracker_Remove ?t 9 (new_BOMX_Buffer omx_il_abi 1 0 100 4096)"
  show ?thesis
    using Tracker_Remove_cleanup [of ?t 9 "new_BOMX_Buffer omx_il_abi 1 0 100 4096" "fst ?r" "fst (snd ?r)" "snd (snd ?r)"]
    by (cases ?r) (auto simp: tracker_inv_def demo_tracker_simp)
qed

end
