(* ===== verification/Biobits.thy ===== *)
theory Biobits
  imports Prelude
begin

text \<open>
  The bit field macros of \<open>biobits.h\<close>, which the media code uses and the repository does not
  contain: a record of functions, the laws the code relies on as a locale, and the facts on
  byte buffers that the two header writers share.
\<close>

unbundle bit_operations_syntax

section \<open>Bit field macros\<close>

text \<open>
  The first argument of the two readers may have any integer type and is an \<open>int\<close> here; every
  result is an \<open>unsigned\<close>.
\<close>

record biobits =
  B_GET_BITS :: "int \<Rightarrow> nat \<Rightarrow> nat \<Rightarrow> u32"
  B_GET_BIT :: "int \<Rightarrow> nat \<Rightarrow> u32"
  B_SET_BITS :: "u32 \<Rightarrow> nat \<Rightarrow> nat \<Rightarrow> u32"
  B_SET_BIT :: "u32 \<Rightarrow> nat \<Rightarrow> u32"

text \<open>
  Reading the field \<open>[hi..lo]\<close> shifts it down; writing a value that fits the field shifts it up.
\<close>

locale biobits_laws =
  fixes bb :: biobits
  assumes get_bits: "lo \<le> hi \<Longrightarrow> hi < 32 \<Longrightarrow>
      B_GET_BITS bb w hi lo = word_of_int (take_bit (Suc hi - lo) (drop_bit lo w))"
    and get_bit: "b < 32 \<Longrightarrow> B_GET_BIT bb w b = of_bool (bit w b)"
    and set_bits: "lo \<le> hi \<Longrightarrow> hi < 32 \<Longrightarrow> take_bit (Suc hi - lo) v = v \<Longrightarrow>
      B_SET_BITS bb v hi lo = push_bit lo v"
    and set_bit: "b < 32 \<Longrightarrow> B_SET_BIT bb v b = push_bit b (of_bool (v \<noteq> 0))"
begin

lemma get_bits_fits:
  "lo \<le> hi \<Longrightarrow> hi < 32 \<Longrightarrow> take_bit (Suc hi - lo) (B_GET_BITS bb w hi lo) = B_GET_BITS bb w hi lo"
  by (rule bit_eqI) (auto simp: get_bits bit_simps)

text \<open>Moving a field from \<open>[hi..lo]\<close> to a field of the same width at \<open>[hi'..lo']\<close>.\<close>

lemma move_field:
  assumes "lo \<le> hi" "hi < 32" "lo' \<le> hi'" "hi' < 32" "hi - lo = hi' - lo'"
  shows "B_SET_BITS bb (B_GET_BITS bb w hi lo) hi' lo'
       = push_bit lo' (word_of_int (take_bit (Suc hi - lo) (drop_bit lo w)))"
proof -
  have w: "Suc hi' - lo' = Suc hi - lo" using assms by simp
  show ?thesis
    unfolding set_bits [OF assms(3,4), unfolded w, OF get_bits_fits [OF assms(1,2)]]
    using assms by (simp add: get_bits)
qed

lemma set_bit_simps:
  "b < 32 \<Longrightarrow> B_SET_BIT bb 0 b = 0" "b < 32 \<Longrightarrow> B_SET_BIT bb 1 b = push_bit b 1"
  by (simp_all add: set_bit)

lemma set_bits_zero: "lo \<le> hi \<Longrightarrow> hi < 32 \<Longrightarrow> B_SET_BITS bb 0 hi lo = 0"
  by (simp add: set_bits)

lemma set_get_bit: "c < 32 \<Longrightarrow> b < 32 \<Longrightarrow> B_SET_BIT bb (B_GET_BIT bb w c) b = push_bit b (of_bool (bit w c))"
  by (simp add: set_bit get_bit)

end

text \<open>The usual definition of the macros, by shifts and masks, satisfies the laws.\<close>

definition shift_mask_biobits :: biobits where
  "shift_mask_biobits =
     \<lparr>B_GET_BITS = (\<lambda>w hi lo. word_of_int (take_bit (Suc hi - lo) (drop_bit lo w))),
      B_GET_BIT = (\<lambda>w b. word_of_int (take_bit 1 (drop_bit b w))),
      B_SET_BITS = (\<lambda>v hi lo. push_bit lo v),
      B_SET_BIT = (\<lambda>v b. push_bit b (if v = 0 then 0 else 1))\<rparr>"

interpretation shift_mask: biobits_laws shift_mask_biobits
  by unfold_locales
     (auto simp: shift_mask_biobits_def bit_eq_iff bit_simps simp flip: bit_iff_odd_drop_bit)

section \<open>Byte buffers\<close>

text \<open>A sequence of stores \<open>pBuf[i] = v\<close>; \<open>None\<close> when one of them is outside the buffer.\<close>

fun store_bytes :: "u8 list \<Rightarrow> (nat \<times> u32) list \<Rightarrow> u8 list option" where
  "store_bytes buf [] = Some buf"
| "store_bytes buf ((i, v) # ws) =
     (if i < length buf then store_bytes (buf[i := ucast v]) ws else None)"

lemma store_bytes_length: "store_bytes buf ws = Some buf' \<Longrightarrow> length buf' = length buf"
  by (induction buf ws rule: store_bytes.induct) (auto split: if_splits)

lemma store_bytes_Some:
  "list_all (\<lambda>w. fst w < length buf) ws \<Longrightarrow> \<exists>buf'. store_bytes buf ws = Some buf'"
  by (induction buf ws rule: store_bytes.induct) auto

lemma store_bytes_other:
  "store_bytes buf ws = Some buf' \<Longrightarrow> j \<notin> fst ` set ws \<Longrightarrow> buf' ! j = buf ! j"
  by (induction buf ws rule: store_bytes.induct) (auto split: if_splits)

lemma store_bytes_nth:
  "store_bytes buf ws = Some buf' \<Longrightarrow> distinct (map fst ws) \<Longrightarrow> (j, v) \<in> set ws \<Longrightarrow> buf' ! j = ucast v"
proof (induction buf ws rule: store_bytes.induct)
  case (2 buf i w ws)
  show ?case
  proof (cases "(j, v) = (i, w)")
    case True
    with 2 have "buf' ! i = buf[i := ucast w] ! i"
      by (intro store_bytes_other [of _ ws]) (auto split: if_splits)
    with True 2 show ?thesis by (auto split: if_splits)
  next
    case False
    with 2 show ?thesis by (auto split: if_splits)
  qed
qed simp

text \<open>Stores to the indices 0, 1, ... replace a prefix of the buffer.\<close>

lemma store_bytes_prefix:
  "length vs \<le> length buf \<Longrightarrow>
   store_bytes buf (zip [0..<length vs] vs) = Some (map ucast vs @ drop (length vs) buf)"
proof (induction vs rule: rev_induct)
  case (snoc v vs)
  have app: "store_bytes b (ws @ ws') = Option.bind (store_bytes b ws) (\<lambda>b'. store_bytes b' ws')" for b ws ws'
    by (induction b ws rule: store_bytes.induct) auto
  from snoc show ?case
    by (simp add: app list_update_append Cons_nth_drop_Suc [symmetric])
qed simp

end
