(* ===== verification/Bomx_Pes.thy ===== *)
theory Bomx_Pes
  imports Biobits
begin

text \<open>
  \<open>media/libstagefrighthw/bomx_pes_formatter.cpp\<close>: the PES header in front of every access
  unit sent to the decoder and the Broadcom packet with an in-band command. A buffer is a
  list of bytes; a store outside it is \<open>None\<close>. \<open>m_streamId\<close> has 16 bits and is truncated.
\<close>

section \<open>The formatter\<close>

definition B_PES_HEADER_LENGTH_WITH_PTS :: nat where "B_PES_HEADER_LENGTH_WITH_PTS = 14"
definition B_PES_HEADER_LENGTH_WITHOUT_PTS :: nat where "B_PES_HEADER_LENGTH_WITHOUT_PTS = 9"
definition B_BPP_PACKET_LEN :: nat where "B_BPP_PACKET_LEN = 184"

definition SetPayloadLength :: "u8 list \<Rightarrow> u16 \<Rightarrow> u8 list option" where
  "SetPayloadLength pHeaderBuf payloadLen =
     store_bytes pHeaderBuf
       [(4, drop_bit 8 (ucast payloadLen) AND 0xff), (5, ucast payloadLen AND 0xff)]"

definition InitHeader ::
  "biobits \<Rightarrow> u16 \<Rightarrow> u8 list \<Rightarrow> nat \<Rightarrow> bool \<Rightarrow> u32 \<Rightarrow> (nat \<times> u8 list) option" where
  "InitHeader bb m_streamId pHeaderBuf maxHeaderBytes ptsValid pts =
     (let headerSize = (if ptsValid then B_PES_HEADER_LENGTH_WITH_PTS else B_PES_HEADER_LENGTH_WITHOUT_PTS);
          p = uint pts in
      if headerSize > maxHeaderBytes then Some (0, pHeaderBuf)
      else map_option (Pair headerSize)
       (store_bytes pHeaderBuf
         ([(0, 0x00), (1, 0x00), (2, 0x01), (3, ucast m_streamId), (4, 0), (5, 0), (6, 0x81)] @
          (if ptsValid then
            [(7, 0x80), (8, 0x05),
             (9, B_SET_BITS bb 0x02 7 4 OR B_SET_BITS bb (B_GET_BITS bb p 31 29) 3 1 OR B_SET_BIT bb 1 0),
             (10, B_GET_BITS bb p 28 21),
             (11, B_SET_BITS bb (B_GET_BITS bb p 20 14) 7 1 OR B_SET_BIT bb 1 0),
             (12, B_GET_BITS bb p 13 6),
             (13, B_SET_BITS bb (B_GET_BITS bb p 5 0) 7 2 OR B_SET_BIT bb 0 1 OR B_SET_BIT bb 1 0)]
           else [(7, 0), (8, 0)]))))"

definition FormBppPacket :: "u16 \<Rightarrow> u8 list \<Rightarrow> u32 \<Rightarrow> u8 list option" where
  "FormBppPacket m_streamId pBuffer opcode =
     (if length pBuffer < B_BPP_PACKET_LEN then None
      else store_bytes (replicate B_BPP_PACKET_LEN 0 @ drop B_BPP_PACKET_LEN pBuffer)
        [(0, 0x00), (1, 0x00), (2, 0x01), (3, ucast m_streamId), (4, 0x00), (5, 178),
         (6, 0x81), (7, 0x01), (8, 0x14), (9, 0x80),
         (10, 0x42), (11, 0x52), (12, 0x43), (13, 0x4d),
         (26, 0xff), (27, 0xff), (28, 0xff),
         (30, drop_bit 24 opcode AND 0xff), (31, drop_bit 16 opcode AND 0xff),
         (32, drop_bit 8 opcode AND 0xff), (33, drop_bit 0 opcode AND 0xff)])"

section \<open>Reading a PES header\<close>

text \<open>
  ISO/IEC 13818-1: the 33 bit PTS is in bytes 9 to 13, split 3, 15 and 15 by marker bits, and
  the packet length counts the bytes behind it, in bytes 4 and 5.
\<close>

definition pes_pts :: "u8 list \<Rightarrow> u64" where
  "pes_pts h =
     push_bit 30 (take_bit 3 (drop_bit 1 (ucast (h ! 9)))) OR
     push_bit 22 (ucast (h ! 10)) OR push_bit 15 (drop_bit 1 (ucast (h ! 11))) OR
     push_bit 7 (ucast (h ! 12)) OR drop_bit 1 (ucast (h ! 13))"

definition pes_length :: "u8 list \<Rightarrow> nat" where
  "pes_length h = 256 * unat (h ! 4) + unat (h ! 5)"

definition pes_markers :: "u8 list \<Rightarrow> bool" where
  "pes_markers h \<longleftrightarrow> drop_bit 4 (h ! 9) = 2 \<and> bit (h ! 9) 0 \<and> bit (h ! 11) 0 \<and> bit (h ! 13) 0"

definition be32 :: "u8 list \<Rightarrow> u32" where
  "be32 b = push_bit 24 (ucast (b ! 0)) OR push_bit 16 (ucast (b ! 1)) OR
            push_bit 8 (ucast (b ! 2)) OR ucast (b ! 3)"

section \<open>The header under the macro laws\<close>

definition pes_pts_bytes :: "u32 \<Rightarrow> u32 list" where
  "pes_pts_bytes pts =
     (let fld = (\<lambda>hi lo. take_bit (Suc hi - lo) (drop_bit lo pts)) in
      [0x21 OR push_bit 1 (fld 31 29), fld 28 21, push_bit 1 (fld 20 14) OR 1, fld 13 6,
       push_bit 2 (fld 5 0) OR 1])"

lemma word_of_int_field:
  "word_of_int (take_bit n (drop_bit m (uint (w :: 'a::len word)))) = take_bit n (drop_bit m w)"
  "word_of_int (take_bit n (uint w)) = take_bit n w"
  by (rule bit_word_eqI, auto simp: bit_simps)+

context biobits_laws
begin

lemma pes_fields:
  "B_SET_BITS bb 0x02 7 4 OR B_SET_BITS bb (B_GET_BITS bb (uint pts) 31 29) 3 1 OR B_SET_BIT bb 1 0
     = pes_pts_bytes pts ! 0"
  "B_GET_BITS bb (uint pts) 28 21 = pes_pts_bytes pts ! 1"
  "B_SET_BITS bb (B_GET_BITS bb (uint pts) 20 14) 7 1 OR B_SET_BIT bb 1 0 = pes_pts_bytes pts ! 2"
  "B_GET_BITS bb (uint pts) 13 6 = pes_pts_bytes pts ! 3"
  "B_SET_BITS bb (B_GET_BITS bb (uint pts) 5 0) 7 2 OR B_SET_BIT bb 0 1 OR B_SET_BIT bb 1 0
     = pes_pts_bytes pts ! 4"
proof -
  have two: "B_SET_BITS bb 0x02 7 4 = 0x20"
    by (subst set_bits) (simp_all add: take_bit_eq_mod push_bit_eq_mult)
  show "B_SET_BITS bb 0x02 7 4 OR B_SET_BITS bb (B_GET_BITS bb (uint pts) 31 29) 3 1 OR B_SET_BIT bb 1 0
     = pes_pts_bytes pts ! 0"
    by (simp add: two move_field set_bit_simps word_of_int_field pes_pts_bytes_def Let_def or.assoc or.commute or.left_commute)
       (simp add: or.assoc [symmetric])
  show "B_GET_BITS bb (uint pts) 28 21 = pes_pts_bytes pts ! 1"
    "B_GET_BITS bb (uint pts) 13 6 = pes_pts_bytes pts ! 3"
    by (simp_all add: get_bits word_of_int_field pes_pts_bytes_def Let_def)
qed (simp_all add: move_field set_bit_simps word_of_int_field pes_pts_bytes_def Let_def)

lemma InitHeader_pts:
  assumes "14 \<le> maxHeaderBytes" "maxHeaderBytes \<le> length buf"
  shows "InitHeader bb sid buf maxHeaderBytes True pts =
    Some (14, map ucast ([0, 0, 1, ucast sid, 0, 0, 0x81, 0x80, 5] @ pes_pts_bytes pts) @ drop 14 buf)"
proof -
  let ?vs = "[0, 0, 1, ucast sid, 0, 0, 0x81, 0x80, 5] @ pes_pts_bytes pts"
  have vs: "length ?vs = 14" by (simp add: pes_pts_bytes_def Let_def)
  have up: "[0..<14] = [0, 1, 2, 3, 4, 5, 6, 7, 8, 9, 10, 11, 12, 13]"
    by (simp add: upt_rec)
  have "InitHeader bb sid buf maxHeaderBytes True pts = map_option (Pair 14) (store_bytes buf (zip [0..<length ?vs] ?vs))"
    unfolding vs up InitHeader_def Let_def pes_fields using assms
    by (simp add: B_PES_HEADER_LENGTH_WITH_PTS_def pes_pts_bytes_def Let_def)
  then show ?thesis using store_bytes_prefix [of ?vs buf] assms vs by simp
qed

end

section \<open>Properties\<close>

lemma pes_pts_of_bytes:
  assumes "\<forall>i < 5. h ! (9 + i) = ucast (pes_pts_bytes pts ! i)"
  shows "pes_pts h = push_bit 1 (ucast pts)" and "pes_markers h"
proof -
  have b: "h ! 9 = ucast (pes_pts_bytes pts ! 0)" "h ! 10 = ucast (pes_pts_bytes pts ! 1)"
    "h ! 11 = ucast (pes_pts_bytes pts ! 2)" "h ! 12 = ucast (pes_pts_bytes pts ! 3)"
    "h ! 13 = ucast (pes_pts_bytes pts ! 4)"
    using assms [rule_format, of 0] assms [rule_format, of 1] assms [rule_format, of 2]
      assms [rule_format, of 3] assms [rule_format, of 4] by simp_all
  show "pes_pts h = push_bit 1 (ucast pts)"
  proof (rule bit_word_eqI)
    fix n assume "n < LENGTH(64)"
    then have "n \<in> set [0..<64]" by simp
    then have "bit (pes_pts h) n \<longleftrightarrow> 1 \<le> n \<and> n < 33 \<and> bit pts (n - 1)"
      by (simp add: upt_rec) (elim disjE; simp add: pes_pts_def b pes_pts_bytes_def Let_def bit_simps del: push_bit_Suc drop_bit_Suc; simp add: numeral_eq_Suc)
    then show "bit (pes_pts h) n = bit (push_bit 1 (ucast pts) :: u64) n"
      using \<open>n < LENGTH(64)\<close> by (auto simp del: push_bit_Suc simp: bit_push_bit_iff bit_ucast_iff dest: bit_imp_le_length)
  qed
  have "drop_bit 4 (h ! 9) = 2"
  proof (rule bit_word_eqI)
    fix n assume "n < LENGTH(8)"
    then have "n \<in> set [0..<8]" by simp
    then show "bit (drop_bit 4 (h ! 9)) n = bit (2 :: u8) n"
      by (simp add: upt_rec) (elim disjE; simp add: b pes_pts_bytes_def Let_def bit_simps del: push_bit_Suc)
  qed
  then show "pes_markers h" by (simp add: pes_markers_def b pes_pts_bytes_def Let_def bit_simps)
qed

context biobits_laws
begin

lemma pes_header_decodes:
  assumes "14 \<le> maxHeaderBytes" "maxHeaderBytes \<le> length buf"
  shows "\<exists>h. InitHeader bb sid buf maxHeaderBytes True pts = Some (14, h) \<and> length h = length buf
       \<and> take 9 h = [0, 0, 1, ucast sid, 0, 0, 0x81, 0x80, 5] \<and> pes_markers h
       \<and> pes_pts h = push_bit 1 (ucast pts) \<and> drop 14 h = drop 14 buf"
proof -
  let ?h = "map ucast ([0, 0, 1, ucast sid, 0, 0, 0x81, 0x80, 5] @ pes_pts_bytes pts) @ drop 14 buf"
  have len: "length (pes_pts_bytes pts) = 5" by (simp add: pes_pts_bytes_def Let_def)
  have "\<forall>i < 5. ?h ! (9 + i) = ucast (pes_pts_bytes pts ! i)"
    using len by (simp add: nth_append)
  note d = pes_pts_of_bytes [OF this]
  have sid: "ucast (ucast sid :: u32) = (ucast sid :: u8)"
    by (rule bit_word_eqI) (simp add: bit_simps)
  show ?thesis
    using InitHeader_pts [OF assms, of sid pts] d len assms by (simp add: sid)
qed

end

text \<open>C32: the header of a time-stamped packet is a valid PES header that decodes to the given
  PTS. The 32 bit 45 kHz time stamp is carried, doubled, in the 33 bit 90 kHz field; start
  code, stream id, flags and marker bits are as ISO/IEC 13818-1 wants them, exactly 14 bytes
  are written and the rest of the buffer is untouched.\<close>

theorem pes_header_carries_pts:
  assumes "biobits_laws bb" "14 \<le> maxHeaderBytes" "maxHeaderBytes \<le> length buf"
  shows "\<exists>h. InitHeader bb sid buf maxHeaderBytes True pts = Some (14, h) \<and> length h = length buf
       \<and> take 9 h = [0, 0, 1, ucast sid, 0, 0, 0x81, 0x80, 5] \<and> pes_markers h
       \<and> pes_pts h = push_bit 1 (ucast pts) \<and> drop 14 h = drop 14 buf"
  by (rule biobits_laws.pes_header_decodes [OF assms])

theorem pes_header_carries_pts_witness:
  "biobits_laws shift_mask_biobits
   \<and> (\<exists>h. InitHeader shift_mask_biobits 0xe0 (replicate 20 0) 20 True 0xdeadbeef = Some (14, h)
        \<and> pes_pts h = push_bit 1 0xdeadbeef)"
  using pes_header_carries_pts [OF shift_mask.biobits_laws_axioms, of 20 "replicate 20 0" "0xe0" "0xdeadbeef"]
    shift_mask.biobits_laws_axioms
  by auto

lemma InitHeader_no_pts:
  assumes "9 \<le> maxHeaderBytes" "maxHeaderBytes \<le> length buf"
  shows "InitHeader bb sid buf maxHeaderBytes False pts = Some (9, [0, 0, 1, ucast sid, 0, 0, 0x81, 0, 0] @ drop 9 buf)"
proof -
  let ?vs = "[0, 0, 1, ucast sid, 0, 0, 0x81, 0, 0] :: u32 list"
  have up: "[0..<9] = [0, 1, 2, 3, 4, 5, 6, 7, 8]" by (simp add: upt_rec)
  have sid: "ucast (ucast sid :: u32) = (ucast sid :: u8)" by (rule bit_word_eqI) (simp add: bit_simps)
  have "InitHeader bb sid buf maxHeaderBytes False pts = map_option (Pair 9) (store_bytes buf (zip [0..<9] ?vs))"
    unfolding up InitHeader_def Let_def using assms by (simp add: B_PES_HEADER_LENGTH_WITHOUT_PTS_def)
  also have "store_bytes buf (zip [0..<9] ?vs) = Some (map ucast ?vs @ drop 9 buf)"
  proof -
    have lv: "length ?vs = 9" by simp
    show ?thesis using store_bytes_prefix [of ?vs buf, unfolded lv] assms by (simp del: upt_rec_numeral)
  qed
  finally show ?thesis by (simp add: sid)
qed

lemma InitHeader_too_small:
  "maxHeaderBytes < 9 \<Longrightarrow> InitHeader bb sid buf maxHeaderBytes v pts = Some (0, buf)"
  by (simp add: InitHeader_def B_PES_HEADER_LENGTH_WITHOUT_PTS_def B_PES_HEADER_LENGTH_WITH_PTS_def split: if_splits)

lemma SetPayloadLength_bytes:
  assumes "6 \<le> length h"
  shows "\<exists>hi lo. SetPayloadLength h n = Some (take 4 h @ [hi, lo] @ drop 6 h) \<and> 256 * unat hi + unat lo = unat n"
proof -
  let ?hi = "ucast (drop_bit 8 (ucast n) AND 0xff :: u32) :: u8" and ?lo = "ucast (ucast n AND 0xff :: u32) :: u8"
  have ff: "(0xff :: u32) = mask 8" by (simp add: mask_eq_exp_minus_1)
  have "unat ?hi = unat n div 256" "unat ?lo = unat n mod 256"
    using u16_lt [of n]
    by (simp_all add: ff take_bit_eq_mask [symmetric] unsigned_ucast_eq unsigned_take_bit_eq
        unsigned_drop_bit_eq take_bit_eq_mod drop_bit_eq_div unat_div_distrib unat_mod_distrib)
  moreover obtain x0 x1 x2 x3 x4 x5 r where "h = x0 # x1 # x2 # x3 # x4 # x5 # r"
    using assms by (auto simp: numeral_eq_Suc Suc_le_length_iff)
  then have "SetPayloadLength h n = Some (take 4 h @ [?hi, ?lo] @ drop 6 h)" by (simp add: SetPayloadLength_def)
  ultimately show ?thesis by (intro exI [of _ ?hi] exI [of _ ?lo]) simp
qed

text \<open>a header that does not fit the given space is not written; without a time stamp the
  header has 9 bytes. Setting the payload length afterwards changes only the length field and
  stores the whole 16 bit length.\<close>

theorem pes_payload_length:
  assumes "9 \<le> maxHeaderBytes" "maxHeaderBytes \<le> length buf"
  shows "InitHeader bb sid buf (8 - k) v pts = Some (0, buf) \<and>
   (\<exists>h h'. InitHeader bb sid buf maxHeaderBytes False pts = Some (9, h)
       \<and> SetPayloadLength h n = Some h' \<and> pes_length h' = unat n
       \<and> take 4 h' = [0, 0, 1, ucast sid] \<and> drop 6 h' = [0x81, 0, 0] @ drop 9 buf)"
  using SetPayloadLength_bytes [of "[0, 0, 1, ucast sid, 0, 0, 0x81, 0, 0] @ drop 9 buf" n]
  by (auto simp: InitHeader_no_pts [OF assms] InitHeader_too_small pes_length_def)

theorem pes_payload_length_witness:
  "InitHeader shift_mask_biobits 0xe0 (replicate 20 0) 7 True 5 = Some (0, replicate 20 0) \<and>
   (\<exists>h h'. InitHeader shift_mask_biobits 0xe0 (replicate 20 0) 20 False 5 = Some (9, h)
      \<and> SetPayloadLength h 1000 = Some h' \<and> pes_length h' = 1000)"
  using pes_payload_length [of 20 "replicate 20 0" shift_mask_biobits "0xe0" 1 True 5 1000] by auto

lemma byte_of_shift: "ucast (drop_bit k w AND 0xff :: u32) = (ucast (drop_bit k w) :: u8)"
proof -
  have ff: "(0xff :: u32) = mask 8" by (simp add: mask_eq_exp_minus_1)
  show ?thesis unfolding ff by (rule bit_word_eqI) (simp add: bit_simps)
qed

lemma be32_bytes:
  "be32 [ucast (drop_bit 24 w), ucast (drop_bit 16 w), ucast (drop_bit 8 w), ucast w] = w"
proof (rule bit_word_eqI)
  fix n assume "n < LENGTH(32)"
  then have "n \<in> set [0..<32]" by simp
  then show "bit (be32 [ucast (drop_bit 24 w), ucast (drop_bit 16 w), ucast (drop_bit 8 w), ucast w]) n = bit w n"
    by (simp add: upt_rec) (elim disjE; simp add: be32_def bit_simps; simp add: numeral_eq_Suc)
qed

text \<open>an in-band command packet fills exactly the 184 bytes of a transport payload: it
  declares the length that makes it so, carries the signature BRCM and the whole 32 bit
  opcode in network order, and leaves the bytes behind it alone; a shorter buffer is the only
  way it can write out of bounds.\<close>

theorem bpp_packet_carries_opcode:
  "(FormBppPacket sid buf opcode = None \<longleftrightarrow> length buf < 184) \<and>
   (case FormBppPacket sid buf opcode of
      None \<Rightarrow> True
    | Some b \<Rightarrow> length b = length buf \<and> pes_length b + 6 = 184 \<and> be32 (drop 30 b) = opcode
        \<and> map ((!) b) [10, 11, 12, 13] = [0x42, 0x52, 0x43, 0x4d] \<and> drop 184 b = drop 184 buf)"
proof (cases "length buf < 184")
  case False
  let ?z = "replicate 184 0 @ drop 184 buf :: u8 list"
  let ?ws = "[(0, 0x00), (1, 0x00), (2, 0x01), (3, ucast sid), (4, 0x00), (5, 178), (6, 0x81), (7, 0x01),
    (8, 0x14), (9, 0x80), (10, 0x42), (11, 0x52), (12, 0x43), (13, 0x4d), (26, 0xff), (27, 0xff), (28, 0xff),
    (30, drop_bit 24 opcode AND 0xff), (31, drop_bit 16 opcode AND 0xff),
    (32, drop_bit 8 opcode AND 0xff), (33, drop_bit 0 opcode AND 0xff)] :: (nat \<times> u32) list"
  have "list_all (\<lambda>w. fst w < length ?z) ?ws" by simp
  then obtain b where b: "store_bytes ?z ?ws = Some b" using store_bytes_Some by blast
  then have form: "FormBppPacket sid buf opcode = Some b"
    unfolding FormBppPacket_def B_BPP_PACKET_LEN_def using False by (simp only: if_False)
  have len: "length b = length buf" using store_bytes_length [OF b] False by simp
  have "distinct (map fst ?ws)" by simp
  note at = store_bytes_nth [OF b this]
  have v: "b ! 4 = 0" "b ! 5 = 178" "b ! 10 = 0x42" "b ! 11 = 0x52" "b ! 12 = 0x43" "b ! 13 = 0x4d"
    using at [of 4 0] at [of 5 178] at [of 10 "0x42"] at [of 11 "0x52"] at [of 12 "0x43"] at [of 13 "0x4d"] by simp_all
  have o: "b ! 30 = ucast (drop_bit 24 opcode)" "b ! 31 = ucast (drop_bit 16 opcode)"
    "b ! 32 = ucast (drop_bit 8 opcode)" "b ! 33 = ucast opcode"
    using at [of 30 "drop_bit 24 opcode AND 0xff"] at [of 31 "drop_bit 16 opcode AND 0xff"]
      at [of 32 "drop_bit 8 opcode AND 0xff"] at [of 33 "drop_bit 0 opcode AND 0xff"] byte_of_shift [of 0 opcode]
    by (simp_all add: byte_of_shift)
  have "be32 (drop 30 b) = opcode"
    using be32_bytes [of opcode] len False by (simp add: be32_def o)
  moreover have "drop 184 b = drop 184 buf"
    using len False by (intro nth_equalityI) (simp_all add: store_bytes_other [OF b] nth_append)
  ultimately show ?thesis using form len False v by (simp add: pes_length_def)
qed (simp add: FormBppPacket_def B_BPP_PACKET_LEN_def)

end
