(* ===== verification/Bomx_Aac.thy ===== *)
theory Bomx_Aac
  imports Biobits
begin

text \<open>
  \<open>media/libstagefrighthw/bomx_aac_parser.cpp\<close>: reading an MPEG-4 AudioSpecificConfig and
  writing the 7 byte ADTS header the decoder wants in front of every AAC frame. The bit
  stream reader (\<open>bioatom.h\<close>) is not part of the repository: it is a record of functions over
  an abstract reader state, with the laws the parser relies on as a locale.
\<close>

section \<open>Sampling frequencies\<close>

record BOMX_AAC_ASCInfo =
  samplingFrequencyIndex :: u8
  channelConfiguration :: u8
  profile :: u8
  sbrPresent :: bool

definition b_aac_adts_sample_rate :: "u32 list" where
  "b_aac_adts_sample_rate =
     [96000, 88200, 64000, 48000, 44100, 32000, 24000, 22050, 16000, 12000, 11025, 8000]"

text \<open>The search loop: the index it stops at and whether it returned from inside.\<close>

fun rate_scan :: "u32 \<Rightarrow> u32 list \<Rightarrow> nat \<Rightarrow> nat \<times> bool" where
  "rate_scan f [] i = (i, False)"
| "rate_scan f (r # rs) i =
     (if r = f then (i, True) else if r < f then (i, False) else rate_scan f rs (Suc i))"

text \<open>The index stepped back by one when the loop ran off the table or the previous rate is closer.\<close>

definition closest_index :: "u32 \<Rightarrow> nat \<Rightarrow> nat" where
  "closest_index sampling_frequency i =
     (let rates = b_aac_adts_sample_rate in
      if i = length rates \<or>
         (i > 0 \<and> sampling_frequency - rates ! i > rates ! (i - 1) - sampling_frequency)
      then i - 1 else i)"

definition SetSamplingFrequencyIndex :: "BOMX_AAC_ASCInfo \<Rightarrow> u32 \<Rightarrow> bool \<times> BOMX_AAC_ASCInfo" where
  "SetSamplingFrequencyIndex pInfo sampling_frequency =
     (let rates = b_aac_adts_sample_rate;
          (i0, hit) = rate_scan sampling_frequency rates 0 in
      if hit then (True, pInfo\<lparr>samplingFrequencyIndex := of_nat i0\<rparr>)
      else
        let i = closest_index sampling_frequency i0
        in if sampling_frequency > 0
           then let dif = (rates ! i * 1000) div sampling_frequency
                in if dif \<ge> 995 \<and> dif \<le> 1005
                   then (True, pInfo\<lparr>samplingFrequencyIndex := of_nat i\<rparr>)
                   else (False, pInfo)
           else (False, pInfo))"

definition GetSamplingFrequencyFromIndex :: "u32 \<Rightarrow> u32" where
  "GetSamplingFrequencyFromIndex index =
     (if unat index < length b_aac_adts_sample_rate then b_aac_adts_sample_rate ! unat index else 0)"

definition ConvertAscToAdts :: "BOMX_AAC_ASCInfo \<Rightarrow> BOMX_AAC_ASCInfo" where
  "ConvertAscToAdts pInfo0 =
     (let pInfo = pInfo0\<lparr>sbrPresent := False\<rparr>;
          pInfo =
            (if profile pInfo = 1 then pInfo\<lparr>profile := 0\<rparr>
             else if profile pInfo = 2 then pInfo\<lparr>profile := 1\<rparr>
             else if profile pInfo = 5 then pInfo\<lparr>sbrPresent := True, profile := 1\<rparr>
             else if profile pInfo = 3 then pInfo\<lparr>profile := 2\<rparr>
             else if profile pInfo = 4 then pInfo\<lparr>profile := 3\<rparr>
             else pInfo\<lparr>profile := 1\<rparr>)
      in if sbrPresent pInfo
         then snd (SetSamplingFrequencyIndex pInfo
                (GetSamplingFrequencyFromIndex (ucast (samplingFrequencyIndex pInfo)) div 2))
         else pInfo)"

section \<open>AudioSpecificConfig\<close>

text \<open>
  \<open>bs_init\<close> stands for setting up the vector, the cursor and the bit stream on the data,
  \<open>cursor_uint16_be\<close> for reading the cursor after it was rolled back to the start.
\<close>

record 'b batom =
  bs_init :: "u8 list \<Rightarrow> 'b"
  bs_bits :: "'b \<Rightarrow> nat \<Rightarrow> int \<times> 'b"
  bs_bit :: "'b \<Rightarrow> int \<times> 'b"
  bs_drop_bits :: "'b \<Rightarrow> nat \<Rightarrow> 'b"
  bs_drop :: "'b \<Rightarrow> 'b"
  cursor_uint16_be :: "u8 list \<Rightarrow> int"
  BATOM_EOF :: int

text \<open>The first \<open>switch\<close>: the GASpecificConfig of the object types that have one.\<close>

definition ParseASC_ga :: "'b batom \<Rightarrow> u8 \<Rightarrow> 'b \<Rightarrow> 'b" where
  "ParseASC_ga ba prof bs =
     (if prof \<in> {1, 2, 3, 4, 6, 7, 17, 19, 20, 21, 22, 23} then
        let (fl_flag, bs) = bs_bit ba bs;
            (delay_flag, bs) = bs_bit ba bs;
            bs = (if delay_flag \<noteq> 0 then bs_drop_bits ba bs 14 else bs);
            (ext_flag, bs) = bs_bit ba bs;
            bs = (if prof = 6 \<or> prof = 20 then bs_drop_bits ba bs 13 else bs)
        in if ext_flag \<noteq> 0 then
             let bs = (if prof = 22 then bs_drop_bits ba bs 16
                       else if prof = 17 \<or> prof = 19 \<or> prof = 20 \<or> prof = 23 then bs_drop_bits ba bs 3
                       else bs)
             in snd (bs_bit ba bs)
           else bs
      else bs)"

text \<open>The second \<open>switch\<close>: the error protection field.\<close>

definition ParseASC_ep :: "'b batom \<Rightarrow> u8 \<Rightarrow> 'b \<Rightarrow> 'b" where
  "ParseASC_ep ba prof bs =
     (if prof \<in> {17, 19, 20, 21, 22, 23, 24, 25, 26, 27} then
        let (temp, bs) = bs_bits ba bs 2
        in if temp = 2 \<or> temp = 3 then bs_drop ba bs else bs
      else bs)"

definition ParseASC_basic ::
  "'b batom \<Rightarrow> biobits \<Rightarrow> u8 list \<Rightarrow> BOMX_AAC_ASCInfo \<Rightarrow> bool \<times> BOMX_AAC_ASCInfo" where
  "ParseASC_basic ba bb pData pInfo =
     (let byte = cursor_uint16_be ba pData in
      if byte = BATOM_EOF ba then (False, pInfo)
      else
        let pInfo = pInfo\<lparr>profile := ucast (B_GET_BITS bb byte 15 11),
                          samplingFrequencyIndex := ucast (B_GET_BITS bb byte 10 7)\<rparr>
        in if samplingFrequencyIndex pInfo = 0x0F then (False, pInfo)
           else (True, ConvertAscToAdts (pInfo\<lparr>channelConfiguration := ucast (B_GET_BITS bb byte 6 3)\<rparr>)))"

text \<open>The backward compatible SBR signalling at the end; \<open>True\<close>: \<open>goto basic_parse\<close>.\<close>

definition ParseASC_sbr :: "'b batom \<Rightarrow> 'b \<Rightarrow> BOMX_AAC_ASCInfo \<Rightarrow> bool \<times> BOMX_AAC_ASCInfo" where
  "ParseASC_sbr ba bs pInfo =
     (if profile pInfo \<noteq> 5 then
        let (temp, bs) = bs_bits ba bs 11
        in if temp = 0x2b7 then
             let (temp, bs) = bs_bits ba bs 5
             in if temp = 0x5 then
                  let (sbr, bs) = bs_bit ba bs
                  in if sbr \<noteq> 0 then
                       let pInfo = pInfo\<lparr>profile := word_of_int temp\<rparr>;
                           (sfi, bs) = bs_bits ba bs 4;
                           pInfo = pInfo\<lparr>samplingFrequencyIndex := word_of_int sfi\<rparr>
                       in (samplingFrequencyIndex pInfo = 0x0F, pInfo)
                     else (False, pInfo)
                else (False, pInfo)
           else (False, pInfo)
      else (False, pInfo))"

definition ParseASC ::
  "'b batom \<Rightarrow> biobits \<Rightarrow> u8 list \<Rightarrow> BOMX_AAC_ASCInfo \<Rightarrow> bool \<times> BOMX_AAC_ASCInfo" where
  "ParseASC ba bb pData pInfo =
     (let bs = bs_init ba pData;
          (v, bs) = bs_bits ba bs 5; pInfo = pInfo\<lparr>profile := word_of_int v\<rparr>;
          (v, bs) = bs_bits ba bs 4; pInfo = pInfo\<lparr>samplingFrequencyIndex := word_of_int v\<rparr> in
      if samplingFrequencyIndex pInfo = 0x0F then ParseASC_basic ba bb pData pInfo
      else
        let (v, bs) = bs_bits ba bs 4; pInfo = pInfo\<lparr>channelConfiguration := word_of_int v\<rparr>;
            (stop, pInfo, bs) =
              (if profile pInfo = 5 then
                 let (v, bs) = bs_bits ba bs 4; pInfo = pInfo\<lparr>samplingFrequencyIndex := word_of_int v\<rparr>
                 in (samplingFrequencyIndex pInfo = 0x0F, pInfo, bs_drop_bits ba bs 5)
               else (False, pInfo, bs))
        in if stop then ParseASC_basic ba bb pData pInfo
           else
             let bs = ParseASC_ga ba (profile pInfo) bs;
                 bs = ParseASC_ep ba (profile pInfo) bs;
                 (stop, pInfo) = ParseASC_sbr ba bs pInfo
             in if stop then ParseASC_basic ba bb pData pInfo
                else (True, ConvertAscToAdts pInfo))"

section \<open>ADTS header\<close>

definition BOMX_ADTS_HEADER_SIZE :: nat where "BOMX_ADTS_HEADER_SIZE = 7"

text \<open>Result: success, the number of bytes written and the buffer.\<close>

definition SetupAdtsHeader ::
  "biobits \<Rightarrow> u8 list \<Rightarrow> nat \<Rightarrow> u64 \<Rightarrow> BOMX_AAC_ASCInfo \<Rightarrow> (bool \<times> nat \<times> u8 list) option" where
  "SetupAdtsHeader bb pData maxLength frameLength0 pInfo =
     (if maxLength < BOMX_ADTS_HEADER_SIZE then Some (False, 0, pData)
      else
        let frameLength = uint (frameLength0 + of_nat BOMX_ADTS_HEADER_SIZE);
            chan = uint (channelConfiguration pInfo) in
        map_option (\<lambda>b. (True, BOMX_ADTS_HEADER_SIZE, b)) (store_bytes pData
         [(0, 0xFF),
          (1, 0xF0 OR B_SET_BIT bb 0 3 OR B_SET_BITS bb 0 2 1 OR B_SET_BIT bb 1 0),
          (2, B_SET_BITS bb (ucast (profile pInfo)) 7 6 OR
              B_SET_BITS bb (ucast (samplingFrequencyIndex pInfo)) 5 2 OR
              B_SET_BIT bb 0 1 OR B_SET_BIT bb (B_GET_BIT bb chan 2) 0),
          (3, B_SET_BITS bb (B_GET_BITS bb chan 1 0) 7 6 OR B_SET_BIT bb 0 5 OR B_SET_BIT bb 0 4 OR
              B_SET_BIT bb 0 3 OR B_SET_BIT bb 0 2 OR B_SET_BITS bb (B_GET_BITS bb frameLength 12 11) 1 0),
          (4, B_SET_BITS bb (B_GET_BITS bb frameLength 10 3) 7 0),
          (5, B_SET_BITS bb (B_GET_BITS bb frameLength 2 0) 7 5 OR
              B_SET_BITS bb (B_GET_BITS bb 0x7FF 10 6) 4 0),
          (6, B_SET_BITS bb (B_GET_BITS bb 0x7FF 5 0) 7 2 OR B_SET_BITS bb 0 2 0)]))"

section \<open>Choosing a sampling frequency\<close>

abbreviation rate :: "nat \<Rightarrow> nat" where "rate i \<equiv> unat (b_aac_adts_sample_rate ! i)"

text \<open>The table rate \<open>i\<close> is within the margin of the frequency \<open>f\<close> that the code accepts.\<close>

definition within :: "u32 \<Rightarrow> nat \<Rightarrow> bool" where
  "within f i \<longleftrightarrow> 0 < f \<and> 995 \<le> rate i * 1000 div unat f \<and> rate i * 1000 div unat f \<le> 1005"

lemma rates_length [simp]: "length b_aac_adts_sample_rate = 12"
  by (simp add: b_aac_adts_sample_rate_def)

definition ndist :: "nat \<Rightarrow> nat \<Rightarrow> nat" where "ndist a b = (a - b) + (b - a)"

lemma less_12: "i < (12::nat) \<longleftrightarrow> i \<in> set [0, 1, 2, 3, 4, 5, 6, 7, 8, 9, 10, 11]"
  by (simp, presburger)

lemma rates_apart: "i < 12 \<Longrightarrow> j < 12 \<Longrightarrow> rate i * 994 \<le> rate j * 1006 \<Longrightarrow> rate j * 994 \<le> rate i * 1006 \<Longrightarrow> i = j"
  by (simp add: less_12 b_aac_adts_sample_rate_def) (elim disjE; simp)

lemma rates_sorted: "sorted_wrt (\<lambda>a b. unat b < unat a) b_aac_adts_sample_rate"
  by (simp add: b_aac_adts_sample_rate_def)

lemma rates_decreasing: "i < j \<Longrightarrow> j < 12 \<Longrightarrow> rate j < rate i"
  using sorted_wrt_nth_less [OF rates_sorted, of i j] by simp

lemma rate_bounds: "i < 12 \<Longrightarrow> 8000 \<le> rate i \<and> rate i \<le> 96000"
  by (simp add: less_12 b_aac_adts_sample_rate_def) (elim disjE; simp)

lemma dif_nat:
  assumes "i < 12"
  shows "unat ((b_aac_adts_sample_rate ! i * 1000) div f) = rate i * 1000 div unat f"
proof -
  have "unat (b_aac_adts_sample_rate ! i * 1000) = rate i * 1000"
    using rate_bounds [OF assms] by (simp add: unat_word_ariths)
  then show ?thesis by (simp add: unat_div_distrib)
qed

lemma within_dif:
  "i < 12 \<Longrightarrow> 0 < f \<Longrightarrow>
   ((b_aac_adts_sample_rate ! i * 1000) div f \<ge> 995 \<and> (b_aac_adts_sample_rate ! i * 1000) div f \<le> 1005)
   \<longleftrightarrow> within f i"
  by (simp add: within_def word_le_nat_alt dif_nat)

lemma within_near:
  assumes "within f i"
  shows "995 * unat f \<le> rate i * 1000" "rate i * 1000 < 1006 * unat f" "0 < unat f"
proof -
  from assms have f: "0 < unat f" by (simp add: within_def word_less_nat_alt)
  from assms have "995 \<le> rate i * 1000 div unat f" "rate i * 1000 div unat f < 1006" by (simp_all add: within_def)
  with f show "995 * unat f \<le> rate i * 1000" "rate i * 1000 < 1006 * unat f" "0 < unat f"
    by (simp_all add: less_eq_div_iff_mult_less_eq div_less_iff_less_mult)
qed

lemma within_unique:
  assumes "within f i" "i < 12" "j < 12" "ndist (rate j) (unat f) \<le> ndist (rate i) (unat f)"
  shows "j = i"
  using within_near [OF assms(1)] assms(4) by (intro rates_apart [OF assms(3,2)]; unfold ndist_def; linarith)

lemma rate_scan_spec:
  assumes "rate_scan f rs k = (i, hit)" "sorted_wrt (\<lambda>a b. unat b < unat a) rs"
  shows "k \<le> i \<and> i \<le> k + length rs \<and> (\<forall>j < i - k. unat f < unat (rs ! j))
       \<and> (if hit then i < k + length rs \<and> rs ! (i - k) = f
          else i < k + length rs \<longrightarrow> unat (rs ! (i - k)) < unat f)"
  using assms
proof (induction f rs k rule: rate_scan.induct)
  case (2 f r rs k)
  show ?case
  proof (cases "r = f \<or> r < f")
    case True
    with 2 show ?thesis by (auto simp: word_less_nat_alt split: if_splits)
  next
    case False
    then have gt: "unat f < unat r" by (simp add: word_less_nat_alt) (metis linorder_neqE_nat word_unat_eq_iff)
    from False 2 have ih: "Suc k \<le> i \<and> i \<le> Suc k + length rs \<and> (\<forall>j < i - Suc k. unat f < unat (rs ! j))
       \<and> (if hit then i < Suc k + length rs \<and> rs ! (i - Suc k) = f
          else i < Suc k + length rs \<longrightarrow> unat (rs ! (i - Suc k)) < unat f)"
      by (auto split: if_splits)
    then obtain m where m: "i = Suc k + m" using le_Suc_ex by blast
    show ?thesis using ih gt unfolding m by (auto simp: nth_Cons split: nat.splits)
  qed
qed auto

text \<open>The index the code falls back to is the nearest table rate.\<close>

lemma nearest_rate:
  fixes i :: nat and f :: u32
  assumes above: "\<forall>j < i. unat f < rate j" and below: "i < 12 \<longrightarrow> rate i < unat f" and i: "i \<le> 12"
    and k: "k = closest_index f i"
    and j: "j < 12"
  shows "k < 12 \<and> ndist (rate k) (unat f) \<le> ndist (rate j) (unat f)"
proof -
  have le: "rate b \<le> rate a" if "a \<le> b" "b < 12" for a b
    using rates_decreasing [of a b] that by (cases "a = b") auto
  have up: "j < i \<Longrightarrow> rate (i - 1) \<le> rate j \<and> unat f < rate (i - 1)" using above le [of j "i - 1"] i by auto
  have dn: "i \<le> j \<Longrightarrow> rate j \<le> rate i \<and> rate i < unat f" using below le [of i j] j by auto
  have sub: "unat (b_aac_adts_sample_rate ! (i - 1) - f) = rate (i - 1) - unat f" if "i > 0"
    using above that by (simp add: unat_sub word_le_nat_alt less_imp_le)
  have sub': "unat (f - b_aac_adts_sample_rate ! i) = unat f - rate i" if "i < 12"
    using below that by (simp add: unat_sub word_le_nat_alt less_imp_le)
  consider (last) "i = 12" | (first) "i = 0" | (mid) "0 < i" "i < 12" using i by linarith
  then show ?thesis
  proof cases
    case last
    with k up j show ?thesis by (auto simp: closest_index_def ndist_def)
  next
    case first
    with k dn show ?thesis by (auto simp: closest_index_def ndist_def)
  next
    case mid
    have "f - b_aac_adts_sample_rate ! i > b_aac_adts_sample_rate ! (i - 1) - f
        \<longleftrightarrow> rate (i - 1) - unat f < unat f - rate i"
      by (simp only: word_less_nat_alt sub [OF mid(1)] sub' [OF mid(2)])
    moreover have "unat f < rate (i - 1)" "rate i < unat f" using mid above below by auto
    ultimately show ?thesis
      using k mid up dn by (cases "j < i") (auto simp: closest_index_def ndist_def)
  qed
qed

lemma SetSamplingFrequencyIndex_within:
  assumes "within f i" "i < 12"
  shows "SetSamplingFrequencyIndex info f = (True, info\<lparr>samplingFrequencyIndex := of_nat i\<rparr>)"
proof -
  obtain m hit where m: "rate_scan f b_aac_adts_sample_rate 0 = (m, hit)" by fastforce
  note sc = rate_scan_spec [OF m rates_sorted, simplified]
  have f: "f > 0" using assms by (simp add: within_def)
  show ?thesis
  proof (cases hit)
    case True
    with sc have "m < 12" "b_aac_adts_sample_rate ! m = f" by auto
    with within_unique [OF assms, of m] have "m = i" by (simp add: ndist_def)
    with True m show ?thesis by (simp add: SetSamplingFrequencyIndex_def)
  next
    case False
    define k where "k = closest_index f m"
    have "k < 12 \<and> ndist (rate k) (unat f) \<le> ndist (rate i) (unat f)"
      using False sc by (intro nearest_rate [OF _ _ _ k_def assms(2)]) auto
    then have ki: "k = i" using within_unique [OF assms] by auto
    from within_dif [OF assms(2) f] assms(1) False m f show ?thesis
      by (simp add: SetSamplingFrequencyIndex_def Let_def k_def [symmetric] ki)
  qed
qed

lemma SetSamplingFrequencyIndex_fails:
  assumes "\<forall>i < 12. \<not> within f i"
  shows "SetSamplingFrequencyIndex info f = (False, info)"
proof -
  obtain m hit where m: "rate_scan f b_aac_adts_sample_rate 0 = (m, hit)" by fastforce
  note sc = rate_scan_spec [OF m rates_sorted, simplified]
  have "\<not> hit"
  proof
    assume hit
    with sc have "m < 12" "b_aac_adts_sample_rate ! m = f" by auto
    moreover from this have "0 < unat f" using rate_bounds [of m] by auto
    ultimately have "within f m" by (simp add: within_def word_less_nat_alt)
    with assms \<open>m < 12\<close> show False by blast
  qed
  moreover have "closest_index f m < 12" using sc by (auto simp: closest_index_def)
  ultimately show ?thesis
    using assms m within_dif [of "closest_index f m" f] by (auto simp: SetSamplingFrequencyIndex_def Let_def)
qed

section \<open>Reading bits\<close>

text \<open>Bit strings with the most significant bit first.\<close>

definition bits_of :: "nat \<Rightarrow> int \<Rightarrow> bool list" where
  "bits_of n v = rev (map (bit v) [0..<n])"

definition bits_val :: "bool list \<Rightarrow> int" where
  "bits_val bs = horner_sum of_bool 2 (rev bs)"

definition bytes_bits :: "u8 list \<Rightarrow> bool list" where
  "bytes_bits d = concat (map (\<lambda>b. bits_of 8 (uint b)) d)"

lemma bits_of_length [simp]: "length (bits_of n v) = n"
  by (simp add: bits_of_def)

lemma bits_val_of: "bits_val (bits_of n v) = take_bit n v"
  by (simp add: bits_val_def bits_of_def horner_sum_bit_eq_take_bit)

text \<open>
  What the parser relies on: as long as enough bits are left, a read returns the next bits,
  most significant first, and moves past them; a drop moves past them.
\<close>

locale batom_laws =
  fixes ba :: "'b batom" and rest :: "'b \<Rightarrow> bool list"
  assumes init: "rest (bs_init ba d) = bytes_bits d"
    and bits: "n \<le> length (rest b) \<Longrightarrow>
      fst (bs_bits ba b n) = bits_val (take n (rest b)) \<and> rest (snd (bs_bits ba b n)) = drop n (rest b)"
    and bit1: "rest b = x # xs \<Longrightarrow> fst (bs_bit ba b) = of_bool x \<and> rest (snd (bs_bit ba b)) = xs"
    and drop_bits: "n \<le> length (rest b) \<Longrightarrow> rest (bs_drop_bits ba b n) = drop n (rest b)"
    and drop1: "rest b = x # xs \<Longrightarrow> rest (bs_drop ba b) = xs"
    and uint16: "cursor_uint16_be ba (u # v # d) = 256 * uint u + uint v"
    and uint16_eof: "length d < 2 \<Longrightarrow> cursor_uint16_be ba d = BATOM_EOF ba"
    and eof_neg: "BATOM_EOF ba < 0"
begin

lemma bits_field:
  assumes "rest b = bits_of n v @ xs" "take_bit n v = v"
  shows "\<exists>b'. bs_bits ba b n = (v, b') \<and> rest b' = xs"
  using bits [of n b] assms by (cases "bs_bits ba b n") (auto simp: bits_val_of)

lemma bits_any:
  assumes "n \<le> length (rest b)"
  shows "\<exists>b'. bs_bits ba b n = (bits_val (take n (rest b)), b') \<and> rest b' = drop n (rest b)"
  using bits [OF assms] by (cases "bs_bits ba b n") auto

lemma ga_plain:
  assumes "rest b = False # False # False # xs" "prof \<in> {1, 2, 3, 4}"
  shows "rest (ParseASC_ga ba prof b) = xs"
proof -
  obtain b1 where b1: "bs_bit ba b = (0, b1)" "rest b1 = False # False # xs"
    using bit1 [OF assms(1)] by (cases "bs_bit ba b") auto
  obtain b2 where b2: "bs_bit ba b1 = (0, b2)" "rest b2 = False # xs"
    using bit1 [OF b1(2)] by (cases "bs_bit ba b1") auto
  obtain b3 where b3: "bs_bit ba b2 = (0, b3)" "rest b3 = xs"
    using bit1 [OF b2(2)] by (cases "bs_bit ba b2") auto
  show ?thesis using assms(2) b1 b2 b3 by (auto simp: ParseASC_ga_def Let_def)
qed

text \<open>The common head: object type, sampling frequency index, channel configuration.\<close>

lemma asc_head:
  fixes aot sfi ch :: u8
  assumes d: "bytes_bits d = bits_of 5 (uint aot) @ bits_of 4 (uint sfi) @ bits_of 4 (uint ch) @ xs"
    and "aot < 32" "sfi < 16" "ch < 16"
  obtains b1 b2 b3 where "bs_bits ba (bs_init ba d) 5 = (uint aot, b1)" "bs_bits ba b1 4 = (uint sfi, b2)"
    "bs_bits ba b2 4 = (uint ch, b3)" "rest b3 = xs"
proof -
  have fit: "take_bit 5 (uint aot) = uint aot" "take_bit 4 (uint sfi) = uint sfi" "take_bit 4 (uint ch) = uint ch"
    using assms(2-4) by (simp_all add: take_bit_int_eq_self_iff word_less_def)
  obtain b1 where b1: "bs_bits ba (bs_init ba d) 5 = (uint aot, b1)" "rest b1 = bits_of 4 (uint sfi) @ bits_of 4 (uint ch) @ xs"
    using bits_field [of "bs_init ba d" 5 "uint aot"] d fit init by auto
  obtain b2 where b2: "bs_bits ba b1 4 = (uint sfi, b2)" "rest b2 = bits_of 4 (uint ch) @ xs"
    using bits_field [OF b1(2) fit(2)] by auto
  obtain b3 where b3: "bs_bits ba b2 4 = (uint ch, b3)" "rest b3 = xs"
    using bits_field [OF b2(2) fit(3)] by auto
  show thesis by (rule that [OF b1(1) b2(1) b3])
qed

lemma parse_plain:
  assumes d: "bytes_bits d = bits_of 5 (uint aot) @ bits_of 4 (uint sfi) @ bits_of 4 (uint ch)
        @ [False, False, False] @ tail"
    and aot: "aot \<in> {1, 2, 3, 4}" and sfi: "sfi < 15" and ch: "ch < 16"
    and tail: "11 \<le> length tail" "bits_val (take 11 tail) \<noteq> 0x2b7"
  shows "ParseASC ba bb d info =
    (True, \<lparr>samplingFrequencyIndex = sfi, channelConfiguration = ch, profile = aot - 1, sbrPresent = False\<rparr>)"
proof -
  have lt: "aot < 32" "sfi < 16" using aot sfi by (auto simp: word_less_nat_alt)
  obtain b1 b2 b3 where b: "bs_bits ba (bs_init ba d) 5 = (uint aot, b1)" "bs_bits ba b1 4 = (uint sfi, b2)"
    "bs_bits ba b2 4 = (uint ch, b3)" and r3: "rest b3 = [False, False, False] @ tail"
    using asc_head [OF d lt ch] by blast
  have r4: "rest (ParseASC_ga ba aot b3) = tail" using ga_plain [of b3 tail aot] r3 aot by simp
  have ep: "ParseASC_ep ba aot x = x" for x using aot by (auto simp: ParseASC_ep_def)
  obtain b5 where b5: "bs_bits ba (ParseASC_ga ba aot b3) 11 = (bits_val (take 11 tail), b5)"
    using bits_any [of 11 "ParseASC_ga ba aot b3"] r4 tail(1) by auto
  have n5: "aot \<noteq> 5" "sfi \<noteq> 15" using aot sfi by auto
  have sbr: "ParseASC_sbr ba (ParseASC_ga ba aot b3) i = (False, i)" if "profile i = aot" for i
    using b5 tail(2) n5 that by (simp add: ParseASC_sbr_def)
  show ?thesis using n5 aot
    by (auto simp: ParseASC_def Let_def b ep sbr ConvertAscToAdts_def)
qed

text \<open>Explicit hierarchical SBR: object type 5 is followed by the extension frequency index.\<close>

lemma parse_sbr:
  fixes sfi ch ext :: u8
  assumes d: "bytes_bits d = bits_of 5 5 @ bits_of 4 (uint sfi) @ bits_of 4 (uint ch)
        @ bits_of 4 (uint ext) @ tail"
    and sfi: "sfi < 15" and ch: "ch < 16" and ext: "ext < 15" and tail: "5 \<le> length tail"
  shows "ParseASC ba bb d info = (True, ConvertAscToAdts
    (info\<lparr>profile := 5, channelConfiguration := ch, samplingFrequencyIndex := ext\<rparr>))"
proof -
  have d5: "bytes_bits d = bits_of 5 (uint (5 :: u8)) @ bits_of 4 (uint sfi) @ bits_of 4 (uint ch)
        @ bits_of 4 (uint ext) @ tail" using d by simp
  have lt: "(5 :: u8) < 32" "sfi < 16" using sfi by (auto simp: word_less_nat_alt)
  obtain b1 b2 b3 where b: "bs_bits ba (bs_init ba d) 5 = (uint (5 :: u8), b1)" "bs_bits ba b1 4 = (uint sfi, b2)"
    "bs_bits ba b2 4 = (uint ch, b3)" and r3: "rest b3 = bits_of 4 (uint ext) @ tail"
    using asc_head [OF d5 lt ch] by blast
  have "take_bit 4 (uint ext) = uint ext"
    using ext by (simp add: take_bit_int_eq_self_iff word_less_def)
  then obtain b4 where b4: "bs_bits ba b3 4 = (uint ext, b4)" using bits_field [OF r3] by blast
  have ne: "sfi \<noteq> 15" "ext \<noteq> 15" using sfi ext by auto
  have b0: "bs_bits ba (bs_init ba d) 5 = (5, b1)" using b(1) by simp
  show ?thesis using ne
    by (simp add: ParseASC_def Let_def b0 b(2,3) b4 ParseASC_ga_def ParseASC_ep_def ParseASC_sbr_def)
qed

end

text \<open>A reader over the list of the remaining bits satisfies the laws.\<close>

definition list_reader :: "bool list batom" where
  "list_reader =
     \<lparr>bs_init = bytes_bits,
      bs_bits = (\<lambda>b n. (if n \<le> length b then bits_val (take n b) else -1, drop n b)),
      bs_bit = (\<lambda>b. case b of [] \<Rightarrow> (-1, []) | x # xs \<Rightarrow> (of_bool x, xs)),
      bs_drop_bits = (\<lambda>b n. drop n b),
      bs_drop = tl,
      cursor_uint16_be = (\<lambda>d. case d of x # y # _ \<Rightarrow> 256 * uint x + uint y | _ \<Rightarrow> -1),
      BATOM_EOF = -1\<rparr>"

interpretation list_reader_laws: batom_laws list_reader "\<lambda>b. b"
proof
  show "cursor_uint16_be list_reader d = BATOM_EOF list_reader" if "length d < 2" for d
    using that by (auto simp: list_reader_def split: list.splits)
qed (auto simp: list_reader_def)

section \<open>Reading an ADTS header\<close>

text \<open>ISO/IEC 13818-7: the fixed and variable header fields.\<close>

record adts_fields =
  adts_sync :: nat
  adts_profile :: nat
  adts_sfi :: nat
  adts_channels :: nat
  adts_frame_length :: nat
  adts_fullness :: nat

definition adts_decode :: "u8 list \<Rightarrow> adts_fields" where
  "adts_decode h =
     (let b = (\<lambda>i. unat (h ! i)) in
      \<lparr>adts_sync = b 0 * 256 + b 1,
       adts_profile = b 2 div 64, adts_sfi = b 2 div 4 mod 16,
       adts_channels = b 2 mod 2 * 4 + b 3 div 64,
       adts_frame_length = b 3 mod 4 * 2048 + b 4 * 8 + b 5 div 32,
       adts_fullness = b 5 mod 32 * 64 + b 6 div 4\<rparr>)"

lemma nat_shift_or:
  assumes "(b :: nat) < 2 ^ k"
  shows "a * 2 ^ k OR b = a * 2 ^ k + b"
proof -
  have "take_bit k b = b" using assms by (simp add: take_bit_nat_eq_self)
  then have "push_bit k a AND b = 0"
    by (intro bit_eqI) (metis bit_and_iff bit_push_bit_iff bit_take_bit_iff bit_0_eq bot_apply bot_bool_def leD)
  then show ?thesis by (simp add: disjunctive_add_eq_or push_bit_eq_mult)
qed

lemma unat_shift_or:
  fixes x y :: u32
  assumes "unat y < 2 ^ k" "unat x * 2 ^ k < 2 ^ 32"
  shows "unat (push_bit k x OR y) = unat x * 2 ^ k + unat y"
proof -
  have "unat (push_bit k x) = unat x * 2 ^ k"
    unfolding unsigned_push_bit_eq using assms(2) by (simp add: push_bit_eq_mult take_bit_nat_eq_self)
  then show ?thesis using assms(1) by (simp add: unsigned_or_eq nat_shift_or)
qed

lemma unat_field:
  assumes "m \<le> 32"
  shows "unat (word_of_int (take_bit m (drop_bit l (int n))) :: u32) = n div 2 ^ l mod 2 ^ m"
proof -
  have "take_bit m (drop_bit l (int n)) = int (n div 2 ^ l mod 2 ^ m)"
    by (simp add: take_bit_eq_mod drop_bit_eq_div zdiv_int zmod_int)
  then have "word_of_int (take_bit m (drop_bit l (int n))) = (of_nat (n div 2 ^ l mod 2 ^ m) :: u32)"
    by (simp only: of_int_of_nat_eq)
  moreover have "n div 2 ^ l mod 2 ^ m < 2 ^ 32"
    using mod_less_divisor [of "2 ^ m" "n div 2 ^ l"] assms power_increasing [of m 32 "2::nat"]
    by (metis less_le_trans one_le_numeral zero_less_numeral zero_less_power)
  ultimately show ?thesis by (simp add: unat_of_nat)
qed

lemma unat_byte: "unat (w :: u32) < 256 \<Longrightarrow> unat (ucast w :: u8) = unat w"
  by (simp add: unsigned_ucast_eq take_bit_nat_eq_self)

text \<open>The seven bytes as numbers.\<close>

definition adts_bytes :: "BOMX_AAC_ASCInfo \<Rightarrow> nat \<Rightarrow> nat list" where
  "adts_bytes info len =
     (let ch = unat (channelConfiguration info) in
      [255, 241, unat (profile info) * 64 + unat (samplingFrequencyIndex info) * 4 + ch div 4 mod 2,
       ch mod 4 * 64 + len div 2048 mod 4, len div 8 mod 256, len mod 8 * 32 + 31, 252])"

lemma unat_ucast8: "unat (ucast (w :: u8) :: u32) = unat w"
  by (simp add: unsigned_ucast_eq take_bit_nat_eq_self unsigned_less [of w, THEN less_le_trans])

lemma adts_bytes_small:
  assumes "profile info < 4" "samplingFrequencyIndex info < 16"
  shows "list_all (\<lambda>k. k < 256) (adts_bytes info n)"
proof -
  have "unat (profile info) * 64 + unat (samplingFrequencyIndex info) * 4 + x mod 2 < 256" for x :: nat
    using assms by (simp add: word_less_nat_alt)
  moreover have "x mod 4 * 64 + y mod 4 < 256" "x mod 8 * 32 + 31 < 256" for x y :: nat by linarith+
  ultimately show ?thesis by (simp add: adts_bytes_def Let_def)
qed

context biobits_laws
begin

lemma adts_head: "0xF0 OR B_SET_BIT bb 0 3 OR B_SET_BITS bb 0 2 1 OR B_SET_BIT bb 1 0 = 0xF1"
  by (simp add: set_bit_simps set_bits_zero)

lemma adts_profile_byte:
  fixes p s c :: u8
  assumes "p < 4" "s < 16"
  shows "unat (B_SET_BITS bb (ucast p) 7 6 OR B_SET_BITS bb (ucast s) 5 2 OR B_SET_BIT bb 0 1
           OR B_SET_BIT bb (B_GET_BIT bb (uint c) 2) 0) = unat p * 64 + unat s * 4 + unat c div 4 mod 2"
proof -
  have p: "unat (ucast p :: u32) < 4" "unat (ucast s :: u32) < 16"
    using assms by (simp_all add: word_less_nat_alt unat_ucast8)
  then have tb: "take_bit 2 (ucast p :: u32) = ucast p" "take_bit 4 (ucast s :: u32) = ucast s"
    by (simp_all add: word_eq_iff_unsigned [where 'a = nat] unsigned_take_bit_eq take_bit_nat_eq_self)
  have "B_SET_BITS bb (ucast p) 7 6 = push_bit 6 (ucast p)" "B_SET_BITS bb (ucast s) 5 2 = push_bit 2 (ucast s)"
    using set_bits [of 6 7 "ucast p"] set_bits [of 2 5 "ucast s"] tb by simp_all
  moreover have "B_SET_BIT bb (B_GET_BIT bb (uint c) 2) 0 = of_bool (bit c 2)"
    by (simp add: set_get_bit bit_uint_iff)
  moreover have "bit c 2 \<longleftrightarrow> odd (unat c div 4)"
    using bit_unsigned_iff [of c 2, where 'a = nat] by (simp add: bit_iff_odd [of "unat c"])
  then have "unat (of_bool (bit c 2) :: u32) = unat c div 4 mod 2"
    by (simp add: mod_2_eq_odd)
  ultimately show ?thesis
    using p by (simp add: set_bit_simps unat_shift_or unat_ucast8)
qed

lemma adts_field:
  assumes "lo \<le> hi" "hi < 32" "lo' \<le> hi'" "hi' < 32" "hi - lo = hi' - lo'"
  shows "B_SET_BITS bb (B_GET_BITS bb (int n) hi lo) hi' lo'
       = push_bit lo' (word_of_int (take_bit (Suc hi - lo) (drop_bit lo (int n))))"
  by (rule move_field [OF assms])

lemma adts_length_bytes:
  "unat (B_SET_BITS bb (B_GET_BITS bb (int c) 1 0) 7 6 OR B_SET_BIT bb 0 5 OR B_SET_BIT bb 0 4 OR
      B_SET_BIT bb 0 3 OR B_SET_BIT bb 0 2 OR B_SET_BITS bb (B_GET_BITS bb (int n) 12 11) 1 0)
    = c mod 4 * 64 + n div 2048 mod 4"
  "unat (B_SET_BITS bb (B_GET_BITS bb (int n) 10 3) 7 0) = n div 8 mod 256"
  "unat (B_SET_BITS bb (B_GET_BITS bb (int n) 2 0) 7 5 OR B_SET_BITS bb (B_GET_BITS bb 0x7FF 10 6) 4 0)
    = n mod 8 * 32 + 31"
  "unat (B_SET_BITS bb (B_GET_BITS bb 0x7FF 5 0) 7 2 OR B_SET_BITS bb 0 2 0) = 252"
proof -
  note f = adts_field unat_field
  let ?u = "\<lambda>m l k. word_of_int (take_bit m (drop_bit l (int k))) :: u32"
  have c: "unat (?u 2 0 c) = c mod 4" and n: "unat (?u 2 11 n) = n div 2048 mod 4"
    "unat (?u 8 3 n) = n div 8 mod 256" "unat (?u 3 0 n) = n mod 8"
    and k: "unat (?u 5 6 0x7FF) = 31" "unat (?u 6 0 0x7FF) = 63"
    using unat_field [of 2 0 c] unat_field [of 2 11 n] unat_field [of 8 3 n] unat_field [of 3 0 n]
      unat_field [of 5 6 "0x7FF"] unat_field [of 6 0 "0x7FF"] by simp_all
  show "unat (B_SET_BITS bb (B_GET_BITS bb (int c) 1 0) 7 6 OR B_SET_BIT bb 0 5 OR B_SET_BIT bb 0 4 OR
      B_SET_BIT bb 0 3 OR B_SET_BIT bb 0 2 OR B_SET_BITS bb (B_GET_BITS bb (int n) 12 11) 1 0)
    = c mod 4 * 64 + n div 2048 mod 4"
  proof -
    have e: "B_SET_BITS bb (B_GET_BITS bb (int c) 1 0) 7 6 = push_bit 6 (?u 2 0 c)"
      "B_SET_BITS bb (B_GET_BITS bb (int n) 12 11) 1 0 = ?u 2 11 n"
      using adts_field [of 0 1 6 7 c] adts_field [of 11 12 0 1 n] by (simp_all add: numeral_2_eq_2)
    have "n div 2048 mod 4 < 64" by (rule less_trans [of _ 4]) simp_all
    moreover have "c mod 4 < 67108864" by (rule less_trans [of _ 4]) simp_all
    ultimately show ?thesis
      unfolding e using unat_shift_or [of "?u 2 11 n" 6 "?u 2 0 c"] c n by (simp add: set_bit_simps)
  qed
  show "unat (B_SET_BITS bb (B_GET_BITS bb (int n) 10 3) 7 0) = n div 8 mod 256"
    using n by (simp add: adts_field [of 3 10 0 7])
  show "unat (B_SET_BITS bb (B_GET_BITS bb (int n) 2 0) 7 5 OR B_SET_BITS bb (B_GET_BITS bb 0x7FF 10 6) 4 0)
    = n mod 8 * 32 + 31"
    using unat_shift_or [of "?u 5 6 0x7FF" 5 "?u 3 0 n"] n k adts_field [of 6 10 0 4 "0x7FF"]
    by (simp add: adts_field [of 0 2 5 7])
  show "unat (B_SET_BITS bb (B_GET_BITS bb 0x7FF 5 0) 7 2 OR B_SET_BITS bb 0 2 0) = 252"
    using unat_shift_or [of 0 2 "?u 6 0 0x7FF"] k adts_field [of 0 5 2 7 "0x7FF"]
    by (simp add: set_bits_zero)
qed

lemma SetupAdtsHeader_bytes:
  assumes "7 \<le> maxLength" "maxLength \<le> length buf" "profile info < 4" "samplingFrequencyIndex info < 16"
    and len: "unat len + 7 < 8192"
  shows "\<exists>h. SetupAdtsHeader bb buf maxLength len info = Some (True, 7, h)
     \<and> map unat (take 7 h) = adts_bytes info (unat len + 7) \<and> drop 7 h = drop 7 buf"
proof -
  have ch: "uint (channelConfiguration info) = int (unat (channelConfiguration info))" by simp
  have ul: "uint (len + of_nat BOMX_ADTS_HEADER_SIZE) = int (unat len + 7)"
  proof -
    have "unat (len + of_nat BOMX_ADTS_HEADER_SIZE) = unat len + 7"
      using len by (simp add: BOMX_ADTS_HEADER_SIZE_def unat_word_ariths)
    then show ?thesis by (metis uint_nat)
  qed
  let ?n = "unat len + 7" and ?c = "unat (channelConfiguration info)"
  let ?vs = "[0xFF, 0xF1,
     B_SET_BITS bb (ucast (profile info)) 7 6 OR B_SET_BITS bb (ucast (samplingFrequencyIndex info)) 5 2 OR
       B_SET_BIT bb 0 1 OR B_SET_BIT bb (B_GET_BIT bb (int ?c) 2) 0,
     B_SET_BITS bb (B_GET_BITS bb (int ?c) 1 0) 7 6 OR B_SET_BIT bb 0 5 OR B_SET_BIT bb 0 4 OR
       B_SET_BIT bb 0 3 OR B_SET_BIT bb 0 2 OR B_SET_BITS bb (B_GET_BITS bb (int ?n) 12 11) 1 0,
     B_SET_BITS bb (B_GET_BITS bb (int ?n) 10 3) 7 0,
     B_SET_BITS bb (B_GET_BITS bb (int ?n) 2 0) 7 5 OR B_SET_BITS bb (B_GET_BITS bb 0x7FF 10 6) 4 0,
     B_SET_BITS bb (B_GET_BITS bb 0x7FF 5 0) 7 2 OR B_SET_BITS bb 0 2 0] :: u32 list"
  have up: "[0..<7] = [0, 1, 2, 3, 4, 5, 6]" by (simp add: upt_rec)
  have nt: "\<not> maxLength < 7" using assms(1) by simp
  have "SetupAdtsHeader bb buf maxLength len info
      = map_option (\<lambda>b. (True, 7, b)) (store_bytes buf (zip [0..<7] ?vs))"
    unfolding up SetupAdtsHeader_def Let_def adts_head ch ul
    unfolding BOMX_ADTS_HEADER_SIZE_def if_not_P [OF nt] zip_Cons_Cons zip_Nil by (rule refl)
  moreover have lv: "length ?vs = 7" by simp
  have "store_bytes buf (zip [0..<7] ?vs) = Some (map ucast ?vs @ drop 7 buf)"
    using store_bytes_prefix [of ?vs buf, unfolded lv] assms(1,2) by (simp only: le_trans simp_thms)
  moreover have "map (\<lambda>w. unat (ucast w :: u8)) ?vs = adts_bytes info ?n"
  proof -
    have b: "map unat ?vs = adts_bytes info ?n"
      unfolding list.map adts_bytes_def Let_def adts_length_bytes
        adts_profile_byte [OF assms(3,4), of "channelConfiguration info", unfolded ch]
      by (simp only: list.inject simp_thms) simp
    have "list_all (\<lambda>k. k < 256) (adts_bytes info ?n)"
      using assms(3,4) adts_bytes_small by blast
    then have "list_all (\<lambda>w. unat w < 256) ?vs" unfolding b [symmetric] list.pred_map comp_def .
    then have "map (\<lambda>w. unat (ucast w :: u8)) ?vs = map unat ?vs"
      unfolding list_all_iff by (intro map_cong refl unat_byte) blast
    then show ?thesis unfolding b .
  qed
  ultimately show ?thesis by simp
qed

end

section \<open>Properties\<close>

lemma adts_byte2:
  assumes "s < 16" "b < (2::nat)"
  shows "(p * 64 + s * 4 + b) div 64 = p" "(p * 64 + s * 4 + b) div 4 mod 16 = s"
    "(p * 64 + s * 4 + b) mod 2 = b"
proof -
  have e: "p * 64 + s * 4 + b = (s * 4 + b) + p * 64" "p * 64 + s * 4 + b = b + (s + p * 16) * 4"
    "p * 64 + s * 4 + b = b + (s * 2 + p * 32) * 2" by simp_all
  show "(p * 64 + s * 4 + b) div 64 = p" unfolding e(1) div_mult_self1 [of 64 _ p, simplified] using assms by simp
  show "(p * 64 + s * 4 + b) div 4 mod 16 = s"
  proof -
    have "(b + (s + p * 16) * 4) div 4 = s + p * 16" using assms by (subst div_mult_self1) simp_all
    then show ?thesis unfolding e(2) using assms by simp
  qed
  show "(p * 64 + s * 4 + b) mod 2 = b"
    unfolding e(3) using assms by (simp only: mod_mult_self1 mod_less)
qed

lemma adts_byte3:
  assumes "y < (4::nat)"
  shows "(x * 64 + y) div 64 = x" "(x * 64 + y) mod 4 = y"
proof -
  show "(x * 64 + y) div 64 = x" using assms by simp
  have "x * 64 + y = y + x * 16 * 4" by simp
  then show "(x * 64 + y) mod 4 = y" using assms by (simp only: mod_mult_self1 mod_less)
qed

lemma split_13_bits:
  assumes "n < (8192::nat)"
  shows "n div 2048 mod 4 * 2048 + n div 8 mod 256 * 8 + n mod 8 = n"
proof -
  have "n mod (8 * 256) = 8 * (n div 8 mod 256) + n mod 8" by (rule mod_mult2_eq)
  moreover have "n div 2048 < 4" using assms by simp
  moreover have "n div 2048 * 2048 + n mod 2048 = n" by simp
  ultimately show ?thesis by simp
qed

lemma adts_decode_bytes:
  assumes h: "map unat (take 7 h) = adts_bytes info n" and n: "n < 8192"
    and fit: "profile info < 4" "samplingFrequencyIndex info < 16"
  shows "adts_decode h =
    \<lparr>adts_sync = 0xFFF1, adts_profile = unat (profile info), adts_sfi = unat (samplingFrequencyIndex info),
     adts_channels = unat (channelConfiguration info) mod 8, adts_frame_length = n, adts_fullness = 0x7FF\<rparr>"
proof -
  have len: "7 \<le> length h" using arg_cong [OF h, of length] by (simp add: adts_bytes_def Let_def)
  have at: "unat (h ! i) = adts_bytes info n ! i" if "i < 7" for i
    using arg_cong [OF h, of "\<lambda>xs. xs ! i"] that len by simp
  let ?p = "unat (profile info)" and ?s = "unat (samplingFrequencyIndex info)" and ?c = "unat (channelConfiguration info)"
  have b: "unat (h ! 0) = 255" "unat (h ! 1) = 241" "unat (h ! 2) = ?p * 64 + ?s * 4 + ?c div 4 mod 2"
    "unat (h ! 3) = ?c mod 4 * 64 + n div 2048 mod 4" "unat (h ! 4) = n div 8 mod 256"
    "unat (h ! 5) = n mod 8 * 32 + 31" "unat (h ! 6) = 252"
    by (simp_all add: at) (simp_all add: adts_bytes_def Let_def)
  have ps: "?s < 16" using fit by (simp add: word_less_nat_alt)
  have "?c div 4 mod 2 < 2" by simp
  note f1 = adts_byte2 [OF ps this, of ?p]
  have "n div 2048 mod 4 < 4" by simp
  note f2 = adts_byte3 [OF this, of "?c mod 4"]
  have f3: "(n mod 8 * 32 + 31) div 32 = n mod 8" "(n mod 8 * 32 + 31) mod 32 = 31"
    by (simp_all add: mult.commute [of _ 32])
  have f4: "?c div 4 mod 2 * 4 + ?c mod 4 = ?c mod 8"
    using mod_mult2_eq [of ?c 4 2] by simp
  have f5: "n div 2048 mod 4 * 2048 + n div 8 mod 256 * 8 + n mod 8 = n" by (rule split_13_bits [OF n])
  show ?thesis unfolding adts_decode_def Let_def b f1 f2 f3 f4 f5 by simp
qed

lemma half_rate:
  "e < 9 \<Longrightarrow> b_aac_adts_sample_rate ! (e + 3) = b_aac_adts_sample_rate ! e div 2"
proof -
  assume "e < 9"
  then have "e \<in> set [0, 1, 2, 3, 4, 5, 6, 7, 8]" by (simp, presburger)
  then show ?thesis by (simp add: b_aac_adts_sample_rate_def) (elim disjE; simp)
qed

text \<open>a sampling frequency is accepted exactly when a rate of the ADTS table is within the
  half percent margin of it, there is at most one such rate, and its index is the one stored;
  otherwise the information is unchanged. In particular the index of every table rate is
  found again.\<close>

theorem sampling_index_exact:
  "SetSamplingFrequencyIndex info f =
     (case find (within f) [0..<12] of
        None \<Rightarrow> (False, info)
      | Some i \<Rightarrow> (True, info\<lparr>samplingFrequencyIndex := of_nat i\<rparr>))
   \<and> length (filter (within f) [0..<12]) \<le> 1
   \<and> list_all (\<lambda>i. within (GetSamplingFrequencyFromIndex (of_nat i)) i) [0..<12]"
proof (intro conjI)
  show "SetSamplingFrequencyIndex info f =
     (case find (within f) [0..<12] of
        None \<Rightarrow> (False, info) | Some i \<Rightarrow> (True, info\<lparr>samplingFrequencyIndex := of_nat i\<rparr>))"
  proof (cases "find (within f) [0..<12]")
    case None
    then have "\<forall>i < 12. \<not> within f i" by (auto simp: find_None_iff)
    with None show ?thesis by (simp add: SetSamplingFrequencyIndex_fails)
  next
    case (Some i)
    then have "within f i" "i < 12" using find_Some_iff_mem [OF Some] by auto
    with Some show ?thesis by (simp add: SetSamplingFrequencyIndex_within)
  qed
  have uniq: "i = j" if "within f i" "i < 12" "within f j" "j < 12" for i j
    using within_near [OF that(1)] within_near [OF that(3)] that(2,4) by (intro rates_apart) linarith+
  have "card (set (filter (within f) [0..<12])) \<le> 1"
    using uniq by (auto simp: card_le_Suc0_iff_eq)
  then show "length (filter (within f) [0..<12]) \<le> 1"
    by (metis distinct_card distinct_filter distinct_upt)
  have "GetSamplingFrequencyFromIndex (of_nat i) = b_aac_adts_sample_rate ! i" if "i < 12" for i
    using that by (simp add: GetSamplingFrequencyFromIndex_def unat_of_nat)
  then have "within (GetSamplingFrequencyFromIndex (of_nat i)) i" if "i < 12" for i
    using that rate_bounds [OF that] by (simp add: within_def word_less_nat_alt)
  then show "list_all (\<lambda>i. within (GetSamplingFrequencyFromIndex (of_nat i)) i) [0..<12]"
    by (simp add: list_all_iff)
qed


text \<open>an AudioSpecificConfig that signals SBR by object type 5 is read as AAC LC at half the
  extension sampling frequency, with the SBR flag set, whenever the table has that half rate.\<close>

theorem asc_sbr_halves_rate:
  fixes sfi ch ext :: u8
  assumes "batom_laws ba rest"
    and "bytes_bits d = bits_of 5 5 @ bits_of 4 (uint sfi) @ bits_of 4 (uint ch) @ bits_of 4 (uint ext) @ tail"
    and "sfi < 15" "ch < 16" "ext < 9" "5 \<le> length tail"
  shows "\<exists>info'. ParseASC ba bb d info = (True, info') \<and> sbrPresent info' \<and> profile info' = 1
     \<and> channelConfiguration info' = ch
     \<and> GetSamplingFrequencyFromIndex (ucast (samplingFrequencyIndex info'))
         = GetSamplingFrequencyFromIndex (ucast ext) div 2"
proof -
  have ext: "unat ext < 9" using assms(5) by (simp add: word_less_nat_alt)
  then have ext15: "ext < 15" by (simp add: word_less_nat_alt)
  let ?i = "info\<lparr>profile := 5, channelConfiguration := ch, samplingFrequencyIndex := ext\<rparr>"
  let ?j = "?i\<lparr>sbrPresent := True, profile := 1\<rparr>" and ?f = "GetSamplingFrequencyFromIndex (ucast ext) div 2"
  have p: "ParseASC ba bb d info = (True, ConvertAscToAdts ?i)"
    by (rule batom_laws.parse_sbr [OF assms(1-4) ext15 assms(6)])
  define k where "k = unat ext + 3"
  have k: "k < 12" "b_aac_adts_sample_rate ! k = ?f"
    using half_rate [OF ext] ext by (simp_all add: k_def GetSamplingFrequencyFromIndex_def unat_ucast8)
  from k(1) have "within (b_aac_adts_sample_rate ! k) k"
    using rate_bounds [of k] by (simp add: within_def word_less_nat_alt)
  then have w: "within ?f k" unfolding k(2) .
  have "ConvertAscToAdts ?i = ?j\<lparr>samplingFrequencyIndex := of_nat k\<rparr>"
    using SetSamplingFrequencyIndex_within [OF w k(1), of ?j] by (simp add: ConvertAscToAdts_def)
  moreover have "GetSamplingFrequencyFromIndex (ucast (of_nat k :: u8)) = ?f"
    using k by (simp add: GetSamplingFrequencyFromIndex_def unat_ucast8 unat_of_nat)
  ultimately show ?thesis using p by simp
qed

section \<open>Witnesses\<close>

text \<open>AAC LC, 44.1 kHz, stereo; and HE-AAC with extension frequency 44.1 kHz.\<close>

lemma replicate_numeral_eq: "replicate (numeral k) x = x # replicate (pred_numeral k) x"
  by (simp add: numeral_eq_Suc)

lemma demo_lc_bits:
  "bytes_bits [0x12, 0x10, 0, 0] = bits_of 5 (uint (2::u8)) @ bits_of 4 (uint (4::u8)) @ bits_of 4 (uint (2::u8))
     @ [False, False, False] @ replicate 16 False"
  by (simp add: bytes_bits_def bits_of_def upt_rec replicate_numeral_eq)

lemma demo_sbr_bits:
  "bytes_bits [0x2b, 0x92, 0x08, 0] = bits_of 5 5 @ bits_of 4 (uint (7::u8)) @ bits_of 4 (uint (2::u8))
     @ bits_of 4 (uint (4::u8)) @ False # False # False # True # replicate 11 False"
  by (simp add: bytes_bits_def bits_of_def upt_rec replicate_numeral_eq)


lemma half_demo: "GetSamplingFrequencyFromIndex 4 div 2 = 22050"
  by (simp add: GetSamplingFrequencyFromIndex_def b_aac_adts_sample_rate_def)

theorem asc_sbr_halves_rate_witness:
  "\<exists>info'. ParseASC list_reader shift_mask_biobits [0x2b, 0x92, 0x08, 0]
       \<lparr>samplingFrequencyIndex = 0, channelConfiguration = 0, profile = 0, sbrPresent = False\<rparr> = (True, info')
     \<and> GetSamplingFrequencyFromIndex (ucast (samplingFrequencyIndex info')) = 22050"
  using asc_sbr_halves_rate [OF list_reader_laws.batom_laws_axioms demo_sbr_bits,
      of shift_mask_biobits "\<lparr>samplingFrequencyIndex = 0, channelConfiguration = 0, profile = 0, sbrPresent = False\<rparr>"]
  by (auto simp: half_demo)

end
