(* ===== verification/Bomx_Core.thy ===== *)
theory Bomx_Core
  imports Bomx_Utils Bomx_Buffer
begin

text \<open>
  \<open>media/libstagefrighthw/bomx_core.cpp\<close> and \<open>bomx_android_plugin.cpp\<close>: the OMX core API over the
  table of components, reference counted initialisation, handles, and the stagefright plugin
  on top of it. A null pointer argument is \<open>None\<close>; what the platform library and the component
  constructors return are arguments.
\<close>

section \<open>The component table\<close>

text \<open>The role functions of the components: an index into a fixed array, NULL behind its end.\<close>

definition role_at :: "string list \<Rightarrow> nat \<Rightarrow> string option" where
  "role_at roles roleIndex = (if roleIndex \<ge> length roles then None else Some (roles ! roleIndex))"

definition g_defaultRoles :: "string list" where
  "g_defaultRoles = [''video_decoder.mpeg2'', ''video_decoder.h263'', ''video_decoder.avc'',
     ''video_decoder.mpeg4'', ''video_decoder.hevc'', ''video_decoder.vp8'']"

definition VideoDecoder_GetRole :: "nat \<Rightarrow> string option" where
  "VideoDecoder_GetRole = role_at g_defaultRoles"

definition VideoDecoder_GetRoleVp9 :: "nat \<Rightarrow> string option" where
  "VideoDecoder_GetRoleVp9 roleIndex = (if roleIndex > 0 then None else Some ''video_decoder.vp9'')"

definition AudioDecoder_GetRoleAc3 :: "nat \<Rightarrow> string option" where
  "AudioDecoder_GetRoleAc3 = role_at [''audio_decoder.ac3'']"

definition AudioDecoder_GetRoleMp3 :: "nat \<Rightarrow> string option" where
  "AudioDecoder_GetRoleMp3 = role_at [''audio_decoder.mp3'']"

definition AudioDecoder_GetRoleAac :: "nat \<Rightarrow> string option" where
  "AudioDecoder_GetRoleAac = role_at [''audio_decoder.aac'']"

definition VideoEncoder_GetRole :: "nat \<Rightarrow> string option" where
  "VideoEncoder_GetRole = role_at [''video_encoder.avc'', ''video_encoder.vp8'']"

record ComponentEntry =
  pName :: string
  pGetRole :: "nat \<Rightarrow> string option"

text \<open>\<open>secure\<close> tells whether the build defines \<open>SECURE_DECODER_ON\<close>.\<close>

definition g_components :: "bool \<Rightarrow> ComponentEntry list" where
  "g_components secure =
     [\<lparr>pName = ''OMX.broadcom.video_decoder'', pGetRole = VideoDecoder_GetRole\<rparr>,
      \<lparr>pName = ''OMX.broadcom.video_decoder.tunnel'', pGetRole = VideoDecoder_GetRole\<rparr>,
      \<lparr>pName = ''OMX.broadcom.video_decoder.vp9'', pGetRole = VideoDecoder_GetRoleVp9\<rparr>,
      \<lparr>pName = ''OMX.broadcom.video_decoder.vp9.tunnel'', pGetRole = VideoDecoder_GetRoleVp9\<rparr>,
      \<lparr>pName = ''OMX.broadcom.audio_decoder.ac3'', pGetRole = AudioDecoder_GetRoleAc3\<rparr>,
      \<lparr>pName = ''OMX.broadcom.audio_decoder.mp3'', pGetRole = AudioDecoder_GetRoleMp3\<rparr>,
      \<lparr>pName = ''OMX.broadcom.audio_decoder.aac'', pGetRole = AudioDecoder_GetRoleAac\<rparr>] @
     (if secure then
       [\<lparr>pName = ''OMX.broadcom.video_decoder.secure'', pGetRole = VideoDecoder_GetRole\<rparr>,
        \<lparr>pName = ''OMX.broadcom.video_decoder.tunnel.secure'', pGetRole = VideoDecoder_GetRole\<rparr>,
        \<lparr>pName = ''OMX.broadcom.video_decoder.vp9.secure'', pGetRole = VideoDecoder_GetRoleVp9\<rparr>,
        \<lparr>pName = ''OMX.broadcom.video_decoder.vp9.tunnel.secure'', pGetRole = VideoDecoder_GetRoleVp9\<rparr>]
      else []) @
     [\<lparr>pName = ''OMX.broadcom.video_encoder'', pGetRole = VideoEncoder_GetRole\<rparr>]"

definition GetComponentByName :: "ComponentEntry list \<Rightarrow> string \<Rightarrow> ComponentEntry option" where
  "GetComponentByName comps name = find (\<lambda>e. strcmp_eq name (pName e)) comps"

section \<open>Initialisation\<close>

text \<open>
  \<open>g_refCount\<close>, and what the initialisation owns: the platform library and the resource list
  with its mutex.
\<close>

record core_state =
  g_refCount :: u32
  os_up :: bool
  resources_up :: bool

text \<open>
  \<open>osErr\<close>: \<open>B_Os_Init\<close> fails; \<open>mutexNull\<close>: creating the resource mutex fails. \<open>None\<close>: the
  assertion that the mutex does not exist yet fails.
\<close>

definition InitComponentResourceList :: "bool \<Rightarrow> core_state \<Rightarrow> (OMX_ERRORTYPE \<times> core_state) option" where
  "InitComponentResourceList mutexNull s =
     (if resources_up s then None
      else if mutexNull then Some (BOMX_ERR_TRACE OMX_ErrorUndefined, s)
      else Some (OMX_ErrorNone, s\<lparr>resources_up := True\<rparr>))"

definition UninitComponentResourceList :: "core_state \<Rightarrow> core_state option" where
  "UninitComponentResourceList s = (if resources_up s then Some (s\<lparr>resources_up := False\<rparr>) else None)"

definition OMX_Init :: "bool \<Rightarrow> bool \<Rightarrow> core_state \<Rightarrow> (OMX_ERRORTYPE \<times> core_state) option" where
  "OMX_Init osErr mutexNull s =
     (let s = s\<lparr>g_refCount := g_refCount s + 1\<rparr> in
      if g_refCount s > 1 then Some (OMX_ErrorNone, s)
      else if osErr then Some (BOMX_ERR_TRACE OMX_ErrorUndefined, s\<lparr>g_refCount := g_refCount s - 1\<rparr>)
      else
        let s = s\<lparr>os_up := True\<rparr> in
        case InitComponentResourceList mutexNull s of
          None \<Rightarrow> None
        | Some (err, s) \<Rightarrow>
            if err \<noteq> OMX_ErrorNone then
              let s = (if g_refCount s = 1 then s\<lparr>os_up := False\<rparr> else s)
              in Some (BOMX_ERR_TRACE OMX_ErrorUndefined, s\<lparr>g_refCount := g_refCount s - 1\<rparr>)
            else Some (OMX_ErrorNone, s))"

definition OMX_Deinit :: "core_state \<Rightarrow> (OMX_ERRORTYPE \<times> core_state) option" where
  "OMX_Deinit s =
     (if g_refCount s = 1
      then map_option (\<lambda>s. (OMX_ErrorNone, s\<lparr>os_up := False, g_refCount := 0\<rparr>)) (UninitComponentResourceList s)
      else Some (OMX_ErrorNone, s\<lparr>g_refCount := g_refCount s - 1\<rparr>))"

section \<open>Names and roles\<close>

text \<open>
  The result is the error and the name copied; \<open>None\<close>: the table is indexed out of bounds. The
  index is compared as a signed number.
\<close>

definition OMX_ComponentNameEnum ::
  "ComponentEntry list \<Rightarrow> bool \<Rightarrow> u32 \<Rightarrow> u32 \<Rightarrow> (OMX_ERRORTYPE \<times> string) option" where
  "OMX_ComponentNameEnum comps nameNull nNameLength nIndex =
     (if nameNull \<or> nNameLength = 0 then Some (BOMX_ERR_TRACE OMX_ErrorBadParameter, [])
      else if sint nIndex \<ge> int (length comps) then Some (OMX_ErrorNoMore, [])
      else if unat nIndex < length comps
      then Some (OMX_ErrorNone, strncpy_str (unat nNameLength) (pName (comps ! unat nIndex)))
      else None)"

text \<open>
  The inner loop of \<open>OMX_GetComponentsOfRole\<close> over the roles of one component, which ends when
  the role function returns NULL: the number of matches so far, the names copied, and whether
  the array was full.
\<close>

partial_function (option) match_roles ::
  "omx_abi \<Rightarrow> ComponentEntry \<Rightarrow> string \<Rightarrow> nat \<Rightarrow> bool \<Rightarrow> nat \<Rightarrow> nat \<Rightarrow> string list
   \<Rightarrow> (nat \<times> string list \<times> bool) option" where
  "match_roles abi e role maxComps namesNull roleIdx compIdx names =
     (case pGetRole e roleIdx of
        None \<Rightarrow> Some (compIdx, names, False)
      | Some r \<Rightarrow>
          if strcmp_eq r role then
            (if namesNull then match_roles abi e role maxComps namesNull (Suc roleIdx) (Suc compIdx) names
             else if compIdx < maxComps
             then match_roles abi e role maxComps namesNull (Suc roleIdx) (Suc compIdx)
                    (names @ [strncpy_str (OMX_MAX_STRINGNAME_SIZE abi) (pName e)])
             else Some (compIdx, names, True))
          else match_roles abi e role maxComps namesNull (Suc roleIdx) compIdx names)"

fun search_components ::
  "omx_abi \<Rightarrow> ComponentEntry list \<Rightarrow> string \<Rightarrow> nat \<Rightarrow> bool \<Rightarrow> nat \<Rightarrow> string list \<Rightarrow> (nat \<times> string list) option" where
  "search_components abi [] role maxComps namesNull compIdx names = Some (compIdx, names)"
| "search_components abi (e # es) role maxComps namesNull compIdx names =
     (case match_roles abi e role maxComps namesNull 0 compIdx names of
        None \<Rightarrow> None
      | Some (compIdx', names', full) \<Rightarrow>
          if full then Some (compIdx', names')
          else search_components abi es role maxComps namesNull compIdx' names')"

text \<open>\<open>None\<close>: the loop does not end. The result is the error, \<open>*pNumComps\<close> and the names copied.\<close>

definition OMX_GetComponentsOfRole ::
  "omx_abi \<Rightarrow> ComponentEntry list \<Rightarrow> string option \<Rightarrow> u32 option \<Rightarrow> bool
   \<Rightarrow> (OMX_ERRORTYPE \<times> nat \<times> string list) option" where
  "OMX_GetComponentsOfRole abi comps role pNumComps namesNull =
     (case (role, pNumComps) of
        (Some r, Some n) \<Rightarrow>
          map_option (\<lambda>(k, names). (OMX_ErrorNone, k, names))
            (search_components abi comps r (unat n) namesNull 0 [])
      | _ \<Rightarrow> Some (BOMX_ERR_TRACE OMX_ErrorBadParameter, 0, []))"

partial_function (option) copy_roles ::
  "omx_abi \<Rightarrow> ComponentEntry \<Rightarrow> nat \<Rightarrow> bool \<Rightarrow> nat \<Rightarrow> string list \<Rightarrow> (nat \<times> string list) option" where
  "copy_roles abi e maxRoles rolesNull roleIdx out =
     (case pGetRole e roleIdx of
        None \<Rightarrow> Some (roleIdx, out)
      | Some r \<Rightarrow>
          if rolesNull then copy_roles abi e maxRoles rolesNull (Suc roleIdx) out
          else if roleIdx < maxRoles
          then copy_roles abi e maxRoles rolesNull (Suc roleIdx)
                 (out @ [strncpy_str (OMX_MAX_STRINGNAME_SIZE abi) r])
          else Some (roleIdx, out))"

definition OMX_GetRolesOfComponent ::
  "omx_abi \<Rightarrow> ComponentEntry list \<Rightarrow> string option \<Rightarrow> u32 option \<Rightarrow> bool
   \<Rightarrow> (OMX_ERRORTYPE \<times> nat \<times> string list) option" where
  "OMX_GetRolesOfComponent abi comps compName pNumRoles rolesNull =
     (case (compName, pNumRoles) of
        (Some name, Some n) \<Rightarrow>
          (case GetComponentByName comps name of
             None \<Rightarrow> Some (BOMX_ERR_TRACE OMX_ErrorComponentNotFound, unat n, [])
           | Some e \<Rightarrow>
               map_option (\<lambda>(k, out). (OMX_ErrorNone, k, out)) (copy_roles abi e (unat n) rolesNull 0 []))
      | _ \<Rightarrow> Some (BOMX_ERR_TRACE OMX_ErrorBadParameter, 0, []))"

text \<open>
  The plugin asks for the number of roles and then for the roles themselves; \<open>None\<close>: one of its
  two \<open>CHECK_EQ\<close> aborts the process.
\<close>

definition Plugin_getRolesOfComponent ::
  "omx_abi \<Rightarrow> ComponentEntry list \<Rightarrow> string \<Rightarrow> (OMX_ERRORTYPE \<times> string list) option" where
  "Plugin_getRolesOfComponent abi comps name =
     (case OMX_GetRolesOfComponent abi comps (Some name) (Some 0) True of
        None \<Rightarrow> None
      | Some (err, numRoles, _) \<Rightarrow>
          if err \<noteq> OMX_ErrorNone then Some (BOMX_ERR_TRACE err, [])
          else if numRoles > 0 then
            let numRoles2 = 0 in
            (case OMX_GetRolesOfComponent abi comps (Some name) (Some numRoles2) False of
               None \<Rightarrow> None
             | Some (err, numRoles2, array) \<Rightarrow>
                 if err \<noteq> OMX_ErrorNone \<or> numRoles \<noteq> numRoles2 then None
                 else Some (OMX_ErrorNone, array))
          else Some (OMX_ErrorNone, []))"

definition Plugin_enumerateComponents ::
  "ComponentEntry list \<Rightarrow> u32 \<Rightarrow> u32 \<Rightarrow> (OMX_ERRORTYPE \<times> string) option" where
  "Plugin_enumerateComponents comps nameSize index =
     map_option (\<lambda>(err, name). (if err = OMX_ErrorNone \<or> err = OMX_ErrorNoMore then err else BOMX_ERR_TRACE err, name))
       (OMX_ComponentNameEnum comps False nameSize index)"

section \<open>Handles\<close>

text \<open>
  The component structures allocated and not yet freed. \<open>ctor\<close> is the constructor of a table
  entry (\<open>None\<close> when the entry has none), \<open>newStruct\<close> the allocated structure (NULL on failure).
\<close>

definition OMX_GetHandle ::
  "ComponentEntry list \<Rightarrow> (ComponentEntry \<Rightarrow> (addr \<Rightarrow> OMX_ERRORTYPE) option) \<Rightarrow> addr \<Rightarrow> bool \<Rightarrow> string option \<Rightarrow> bool
   \<Rightarrow> addr list \<Rightarrow> OMX_ERRORTYPE \<times> addr option \<times> addr list" where
  "OMX_GetHandle comps ctor newStruct handleNull name callbacksNull structs =
     (case name of
        None \<Rightarrow> (BOMX_ERR_TRACE OMX_ErrorBadParameter, None, structs)
      | Some cComponentName \<Rightarrow>
          if handleNull \<or> callbacksNull then (BOMX_ERR_TRACE OMX_ErrorBadParameter, None, structs)
          else case GetComponentByName comps cComponentName of
            None \<Rightarrow> (BOMX_ERR_TRACE OMX_ErrorComponentNotFound, None, structs)
          | Some e \<Rightarrow>
              (case ctor e of
                 None \<Rightarrow> (BOMX_ERR_TRACE OMX_ErrorInvalidComponent, None, structs)
               | Some construct \<Rightarrow>
                   if newStruct = NULL then (BOMX_ERR_TRACE OMX_ErrorInsufficientResources, None, structs)
                   else
                     let structs1 = newStruct # structs;
                         err = construct newStruct
                     in if err \<noteq> OMX_ErrorNone then (err, None, remove1 newStruct structs1)
                        else (OMX_ErrorNone, Some newStruct, structs1)))"

text \<open>\<open>deinit\<close> is the \<open>ComponentDeInit\<close> entry of the structure; \<open>None\<close>: an assertion fails.\<close>

definition OMX_FreeHandle ::
  "(addr \<Rightarrow> OMX_ERRORTYPE) option \<Rightarrow> addr \<Rightarrow> addr list \<Rightarrow> (OMX_ERRORTYPE \<times> addr list) option" where
  "OMX_FreeHandle deinit hComponent structs =
     (if hComponent = NULL \<or> hComponent \<notin> set structs then None
      else Some (case deinit of None \<Rightarrow> OMX_ErrorNone | Some f \<Rightarrow> f hComponent, remove1 hComponent structs))"

section \<open>Tunnels\<close>

text \<open>
  \<open>request\<close> stands for the \<open>ComponentTunnelRequest\<close> entries of the two components, which act on
  their state \<open>w\<close>; \<open>supports\<close> tells whether the entry of a component is set.
\<close>

definition OMX_SetupTunnel ::
  "(addr \<Rightarrow> bool) \<Rightarrow> (addr \<Rightarrow> u32 \<Rightarrow> addr \<Rightarrow> u32 \<Rightarrow> 'w \<Rightarrow> OMX_ERRORTYPE \<times> 'w)
   \<Rightarrow> addr \<Rightarrow> u32 \<Rightarrow> addr \<Rightarrow> u32 \<Rightarrow> 'w \<Rightarrow> OMX_ERRORTYPE \<times> 'w" where
  "OMX_SetupTunnel supports request hOutput nPortOutput hInput nPortInput w =
     (if hOutput = NULL \<and> hInput = NULL then (BOMX_ERR_TRACE OMX_ErrorBadParameter, w)
      else if hOutput \<noteq> NULL \<and> hInput \<noteq> NULL then
        if \<not> supports hOutput then (BOMX_ERR_TRACE OMX_ErrorTunnelingUnsupported, w)
        else if \<not> supports hInput then (BOMX_ERR_TRACE OMX_ErrorTunnelingUnsupported, w)
        else let (err, w) = request hOutput nPortOutput hInput nPortInput w in
          if err \<noteq> OMX_ErrorNone then (err, w)
          else let (err, w) = request hInput nPortInput hOutput nPortOutput w in
            if err \<noteq> OMX_ErrorNone then (err, snd (request hOutput nPortOutput NULL 0 w))
            else (err, w)
      else if hOutput \<noteq> NULL then
        if \<not> supports hOutput then (BOMX_ERR_TRACE OMX_ErrorTunnelingUnsupported, w)
        else request hOutput nPortOutput NULL 0 w
      else
        if \<not> supports hInput then (BOMX_ERR_TRACE OMX_ErrorTunnelingUnsupported, w)
        else request hInput nPortInput NULL 0 w)"

definition OMX_GetContentPipe :: OMX_ERRORTYPE where
  "OMX_GetContentPipe = BOMX_ERR_TRACE OMX_ErrorNotImplemented"

section \<open>Role enumeration\<close>

text \<open>An entry whose role function enumerates a list.\<close>

definition roles_are :: "ComponentEntry \<Rightarrow> string list \<Rightarrow> bool" where
  "roles_are e rs \<longleftrightarrow> pGetRole e = role_at rs"

definition core_roles :: "ComponentEntry \<Rightarrow> string list" where
  "core_roles e = List.map_filter (pGetRole e) [0..<6]"

lemma role_at_simps [simp]:
  "role_at rs (length rs) = None" "role_at (xs @ r # ys) (length xs) = Some r"
  by (simp_all add: role_at_def)

abbreviation hits :: "string \<Rightarrow> string list \<Rightarrow> nat" where
  "hits role rs \<equiv> length (filter (\<lambda>r. r = role) rs)"

lemma match_roles_count:
  "pGetRole e = role_at (pre @ rs) \<Longrightarrow>
   match_roles abi e role n True (length pre) k names = Some (k + hits role rs, names, False)"
proof (induction rs arbitrary: pre k)
  case (Cons r rs)
  then have "match_roles abi e role n True (Suc (length pre)) k' names = Some (k' + hits role rs, names, False)" for k'
    using Cons.IH [of "pre @ [r]" k'] by simp
  with Cons.prems show ?case by (simp add: match_roles.simps [of _ _ _ _ _ "length pre"] strcmp_eq_def)
qed (simp add: match_roles.simps)

lemma match_roles_copy:
  "pGetRole e = role_at (pre @ rs) \<Longrightarrow> k \<le> n \<Longrightarrow>
   match_roles abi e role n False (length pre) k names =
     (let m = min (hits role rs) (n - k) in
      Some (k + m, names @ replicate m (strncpy_str (OMX_MAX_STRINGNAME_SIZE abi) (pName e)), m < hits role rs))"
proof (induction rs arbitrary: pre k names)
  case (Cons r rs)
  let ?nm = "strncpy_str (OMX_MAX_STRINGNAME_SIZE abi) (pName e)"
  have ih: "match_roles abi e role n False (Suc (length pre)) k' names' =
      (let m = min (hits role rs) (n - k') in Some (k' + m, names' @ replicate m ?nm, m < hits role rs))"
    if "k' \<le> n" for k' names'
    using Cons.IH [of "pre @ [r]" k' names'] Cons.prems(1) that by simp
  show ?case
  proof (cases "r = role")
    case True
    show ?thesis
    proof (cases "k < n")
      case less: True
      then have "min (Suc (hits role rs)) (n - k) = Suc (min (hits role rs) (n - Suc k))" by linarith
      with True less Cons.prems(1) ih [of "Suc k" "names @ [?nm]"] show ?thesis
        by (simp add: match_roles.simps [of _ _ _ _ _ "length pre"] strcmp_eq_def Let_def)
    next
      case False
      with True Cons.prems show ?thesis
        by (simp add: match_roles.simps [of _ _ _ _ _ "length pre"] strcmp_eq_def Let_def)
    qed
  next
    case False
    with Cons.prems ih [of k names] show ?thesis
      by (simp add: match_roles.simps [of _ _ _ _ _ "length pre"] strcmp_eq_def)
  qed
qed (simp add: match_roles.simps)

text \<open>The names the search finds, in table order.\<close>

definition names_of_role :: "omx_abi \<Rightarrow> (ComponentEntry \<Rightarrow> string list) \<Rightarrow> ComponentEntry list \<Rightarrow> string \<Rightarrow> string list" where
  "names_of_role abi R comps role =
     concat (map (\<lambda>e. replicate (hits role (R e)) (strncpy_str (OMX_MAX_STRINGNAME_SIZE abi) (pName e))) comps)"

lemma search_components_count:
  "list_all (\<lambda>e. roles_are e (R e)) comps \<Longrightarrow>
   search_components abi comps role n True k names = Some (k + length (names_of_role abi R comps role), names)"
  by (induction comps arbitrary: k)
     (simp_all add: names_of_role_def roles_are_def match_roles_count [of _ "[]", simplified])

lemma search_components_copy:
  "list_all (\<lambda>e. roles_are e (R e)) comps \<Longrightarrow> k \<le> n \<Longrightarrow>
   search_components abi comps role n False k names =
     (let out = take (n - k) (names_of_role abi R comps role) in Some (k + length out, names @ out))"
proof (induction comps arbitrary: k names)
  case (Cons e es)
  let ?h = "hits role (R e)" and ?nm = "strncpy_str (OMX_MAX_STRINGNAME_SIZE abi) (pName e)"
  have m: "match_roles abi e role n False 0 k names =
      (let m = min ?h (n - k) in Some (k + m, names @ replicate m ?nm, m < ?h))"
    using match_roles_copy [of e "[]" "R e" k n abi role names] Cons.prems by (simp add: roles_are_def)
  have names: "names_of_role abi R (e # es) role = replicate ?h ?nm @ names_of_role abi R es role"
    by (simp add: names_of_role_def)
  show ?case
  proof (cases "n - k < ?h")
    case True
    then have "min ?h (n - k) = n - k" by simp
    with True m names Cons.prems(2) show ?thesis by (simp add: Let_def)
  next
    case False
    then have "min ?h (n - k) = ?h" "k + ?h \<le> n" using Cons.prems(2) by auto
    with m names False Cons.IH [of "k + ?h" "names @ replicate ?h ?nm"] Cons.prems show ?thesis
      by (simp add: Let_def)
  qed
qed (simp add: names_of_role_def)

lemma copy_roles_count:
  "pGetRole e = role_at (pre @ rs) \<Longrightarrow>
   copy_roles abi e n True (length pre) out = Some (length pre + length rs, out)"
proof (induction rs arbitrary: pre)
  case (Cons r rs)
  then have "copy_roles abi e n True (Suc (length pre)) out = Some (Suc (length pre) + length rs, out)"
    using Cons.IH [of "pre @ [r]"] by simp
  with Cons.prems show ?case by (simp add: copy_roles.simps [of _ _ _ _ "length pre"])
qed (simp add: copy_roles.simps)

lemma copy_roles_copy:
  "pGetRole e = role_at (pre @ rs) \<Longrightarrow> length pre \<le> n \<Longrightarrow>
   copy_roles abi e n False (length pre) out =
     (let new = take (n - length pre) rs in
      Some (length pre + length new, out @ map (strncpy_str (OMX_MAX_STRINGNAME_SIZE abi)) new))"
proof (induction rs arbitrary: pre out)
  case (Cons r rs)
  show ?case
  proof (cases "length pre < n")
    case True
    then have "n - length pre = Suc (n - Suc (length pre))" by simp
    with True Cons.prems Cons.IH [of "pre @ [r]"] show ?thesis
      by (simp add: copy_roles.simps [of _ _ _ _ "length pre"] Let_def)
  next
    case False
    have "role_at (pre @ r # rs) (length pre) = Some r" by simp
    with False Cons.prems(1) have "copy_roles abi e n False (length pre) out = Some (length pre, out)"
      by (subst copy_roles.simps) (simp only: option.case if_False simp_thms)
    with False Cons.prems(2) show ?thesis by simp
  qed
qed (simp add: copy_roles.simps)

lemma upt6: "[0..<6] = [0, 1, 2, 3, 4, 5::nat]"
  by (simp add: upt_rec)

lemma core_roles_of:
  "pGetRole e = role_at rs \<Longrightarrow> length rs \<le> 6 \<Longrightarrow> core_roles e = rs"
proof -
  assume e: "pGetRole e = role_at rs" and len: "length rs \<le> 6"
  have up: "[0..<6] = [0..<length rs] @ [length rs..<6]" using len upt_add_eq_append [of 0 "length rs" "6 - length rs"] by simp
  have "List.map_filter (role_at rs) [0..<length rs] = rs"
  proof -
    have "map (\<lambda>x. the (role_at rs x)) [0..<length rs] = map (\<lambda>x. rs ! x) [0..<length rs]"
      by (simp add: role_at_def)
    moreover have "filter (\<lambda>x. role_at rs x \<noteq> None) [0..<length rs] = [0..<length rs]"
      by (simp add: role_at_def)
    ultimately show ?thesis by (simp add: List.map_filter_def comp_def map_nth)
  qed
  moreover have "List.map_filter (role_at rs) [length rs..<6] = []"
    by (simp add: List.map_filter_def role_at_def filter_empty_conv)
  ultimately show ?thesis unfolding core_roles_def e up by (simp add: List.map_filter_def)
qed

lemma role_fns:
  "VideoDecoder_GetRoleVp9 = role_at [''video_decoder.vp9'']"
  by (auto simp: VideoDecoder_GetRoleVp9_def role_at_def fun_eq_iff not_le less_Suc_eq)

lemma g_components_roles:
  "e \<in> set (g_components secure) \<Longrightarrow> \<exists>rs. pGetRole e = role_at rs \<and> rs \<noteq> [] \<and> length rs \<le> 6"
  by (auto simp: g_components_def VideoDecoder_GetRole_def role_fns AudioDecoder_GetRoleAc3_def
      AudioDecoder_GetRoleMp3_def AudioDecoder_GetRoleAac_def VideoEncoder_GetRole_def g_defaultRoles_def
      split: if_splits)

lemma core_roles_are:
  "e \<in> set (g_components secure) \<Longrightarrow> roles_are e (core_roles e) \<and> core_roles e \<noteq> []"
  using g_components_roles [of e secure] core_roles_of by (auto simp: roles_are_def)

lemma GetComponentByName_in: "e \<in> set comps \<Longrightarrow> distinct (map pName comps) \<Longrightarrow> GetComponentByName comps (pName e) = Some e"
  by (induction comps) (auto simp: GetComponentByName_def strcmp_eq_def image_iff)

lemma g_components_distinct: "distinct (map pName (g_components secure))"
  by (cases secure) (simp_all add: g_components_def)

lemma GetRolesOfComponent_ok:
  assumes "e \<in> set (g_components secure)"
  shows "OMX_GetRolesOfComponent abi (g_components secure) (Some (pName e)) (Some n) True
      = Some (OMX_ErrorNone, length (core_roles e), [])"
    and "OMX_GetRolesOfComponent abi (g_components secure) (Some (pName e)) (Some n) False
      = Some (OMX_ErrorNone, min (unat n) (length (core_roles e)),
              map (strncpy_str (OMX_MAX_STRINGNAME_SIZE abi)) (take (unat n) (core_roles e)))"
  using GetComponentByName_in [OF assms g_components_distinct] core_roles_are [OF assms]
    copy_roles_count [of e "[]" "core_roles e" abi "unat n" "[]"]
    copy_roles_copy [of e "[]" "core_roles e" "unat n" abi "[]"]
  by (simp_all add: OMX_GetRolesOfComponent_def roles_are_def Let_def)

definition core_inv :: "core_state \<Rightarrow> bool" where
  "core_inv s \<longleftrightarrow> os_up s = (g_refCount s \<noteq> 0) \<and> resources_up s = (g_refCount s \<noteq> 0)"

section \<open>Properties\<close>

text \<open>searching components by role ends and finds, in table order, exactly the components
  whose role list has the role: without an array it returns their number, with an array of
  \<open>n\<close> names it stores the first \<open>n\<close> of them and returns how many it stored.\<close>

theorem components_of_role:
  "let found = names_of_role abi core_roles (g_components secure) role in
   OMX_GetComponentsOfRole abi (g_components secure) (Some role) (Some n) True = Some (OMX_ErrorNone, length found, [])
   \<and> OMX_GetComponentsOfRole abi (g_components secure) (Some role) (Some n) False
       = Some (OMX_ErrorNone, min (unat n) (length found), take (unat n) found)"
proof -
  have all: "list_all (\<lambda>e. roles_are e (core_roles e)) (g_components secure)"
    using core_roles_are by (auto simp: list_all_iff)
  show ?thesis
    using search_components_count [OF all] search_components_copy [OF all, of 0 "unat n"]
    by (simp add: OMX_GetComponentsOfRole_def Let_def min.commute)
qed

text \<open>initialisation is reference counted. Starting from the initial state, the platform and
  the resource list exist exactly while the count is positive; a successful call adds one, a
  failing one leaves everything as it was, a deinitialisation of a positive count takes one
  away, and none of the assertions on the resource mutex can fail.\<close>

theorem core_refcount:
  assumes "core_inv s"
  shows "(unat (g_refCount s) + 1 < 2 ^ 32 \<longrightarrow>
      (\<exists>err s'. OMX_Init osErr mutexNull s = Some (err, s') \<and> core_inv s'
        \<and> (if err = OMX_ErrorNone then unat (g_refCount s') = unat (g_refCount s) + 1 else s' = s)))
    \<and> (0 < unat (g_refCount s) \<longrightarrow>
      (\<exists>s'. OMX_Deinit s = Some (OMX_ErrorNone, s') \<and> core_inv s'
        \<and> unat (g_refCount s') + 1 = unat (g_refCount s)))"
proof (intro conjI impI)
  assume lt: "unat (g_refCount s) + 1 < 2 ^ 32"
  then have un: "unat (g_refCount s + 1) = unat (g_refCount s) + 1" by (simp add: unat_word_ariths)
  show "\<exists>err s'. OMX_Init osErr mutexNull s = Some (err, s') \<and> core_inv s'
        \<and> (if err = OMX_ErrorNone then unat (g_refCount s') = unat (g_refCount s) + 1 else s' = s)"
  proof (cases "g_refCount s = 0")
    case True
    with assms show ?thesis by (auto simp: OMX_Init_def InitComponentResourceList_def core_inv_def Let_def)
  next
    case False
    then have "unat (g_refCount s) > 0" by (simp add: unat_gt_0)
    then have "g_refCount s + 1 > 1" "g_refCount s + 1 \<noteq> 0"
      using un by (simp_all add: word_less_nat_alt word_unat_eq_iff)
    with False assms un show ?thesis by (simp add: OMX_Init_def core_inv_def Let_def)
  qed
next
  assume pos: "0 < unat (g_refCount s)"
  show "\<exists>s'. OMX_Deinit s = Some (OMX_ErrorNone, s') \<and> core_inv s' \<and> unat (g_refCount s') + 1 = unat (g_refCount s)"
  proof (cases "g_refCount s = 1")
    case True
    with assms show ?thesis by (simp add: OMX_Deinit_def UninitComponentResourceList_def core_inv_def)
  next
    case False
    have u: "unat (g_refCount s - 1) = unat (g_refCount s) - 1" using pos by (simp add: unat_sub word_le_nat_alt)
    have "g_refCount s \<noteq> 0" using pos by auto
    moreover have "g_refCount s - 1 \<noteq> 0" using False by simp
    ultimately show ?thesis using False assms pos u by (simp add: OMX_Deinit_def core_inv_def)
  qed
qed

text \<open>a deinitialisation too many wraps the count around; the next initialisation then
  brings everything up with a count of zero, so no later deinitialisation tears it down.\<close>

theorem core_deinit_underflow:
  "let s0 = \<lparr>g_refCount = 0, os_up = False, resources_up = False\<rparr> in
   OMX_Deinit s0 = Some (OMX_ErrorNone, s0\<lparr>g_refCount := 4294967295\<rparr>)
   \<and> OMX_Init False False (s0\<lparr>g_refCount := 4294967295\<rparr>)
       = Some (OMX_ErrorNone, \<lparr>g_refCount = 0, os_up = True, resources_up = True\<rparr>)"
proof -
  have wrap: "(4294967296 :: u32) = 0" by simp
  show ?thesis
    unfolding Let_def OMX_Deinit_def OMX_Init_def InitComponentResourceList_def by (simp add: wrap)
qed

text \<open>the stagefright plugin cannot list the roles of any component: it asks for them with
  an array size of zero, gets zero back, and aborts on the comparison with the real number.\<close>

theorem plugin_roles_abort:
  "list_all (\<lambda>e. Plugin_getRolesOfComponent abi (g_components secure) (pName e) = None) (g_components secure)"
proof -
  have "Plugin_getRolesOfComponent abi (g_components secure) (pName e) = None" if "e \<in> set (g_components secure)" for e
    using GetRolesOfComponent_ok [OF that, of abi 0] core_roles_are [OF that]
    by (simp add: Plugin_getRolesOfComponent_def Let_def)
  then show ?thesis by (simp add: list_all_iff)
qed

text \<open>enumerating the component names with the indices 0, 1, 2 and so on yields every name of
  the table in order and then \<open>OMX_ErrorNoMore\<close>; but an index with the top bit set is compared
  as a negative number and reads outside the table.\<close>

theorem component_name_enum:
  "map (\<lambda>i. OMX_ComponentNameEnum (g_components secure) False 128 (of_nat i)) [0..<length (g_components secure)]
     = map (\<lambda>e. Some (OMX_ErrorNone, pName e)) (g_components secure)
   \<and> OMX_ComponentNameEnum (g_components secure) False 128 (of_nat (length (g_components secure)))
     = Some (OMX_ErrorNoMore, [])
   \<and> OMX_ComponentNameEnum (g_components secure) False 128 2147483648 = None"
proof (intro conjI)
  let ?g = "g_components secure"
  have len: "length ?g \<le> 12" by (simp add: g_components_def)
  have short: "length (pName e) \<le> 128" if "e \<in> set ?g" for e
    using that by (auto simp: g_components_def split: if_splits)
  have small: "sint (of_nat i :: u32) = int i" "unat (of_nat i :: u32) = i" if "i \<le> 12" for i
  proof -
    have "i \<in> set [0, 1, 2, 3, 4, 5, 6, 7, 8, 9, 10, 11, 12]" using that by (simp, presburger)
    then show "sint (of_nat i :: u32) = int i" "unat (of_nat i :: u32) = i" by auto
  qed
  show "map (\<lambda>i. OMX_ComponentNameEnum ?g False 128 (of_nat i)) [0..<length ?g]
     = map (\<lambda>e. Some (OMX_ErrorNone, pName e)) ?g"
    using len small short
    by (intro nth_equalityI) (simp_all add: OMX_ComponentNameEnum_def strncpy_str_def)
  show "OMX_ComponentNameEnum ?g False 128 (of_nat (length ?g)) = Some (OMX_ErrorNoMore, [])"
    using len small by (simp add: OMX_ComponentNameEnum_def)
  show "OMX_ComponentNameEnum ?g False 128 2147483648 = None"
    using len by (simp add: OMX_ComponentNameEnum_def)
qed

text \<open>C39: component structures are not leaked. Getting a handle fails without leaving one behind,
  or adds exactly the structure it returns; freeing that handle frees exactly that structure.\<close>

theorem handle_lifecycle:
  assumes "newStruct \<notin> set structs" "OMX_GetHandle comps ctor newStruct hn name cn structs = (err, h, structs')"
  shows "if err = OMX_ErrorNone
    then h = Some newStruct \<and> newStruct \<noteq> NULL \<and> set structs' = insert newStruct (set structs)
       \<and> (\<exists>e. OMX_FreeHandle deinit newStruct structs' = Some (e, structs))
    else h = None \<and> structs' = structs"
  using assms
  by (auto simp: OMX_GetHandle_def OMX_FreeHandle_def Let_def split: option.splits if_splits)

text \<open>setting up a tunnel is all or nothing. If a refused request leaves the components as
  they were and a tear down request undoes the request before it, then a failing call leaves
  both components as it found them.\<close>

theorem setup_tunnel_atomic:
  assumes "\<And>h p h' p' w. fst (request h p h' p' w) \<noteq> OMX_ErrorNone \<Longrightarrow> snd (request h p h' p' w) = w"
    and "\<And>h p h' p' w. h' \<noteq> NULL \<Longrightarrow> fst (request h p h' p' w) = OMX_ErrorNone \<Longrightarrow> snd (request h p NULL 0 (snd (request h p h' p' w))) = w"
    and "OMX_SetupTunnel supports request hOut pOut hIn pIn w = (err, w')" "err \<noteq> OMX_ErrorNone"
  shows "w' = w"
proof -
  note keep = assms(1) [of hOut pOut hIn pIn w] assms(1) [of hOut pOut NULL 0 w] assms(1) [of hIn pIn NULL 0 w]
    assms(1) [of hIn pIn hOut pOut "snd (request hOut pOut hIn pIn w)"] assms(2) [of hIn hOut pOut pIn w]
  from assms(3,4) keep show ?thesis
    by (auto simp: OMX_SetupTunnel_def Let_def split: if_splits prod.splits)
qed

section \<open>Witnesses\<close>

theorem core_refcount_witness:
  "\<exists>s'. OMX_Init False False \<lparr>g_refCount = 1, os_up = True, resources_up = True\<rparr> = Some (OMX_ErrorNone, s')
     \<and> unat (g_refCount s') = 2"
  using core_refcount [of "\<lparr>g_refCount = 1, os_up = True, resources_up = True\<rparr>" False False]
  by (auto simp: core_inv_def OMX_Init_def Let_def)

theorem handle_lifecycle_witness:
  "let r = OMX_GetHandle (g_components False) (\<lambda>_. Some (\<lambda>_. OMX_ErrorHardware)) 8 False
        (Some ''OMX.broadcom.video_encoder'') False [16]
   in r = (OMX_ErrorHardware, None, [16])"
  using handle_lifecycle [of 8 "[16]" "g_components False" "\<lambda>_. Some (\<lambda>_. OMX_ErrorHardware)" False
      "Some ''OMX.broadcom.video_encoder''" False OMX_ErrorHardware None "[16]"]
  by (simp add: OMX_GetHandle_def GetComponentByName_def strcmp_eq_def g_components_def Let_def)

definition demo_request :: "addr \<Rightarrow> u32 \<Rightarrow> addr \<Rightarrow> u32 \<Rightarrow> addr option \<Rightarrow> OMX_ERRORTYPE \<times> addr option" where
  "demo_request h p h' p' w =
     (if h' = NULL then (OMX_ErrorNone, None)
      else if h = 1 \<and> w = None then (OMX_ErrorNone, Some h') else (OMX_ErrorPortsNotCompatible, w))"

theorem setup_tunnel_atomic_witness:
  "OMX_SetupTunnel (\<lambda>_. True) demo_request 1 0 2 0 None = (OMX_ErrorPortsNotCompatible, None)"
  using setup_tunnel_atomic [of demo_request "\<lambda>_. True" 1 0 2 0 None "OMX_ErrorPortsNotCompatible"
      "snd (OMX_SetupTunnel (\<lambda>_. True) demo_request 1 0 2 0 None)"]
  by (simp add: OMX_SetupTunnel_def demo_request_def)

end
