(* ===== verification/Drain.thy ===== *)
theory Drain
  imports Prelude
begin

text \<open>
  The library's loops of the shape \<open>while ((x = first(s)) != NULL) step(s, x);\<close>, which empty a
  queue one element at a time. The loop is a partial function (it may not end, and a step may
  trip an assertion); the locale states what a queue-like object has to promise for the loop
  to end, and proves once what the loop then does.
\<close>

text \<open>\<open>first\<close> returns 0 (NULL) when there is nothing left; a failed assertion is \<open>None\<close>.\<close>

partial_function (option) drain ::
  "('s \<Rightarrow> nat) \<Rightarrow> ('s \<Rightarrow> nat \<Rightarrow> 's option) \<Rightarrow> 's \<Rightarrow> 's option" where
  "drain first step s =
     (if first s = 0 then Some s
      else case step s (first s) of None \<Rightarrow> None | Some s' \<Rightarrow> drain first step s')"

locale drainable =
  fixes first :: "'s \<Rightarrow> nat"
    and step :: "'s \<Rightarrow> nat \<Rightarrow> 's option"
    and pending :: "'s \<Rightarrow> nat list"
    and out :: "'s \<Rightarrow> 'e list"
    and emit :: "'c \<Rightarrow> nat \<Rightarrow> 'e list"
    and ctx :: "'s \<Rightarrow> 'c"
    and inv :: "'s \<Rightarrow> bool"
  assumes first_pending: "inv s \<Longrightarrow> first s = (case pending s of [] \<Rightarrow> 0 | x # _ \<Rightarrow> x)"
    and pending_nonnull: "inv s \<Longrightarrow> 0 \<notin> set (pending s)"
    and step_ok: "inv s \<Longrightarrow> pending s = x # xs \<Longrightarrow>
      \<exists>s'. step s x = Some s' \<and> inv s' \<and> pending s' = xs
         \<and> out s' = out s @ emit (ctx s) x \<and> ctx s' = ctx s"
begin

lemma drain_all:
  assumes "inv s"
  shows "\<exists>s'. drain first step s = Some s' \<and> inv s' \<and> pending s' = [] \<and> ctx s' = ctx s
           \<and> out s' = out s @ concat (map (emit (ctx s)) (pending s))"
  using assms
proof (induction "pending s" arbitrary: s)
  case Nil
  then have "first s = 0" using first_pending [of s] by (simp split: list.splits)
  with Nil show ?case by (simp add: drain.simps [of first step s])
next
  case (Cons x xs)
  then have f: "first s = x" "x \<noteq> 0"
    using first_pending [of s] pending_nonnull [of s] by (auto split: list.splits)
  obtain s' where s': "step s x = Some s'" "inv s'" "pending s' = xs"
    "out s' = out s @ emit (ctx s) x" "ctx s' = ctx s"
    using step_ok [of s x xs] Cons.prems Cons.hyps(2) by auto
  from Cons.hyps(1) [OF s'(3) [symmetric] s'(2)] show ?case
    using f s' Cons.hyps(2) [symmetric] by (auto simp: drain.simps [of first step s])
qed

end

end
