(* ===== verification/Bomx_Port.thy ===== *)
theory Bomx_Port
  imports Bomx_Buffer Drain
begin

text \<open>
  \<open>media/libstagefrighthw/bomx_port.cpp\<close>: an OMX port, its allocated buffers
  (\<open>m_bufferList\<close>), the buffers queued with the component (\<open>m_bufferQueue\<close>) and the port
  definition. Buffers live in an explicit heap; both queues hold buffer addresses. The
  theory ends with the ownership specification the port implements.
\<close>

section \<open>Data\<close>

text \<open>OMX media descriptions that the port only copies are opaque lists of words.\<close>

type_synonym omx_opaque = "u32 list"

datatype port_format =
    FormatAudio omx_opaque | FormatVideo omx_opaque | FormatImage omx_opaque
  | FormatOther omx_opaque | FormatNone

record OMX_PARAM_PORTDEFINITIONTYPE =
  pd_struct :: omx_header
  nPortIndex :: u32
  eDir :: OMX_DIRTYPE
  nBufferCountActual :: u32
  nBufferCountMin :: u32
  nBufferSize :: u32
  bEnabled :: bool
  bPopulated :: bool
  eDomain :: OMX_PORTDOMAINTYPE
  pd_format :: port_format
  bBuffersContiguous :: bool
  nBufferAlignment :: u32

record OMX_AUDIO_PARAM_PORTFORMATTYPE =
  apf_struct :: omx_header
  apf_nPortIndex :: u32
  apf_nIndex :: u32
  apf_eEncoding :: u32

record OMX_VIDEO_PARAM_PORTFORMATTYPE =
  vpf_struct :: omx_header
  vpf_nPortIndex :: u32
  vpf_nIndex :: u32
  vpf_eCompressionFormat :: u32
  vpf_eColorFormat :: u32
  vpf_xFramerate :: u32

record OMX_IMAGE_PARAM_PORTFORMATTYPE =
  ipf_struct :: omx_header
  ipf_nPortIndex :: u32
  ipf_nIndex :: u32
  ipf_eCompressionFormat :: u32
  ipf_eColorFormat :: u32

record OMX_OTHER_PARAM_PORTFORMATTYPE =
  opf_struct :: omx_header
  opf_nPortIndex :: u32
  opf_nIndex :: u32
  opf_eFormat :: u32

text \<open>The format table of the subclass; its length is \<open>m_numPortFormats\<close>.\<close>

datatype port_formats =
    AudioFormats "OMX_AUDIO_PARAM_PORTFORMATTYPE list"
  | VideoFormats "OMX_VIDEO_PARAM_PORTFORMATTYPE list"
  | ImageFormats "OMX_IMAGE_PARAM_PORTFORMATTYPE list"
  | OtherFormats "OMX_OTHER_PARAM_PORTFORMATTYPE list"

record BOMX_Port =
  m_definition :: OMX_PARAM_PORTDEFINITIONTYPE
  m_supplier :: OMX_BUFFERSUPPLIERTYPE
  m_bufferQueue :: "addr list"
  m_bufferList :: "addr list"
  m_componentAllocated :: bool
  m_numBuffers :: u32
  m_queueDepth :: u32
  m_pPortFormats :: port_formats
  m_pTunnelComponent :: addr
  m_pTunnelPort :: addr

type_synonym heap = "addr \<rightharpoonup> BOMX_Buffer"

section \<open>Construction\<close>

text \<open>
  \<open>m_componentAllocated\<close> is not initialised by the constructor: its first value is the
  argument \<open>uninit\<close>. \<open>eDomain\<close> and \<open>format\<close> are set by the subclass constructors.
\<close>

definition new_BOMX_Port ::
  "omx_abi \<Rightarrow> bool \<Rightarrow> u32 \<Rightarrow> OMX_DIRTYPE \<Rightarrow> u32 \<Rightarrow> u32 \<Rightarrow> bool \<Rightarrow> u32 \<Rightarrow> OMX_PORTDOMAINTYPE
   \<Rightarrow> port_format \<Rightarrow> port_formats \<Rightarrow> BOMX_Port" where
  "new_BOMX_Port abi uninit index dir bufferCountMin bufferSize contiguous alignment portDomain fmt fmts =
     \<lparr>m_definition =
        \<lparr>pd_struct = BOMX_STRUCT_INIT abi PORTDEFINITION, nPortIndex = index, eDir = dir,
         nBufferCountActual = bufferCountMin, nBufferCountMin = bufferCountMin,
         nBufferSize = bufferSize, bEnabled = True, bPopulated = False, eDomain = portDomain,
         pd_format = fmt, bBuffersContiguous = contiguous, nBufferAlignment = alignment\<rparr>,
      m_supplier = OMX_BufferSupplyUnspecified,
      m_bufferQueue = [], m_bufferList = [], m_componentAllocated = uninit,
      m_numBuffers = 0, m_queueDepth = 0, m_pPortFormats = fmts,
      m_pTunnelComponent = NULL, m_pTunnelPort = NULL\<rparr>"

definition new_BOMX_AudioPort where
  "new_BOMX_AudioPort abi uninit index dir bufferCountMin bufferSize contiguous alignment
     pAudioDefs pPortFormats =
   new_BOMX_Port abi uninit index dir bufferCountMin bufferSize contiguous alignment
     OMX_PortDomainAudio (FormatAudio pAudioDefs) (AudioFormats pPortFormats)"

definition new_BOMX_VideoPort where
  "new_BOMX_VideoPort abi uninit index dir bufferCountMin bufferSize contiguous alignment
     pVideoDefs pPortFormats =
   new_BOMX_Port abi uninit index dir bufferCountMin bufferSize contiguous alignment
     OMX_PortDomainVideo (FormatVideo pVideoDefs) (VideoFormats pPortFormats)"

definition new_BOMX_ImagePort where
  "new_BOMX_ImagePort abi uninit index dir bufferCountMin bufferSize contiguous alignment
     pImageDefs pPortFormats =
   new_BOMX_Port abi uninit index dir bufferCountMin bufferSize contiguous alignment
     OMX_PortDomainImage (FormatImage pImageDefs) (ImageFormats pPortFormats)"

definition new_BOMX_OtherPort where
  "new_BOMX_OtherPort abi uninit index dir bufferCountMin bufferSize contiguous alignment
     pOtherDefs pPortFormats =
   new_BOMX_Port abi uninit index dir bufferCountMin bufferSize contiguous alignment
     OMX_PortDomainOther (FormatOther pOtherDefs) (OtherFormats pPortFormats)"

section \<open>Accessors\<close>

definition IsEmpty :: "BOMX_Port \<Rightarrow> bool" where "IsEmpty p \<longleftrightarrow> m_numBuffers p = 0"
definition IsPopulated :: "BOMX_Port \<Rightarrow> bool" where "IsPopulated p \<longleftrightarrow> bPopulated (m_definition p)"
definition IsEnabled :: "BOMX_Port \<Rightarrow> bool" where "IsEnabled p \<longleftrightarrow> bEnabled (m_definition p)"
definition IsDisabled :: "BOMX_Port \<Rightarrow> bool" where "IsDisabled p \<longleftrightarrow> \<not> bEnabled (m_definition p)"
definition IsTunneled :: "BOMX_Port \<Rightarrow> bool" where "IsTunneled p \<longleftrightarrow> m_pTunnelPort p \<noteq> NULL"

definition set_def :: "(OMX_PARAM_PORTDEFINITIONTYPE \<Rightarrow> OMX_PARAM_PORTDEFINITIONTYPE) \<Rightarrow> BOMX_Port \<Rightarrow> BOMX_Port"
where "set_def f p = p\<lparr>m_definition := f (m_definition p)\<rparr>"

section \<open>Port formats\<close>

text \<open>The search loops of the four \<open>SetPortFormat\<close> methods, then the assignment.\<close>

definition AudioPort_SetPortFormat ::
  "BOMX_Port \<Rightarrow> OMX_AUDIO_PARAM_PORTFORMATTYPE list \<Rightarrow> OMX_AUDIO_PARAM_PORTFORMATTYPE
   \<Rightarrow> omx_opaque \<Rightarrow> OMX_ERRORTYPE \<times> BOMX_Port" where
  "AudioPort_SetPortFormat p fmts pFormat pDefaults =
     (case find (\<lambda>f. apf_eEncoding f = apf_eEncoding pFormat) fmts of
        None \<Rightarrow> (BOMX_ERR_TRACE OMX_ErrorUnsupportedSetting, p)
      | Some _ \<Rightarrow> (OMX_ErrorNone, set_def (\<lambda>d. d\<lparr>pd_format := FormatAudio pDefaults\<rparr>) p))"

text \<open>\<open>unused\<close> is the enumerator \<open>OMX_VIDEO_CodingUnused\<close> of the OMX headers.\<close>

definition VideoPort_format_matches ::
  "u32 \<Rightarrow> OMX_VIDEO_PARAM_PORTFORMATTYPE \<Rightarrow> OMX_VIDEO_PARAM_PORTFORMATTYPE \<Rightarrow> bool" where
  "VideoPort_format_matches unused pFormat f \<longleftrightarrow>
     vpf_eCompressionFormat f = vpf_eCompressionFormat pFormat
     \<and> (vpf_xFramerate f = 0 \<or> vpf_xFramerate f = vpf_xFramerate pFormat)
     \<and> \<not> (vpf_eCompressionFormat pFormat = unused \<and> vpf_eColorFormat f \<noteq> vpf_eColorFormat pFormat)"

definition VideoPort_SetPortFormat ::
  "u32 \<Rightarrow> BOMX_Port \<Rightarrow> OMX_VIDEO_PARAM_PORTFORMATTYPE list \<Rightarrow> OMX_VIDEO_PARAM_PORTFORMATTYPE
   \<Rightarrow> omx_opaque \<Rightarrow> OMX_ERRORTYPE \<times> BOMX_Port" where
  "VideoPort_SetPortFormat unused p fmts pFormat pDefaults =
     (case find (VideoPort_format_matches unused pFormat) fmts of
        None \<Rightarrow> (BOMX_ERR_TRACE OMX_ErrorUnsupportedSetting, p)
      | Some _ \<Rightarrow> (OMX_ErrorNone, set_def (\<lambda>d. d\<lparr>pd_format := FormatVideo pDefaults\<rparr>) p))"

definition ImagePort_format_matches ::
  "u32 \<Rightarrow> OMX_IMAGE_PARAM_PORTFORMATTYPE \<Rightarrow> OMX_IMAGE_PARAM_PORTFORMATTYPE \<Rightarrow> bool" where
  "ImagePort_format_matches unused pFormat f \<longleftrightarrow>
     ipf_eCompressionFormat f = ipf_eCompressionFormat pFormat
     \<and> \<not> (ipf_eCompressionFormat pFormat = unused \<and> ipf_eColorFormat f \<noteq> ipf_eColorFormat pFormat)"

definition ImagePort_SetPortFormat ::
  "u32 \<Rightarrow> BOMX_Port \<Rightarrow> OMX_IMAGE_PARAM_PORTFORMATTYPE list \<Rightarrow> OMX_IMAGE_PARAM_PORTFORMATTYPE
   \<Rightarrow> omx_opaque \<Rightarrow> OMX_ERRORTYPE \<times> BOMX_Port" where
  "ImagePort_SetPortFormat unused p fmts pFormat pDefaults =
     (case find (ImagePort_format_matches unused pFormat) fmts of
        None \<Rightarrow> (BOMX_ERR_TRACE OMX_ErrorUnsupportedSetting, p)
      | Some _ \<Rightarrow> (OMX_ErrorNone, set_def (\<lambda>d. d\<lparr>pd_format := FormatImage pDefaults\<rparr>) p))"

definition OtherPort_SetPortFormat ::
  "BOMX_Port \<Rightarrow> OMX_OTHER_PARAM_PORTFORMATTYPE list \<Rightarrow> OMX_OTHER_PARAM_PORTFORMATTYPE
   \<Rightarrow> omx_opaque \<Rightarrow> OMX_ERRORTYPE \<times> BOMX_Port" where
  "OtherPort_SetPortFormat p fmts pFormat pDefaults =
     (case find (\<lambda>f. opf_eFormat f = opf_eFormat pFormat) fmts of
        None \<Rightarrow> (BOMX_ERR_TRACE OMX_ErrorUnsupportedSetting, p)
      | Some _ \<Rightarrow> (OMX_ErrorNone, set_def (\<lambda>d. d\<lparr>pd_format := FormatOther pDefaults\<rparr>) p))"

section \<open>Definition, enable and disable\<close>

definition SetDefinition ::
  "omx_abi \<Rightarrow> BOMX_Port \<Rightarrow> OMX_PARAM_PORTDEFINITIONTYPE \<Rightarrow> OMX_ERRORTYPE \<times> BOMX_Port" where
  "SetDefinition abi p pConfig =
     (let v = BOMX_STRUCT_VALIDATE abi PORTDEFINITION (Some (pd_struct pConfig)) in
      if v \<noteq> OMX_ErrorNone then (v, p)
      else let d = m_definition p;
               newConfig = pConfig\<lparr>nPortIndex := nPortIndex d, eDir := eDir d,
                 bEnabled := bEnabled d, bPopulated := bPopulated d, eDomain := eDomain d,
                 bBuffersContiguous := bBuffersContiguous d,
                 nBufferAlignment := nBufferAlignment d\<rparr>
           in (OMX_ErrorNone, p\<lparr>m_definition := newConfig\<rparr>))"

definition Enable :: "BOMX_Port \<Rightarrow> OMX_ERRORTYPE \<times> BOMX_Port" where
  "Enable p =
     (if \<not> bEnabled (m_definition p)
      then (OMX_ErrorNone, set_def (\<lambda>d. d\<lparr>bEnabled := True\<rparr>) p)
      else (BOMX_ERR_TRACE OMX_ErrorIncorrectStateOperation, p))"

definition Disable :: "BOMX_Port \<Rightarrow> OMX_ERRORTYPE \<times> BOMX_Port" where
  "Disable p =
     (if bEnabled (m_definition p)
      then (OMX_ErrorNone, set_def (\<lambda>d. d\<lparr>bEnabled := False, bPopulated := False\<rparr>) p)
      else (BOMX_ERR_TRACE OMX_ErrorIncorrectStateOperation, p))"

section \<open>Adding and removing buffers\<close>

text \<open>
  The two allocations of \<open>AddBuffer\<close> are arguments: whether the node was allocated, and the
  address of the new buffer (NULL when the allocation failed). The result is the error, the
  header handed back (identified by the address of its buffer) and the new heap and port;
  \<open>None\<close>: the assertion \<open>NULL != pBuffer\<close> fails.
\<close>

definition AddBuffer ::
  "omx_abi \<Rightarrow> bool \<Rightarrow> addr \<Rightarrow> heap \<Rightarrow> BOMX_Port \<Rightarrow> addr \<Rightarrow> u32 \<Rightarrow> addr \<Rightarrow> addr \<Rightarrow> bool
   \<Rightarrow> (OMX_ERRORTYPE \<times> addr \<times> heap \<times> BOMX_Port) option" where
  "AddBuffer abi newNode newBuffer hp p appPrivate nSizeBytes pBuffer pComponentPrivate
     componentAllocated =
     (if pBuffer = NULL then None
      else if componentAllocated \<noteq> m_componentAllocated p \<and> m_numBuffers p > 0
      then Some (BOMX_ERR_TRACE OMX_ErrorBadParameter, NULL, hp, p)
      else if IsPopulated p
      then Some (BOMX_ERR_TRACE OMX_ErrorIncorrectStateOperation, NULL, hp, p)
      else if \<not> newNode then Some (BOMX_ERR_TRACE OMX_ErrorUndefined, NULL, hp, p)
      else if newBuffer = NULL then Some (BOMX_ERR_TRACE OMX_ErrorUndefined, NULL, hp, p)
      else
        let omxBuffer =
              (case eDir (m_definition p) of
                 OMX_DirInput \<Rightarrow>
                   (let b = new_BOMX_InputBuffer abi newBuffer appPrivate nSizeBytes pBuffer pComponentPrivate
                    in b\<lparr>m_header := (m_header b)\<lparr>nInputPortIndex := nPortIndex (m_definition p)\<rparr>\<rparr>)
               | OMX_DirOutput \<Rightarrow>
                   (let b = new_BOMX_OutputBuffer abi newBuffer appPrivate nSizeBytes pBuffer pComponentPrivate
                    in b\<lparr>m_header := (m_header b)\<lparr>nOutputPortIndex := nPortIndex (m_definition p)\<rparr>\<rparr>));
            p1 = p\<lparr>m_bufferList := m_bufferList p @ [newBuffer],
                   m_numBuffers := m_numBuffers p + 1,
                   m_componentAllocated := componentAllocated\<rparr>;
            p2 = (if m_numBuffers p1 = nBufferCountActual (m_definition p1)
                  then set_def (\<lambda>d. d\<lparr>bPopulated := True\<rparr>) p1 else p1)
        in Some (OMX_ErrorNone, newBuffer, hp(newBuffer \<mapsto> omxBuffer), p2))"

definition FindBufferNode :: "BOMX_Port \<Rightarrow> addr \<Rightarrow> bool" where
  "FindBufferNode p b \<longleftrightarrow> find (\<lambda>x. x = b) (m_bufferList p) \<noteq> None"

definition IsBufferQueued :: "BOMX_Port \<Rightarrow> addr \<Rightarrow> bool" where
  "IsBufferQueued p b \<longleftrightarrow> find (\<lambda>x. x = b) (m_bufferQueue p) \<noteq> None"

text \<open>\<open>None\<close>: the assertion \<open>NULL != pBuffer\<close> or \<open>m_numBuffers > 0\<close> fails.\<close>

definition RemoveBuffer ::
  "heap \<Rightarrow> BOMX_Port \<Rightarrow> OMX_BUFFERHEADERTYPE \<Rightarrow> (OMX_ERRORTYPE \<times> heap \<times> BOMX_Port) option" where
  "RemoveBuffer hp p pBufferHeader =
     (let pBuffer = pPlatformPrivate pBufferHeader in
      if pBuffer = NULL then None
      else if \<not> FindBufferNode p pBuffer then Some (BOMX_ERR_TRACE OMX_ErrorBadParameter, hp, p)
      else if IsBufferQueued p pBuffer then Some (BOMX_ERR_TRACE OMX_ErrorBadParameter, hp, p)
      else
        let p1 = set_def (\<lambda>d. d\<lparr>bPopulated := False\<rparr>)
                   (p\<lparr>m_bufferList := remove1 pBuffer (m_bufferList p)\<rparr>)
        in if m_numBuffers p1 > 0
           then Some (OMX_ErrorNone, hp(pBuffer := None), p1\<lparr>m_numBuffers := m_numBuffers p1 - 1\<rparr>)
           else None)"

section \<open>The buffer queue\<close>

definition QueueBuffer :: "BOMX_Port \<Rightarrow> OMX_BUFFERHEADERTYPE \<Rightarrow> (OMX_ERRORTYPE \<times> BOMX_Port) option" where
  "QueueBuffer p pBufferHeader =
     (let pBuffer = pPlatformPrivate pBufferHeader in
      if pBuffer = NULL then None
      else if \<not> FindBufferNode p pBuffer then Some (BOMX_ERR_TRACE OMX_ErrorBadParameter, p)
      else if IsBufferQueued p pBuffer then Some (BOMX_ERR_TRACE OMX_ErrorBadParameter, p)
      else Some (OMX_ErrorNone, p\<lparr>m_bufferQueue := m_bufferQueue p @ [pBuffer],
                                 m_queueDepth := m_queueDepth p + 1\<rparr>))"

definition GetBuffer :: "BOMX_Port \<Rightarrow> addr" where
  "GetBuffer p = (case m_bufferQueue p of [] \<Rightarrow> NULL | b # _ \<Rightarrow> b)"

fun next_in_queue :: "addr list \<Rightarrow> addr \<Rightarrow> addr" where
  "next_in_queue [] b = NULL"
| "next_in_queue (x # xs) b =
     (if x = b then (case xs of [] \<Rightarrow> NULL | y # _ \<Rightarrow> y) else next_in_queue xs b)"

definition GetNextBuffer :: "BOMX_Port \<Rightarrow> addr \<Rightarrow> addr" where
  "GetNextBuffer p b = next_in_queue (m_bufferQueue p) b"

text \<open>\<open>None\<close>: one of the two assertions fails (buffer not queued, depth already 0).\<close>

definition BufferComplete :: "BOMX_Port \<Rightarrow> addr \<Rightarrow> BOMX_Port option" where
  "BufferComplete p b =
     (if b \<in> set (m_bufferQueue p) \<and> m_queueDepth p > 0
      then Some (p\<lparr>m_bufferQueue := remove1 b (m_bufferQueue p), m_queueDepth := m_queueDepth p - 1\<rparr>)
      else None)"

text \<open>A null compare function is \<open>None\<close>; the function sees the buffer object.\<close>

definition FindBuffer :: "heap \<Rightarrow> BOMX_Port \<Rightarrow> (BOMX_Buffer option \<Rightarrow> bool) option \<Rightarrow> addr" where
  "FindBuffer hp p pCompareFunc =
     (case pCompareFunc of
        None \<Rightarrow> NULL
      | Some cmp \<Rightarrow> (case find (\<lambda>b. cmp (hp b)) (m_bufferList p) of None \<Rightarrow> NULL | Some b \<Rightarrow> b))"

definition GetPortBuffer :: "BOMX_Port \<Rightarrow> addr" where
  "GetPortBuffer p = (case m_bufferList p of [] \<Rightarrow> NULL | b # _ \<Rightarrow> b)"

section \<open>Tunnels\<close>

text \<open>The peer port is its address and its domain; both NULL tears the tunnel down.\<close>

definition SetTunnel ::
  "BOMX_Port \<Rightarrow> addr \<Rightarrow> addr \<Rightarrow> OMX_PORTDOMAINTYPE \<Rightarrow> (OMX_ERRORTYPE \<times> BOMX_Port) option" where
  "SetTunnel p pComp pPort peerDomain =
     (if m_numBuffers p > 0 then Some (BOMX_ERR_TRACE OMX_ErrorIncorrectStateOperation, p)
      else if pComp = NULL \<and> pPort = NULL
      then Some (OMX_ErrorNone, set_def (\<lambda>d. d\<lparr>bPopulated := False\<rparr>)
                   (p\<lparr>m_pTunnelComponent := NULL, m_pTunnelPort := NULL\<rparr>))
      else if pComp = NULL \<or> pPort = NULL then None
      else if peerDomain \<noteq> eDomain (m_definition p)
      then Some (BOMX_ERR_TRACE OMX_ErrorPortsNotCompatible, p)
      else let p1 = p\<lparr>m_pTunnelComponent := pComp, m_pTunnelPort := pPort\<rparr>
           in Some (OMX_ErrorNone,
                    if IsEnabled p1 then set_def (\<lambda>d. d\<lparr>bPopulated := True\<rparr>) p1 else p1))"

section \<open>Invariant\<close>

definition buffer_ok :: "heap \<Rightarrow> addr \<Rightarrow> bool" where
  "buffer_ok hp b \<longleftrightarrow> b \<noteq> NULL \<and>
     (case hp b of None \<Rightarrow> False | Some x \<Rightarrow> pPlatformPrivate (m_header x) = b)"

definition port_inv :: "heap \<Rightarrow> BOMX_Port \<Rightarrow> bool" where
  "port_inv hp p \<longleftrightarrow>
     distinct (m_bufferList p) \<and> distinct (m_bufferQueue p)
     \<and> set (m_bufferQueue p) \<subseteq> set (m_bufferList p)
     \<and> list_all (buffer_ok hp) (m_bufferList p)
     \<and> length (m_bufferList p) < 2 ^ 32
     \<and> m_numBuffers p = of_nat (length (m_bufferList p))
     \<and> m_queueDepth p = of_nat (length (m_bufferQueue p))"

lemma set_def_simps [simp]:
  "m_definition (set_def f p) = f (m_definition p)"
  "m_supplier (set_def f p) = m_supplier p"
  "m_bufferQueue (set_def f p) = m_bufferQueue p"
  "m_bufferList (set_def f p) = m_bufferList p"
  "m_componentAllocated (set_def f p) = m_componentAllocated p"
  "m_numBuffers (set_def f p) = m_numBuffers p"
  "m_queueDepth (set_def f p) = m_queueDepth p"
  "m_pPortFormats (set_def f p) = m_pPortFormats p"
  "m_pTunnelComponent (set_def f p) = m_pTunnelComponent p"
  "m_pTunnelPort (set_def f p) = m_pTunnelPort p"
  by (simp_all add: set_def_def)

lemma FindBufferNode_iff [simp]: "FindBufferNode p b \<longleftrightarrow> b \<in> set (m_bufferList p)"
  by (auto simp: FindBufferNode_def find_None_iff)

lemma IsBufferQueued_iff [simp]: "IsBufferQueued p b \<longleftrightarrow> b \<in> set (m_bufferQueue p)"
  by (auto simp: IsBufferQueued_def find_None_iff)

lemma port_inv_new: "port_inv hp (new_BOMX_Port abi u i d n sz c al dm f fs)"
  by (simp add: port_inv_def new_BOMX_Port_def)

lemma port_inv_set_def [simp]: "port_inv hp (set_def f p) = port_inv hp p"
  by (simp add: port_inv_def)

lemma port_inv_queue_le: "port_inv hp p \<Longrightarrow> length (m_bufferQueue p) \<le> length (m_bufferList p)"
  unfolding port_inv_def by (metis card_mono distinct_card finite_set)

lemma port_inv_list_nonnull: "port_inv hp p \<Longrightarrow> b \<in> set (m_bufferList p) \<Longrightarrow> b \<noteq> NULL"
  by (auto simp: port_inv_def buffer_ok_def list_all_iff)

lemma port_inv_queue_nonnull: "port_inv hp p \<Longrightarrow> b \<in> set (m_bufferQueue p) \<Longrightarrow> b \<noteq> NULL"
  using port_inv_list_nonnull [of hp p b] by (auto simp: port_inv_def)

lemma word_of_nat_pos: "0 < n \<Longrightarrow> n < 2 ^ 32 \<Longrightarrow> (of_nat n :: u32) > 0"
  by (simp add: word_neq_0_conv [symmetric] of_nat_eq_0_word_iff_small)

lemma port_inv_num_pos: "port_inv hp p \<Longrightarrow> m_numBuffers p > 0 \<longleftrightarrow> m_bufferList p \<noteq> []"
  using word_of_nat_pos [of "length (m_bufferList p)"] by (auto simp: port_inv_def)

lemma port_inv_depth_pos: "port_inv hp p \<Longrightarrow> m_queueDepth p > 0 \<longleftrightarrow> m_bufferQueue p \<noteq> []"
  using port_inv_queue_le [of hp p] word_of_nat_pos [of "length (m_bufferQueue p)"]
  by (auto simp: port_inv_def)

lemma port_inv_IsEmpty: "port_inv hp p \<Longrightarrow> IsEmpty p \<longleftrightarrow> m_bufferList p = []"
  using port_inv_num_pos [of hp p] by (auto simp: IsEmpty_def word_neq_0_conv [symmetric])

text \<open>The invariant reads the heap only at the port's own buffers.\<close>

lemma port_inv_heap_cong:
  "(\<And>b. b \<in> set (m_bufferList p) \<Longrightarrow> hp' b = hp b) \<Longrightarrow> port_inv hp' p = port_inv hp p"
  by (simp add: port_inv_def buffer_ok_def list_all_iff)

section \<open>Operations under the invariant\<close>

lemma AddBuffer_cases:
  assumes "AddBuffer abi nn a hp p ap n pb cp ca = Some (err, hdr, hp', p')"
  shows "(err \<noteq> OMX_ErrorNone \<and> hdr = NULL \<and> hp' = hp \<and> p' = p)
       \<or> (err = OMX_ErrorNone \<and> hdr = a \<and> a \<noteq> NULL
          \<and> (\<exists>x. hp' = hp(a \<mapsto> x) \<and> pPlatformPrivate (m_header x) = a \<and> m_dir x = eDir (m_definition p))
          \<and> m_bufferList p' = m_bufferList p @ [a] \<and> m_bufferQueue p' = m_bufferQueue p
          \<and> m_numBuffers p' = m_numBuffers p + 1 \<and> m_queueDepth p' = m_queueDepth p)"
  using assms
  by (auto simp: AddBuffer_def Let_def new_BOMX_InputBuffer_def new_BOMX_OutputBuffer_def
      new_BOMX_Buffer_def split: if_splits OMX_DIRTYPE.splits)

lemma AddBuffer_inv:
  assumes inv: "port_inv hp p" and fresh: "hp a = None" and room: "Suc (length (m_bufferList p)) < 2 ^ 32"
    and res: "AddBuffer abi nn a hp p ap n pb cp ca = Some (err, hdr, hp', p')"
  shows "port_inv hp' p'"
proof -
  have notin: "a \<notin> set (m_bufferList p)"
    using inv fresh by (auto simp: port_inv_def buffer_ok_def list_all_iff split: option.splits)
  then have other: "list_all (buffer_ok (hp(a \<mapsto> x))) (m_bufferList p)" for x
    using inv by (auto simp: port_inv_def buffer_ok_def list_all_iff split: option.splits)
  from AddBuffer_cases [OF res] show ?thesis
  proof (elim disjE conjE exE)
    fix x assume hp': "hp' = hp(a \<mapsto> x)" and x: "pPlatformPrivate (m_header x) = a" and a: "a \<noteq> NULL"
      and p': "m_bufferList p' = m_bufferList p @ [a]" "m_bufferQueue p' = m_bufferQueue p"
      "m_numBuffers p' = m_numBuffers p + 1" "m_queueDepth p' = m_queueDepth p"
    have "buffer_ok hp' a" using hp' x a by (simp add: buffer_ok_def)
    then show ?thesis using inv room notin other [of x] hp' p' unfolding port_inv_def by auto
  qed (use inv in simp)
qed

lemma RemoveBuffer_result:
  assumes inv: "port_inv hp p" and b: "pPlatformPrivate h = b" "b \<noteq> NULL"
  shows "RemoveBuffer hp p h =
    (if b \<in> set (m_bufferList p) \<and> b \<notin> set (m_bufferQueue p)
     then Some (OMX_ErrorNone, hp(b := None),
            set_def (\<lambda>d. d\<lparr>bPopulated := False\<rparr>)
              (p\<lparr>m_bufferList := remove1 b (m_bufferList p), m_numBuffers := m_numBuffers p - 1\<rparr>))
     else Some (OMX_ErrorBadParameter, hp, p))"
proof (cases "b \<in> set (m_bufferList p)")
  case True
  then have "m_numBuffers p > 0" using port_inv_num_pos [OF inv] by auto
  with True b show ?thesis by (simp add: RemoveBuffer_def Let_def set_def_def)
qed (simp add: RemoveBuffer_def Let_def b)

lemma RemoveBuffer_inv:
  assumes inv: "port_inv hp p" and res: "RemoveBuffer hp p h = Some (err, hp', p')"
  shows "port_inv hp' p'"
proof (cases "err = OMX_ErrorNone")
  case True
  let ?b = "pPlatformPrivate h"
  have nn: "?b \<noteq> NULL" using res by (cases "?b = NULL") (simp_all add: RemoveBuffer_def)
  with True res RemoveBuffer_result [OF inv refl nn]
  have mem: "?b \<in> set (m_bufferList p)" and nq: "?b \<notin> set (m_bufferQueue p)"
    and hp': "hp' = hp(?b := None)" and p': "m_bufferList p' = remove1 ?b (m_bufferList p)"
    "m_bufferQueue p' = m_bufferQueue p" "m_numBuffers p' = m_numBuffers p - 1"
    "m_queueDepth p' = m_queueDepth p"
    by (auto split: if_splits)
  have len: "length (remove1 ?b (m_bufferList p)) < 2 ^ 32"
    using inv length_remove1_mem [OF mem] by (simp add: port_inv_def)
  have ok: "list_all (buffer_ok hp') (remove1 ?b (m_bufferList p))"
    using inv hp' by (auto simp: port_inv_def buffer_ok_def list_all_iff set_remove1_eq split: option.splits)
  show ?thesis
    using inv mem nq p' len ok
    by (auto simp: port_inv_def set_remove1_eq of_nat_length_remove1)
next
  case False
  then have "hp' = hp \<and> p' = p" using res by (auto simp: RemoveBuffer_def Let_def split: if_splits)
  with inv show ?thesis by simp
qed

lemma QueueBuffer_result:
  assumes "pPlatformPrivate h = b" "b \<noteq> NULL"
  shows "QueueBuffer p h =
    (if b \<in> set (m_bufferList p) \<and> b \<notin> set (m_bufferQueue p)
     then Some (OMX_ErrorNone, p\<lparr>m_bufferQueue := m_bufferQueue p @ [b], m_queueDepth := m_queueDepth p + 1\<rparr>)
     else Some (OMX_ErrorBadParameter, p))"
  using assms by (auto simp: QueueBuffer_def Let_def)

lemma QueueBuffer_inv:
  "port_inv hp p \<Longrightarrow> QueueBuffer p h = Some (err, p') \<Longrightarrow> port_inv hp p'"
  by (auto simp: QueueBuffer_def Let_def port_inv_def split: if_splits)

lemma BufferComplete_result:
  assumes "port_inv hp p" "b \<in> set (m_bufferQueue p)"
  shows "BufferComplete p b =
    Some (p\<lparr>m_bufferQueue := remove1 b (m_bufferQueue p), m_queueDepth := m_queueDepth p - 1\<rparr>)"
  using assms port_inv_depth_pos [OF assms(1)] by (auto simp: BufferComplete_def)

lemma BufferComplete_inv:
  "port_inv hp p \<Longrightarrow> BufferComplete p b = Some p' \<Longrightarrow> port_inv hp p'"
  by (auto simp: BufferComplete_def port_inv_def of_nat_length_remove1 split: if_splits
      dest: in_set_remove1 [THEN iffD1, rotated] notin_set_remove1)

lemma Enable_inv: "port_inv hp p \<Longrightarrow> port_inv hp (snd (Enable p))"
  by (simp add: Enable_def)

lemma Disable_inv: "port_inv hp p \<Longrightarrow> port_inv hp (snd (Disable p))"
  by (simp add: Disable_def)

lemma SetDefinition_inv: "port_inv hp p \<Longrightarrow> port_inv hp (snd (SetDefinition abi p cfg))"
  by (simp add: SetDefinition_def Let_def port_inv_def)

lemma SetTunnel_inv: "port_inv hp p \<Longrightarrow> SetTunnel p c q dm = Some (err, p') \<Longrightarrow> port_inv hp p'"
  by (auto simp: SetTunnel_def Let_def port_inv_def split: if_splits)

lemma GetBuffer_eq: "GetBuffer p = (case m_bufferQueue p of [] \<Rightarrow> NULL | b # _ \<Rightarrow> b)"
  by (simp add: GetBuffer_def)

lemma GetBuffer_null: "port_inv hp p \<Longrightarrow> GetBuffer p = NULL \<longleftrightarrow> m_bufferQueue p = []"
  using port_inv_queue_nonnull [of hp p] by (auto simp: GetBuffer_def split: list.splits)

lemma GetBuffer_mem: "GetBuffer p \<noteq> NULL \<Longrightarrow> GetBuffer p \<in> set (m_bufferQueue p)"
  by (auto simp: GetBuffer_def split: list.splits)

lemma next_in_queue_split:
  "distinct (xs @ b # ys) \<Longrightarrow> next_in_queue (xs @ b # ys) b = (case ys of [] \<Rightarrow> NULL | y # _ \<Rightarrow> y)"
  by (induction xs) auto

lemma next_in_queue_notin: "b \<notin> set xs \<Longrightarrow> next_in_queue xs b = NULL"
  by (induction xs) auto

section \<open>Ownership\<close>

text \<open>
  What a port promises its client: every buffer of the port is either with the component, in
  the order it was handed over, or with the client. The events are the accepted calls.
\<close>

record ownership =
  with_component :: "addr list"
  with_client :: "addr set"

datatype port_event = EvAdd addr | EvRemove addr | EvQueue addr | EvComplete addr | EvOther

definition own_step :: "ownership \<Rightarrow> port_event \<Rightarrow> ownership option" where
  "own_step s ev =
     (case ev of
        EvAdd b \<Rightarrow> if b \<in> with_client s \<or> b \<in> set (with_component s) then None
                   else Some (s\<lparr>with_client := insert b (with_client s)\<rparr>)
      | EvRemove b \<Rightarrow> if b \<in> with_client s then Some (s\<lparr>with_client := with_client s - {b}\<rparr>) else None
      | EvQueue b \<Rightarrow> if b \<in> with_client s
                     then Some \<lparr>with_component = with_component s @ [b], with_client = with_client s - {b}\<rparr>
                     else None
      | EvComplete b \<Rightarrow> if b \<in> set (with_component s)
                        then Some \<lparr>with_component = remove1 b (with_component s),
                                   with_client = insert b (with_client s)\<rparr>
                        else None
      | EvOther \<Rightarrow> Some s)"

definition own :: "BOMX_Port \<Rightarrow> ownership" where
  "own p = \<lparr>with_component = m_bufferQueue p,
            with_client = set (m_bufferList p) - set (m_bufferQueue p)\<rparr>"

text \<open>
  The steps of a port between the client and the component: every mutating method, with
  whatever arguments, provided a new buffer gets a fresh address and no assertion on the
  arguments fails, and the client writing any header field but \<open>pPlatformPrivate\<close>.
\<close>

inductive port_step :: "omx_abi \<Rightarrow> heap \<times> BOMX_Port \<Rightarrow> port_event \<Rightarrow> heap \<times> BOMX_Port \<Rightarrow> bool"
  for abi where
  step_add: "\<lbrakk>hp a = None; Suc (length (m_bufferList p)) < 2 ^ 32;
      AddBuffer abi nn a hp p ap n pb cp ca = Some (err, hdr, hp', p')\<rbrakk>
    \<Longrightarrow> port_step abi (hp, p) (if err = OMX_ErrorNone then EvAdd a else EvOther) (hp', p')"
| step_remove: "RemoveBuffer hp p h = Some (err, hp', p')
    \<Longrightarrow> port_step abi (hp, p) (if err = OMX_ErrorNone then EvRemove (pPlatformPrivate h) else EvOther) (hp', p')"
| step_queue: "QueueBuffer p h = Some (err, p')
    \<Longrightarrow> port_step abi (hp, p) (if err = OMX_ErrorNone then EvQueue (pPlatformPrivate h) else EvOther) (hp, p')"
| step_complete: "BufferComplete p b = Some p' \<Longrightarrow> port_step abi (hp, p) (EvComplete b) (hp, p')"
| step_enable: "port_step abi (hp, p) EvOther (hp, snd (Enable p))"
| step_disable: "port_step abi (hp, p) EvOther (hp, snd (Disable p))"
| step_define: "port_step abi (hp, p) EvOther (hp, snd (SetDefinition abi p cfg))"
| step_tunnel: "SetTunnel p c q dm = Some (err, p') \<Longrightarrow> port_step abi (hp, p) EvOther (hp, p')"
| step_client_write: "\<lbrakk>hp b = Some x; pPlatformPrivate h = pPlatformPrivate (m_header x)\<rbrakk>
    \<Longrightarrow> port_step abi (hp, p) EvOther (hp(b \<mapsto> x\<lparr>m_header := h\<rparr>), p)"

inductive_cases port_step_elim: "port_step abi (hp, p) ev (hp', p')"

inductive port_run :: "omx_abi \<Rightarrow> heap \<times> BOMX_Port \<Rightarrow> port_event list \<Rightarrow> heap \<times> BOMX_Port \<Rightarrow> bool"
  for abi where
  run_nil: "port_run abi s [] s"
| run_snoc: "port_run abi s evs s' \<Longrightarrow> port_step abi s' ev s'' \<Longrightarrow> port_run abi s (evs @ [ev]) s''"

fun own_run :: "ownership \<Rightarrow> port_event list \<Rightarrow> ownership option" where
  "own_run s [] = Some s"
| "own_run s (ev # evs) = Option.bind (own_step s ev) (\<lambda>s'. own_run s' evs)"

lemma own_run_snoc: "own_run s (evs @ [ev]) = Option.bind (own_run s evs) (\<lambda>s'. own_step s' ev)"
  by (induction evs arbitrary: s) (auto split: Option.bind_splits)

lemma client_write_inv:
  "port_inv hp p \<Longrightarrow> hp b = Some x \<Longrightarrow> pPlatformPrivate h = pPlatformPrivate (m_header x)
   \<Longrightarrow> port_inv (hp(b \<mapsto> x\<lparr>m_header := h\<rparr>)) p"
  by (auto simp: port_inv_def buffer_ok_def list_all_iff)

lemma port_step_inv: "port_step abi (hp, p) ev (hp', p') \<Longrightarrow> port_inv hp p \<Longrightarrow> port_inv hp' p'"
  by (erule port_step_elim)
     (auto intro: AddBuffer_inv RemoveBuffer_inv QueueBuffer_inv BufferComplete_inv Enable_inv
        Disable_inv SetDefinition_inv SetTunnel_inv client_write_inv)

lemma own_set_def [simp]: "own (set_def f p) = own p"
  by (simp add: own_def)

lemma own_add:
  assumes "port_inv hp p" "hp a = None" "AddBuffer abi nn a hp p ap n pb cp ca = Some (err, hdr, hp', p')"
  shows "own_step (own p) (if err = OMX_ErrorNone then EvAdd a else EvOther) = Some (own p')"
proof -
  have "a \<notin> set (m_bufferList p)"
    using assms(1,2) by (auto simp: port_inv_def buffer_ok_def list_all_iff split: option.splits)
  moreover have "a \<notin> set (m_bufferQueue p)" using calculation assms(1) by (auto simp: port_inv_def)
  ultimately show ?thesis using AddBuffer_cases [OF assms(3)]
    by (auto simp: own_step_def own_def)
qed

lemma own_remove:
  assumes inv: "port_inv hp p" and res: "RemoveBuffer hp p h = Some (err, hp', p')"
  shows "own_step (own p) (if err = OMX_ErrorNone then EvRemove (pPlatformPrivate h) else EvOther) = Some (own p')"
proof -
  have nn: "pPlatformPrivate h \<noteq> NULL"
    using res by (cases "pPlatformPrivate h = NULL") (simp_all add: RemoveBuffer_def)
  have "distinct (m_bufferList p)" using inv by (simp add: port_inv_def)
  with res RemoveBuffer_result [OF inv refl nn] show ?thesis
    by (auto simp: own_step_def own_def split: if_splits)
qed

lemma own_queue:
  assumes inv: "port_inv hp p" and res: "QueueBuffer p h = Some (err, p')"
  shows "own_step (own p) (if err = OMX_ErrorNone then EvQueue (pPlatformPrivate h) else EvOther) = Some (own p')"
  using assms by (auto simp: QueueBuffer_def Let_def own_step_def own_def split: if_splits)

lemma own_complete:
  assumes "port_inv hp p" "BufferComplete p b = Some p'"
  shows "own_step (own p) (EvComplete b) = Some (own p')"
  using assms by (auto simp: BufferComplete_def own_step_def own_def port_inv_def split: if_splits)

lemma own_other: "own_step s EvOther = Some s"
  by (simp add: own_step_def)

lemma own_unchanged:
  "own (snd (Enable p)) = own p" "own (snd (Disable p)) = own p"
  "own (snd (SetDefinition abi p cfg)) = own p"
  by (simp_all add: Enable_def Disable_def SetDefinition_def Let_def own_def)

lemma own_tunnel: "SetTunnel p c q dm = Some (err, p') \<Longrightarrow> own p' = own p"
  by (auto simp: SetTunnel_def Let_def own_def split: if_splits)

lemma port_step_own:
  assumes "port_step abi (hp, p) ev (hp', p')" "port_inv hp p"
  shows "own_step (own p) ev = Some (own p')"
  using assms(1)
proof (cases rule: port_step.cases)
  case step_add
  then show ?thesis using own_add [OF assms(2)] by blast
next
  case step_remove
  then show ?thesis using own_remove [OF assms(2)] by blast
next
  case step_queue
  then show ?thesis using own_queue [OF assms(2)] by blast
next
  case step_complete
  then show ?thesis using own_complete [OF assms(2)] by blast
next
  case step_tunnel
  then show ?thesis by (auto simp: own_other own_tunnel)
qed (simp_all add: own_other own_unchanged)

lemma port_run_own:
  assumes "port_run abi s evs s'" "port_inv (fst s) (snd s)"
  shows "port_inv (fst s') (snd s') \<and> own_run (own (snd s)) evs = Some (own (snd s'))"
  using assms
proof (induction rule: port_run.induct)
  case (run_snoc s evs s' ev s'')
  then have step: "port_step abi (fst s', snd s') ev (fst s'', snd s'')" by simp
  from run_snoc port_step_inv [OF step] port_step_own [OF step] show ?case
    by (simp add: own_run_snoc)
qed simp

section \<open>Properties\<close>

text \<open>C2: a port refines the ownership contract. Whatever sequence of calls a client and the
  component make on a newly built port, the two buffer queues, their counters and the heap stay
  consistent, and the accepted calls move every buffer between the client and the component
  exactly as the contract says: handed over in order, never queued twice, never freed while
  queued.\<close>

theorem port_refines_ownership:
  assumes "port_run abi (hp, new_BOMX_Port abi u i d n sz c al dm f fs) evs (hp', p')"
  shows "port_inv hp' p'
       \<and> own_run \<lparr>with_component = [], with_client = {}\<rparr> evs = Some (own p')"
  using port_run_own [OF assms] port_inv_new [of hp abi u i d n sz c al dm f fs]
  by (simp add: own_def new_BOMX_Port_def)

text \<open>C31: the calls a port accepts are those the contract allows: with a consistent port, an
  empty-this-buffer or fill-this-buffer call is accepted exactly for a buffer the client holds,
  a free call exactly for a buffer the client holds, a completion exactly for a queued one; a
  refused call changes nothing.\<close>

theorem port_accepts_iff_owned:
  assumes "port_inv hp p" "pPlatformPrivate h \<noteq> NULL"
  shows "(\<exists>err p'. QueueBuffer p h = Some (err, p')
            \<and> (err = OMX_ErrorNone \<longleftrightarrow> pPlatformPrivate h \<in> with_client (own p))
            \<and> (err \<noteq> OMX_ErrorNone \<longrightarrow> p' = p))
       \<and> (\<exists>err hp' p'. RemoveBuffer hp p h = Some (err, hp', p')
            \<and> (err = OMX_ErrorNone \<longleftrightarrow> pPlatformPrivate h \<in> with_client (own p))
            \<and> (err \<noteq> OMX_ErrorNone \<longrightarrow> hp' = hp \<and> p' = p))
       \<and> (BufferComplete p b \<noteq> None \<longleftrightarrow> b \<in> set (with_component (own p)))"
proof (intro conjI)
  show "BufferComplete p b \<noteq> None \<longleftrightarrow> b \<in> set (with_component (own p))"
    using BufferComplete_result [OF assms(1), of b] by (auto simp: own_def BufferComplete_def)
qed (simp_all add: QueueBuffer_result [OF refl assms(2)] RemoveBuffer_result [OF assms(1) refl assms(2)] own_def)

text \<open>walking the queue with \<open>GetBuffer\<close> and \<open>GetNextBuffer\<close> visits the queued buffers in
  order: the successor of the k-th queued buffer is the (k+1)-th, and NULL after the last.\<close>

theorem GetNextBuffer_walks_queue:
  assumes "port_inv hp p" "k < length (m_bufferQueue p)"
  shows "GetBuffer p = m_bufferQueue p ! 0
       \<and> GetNextBuffer p (m_bufferQueue p ! k) =
           (if Suc k < length (m_bufferQueue p) then m_bufferQueue p ! Suc k else NULL)"
proof -
  let ?q = "m_bufferQueue p"
  have split: "?q = take k ?q @ ?q ! k # drop (Suc k) ?q" using assms(2) by (rule id_take_nth_drop)
  have "distinct ?q" using assms(1) by (simp add: port_inv_def)
  then have "next_in_queue ?q (?q ! k) = (case drop (Suc k) ?q of [] \<Rightarrow> NULL | y # _ \<Rightarrow> y)"
    using next_in_queue_split [of "take k ?q" "?q ! k" "drop (Suc k) ?q"] split by simp
  also have "\<dots> = (if Suc k < length ?q then ?q ! Suc k else NULL)"
    by (cases "Suc k < length ?q") (simp_all add: Cons_nth_drop_Suc [symmetric])
  finally show ?thesis
    using assms(2) by (cases ?q) (simp_all add: GetBuffer_def GetNextBuffer_def)
qed

text \<open>changing a port definition never changes the fields the OMX specification makes
  read-only, nor the buffers; a definition with a wrong size or version is refused.\<close>

theorem SetDefinition_keeps_read_only:
  "let (err, p') = SetDefinition abi p cfg; d = m_definition p; d' = m_definition p' in
   (nPortIndex d', eDir d', bEnabled d', bPopulated d', eDomain d', bBuffersContiguous d', nBufferAlignment d')
   = (nPortIndex d, eDir d, bEnabled d, bPopulated d, eDomain d, bBuffersContiguous d, nBufferAlignment d)
   \<and> m_bufferList p' = m_bufferList p \<and> m_bufferQueue p' = m_bufferQueue p
   \<and> (err = OMX_ErrorNone \<longleftrightarrow> BOMX_STRUCT_VALIDATE abi PORTDEFINITION (Some (pd_struct cfg)) = OMX_ErrorNone)
   \<and> (if err = OMX_ErrorNone
      then (nBufferCountActual d', nBufferSize d', pd_format d') = (nBufferCountActual cfg, nBufferSize cfg, pd_format cfg)
      else p' = p)"
  by (simp add: SetDefinition_def Let_def)

text \<open>adding buffers to an empty enabled port populates it exactly when the number of
  accepted calls reaches \<open>nBufferCountActual\<close>, and the next call is refused.\<close>

theorem AddBuffer_populates:
  assumes inv: "port_inv hp p" and "\<not> IsPopulated p" "pb \<noteq> NULL" "a \<noteq> NULL"
    and ca: "m_bufferList p = [] \<or> ca = m_componentAllocated p"
    and cnt: "Suc (length (m_bufferList p)) < 2 ^ 32"
  shows "\<exists>hp' p'. AddBuffer abi True a hp p ap n pb cp ca = Some (OMX_ErrorNone, a, hp', p')
       \<and> (IsPopulated p' \<longleftrightarrow> Suc (length (m_bufferList p)) = unat (nBufferCountActual (m_definition p)))
       \<and> (IsPopulated p' \<longrightarrow> AddBuffer abi nn a' hp' p' ap n pb cp ca
              = Some (OMX_ErrorIncorrectStateOperation, NULL, hp', p'))"
proof -
  let ?n = "length (m_bufferList p)"
  have num: "m_numBuffers p = of_nat ?n" using inv by (simp add: port_inv_def)
  have ok: "\<not> (ca \<noteq> m_componentAllocated p \<and> m_numBuffers p > 0)"
    using ca port_inv_num_pos [OF inv] by auto
  have "m_numBuffers p + 1 = nBufferCountActual (m_definition p)
      \<longleftrightarrow> (of_nat (Suc ?n) :: u32) = nBufferCountActual (m_definition p)"
    by (simp add: num add.commute)
  also have "\<dots> \<longleftrightarrow> Suc ?n = unat (nBufferCountActual (m_definition p))"
    using cnt by (rule of_nat_eq_word_iff)
  finally show ?thesis
    using assms(2-4) ok by (auto simp: AddBuffer_def Let_def IsPopulated_def)
qed

text \<open>the comment in \<open>Disable\<close> says a disabled port never reports populated; adding the
  last buffer to a disabled port makes it so.\<close>

theorem AddBuffer_disabled_populated:
  "let p = snd (Disable (new_BOMX_AudioPort omx_il_abi False 0 OMX_DirInput 1 100 False 1 [] [])) in
   IsDisabled p \<and>
   (case AddBuffer omx_il_abi True 8 Map.empty p 0 100 4096 0 False of
      None \<Rightarrow> False
    | Some (err, _, _, p') \<Rightarrow> err = OMX_ErrorNone \<and> IsDisabled p' \<and> IsPopulated p')"
  by (simp add: AddBuffer_def Let_def IsPopulated_def IsDisabled_def Disable_def
       new_BOMX_AudioPort_def new_BOMX_Port_def)

section \<open>Witnesses\<close>

text \<open>An input port with room for two buffers, then with one added, then with it queued.\<close>

definition demo_port :: BOMX_Port where
  "demo_port = new_BOMX_AudioPort omx_il_abi False 0 OMX_DirInput 2 100 False 1 [] []"

definition demo_buffer :: BOMX_Buffer where
  "demo_buffer = new_BOMX_InputBuffer omx_il_abi 8 0 100 4096 0"

definition demo_added :: "heap \<times> BOMX_Port" where
  "demo_added = ([8 \<mapsto> demo_buffer], demo_port\<lparr>m_bufferList := [8], m_numBuffers := 1\<rparr>)"

definition demo_queued :: BOMX_Port where
  "demo_queued = (snd demo_added)\<lparr>m_bufferQueue := [8], m_queueDepth := 1\<rparr>"

abbreviation demo_header :: OMX_BUFFERHEADERTYPE where
  "demo_header \<equiv> m_header demo_buffer"

lemma demo_simps [simp]:
  "m_bufferList demo_port = []" "m_bufferQueue demo_port = []" "m_numBuffers demo_port = 0"
  "m_queueDepth demo_port = 0" "m_componentAllocated demo_port = False"
  "nBufferCountActual (m_definition demo_port) = 2" "bPopulated (m_definition demo_port) = False"
  "pPlatformPrivate (m_header demo_buffer) = 8"
  "m_bufferList (snd demo_added) = [8]" "m_bufferQueue (snd demo_added) = []"
  "m_bufferList demo_queued = [8]" "m_bufferQueue demo_queued = [8]"
  by (simp_all add: demo_port_def demo_added_def demo_queued_def demo_buffer_def new_BOMX_AudioPort_def
      new_BOMX_Port_def new_BOMX_InputBuffer_def new_BOMX_Buffer_def)

lemma demo_add:
  "AddBuffer omx_il_abi True 8 Map.empty demo_port 0 100 4096 0 False
     = Some (OMX_ErrorNone, 8, fst demo_added, snd demo_added)"
  by (simp add: demo_added_def demo_buffer_def demo_port_def AddBuffer_def Let_def IsPopulated_def
      new_BOMX_AudioPort_def new_BOMX_Port_def new_BOMX_InputBuffer_def new_BOMX_Buffer_def)

lemma demo_queue: "QueueBuffer (snd demo_added) demo_header = Some (OMX_ErrorNone, demo_queued)"
  by (simp add: demo_queued_def demo_added_def QueueBuffer_def Let_def)

lemma demo_added_inv: "port_inv (fst demo_added) (snd demo_added)"
  by (rule AddBuffer_inv [OF _ _ _ demo_add]) (simp_all add: port_inv_def)

lemma demo_queued_inv: "port_inv (fst demo_added) demo_queued"
  using QueueBuffer_inv [OF demo_added_inv demo_queue] .

lemma demo_run: "port_run omx_il_abi (Map.empty, demo_port) [EvAdd 8, EvQueue 8] (fst demo_added, demo_queued)"
proof -
  have "port_step omx_il_abi (Map.empty, demo_port) (EvAdd 8) demo_added"
    using step_add [OF _ _ demo_add] by simp
  then have one: "port_run omx_il_abi (Map.empty, demo_port) ([] @ [EvAdd 8]) demo_added"
    by (rule run_snoc [OF run_nil])
  have "port_step omx_il_abi (fst demo_added, snd demo_added) (EvQueue 8) (fst demo_added, demo_queued)"
    using step_queue [OF demo_queue, of omx_il_abi "fst demo_added"] by simp
  then show ?thesis using run_snoc [OF one] by simp
qed

theorem port_refines_ownership_witness:
  "port_inv (fst demo_added) demo_queued
   \<and> own_run \<lparr>with_component = [], with_client = {}\<rparr> [EvAdd 8, EvQueue 8] = Some (own demo_queued)"
  using demo_run unfolding demo_port_def new_BOMX_AudioPort_def by (rule port_refines_ownership)

theorem port_accepts_iff_owned_witness:
  "with_client (own (snd demo_added)) = {8} \<and>
   (\<exists>p'. QueueBuffer (snd demo_added) demo_header = Some (OMX_ErrorNone, p'))"
  using port_accepts_iff_owned [OF demo_added_inv, of demo_header 8]
  by (auto simp: own_def)

theorem GetNextBuffer_walks_queue_witness:
  "GetBuffer demo_queued = 8 \<and> GetNextBuffer demo_queued 8 = NULL"
  using GetNextBuffer_walks_queue [OF demo_queued_inv, of 0] by simp

theorem AddBuffer_populates_witness:
  "\<exists>hp' p'. AddBuffer omx_il_abi True 16 (fst demo_added) (snd demo_added) 0 100 8192 0 False
     = Some (OMX_ErrorNone, 16, hp', p') \<and> IsPopulated p'"
  using AddBuffer_populates [OF demo_added_inv, of 8192 16 False omx_il_abi 0 100 0 True 24]
  by (auto simp: IsPopulated_def demo_added_def)

end
