(* ===== verification/Bomx_Component.thy ===== *)
theory Bomx_Component
  imports Bomx_Port
begin

text \<open>
  \<open>media/libstagefrighthw/bomx_component.cpp\<close>: the base class of every OMX component: its
  ports, the OMX state machine, the command queue and its handler, and the return of port
  buffers to the client. A callback into the client is an entry of the log, with the state of
  the component mutex at that moment. What the subclass implements is a record of functions
  (\<open>hooks\<close>) over the protected members: it can read the private state fields, not write them.
\<close>

section \<open>Data\<close>

datatype OMX_COMMANDTYPE =
    OMX_CommandStateSet | OMX_CommandFlush | OMX_CommandPortDisable | OMX_CommandPortEnable
  | OMX_CommandMarkBuffer | OMX_CommandOther u32

text \<open>\<open>markType\<close> is the data of a mark command, copied and passed through unread.\<close>

record BOMX_CommandMsg =
  msg_command :: OMX_COMMANDTYPE
  msg_nParam1 :: u32
  msg_markType :: nat

datatype omx_callback =
    EventCmdComplete OMX_COMMANDTYPE u32 "nat option"
  | EventError OMX_ERRORTYPE OMX_COMMANDTYPE "nat option"
  | EventBufferFlag
  | EventPortSettingsChanged u32
  | EmptyBufferDone addr
  | FillBufferDone addr

text \<open>
  The protected members. The four port arrays are lists (their length is \<open>m_numXPorts\<close>, at most
  \<open>BOMX_COMPONENT_MAX_PORTS\<close>); of the client's callback table the code only asks whether an
  entry is null. \<open>m_eosSet\<close> holds the tunnelled components whose EOS event was set.
\<close>

record 's BOMX_Component =
  m_pAudioPorts :: "BOMX_Port list"
  m_audioPortBase :: u32
  m_pImagePorts :: "BOMX_Port list"
  m_imagePortBase :: u32
  m_pVideoPorts :: "BOMX_Port list"
  m_videoPortBase :: u32
  m_pOtherPorts :: "BOMX_Port list"
  m_otherPortBase :: u32
  cb_EventHandler :: bool
  cb_EmptyBufferDone :: bool
  cb_FillBufferDone :: bool
  pApplicationPrivate :: addr
  m_locked :: bool
  m_log :: "(bool \<times> omx_callback) list"
  m_eosSet :: "addr list"
  m_version :: u32
  m_uuid :: string
  m_componentName :: string
  m_componentRole :: string
  m_heap :: heap
  m_sub :: 's

text \<open>The private members: the state machine.\<close>

record 's component =
  prot :: "'s BOMX_Component"
  m_currentState :: OMX_STATETYPE
  m_targetState :: OMX_STATETYPE

type_synonym state_pair = "OMX_STATETYPE \<times> OMX_STATETYPE"

text \<open>
  The pure virtual command handlers. Each gets the current and target state to read, its
  arguments and the protected members, blocks until the command is done and returns an error.
\<close>

record 's hooks =
  CommandStateSet :: "state_pair \<Rightarrow> OMX_STATETYPE \<Rightarrow> OMX_STATETYPE \<Rightarrow> 's BOMX_Component
                      \<Rightarrow> OMX_ERRORTYPE \<times> 's BOMX_Component"
  CommandFlush :: "state_pair \<Rightarrow> u32 \<Rightarrow> 's BOMX_Component \<Rightarrow> OMX_ERRORTYPE \<times> 's BOMX_Component"
  CommandPortEnable :: "state_pair \<Rightarrow> u32 \<Rightarrow> 's BOMX_Component \<Rightarrow> OMX_ERRORTYPE \<times> 's BOMX_Component"
  CommandPortDisable :: "state_pair \<Rightarrow> u32 \<Rightarrow> 's BOMX_Component \<Rightarrow> OMX_ERRORTYPE \<times> 's BOMX_Component"

definition BOMX_COMPONENT_MAX_PORTS :: nat where "BOMX_COMPONENT_MAX_PORTS = 16"
definition BOMX_COMPONENT_MAX_MSGS :: nat where "BOMX_COMPONENT_MAX_MSGS = 16"

section \<open>Construction\<close>

definition SetRole :: "omx_abi \<Rightarrow> string \<Rightarrow> 's BOMX_Component \<Rightarrow> 's BOMX_Component" where
  "SetRole abi pNewRole c =
     c\<lparr>m_componentRole := strncpy_str (OMX_MAX_STRINGNAME_SIZE abi - 1) pNewRole\<rparr>"

text \<open>
  \<open>callbacks\<close> tells which entries of a non-null callback table are set, \<open>uuid\<close> is what reading
  \<open>/proc/sys/kernel/random/uuid\<close> yields; creating the scheduler, mutex, events, queue and
  thread has no effect on the members modelled here.
\<close>

definition new_BOMX_Component ::
  "omx_abi \<Rightarrow> string \<Rightarrow> addr \<Rightarrow> (bool \<times> bool \<times> bool) option \<Rightarrow> string \<Rightarrow> 's \<Rightarrow> 's component" where
  "new_BOMX_Component abi pName pAppData callbacks uuid sub =
     (let (ev, em, fl) = (case callbacks of None \<Rightarrow> (False, False, False) | Some cb \<Rightarrow> cb) in
      \<lparr>prot = SetRole abi ''unknown''
         \<lparr>m_pAudioPorts = [], m_audioPortBase = 0, m_pImagePorts = [], m_imagePortBase = 0,
          m_pVideoPorts = [], m_videoPortBase = 0, m_pOtherPorts = [], m_otherPortBase = 0,
          cb_EventHandler = ev, cb_EmptyBufferDone = em, cb_FillBufferDone = fl,
          pApplicationPrivate = pAppData, m_locked = False, m_log = [], m_eosSet = [],
          m_version = 0, m_uuid = take 35 uuid,
          m_componentName = strncpy_str (OMX_MAX_STRINGNAME_SIZE abi - 1) pName,
          m_componentRole = [], m_heap = Map.empty, m_sub = sub\<rparr>,
       m_currentState = OMX_StateLoaded, m_targetState = OMX_StateLoaded\<rparr>)"

section \<open>Callbacks and locking\<close>

definition Lock :: "'s BOMX_Component \<Rightarrow> 's BOMX_Component" where "Lock c = c\<lparr>m_locked := True\<rparr>"
definition Unlock :: "'s BOMX_Component \<Rightarrow> 's BOMX_Component" where "Unlock c = c\<lparr>m_locked := False\<rparr>"

definition call :: "omx_callback \<Rightarrow> 's BOMX_Component \<Rightarrow> 's BOMX_Component" where
  "call cb c = c\<lparr>m_log := m_log c @ [(m_locked c, cb)]\<rparr>"

definition call_event :: "omx_callback \<Rightarrow> 's BOMX_Component \<Rightarrow> 's BOMX_Component" where
  "call_event cb c = (if cb_EventHandler c then call cb c else c)"

definition PortFormatChanged :: "BOMX_Port \<Rightarrow> 's BOMX_Component \<Rightarrow> 's BOMX_Component" where
  "PortFormatChanged p c = call_event (EventPortSettingsChanged (nPortIndex (m_definition p))) c"

definition HandleEOS :: "BOMX_Port \<Rightarrow> 's BOMX_Component \<Rightarrow> 's BOMX_Component" where
  "HandleEOS p c =
     (if eDir (m_definition p) = OMX_DirOutput \<and> m_pTunnelComponent p \<noteq> NULL
      then c\<lparr>m_eosSet := m_eosSet c @ [m_pTunnelComponent p]\<rparr> else c)"

definition Eos :: "'s BOMX_Component \<Rightarrow> 's BOMX_Component" where
  "Eos c =
     (let c1 = call_event EventBufferFlag c;
          c2 = fold HandleEOS (m_pVideoPorts c1) c1;
          c3 = fold HandleEOS (m_pAudioPorts c2) c2
      in fold HandleEOS (m_pImagePorts c3) c3)"

definition SetCallbacks ::
  "bool \<times> bool \<times> bool \<Rightarrow> addr \<Rightarrow> 's BOMX_Component \<Rightarrow> OMX_ERRORTYPE \<times> 's BOMX_Component" where
  "SetCallbacks cb pAppData c =
     (OMX_ErrorNone, c\<lparr>cb_EventHandler := fst cb, cb_EmptyBufferDone := fst (snd cb),
        cb_FillBufferDone := snd (snd cb), pApplicationPrivate := pAppData\<rparr>)"

section \<open>The OMX state machine\<close>

definition StateChangeStart :: "'s component \<Rightarrow> OMX_STATETYPE \<Rightarrow> OMX_ERRORTYPE \<times> 's component" where
  "StateChangeStart c newState =
     (if m_currentState c \<noteq> m_targetState c
      then (BOMX_ERR_TRACE OMX_ErrorIncorrectStateTransition, c)
      else if newState = m_currentState c then (BOMX_ERR_TRACE OMX_ErrorSameState, c)
      else
        let err =
          (if newState \<noteq> OMX_StateInvalid then
             (case m_currentState c of
                OMX_StateInvalid \<Rightarrow> BOMX_ERR_TRACE OMX_ErrorInvalidState
              | OMX_StateLoaded \<Rightarrow>
                  (case newState of OMX_StateWaitForResources \<Rightarrow> OMX_ErrorNone | OMX_StateIdle \<Rightarrow> OMX_ErrorNone
                   | _ \<Rightarrow> BOMX_ERR_TRACE OMX_ErrorIncorrectStateTransition)
              | OMX_StateIdle \<Rightarrow>
                  (case newState of OMX_StateLoaded \<Rightarrow> OMX_ErrorNone | OMX_StateExecuting \<Rightarrow> OMX_ErrorNone
                   | OMX_StatePause \<Rightarrow> OMX_ErrorNone
                   | _ \<Rightarrow> BOMX_ERR_TRACE OMX_ErrorIncorrectStateTransition)
              | OMX_StateExecuting \<Rightarrow>
                  (case newState of OMX_StateIdle \<Rightarrow> OMX_ErrorNone | OMX_StatePause \<Rightarrow> OMX_ErrorNone
                   | _ \<Rightarrow> BOMX_ERR_TRACE OMX_ErrorIncorrectStateTransition)
              | OMX_StatePause \<Rightarrow>
                  (case newState of OMX_StateIdle \<Rightarrow> OMX_ErrorNone | OMX_StateExecuting \<Rightarrow> OMX_ErrorNone
                   | _ \<Rightarrow> BOMX_ERR_TRACE OMX_ErrorIncorrectStateTransition)
              | OMX_StateWaitForResources \<Rightarrow>
                  (case newState of OMX_StateIdle \<Rightarrow> OMX_ErrorNone | OMX_StateLoaded \<Rightarrow> OMX_ErrorNone
                   | _ \<Rightarrow> BOMX_ERR_TRACE OMX_ErrorIncorrectStateTransition)
              | _ \<Rightarrow> BOMX_ERR_TRACE OMX_ErrorIncorrectStateTransition)
           else OMX_ErrorNone)
        in if err \<noteq> OMX_ErrorNone then (err, c)
           else (OMX_ErrorNone, c\<lparr>m_targetState := newState\<rparr>))"

definition GetState :: "'s component \<Rightarrow> OMX_ERRORTYPE \<times> OMX_STATETYPE" where
  "GetState c = (OMX_ErrorNone, m_currentState c)"

section \<open>Commands\<close>

definition CommandMarkBuffer :: "u32 \<Rightarrow> nat \<Rightarrow> OMX_ERRORTYPE" where
  "CommandMarkBuffer portIndex markType = BOMX_ERR_TRACE OMX_ErrorNotImplemented"

definition port_array :: "OMX_PORTDOMAINTYPE \<Rightarrow> 's BOMX_Component \<Rightarrow> BOMX_Port list" where
  "port_array d c = (case d of OMX_PortDomainAudio \<Rightarrow> m_pAudioPorts c | OMX_PortDomainVideo \<Rightarrow> m_pVideoPorts c
                     | OMX_PortDomainImage \<Rightarrow> m_pImagePorts c | OMX_PortDomainOther \<Rightarrow> m_pOtherPorts c)"

definition port_base :: "OMX_PORTDOMAINTYPE \<Rightarrow> 's BOMX_Component \<Rightarrow> u32" where
  "port_base d c = (case d of OMX_PortDomainAudio \<Rightarrow> m_audioPortBase c | OMX_PortDomainVideo \<Rightarrow> m_videoPortBase c
                    | OMX_PortDomainImage \<Rightarrow> m_imagePortBase c | OMX_PortDomainOther \<Rightarrow> m_otherPortBase c)"

text \<open>
  The body of the four \<open>OMX_ALL\<close> loops of a command: \<open>cond\<close> is their guard on the port, \<open>hook\<close>
  the handler, and \<open>(c, err, error)\<close> the component and the two local variables.
\<close>

definition all_ports_body ::
  "OMX_COMMANDTYPE \<Rightarrow> (BOMX_Port \<Rightarrow> bool) \<Rightarrow> (u32 \<Rightarrow> 's BOMX_Component \<Rightarrow> OMX_ERRORTYPE \<times> 's BOMX_Component)
   \<Rightarrow> OMX_PORTDOMAINTYPE \<Rightarrow> nat \<Rightarrow> 's BOMX_Component \<times> OMX_ERRORTYPE \<times> bool
   \<Rightarrow> 's BOMX_Component \<times> OMX_ERRORTYPE \<times> bool" where
  "all_ports_body cmd cond hook d i s =
     (let (c, err, error) = s in
      if i < length (port_array d c) \<and> cond (port_array d c ! i) then
        let index = port_base d c + of_nat i;
            (err, c) = hook index c;
            c = call_event (EventCmdComplete cmd (port_base d c + of_nat i) None) c
        in (c, err, error \<or> err \<noteq> OMX_ErrorNone)
      else (c, err, error))"

definition all_ports ::
  "OMX_COMMANDTYPE \<Rightarrow> (BOMX_Port \<Rightarrow> bool) \<Rightarrow> (u32 \<Rightarrow> 's BOMX_Component \<Rightarrow> OMX_ERRORTYPE \<times> 's BOMX_Component)
   \<Rightarrow> 's BOMX_Component \<Rightarrow> 's BOMX_Component \<times> OMX_ERRORTYPE \<times> bool" where
  "all_ports cmd cond hook c =
     fold (\<lambda>d s. fold (all_ports_body cmd cond hook d) [0..<BOMX_COMPONENT_MAX_PORTS] s)
       [OMX_PortDomainVideo, OMX_PortDomainAudio, OMX_PortDomainOther, OMX_PortDomainImage]
       (c, OMX_ErrorNone, False)"

text \<open>The switch of the handler: the new component, \<open>err\<close>, \<open>reply\<close> and \<open>error\<close>.\<close>

definition port_command ::
  "omx_abi \<Rightarrow> BOMX_CommandMsg \<Rightarrow> (BOMX_Port \<Rightarrow> bool)
   \<Rightarrow> (u32 \<Rightarrow> 's BOMX_Component \<Rightarrow> OMX_ERRORTYPE \<times> 's BOMX_Component) \<Rightarrow> 's component
   \<Rightarrow> 's component \<times> OMX_ERRORTYPE \<times> bool \<times> bool" where
  "port_command abi msg cond hook c =
     (if msg_nParam1 msg = OMX_ALL abi then
        let (p, err, error) = all_ports (msg_command msg) cond hook (prot c)
        in (c\<lparr>prot := p\<rparr>, err, False, error)
      else let (err, p) = hook (msg_nParam1 msg) (prot c)
           in (c\<lparr>prot := p\<rparr>, err, True, False))"

definition state_set_command ::
  "omx_abi \<Rightarrow> 's hooks \<Rightarrow> BOMX_CommandMsg \<Rightarrow> 's component \<Rightarrow> 's component \<times> OMX_ERRORTYPE" where
  "state_set_command abi hk msg c =
     (let newState = OMX_STATETYPE_of abi (msg_nParam1 msg);
          (err, c) = StateChangeStart c newState;
          (err, c) =
            (if err = OMX_ErrorNone then
               let (err, p) = CommandStateSet hk (m_currentState c, m_targetState c) newState
                                (m_currentState c) (prot c);
                   c = c\<lparr>prot := p\<rparr>
               in (err, if err = OMX_ErrorNone then c\<lparr>m_currentState := m_targetState c\<rparr> else c)
             else (err, c))
      in (if err \<noteq> OMX_ErrorNone then c\<lparr>m_targetState := m_currentState c\<rparr> else c, err))"

definition command_switch ::
  "omx_abi \<Rightarrow> 's hooks \<Rightarrow> BOMX_CommandMsg \<Rightarrow> 's component
   \<Rightarrow> 's component \<times> OMX_ERRORTYPE \<times> bool \<times> bool" where
  "command_switch abi hk msg c =
     (let st = (m_currentState c, m_targetState c) in
      case msg_command msg of
        OMX_CommandStateSet \<Rightarrow> (let (c, err) = state_set_command abi hk msg c in (c, err, True, False))
      | OMX_CommandFlush \<Rightarrow> port_command abi msg IsEnabled (CommandFlush hk st) c
      | OMX_CommandPortEnable \<Rightarrow> port_command abi msg (\<lambda>p. \<not> IsEnabled p) (CommandPortEnable hk st) c
      | OMX_CommandPortDisable \<Rightarrow> port_command abi msg IsEnabled (CommandPortDisable hk st) c
      | OMX_CommandMarkBuffer \<Rightarrow> (c, CommandMarkBuffer (msg_nParam1 msg) (msg_markType msg), True, False)
      | _ \<Rightarrow> (c, BOMX_ERR_TRACE OMX_ErrorNotImplemented, True, False))"

definition report_back ::
  "BOMX_CommandMsg \<Rightarrow> OMX_ERRORTYPE \<Rightarrow> bool \<Rightarrow> bool \<Rightarrow> 's BOMX_Component \<Rightarrow> 's BOMX_Component" where
  "report_back msg err reply error c =
     (if cb_EventHandler c then
        let mark = (if msg_command msg = OMX_CommandMarkBuffer then Some (msg_markType msg) else None);
            c = Unlock c;
            c = (if err = OMX_ErrorNone \<and> reply
                 then call (EventCmdComplete (msg_command msg) (msg_nParam1 msg) mark) c
                 else if err \<noteq> OMX_ErrorNone \<or> error
                 then call (EventError err (msg_command msg) mark) c
                 else c)
        in Lock c
      else c)"

text \<open>One iteration of the loop of \<open>CommandEventHandler\<close>.\<close>

definition dispatch :: "omx_abi \<Rightarrow> 's hooks \<Rightarrow> BOMX_CommandMsg \<Rightarrow> 's component \<Rightarrow> 's component" where
  "dispatch abi hk msg c =
     (let (c, err, reply, error) = command_switch abi hk msg c
      in c\<lparr>prot := report_back msg err reply error (prot c)\<rparr>)"

section \<open>The command queue\<close>

text \<open>
  \<open>B_MessageQueue\<close> belongs to the platform library: posting fails or succeeds, waiting with
  \<open>B_WAIT_NONE\<close> yields a message or nothing.
\<close>

record 'q message_queue =
  mq_post :: "'q \<Rightarrow> BOMX_CommandMsg \<Rightarrow> bool \<times> 'q"
  mq_wait :: "'q \<Rightarrow> (BOMX_CommandMsg \<times> 'q) option"

definition QueueCommand :: "'q message_queue \<Rightarrow> BOMX_CommandMsg \<Rightarrow> 'q \<Rightarrow> OMX_ERRORTYPE \<times> 'q" where
  "QueueCommand mq msg q =
     (let (ok, q) = mq_post mq q msg
      in if \<not> ok then (BOMX_ERR_TRACE OMX_ErrorTimeout, q) else (OMX_ErrorNone, q))"

text \<open>\<open>None\<close>: a mark command without data fails the assertion.\<close>

definition SendCommand ::
  "'q message_queue \<Rightarrow> OMX_COMMANDTYPE \<Rightarrow> u32 \<Rightarrow> nat option \<Rightarrow> 'q \<Rightarrow> (OMX_ERRORTYPE \<times> 'q) option" where
  "SendCommand mq cmd nParam1 pCmdData q =
     (if cmd = OMX_CommandMarkBuffer \<and> pCmdData = None then None
      else Some (QueueCommand mq
        \<lparr>msg_command = cmd, msg_nParam1 = nParam1,
         msg_markType = (case pCmdData of Some m \<Rightarrow> m | None \<Rightarrow> 0)\<rparr> q))"

partial_function (option) CommandEventHandler ::
  "omx_abi \<Rightarrow> 's hooks \<Rightarrow> 'q message_queue \<Rightarrow> 'q \<Rightarrow> 's component \<Rightarrow> ('q \<times> 's component) option" where
  "CommandEventHandler abi hk mq q c =
     (case mq_wait mq q of
        None \<Rightarrow> Some (q, c)
      | Some (msg, q') \<Rightarrow> CommandEventHandler abi hk mq q' (dispatch abi hk msg c))"

section \<open>Returning buffers\<close>

text \<open>The port is given by its domain and position; \<open>None\<close>: an assertion of the port fails.\<close>

definition ReturnPortBuffer ::
  "BOMX_Port \<Rightarrow> addr \<Rightarrow> 's BOMX_Component \<Rightarrow> (BOMX_Port \<times> 's BOMX_Component) option" where
  "ReturnPortBuffer p b c =
     (case BufferComplete p b of
        None \<Rightarrow> None
      | Some p' \<Rightarrow> Some (p',
          if \<not> IsTunneled p' then
            (if eDir (m_definition p') = OMX_DirInput
             then (if cb_EmptyBufferDone c then call (EmptyBufferDone b) c else c)
             else (if cb_FillBufferDone c then call (FillBufferDone b) c else c))
          else c))"

definition ReturnPortBuffers ::
  "BOMX_Port \<Rightarrow> 's BOMX_Component \<Rightarrow> (BOMX_Port \<times> 's BOMX_Component) option" where
  "ReturnPortBuffers p c =
     drain (\<lambda>(p, c). GetBuffer p) (\<lambda>(p, c) b. ReturnPortBuffer p b c) (p, c)"

section \<open>The state machine as the specification draws it\<close>

text \<open>The transitions of Figure 2-3 of the OMX IL specification.\<close>

definition omx_figure :: "(OMX_STATETYPE \<times> OMX_STATETYPE) list" where
  "omx_figure =
     [(OMX_StateLoaded, OMX_StateWaitForResources), (OMX_StateLoaded, OMX_StateIdle),
      (OMX_StateWaitForResources, OMX_StateLoaded), (OMX_StateWaitForResources, OMX_StateIdle),
      (OMX_StateIdle, OMX_StateLoaded), (OMX_StateIdle, OMX_StateExecuting), (OMX_StateIdle, OMX_StatePause),
      (OMX_StateExecuting, OMX_StateIdle), (OMX_StateExecuting, OMX_StatePause),
      (OMX_StatePause, OMX_StateIdle), (OMX_StatePause, OMX_StateExecuting)]"

definition omx_legal :: "OMX_STATETYPE \<Rightarrow> OMX_STATETYPE \<Rightarrow> bool" where
  "omx_legal s t \<longleftrightarrow> (s, t) \<in> set omx_figure \<or> t = OMX_StateInvalid \<and> s \<noteq> OMX_StateInvalid"

definition quiescent :: "'s component \<Rightarrow> bool" where
  "quiescent c \<longleftrightarrow> m_currentState c = m_targetState c"

lemma StateChangeStart_result:
  assumes "quiescent c"
  shows "StateChangeStart c t =
    (if omx_legal (m_currentState c) t then (OMX_ErrorNone, c\<lparr>m_targetState := t\<rparr>)
     else (if t = m_currentState c then OMX_ErrorSameState
           else if m_currentState c = OMX_StateInvalid then OMX_ErrorInvalidState
           else OMX_ErrorIncorrectStateTransition, c))"
proof -
  have st: "m_targetState c = m_currentState c" using assms by (simp add: quiescent_def)
  show ?thesis
    unfolding StateChangeStart_def st Let_def
    by (cases "m_currentState c"; cases t) (simp_all add: omx_legal_def omx_figure_def)
qed

lemma StateChangeStart_busy:
  "\<not> quiescent c \<Longrightarrow> StateChangeStart c t = (OMX_ErrorIncorrectStateTransition, c)"
  by (simp add: StateChangeStart_def quiescent_def)

lemma state_set_result:
  assumes "quiescent c"
  shows "state_set_command abi hk msg c =
    (let t = OMX_STATETYPE_of abi (msg_nParam1 msg); s = m_currentState c in
     if omx_legal s t then
       let (err, p) = CommandStateSet hk (s, t) t s (prot c) in
       (c\<lparr>prot := p, m_currentState := (if err = OMX_ErrorNone then t else s),
          m_targetState := (if err = OMX_ErrorNone then t else s)\<rparr>, err)
     else (c, fst (StateChangeStart c t)))"
  using assms
  by (simp add: state_set_command_def StateChangeStart_result Let_def quiescent_def split: prod.splits)

lemma port_command_private:
  "port_command abi msg cond hook c = (c', r) \<Longrightarrow>
   m_currentState c' = m_currentState c \<and> m_targetState c' = m_targetState c"
  by (auto simp: port_command_def split: if_splits prod.splits)

text \<open>Whatever the subclass does, a command moves the state by at most one legal transition.\<close>

lemma command_switch_state:
  assumes "quiescent c" "command_switch abi hk msg c = (c', r)"
  shows "quiescent c' \<and> (m_currentState c' = m_currentState c \<or> omx_legal (m_currentState c) (m_currentState c'))"
proof (cases "msg_command msg = OMX_CommandStateSet")
  case True
  with assms show ?thesis
    by (auto simp: command_switch_def state_set_result Let_def quiescent_def split: if_splits prod.splits)
next
  case False
  with assms(2) have "m_currentState c' = m_currentState c \<and> m_targetState c' = m_targetState c"
    by (auto simp: command_switch_def Let_def dest: port_command_private split: OMX_COMMANDTYPE.splits)
  with assms(1) show ?thesis by (simp add: quiescent_def)
qed

lemma dispatch_state:
  assumes "quiescent c"
  shows "quiescent (dispatch abi hk msg c)
    \<and> (m_currentState (dispatch abi hk msg c) = m_currentState c
       \<or> omx_legal (m_currentState c) (m_currentState (dispatch abi hk msg c)))"
  using command_switch_state [OF assms, of abi hk msg]
  by (cases "command_switch abi hk msg c") (auto simp: dispatch_def quiescent_def)

text \<open>
  The component and its clients: commands arrive at any time, the handler takes the next one,
  and every other call of a client changes protected members only.
\<close>

inductive comp_step ::
  "omx_abi \<Rightarrow> 's hooks \<Rightarrow> 'q message_queue \<Rightarrow> 'q \<times> 's component \<Rightarrow> 'q \<times> 's component \<Rightarrow> bool"
  for abi hk mq where
  step_send: "SendCommand mq cmd n d q = Some (err, q') \<Longrightarrow> comp_step abi hk mq (q, c) (q', c)"
| step_handle: "mq_wait mq q = Some (msg, q') \<Longrightarrow> comp_step abi hk mq (q, c) (q', dispatch abi hk msg c)"
| step_client: "comp_step abi hk mq (q, c) (q, c\<lparr>prot := p\<rparr>)"

inductive_cases comp_step_elim: "comp_step abi hk mq (q, c) (q', c')"

lemma comp_step_state:
  assumes "comp_step abi hk mq s s'" "quiescent (snd s)"
  shows "quiescent (snd s') \<and> omx_legal\<^sup>*\<^sup>* (m_currentState (snd s)) (m_currentState (snd s'))"
  using assms
proof (cases rule: comp_step.cases)
  case (step_handle q msg q' c)
  with assms(2) dispatch_state [of c abi hk msg] show ?thesis by auto
qed (simp_all add: quiescent_def)

lemma legal_from_invalid: "omx_legal\<^sup>*\<^sup>* s t \<Longrightarrow> s = OMX_StateInvalid \<Longrightarrow> t = OMX_StateInvalid"
  by (induction rule: rtranclp_induct) (auto simp: omx_legal_def omx_figure_def)

lemma legal_known: "omx_legal\<^sup>*\<^sup>* OMX_StateLoaded t \<Longrightarrow> t \<noteq> OMX_StateOther n"
  by (induction rule: rtranclp_induct) (auto simp: omx_legal_def omx_figure_def)

lemma comp_steps_state:
  "(comp_step abi hk mq)\<^sup>*\<^sup>* s s' \<Longrightarrow> quiescent (snd s) \<Longrightarrow>
   quiescent (snd s') \<and> omx_legal\<^sup>*\<^sup>* (m_currentState (snd s)) (m_currentState (snd s'))"
proof (induction rule: rtranclp_induct)
  case (step s1 s2)
  then show ?case using comp_step_state [OF step.hyps(2)] by (meson rtranclp_trans)
qed simp

section \<open>Replies\<close>

definition reply_event :: "BOMX_CommandMsg \<Rightarrow> OMX_ERRORTYPE \<Rightarrow> omx_callback" where
  "reply_event msg err =
     (let mark = (if msg_command msg = OMX_CommandMarkBuffer then Some (msg_markType msg) else None) in
      if err = OMX_ErrorNone then EventCmdComplete (msg_command msg) (msg_nParam1 msg) mark
      else EventError err (msg_command msg) mark)"

lemma report_back_log:
  "cb_EventHandler p \<Longrightarrow>
   m_log (report_back msg err reply error p) =
     m_log p @ (if reply \<or> err \<noteq> OMX_ErrorNone then [(False, reply_event msg err)]
                else if error then [(False, EventError OMX_ErrorNone (msg_command msg)
                  (if msg_command msg = OMX_CommandMarkBuffer then Some (msg_markType msg) else None))] else [])
   \<and> m_locked (report_back msg err reply error p)"
  by (auto simp: report_back_def Let_def call_def Lock_def Unlock_def reply_event_def)

lemma report_back_keeps:
  "cb_EventHandler (report_back msg err reply error p) = cb_EventHandler p"
  "m_sub (report_back msg err reply error p) = m_sub p"
  by (simp_all add: report_back_def Let_def call_def Lock_def Unlock_def)

lemma dispatch_reply:
  assumes "command_switch abi hk msg c = (c1, err, True, False)"
  shows "m_currentState (dispatch abi hk msg c) = m_currentState c1"
    "m_targetState (dispatch abi hk msg c) = m_targetState c1"
    "if cb_EventHandler (prot c1)
     then m_log (prot (dispatch abi hk msg c)) = m_log (prot c1) @ [(False, reply_event msg err)]
       \<and> m_locked (prot (dispatch abi hk msg c))
     else prot (dispatch abi hk msg c) = prot c1"
  using assms report_back_log [of "prot c1" msg err True False]
  by (simp_all add: dispatch_def report_back_def)

lemma switch_reply:
  assumes "command_switch abi hk msg c = (c', err, reply, error)"
    and "msg_command msg \<in> {OMX_CommandFlush, OMX_CommandPortEnable, OMX_CommandPortDisable}
         \<longrightarrow> msg_nParam1 msg \<noteq> OMX_ALL abi"
  shows "reply \<and> \<not> error"
  using assms
  by (auto simp: command_switch_def port_command_def Let_def split: OMX_COMMANDTYPE.splits prod.splits)

section \<open>The queue contract\<close>

text \<open>What the component relies on: a bounded queue that delivers in order of arrival.\<close>

locale fifo_queue =
  fixes mq :: "'q message_queue" and contents :: "'q \<Rightarrow> BOMX_CommandMsg list" and cap :: nat
  assumes post_room: "length (contents q) < cap \<Longrightarrow>
      fst (mq_post mq q m) \<and> contents (snd (mq_post mq q m)) = contents q @ [m]"
    and post_full: "cap \<le> length (contents q) \<Longrightarrow> \<not> fst (mq_post mq q m) \<and> contents (snd (mq_post mq q m)) = contents q"
    and wait_empty: "contents q = [] \<Longrightarrow> mq_wait mq q = None"
    and wait_next: "contents q = m # ms \<Longrightarrow> \<exists>q'. mq_wait mq q = Some (m, q') \<and> contents q' = ms"
begin

text \<open>The handler ends, having dispatched everything that was queued, in order.\<close>

lemma handler_drains:
  "\<exists>q'. CommandEventHandler abi hk mq q c = Some (q', fold (dispatch abi hk) (contents q) c) \<and> contents q' = []"
proof (induction "contents q" arbitrary: q c)
  case Nil
  then show ?case using wait_empty [of q] by (simp add: CommandEventHandler.simps [of abi hk mq q c])
next
  case (Cons m ms)
  obtain q' where q': "mq_wait mq q = Some (m, q')" "contents q' = ms"
    using wait_next [of q m ms] Cons.hyps(2) by auto
  with Cons.hyps(1) [of q' "dispatch abi hk m c"] Cons.hyps(2) [symmetric] show ?case
    by (simp add: CommandEventHandler.simps [of abi hk mq q c])
qed

lemma queue_command_room:
  "length (contents q) < cap \<Longrightarrow> \<exists>q'. QueueCommand mq m q = (OMX_ErrorNone, q') \<and> contents q' = contents q @ [m]"
  using post_room [of q m] by (cases "mq_post mq q m") (auto simp: QueueCommand_def)

lemma queue_command_full:
  "cap \<le> length (contents q) \<Longrightarrow> \<exists>q'. QueueCommand mq m q = (OMX_ErrorTimeout, q') \<and> contents q' = contents q"
  using post_full [of q m] by (cases "mq_post mq q m") (auto simp: QueueCommand_def)

end

text \<open>A bounded list satisfies the contract.\<close>

definition list_queue :: "BOMX_CommandMsg list message_queue" where
  "list_queue =
     \<lparr>mq_post = (\<lambda>q m. if length q < BOMX_COMPONENT_MAX_MSGS then (True, q @ [m]) else (False, q)),
      mq_wait = (\<lambda>q. case q of [] \<Rightarrow> None | m # ms \<Rightarrow> Some (m, ms))\<rparr>"

interpretation list_fifo: fifo_queue list_queue "\<lambda>q. q" BOMX_COMPONENT_MAX_MSGS
  by unfold_locales (auto simp: list_queue_def)

section \<open>Draining a port\<close>

text \<open>What draining does not change: the port apart from its queue, and who is called back.\<close>

definition drain_ctx :: "BOMX_Port \<times> 's BOMX_Component \<Rightarrow> BOMX_Port \<times> bool \<times> bool \<times> bool" where
  "drain_ctx s = ((fst s)\<lparr>m_bufferQueue := [], m_queueDepth := 0\<rparr>, cb_EmptyBufferDone (snd s),
                  cb_FillBufferDone (snd s), m_locked (snd s))"

definition buffer_done :: "BOMX_Port \<times> bool \<times> bool \<times> bool \<Rightarrow> addr \<Rightarrow> (bool \<times> omx_callback) list" where
  "buffer_done cx b =
     (let (p, em, fl, lk) = cx in
      if IsTunneled p then []
      else if eDir (m_definition p) = OMX_DirInput then (if em then [(lk, EmptyBufferDone b)] else [])
      else (if fl then [(lk, FillBufferDone b)] else []))"

lemma ReturnPortBuffer_result:
  assumes inv: "port_inv hp p" and b: "b \<in> set (m_bufferQueue p)"
  shows "\<exists>p' c'. ReturnPortBuffer p b c = Some (p', c') \<and> port_inv hp p'
     \<and> p' = p\<lparr>m_bufferQueue := remove1 b (m_bufferQueue p), m_queueDepth := m_queueDepth p - 1\<rparr>
     \<and> m_log c' = m_log c @ buffer_done (drain_ctx (p, c)) b \<and> drain_ctx (p', c') = drain_ctx (p, c)"
proof -
  have bc: "BufferComplete p b = Some (p\<lparr>m_bufferQueue := remove1 b (m_bufferQueue p), m_queueDepth := m_queueDepth p - 1\<rparr>)"
    by (rule BufferComplete_result [OF inv b])
  with BufferComplete_inv [OF inv bc] show ?thesis
    by (auto simp: ReturnPortBuffer_def buffer_done_def drain_ctx_def IsTunneled_def call_def)
qed

interpretation port_drain: drainable "\<lambda>(p, c). GetBuffer p" "\<lambda>(p, c) b. ReturnPortBuffer p b c"
  "\<lambda>(p, c). m_bufferQueue p" "\<lambda>(p, c). m_log c" buffer_done drain_ctx "\<lambda>(p, c). port_inv hp p" for hp
proof
  fix s :: "BOMX_Port \<times> 'a BOMX_Component" and x xs
  assume inv: "case s of (p, c) \<Rightarrow> port_inv hp p" and q: "(case s of (p, c) \<Rightarrow> m_bufferQueue p) = x # xs"
  obtain p c where s: "s = (p, c)" by (cases s)
  from inv q s have i: "port_inv hp p" and m: "m_bufferQueue p = x # xs" by simp_all
  from m have "x \<in> set (m_bufferQueue p)" by simp
  from ReturnPortBuffer_result [OF i this, of c] m s
  show "\<exists>s'. (case s of (p, c) \<Rightarrow> \<lambda>b. ReturnPortBuffer p b c) x = Some s'
      \<and> (case s' of (p, c) \<Rightarrow> port_inv hp p) \<and> (case s' of (p, c) \<Rightarrow> m_bufferQueue p) = xs
      \<and> (case s' of (p, c) \<Rightarrow> m_log c) = (case s of (p, c) \<Rightarrow> m_log c) @ buffer_done (drain_ctx s) x
      \<and> drain_ctx s' = drain_ctx s" by auto
qed (auto simp: GetBuffer_def dest: port_inv_queue_nonnull)

lemma ReturnPortBuffers_result:
  assumes "port_inv hp p"
  shows "\<exists>p' c'. ReturnPortBuffers p c = Some (p', c') \<and> port_inv hp p'
     \<and> p' = p\<lparr>m_bufferQueue := [], m_queueDepth := 0\<rparr>
     \<and> m_log c' = m_log c @ concat (map (buffer_done (drain_ctx (p, c))) (m_bufferQueue p))"
proof -
  obtain p' c' where r: "ReturnPortBuffers p c = Some (p', c')" "port_inv hp p'" "m_bufferQueue p' = []"
    "drain_ctx (p', c') = drain_ctx (p, c)"
    "m_log c' = m_log c @ concat (map (buffer_done (drain_ctx (p, c))) (m_bufferQueue p))"
    using port_drain.drain_all [of hp "(p, c)"] assms by (auto simp: ReturnPortBuffers_def)
  have "m_queueDepth p' = 0" using r(2,3) by (simp add: port_inv_def)
  with r(3) have "p' = p'\<lparr>m_bufferQueue := [], m_queueDepth := 0\<rparr>" by simp
  also have "\<dots> = p\<lparr>m_bufferQueue := [], m_queueDepth := 0\<rparr>" using r(4) by (simp add: drain_ctx_def)
  finally show ?thesis using r by blast
qed

section \<open>Finding a port\<close>

definition FindPortByIndex :: "'s BOMX_Component \<Rightarrow> u32 \<Rightarrow> BOMX_Port option" where
  "FindPortByIndex c index =
     (if index \<ge> m_audioPortBase c \<and> index < m_audioPortBase c + of_nat (length (m_pAudioPorts c))
      then Some (m_pAudioPorts c ! unat (index - m_audioPortBase c))
      else if index \<ge> m_videoPortBase c \<and> index < m_videoPortBase c + of_nat (length (m_pVideoPorts c))
      then Some (m_pVideoPorts c ! unat (index - m_videoPortBase c))
      else if index \<ge> m_imagePortBase c \<and> index < m_imagePortBase c + of_nat (length (m_pImagePorts c))
      then Some (m_pImagePorts c ! unat (index - m_imagePortBase c))
      else if index \<ge> m_otherPortBase c \<and> index < m_otherPortBase c + of_nat (length (m_pOtherPorts c))
      then Some (m_pOtherPorts c ! unat (index - m_otherPortBase c))
      else None)"

text \<open>
  The layout every subclass sets up: at most 16 ports per domain, port \<open>i\<close> of a domain numbered
  base plus \<open>i\<close>, and the four number ranges disjoint and below the 32 bit limit.
\<close>

definition all_domains :: "OMX_PORTDOMAINTYPE list" where
  "all_domains = [OMX_PortDomainAudio, OMX_PortDomainVideo, OMX_PortDomainImage, OMX_PortDomainOther]"

definition numbered :: "u32 \<Rightarrow> BOMX_Port list \<Rightarrow> bool" where
  "numbered base ps \<longleftrightarrow> length ps \<le> BOMX_COMPONENT_MAX_PORTS \<and> unat base + length ps < 2 ^ 32
     \<and> map (\<lambda>p. unat (nPortIndex (m_definition p))) ps = map (\<lambda>i. unat base + i) [0..<length ps]"

definition port_range :: "OMX_PORTDOMAINTYPE \<Rightarrow> 's BOMX_Component \<Rightarrow> nat set" where
  "port_range d c = {unat (port_base d c) ..< unat (port_base d c) + length (port_array d c)}"

definition ports_wf :: "'s BOMX_Component \<Rightarrow> bool" where
  "ports_wf c \<longleftrightarrow> list_all (\<lambda>d. numbered (port_base d c) (port_array d c)) all_domains
     \<and> (\<forall>d d'. d \<noteq> d' \<longrightarrow> port_range d c \<inter> port_range d' c = {})"

lemma in_range_iff:
  assumes "numbered base ps"
  shows "(index \<ge> base \<and> index < base + of_nat (length ps)) \<longleftrightarrow> unat index \<in> {unat base ..< unat base + length ps}"
  using assms by (auto simp: numbered_def word_le_nat_alt word_less_nat_alt unat_word_ariths unat_of_nat)

lemma numbered_nth:
  assumes "numbered base ps" "unat index \<in> {unat base ..< unat base + length ps}"
  shows "unat (index - base) < length ps \<and> nPortIndex (m_definition (ps ! unat (index - base))) = index"
proof -
  have sub: "unat (index - base) = unat index - unat base"
    using assms(2) by (simp add: unat_sub word_le_nat_alt)
  then have i: "unat index - unat base < length ps" using assms(2) by auto
  have "unat (nPortIndex (m_definition (ps ! (unat index - unat base)))) = unat base + (unat index - unat base)"
  proof -
    from assms(1) have "map (\<lambda>p. unat (nPortIndex (m_definition p))) ps = map (\<lambda>i. unat base + i) [0..<length ps]"
      by (simp add: numbered_def)
    from arg_cong [OF this, of "\<lambda>xs. xs ! (unat index - unat base)"] i show ?thesis by simp
  qed
  then have "unat (nPortIndex (m_definition (ps ! (unat index - unat base)))) = unat index" using assms(2) by simp
  with sub i show ?thesis by (simp add: word_unat_eq_iff)
qed

lemma numbered_index_range:
  assumes "numbered base ps" "p \<in> set ps"
  shows "unat (nPortIndex (m_definition p)) \<in> {unat base ..< unat base + length ps}
       \<and> ps ! unat (nPortIndex (m_definition p) - base) = p"
proof -
  obtain i where i: "i < length ps" "ps ! i = p" using assms(2) by (auto simp: in_set_conv_nth)
  from assms(1) have "map (\<lambda>p. unat (nPortIndex (m_definition p))) ps = map (\<lambda>i. unat base + i) [0..<length ps]"
    by (simp add: numbered_def)
  from arg_cong [OF this, of "\<lambda>xs. xs ! i"] i have n: "unat (nPortIndex (m_definition p)) = unat base + i" by simp
  then have "unat (nPortIndex (m_definition p) - base) = i" by (simp add: unat_sub word_le_nat_alt)
  with n i show ?thesis by simp
qed

lemma port_index_inj_domain:
  assumes "ports_wf c" "p \<in> set (port_array d c)" "unat (nPortIndex (m_definition p)) \<in> port_range d' c"
  shows "d' = d"
proof (rule ccontr)
  assume "d' \<noteq> d"
  then have "port_range d' c \<inter> port_range d c = {}" using assms(1) by (auto simp: ports_wf_def)
  moreover have "numbered (port_base d c) (port_array d c)"
    using assms(1) by (cases d) (simp_all add: ports_wf_def all_domains_def)
  then have "unat (nPortIndex (m_definition p)) \<in> port_range d c"
    using numbered_index_range [OF _ assms(2)] by (simp add: port_range_def)
  ultimately show False using assms(3) by blast
qed

text \<open>The search goes through the domains in this order.\<close>

lemma FindPortByIndex_find:
  assumes "ports_wf c"
  shows "FindPortByIndex c index =
    map_option (\<lambda>d. port_array d c ! unat (index - port_base d c))
      (find (\<lambda>d. unat index \<in> port_range d c) all_domains)"
proof -
  have n: "numbered (port_base d c) (port_array d c)" for d
    using assms by (cases d) (simp_all add: ports_wf_def all_domains_def)
  note r = in_range_iff [OF n]
  show ?thesis
    using r [of OMX_PortDomainAudio] r [of OMX_PortDomainVideo] r [of OMX_PortDomainImage] r [of OMX_PortDomainOther]
    by (simp add: FindPortByIndex_def all_domains_def port_range_def port_array_def port_base_def)
qed

lemma FindPortByIndex_iff:
  assumes "ports_wf c"
  shows "FindPortByIndex c index = Some p \<longleftrightarrow> (\<exists>d. p \<in> set (port_array d c) \<and> nPortIndex (m_definition p) = index)"
proof -
  have n: "numbered (port_base d c) (port_array d c)" for d
    using assms by (cases d) (simp_all add: ports_wf_def all_domains_def)
  have all: "d \<in> set all_domains" for d by (cases d) (simp_all add: all_domains_def)
  show ?thesis
  proof
    assume "FindPortByIndex c index = Some p"
    then obtain d where d: "find (\<lambda>d. unat index \<in> port_range d c) all_domains = Some d"
      "p = port_array d c ! unat (index - port_base d c)"
      using FindPortByIndex_find [OF assms] by auto
    then have "unat index \<in> port_range d c" using find_Some_iff_mem [OF d(1)] by simp
    then have "unat (index - port_base d c) < length (port_array d c)" "nPortIndex (m_definition p) = index"
      using numbered_nth [OF n [of d], of index] d(2) by (simp_all add: port_range_def)
    with d(2) show "\<exists>d. p \<in> set (port_array d c) \<and> nPortIndex (m_definition p) = index"
      using nth_mem by blast
  next
    assume "\<exists>d. p \<in> set (port_array d c) \<and> nPortIndex (m_definition p) = index"
    then obtain d where d: "p \<in> set (port_array d c)" "nPortIndex (m_definition p) = index" by blast
    have rg: "unat index \<in> port_range d c" "port_array d c ! unat (index - port_base d c) = p"
      using numbered_index_range [OF n d(1)] d(2) by (auto simp: port_range_def)
    from rg(1) all [of d] obtain d' where d': "find (\<lambda>d. unat index \<in> port_range d c) all_domains = Some d'"
      by (cases "find (\<lambda>d. unat index \<in> port_range d c) all_domains") (auto simp: find_None_iff)
    then have "d' = d" using port_index_inj_domain [OF assms d(1)] d(2) find_Some_iff_mem [OF d'] by auto
    with d' rg show "FindPortByIndex c index = Some p" by (simp add: FindPortByIndex_find [OF assms])
  qed
qed

section \<open>Properties\<close>

text \<open>C1: safety of the OMX state machine. Whatever the subclass handlers do, whatever commands
  arrive in whatever order, and whatever else the clients call, a component is never left in
  the middle of a transition, every state it gets to is reached from Loaded by transitions of
  the figure in the OMX specification (or by going to Invalid), and it never leaves Invalid.\<close>

theorem component_state_machine_safe:
  assumes "(comp_step abi hk mq)\<^sup>*\<^sup>* (q0, new_BOMX_Component abi name app cb uuid sub) (q, c)"
    and "(comp_step abi hk mq)\<^sup>*\<^sup>* (q, c) (q', c')"
  shows "m_currentState c = m_targetState c
     \<and> omx_legal\<^sup>*\<^sup>* OMX_StateLoaded (m_currentState c) \<and> m_currentState c \<noteq> OMX_StateOther n
     \<and> (m_currentState c = OMX_StateInvalid \<longrightarrow> m_currentState c' = OMX_StateInvalid)"
proof -
  let ?start = "new_BOMX_Component abi name app cb uuid sub"
  have 0: "quiescent ?start" "m_currentState ?start = OMX_StateLoaded"
    by (simp_all add: new_BOMX_Component_def quiescent_def split: option.splits prod.splits)
  then have 1: "quiescent c" "omx_legal\<^sup>*\<^sup>* OMX_StateLoaded (m_currentState c)"
    using comp_steps_state [OF assms(1)] by simp_all
  then have "omx_legal\<^sup>*\<^sup>* (m_currentState c) (m_currentState c')"
    using comp_steps_state [OF assms(2)] by simp
  from 1 legal_known [OF 1(2)] legal_from_invalid [OF this] show ?thesis
    by (simp add: quiescent_def)
qed

text \<open>C30: a state command is answered by exactly one event, sent with the mutex released, after
  everything the handler itself reported. A transition the figure does not have is refused
  with the error the specification gives it and without calling the handler; otherwise the
  new state is entered if and only if the handler succeeds, and a failure leaves the old one.\<close>

theorem state_command_answered:
  assumes "quiescent c" "msg_command msg = OMX_CommandStateSet"
  shows "let s = m_currentState c; t = OMX_STATETYPE_of abi (msg_nParam1 msg); c' = dispatch abi hk msg c;
      (err, p) = (if omx_legal s t then CommandStateSet hk (s, t) t s (prot c)
                  else (if t = s then OMX_ErrorSameState else if s = OMX_StateInvalid then OMX_ErrorInvalidState
                        else OMX_ErrorIncorrectStateTransition, prot c))
    in m_currentState c' = (if err = OMX_ErrorNone then t else s) \<and> quiescent c'
     \<and> (if cb_EventHandler p
         then m_log (prot c') = m_log p @ [(False, reply_event msg err)] \<and> m_locked (prot c')
         else prot c' = p)"
proof -
  let ?t = "OMX_STATETYPE_of abi (msg_nParam1 msg)" and ?s = "m_currentState c"
  obtain err p where hook: "(if omx_legal ?s ?t then CommandStateSet hk (?s, ?t) ?t ?s (prot c)
      else (if ?t = ?s then OMX_ErrorSameState else if ?s = OMX_StateInvalid then OMX_ErrorInvalidState
            else OMX_ErrorIncorrectStateTransition, prot c)) = (err, p)" by fastforce
  let ?c1 = "c\<lparr>prot := p, m_currentState := (if err = OMX_ErrorNone then ?t else ?s),
      m_targetState := (if err = OMX_ErrorNone then ?t else ?s)\<rparr>"
  have "command_switch abi hk msg c = (?c1, err, True, False)"
    using assms hook
    by (auto simp: command_switch_def state_set_result StateChangeStart_result Let_def quiescent_def
        split: if_splits)
  from dispatch_reply [OF this] show ?thesis
    unfolding Let_def hook by (simp add: quiescent_def)
qed

text \<open>every command other than a flush, enable or disable of all ports is answered by exactly
  one event, command complete or error, sent last and with the mutex released.\<close>

theorem command_answered_once:
  assumes "msg_command msg \<in> {OMX_CommandFlush, OMX_CommandPortEnable, OMX_CommandPortDisable}
           \<longrightarrow> msg_nParam1 msg \<noteq> OMX_ALL abi"
  shows "let (c1, err, reply, error) = command_switch abi hk msg c in
     cb_EventHandler (prot c1) \<longrightarrow>
       m_log (prot (dispatch abi hk msg c)) = m_log (prot c1) @ [(False, reply_event msg err)]"
proof -
  obtain c1 err reply error where sw: "command_switch abi hk msg c = (c1, err, reply, error)"
    by (metis prod_cases4)
  from switch_reply [OF sw assms] sw show ?thesis
    using report_back_log [of "prot c1" msg err reply error] by (simp add: dispatch_def)
qed

text \<open>the command handler ends and has then executed every queued command, in the order the
  commands were accepted: the component is in the state of dispatching them one after the
  other, and the queue is empty.\<close>

theorem command_handler_fifo:
  assumes "fifo_queue mq contents cap"
  shows "\<exists>q'. CommandEventHandler abi hk mq q c = Some (q', fold (dispatch abi hk) (contents q) c) \<and> contents q' = []"
  by (rule fifo_queue.handler_drains [OF assms])

text \<open>a command sent to a component whose queue has room is accepted and put behind the
  commands already queued; with a full queue it is refused with a timeout and nothing changes.\<close>

theorem send_command_bounded:
  assumes "fifo_queue mq contents cap" "cmd \<noteq> OMX_CommandMarkBuffer"
  shows "\<exists>err q'. SendCommand mq cmd n None q = Some (err, q')
     \<and> (if length (contents q) < cap
         then err = OMX_ErrorNone \<and> contents q' = contents q @ [\<lparr>msg_command = cmd, msg_nParam1 = n, msg_markType = 0\<rparr>]
         else err = OMX_ErrorTimeout \<and> contents q' = contents q)"
proof -
  let ?m = "\<lparr>msg_command = cmd, msg_nParam1 = n, msg_markType = 0\<rparr>"
  show ?thesis
    using fifo_queue.queue_command_room [OF assms(1), of q ?m] fifo_queue.queue_command_full [OF assms(1), of q ?m]
      assms(2)
    by (cases "length (contents q) < cap") (auto simp: SendCommand_def)
qed

text \<open>C4: returning the buffers of a port ends, whatever is queued: it calls the client once for
  each queued buffer, in the order they were queued, with the callback of the port's
  direction (and not at all for a tunnelled port), no assertion fails, and the port is left
  with an empty queue and otherwise unchanged.\<close>

theorem return_port_buffers_all:
  assumes "port_inv hp p"
  shows "\<exists>c'. ReturnPortBuffers p c = Some (p\<lparr>m_bufferQueue := [], m_queueDepth := 0\<rparr>, c')
     \<and> port_inv hp (p\<lparr>m_bufferQueue := [], m_queueDepth := 0\<rparr>)
     \<and> m_log c' = m_log c @
         (if IsTunneled p then []
          else if eDir (m_definition p) = OMX_DirInput
          then (if cb_EmptyBufferDone c then map (\<lambda>b. (m_locked c, EmptyBufferDone b)) (m_bufferQueue p) else [])
          else (if cb_FillBufferDone c then map (\<lambda>b. (m_locked c, FillBufferDone b)) (m_bufferQueue p) else []))"
proof -
  obtain p' c' where r: "ReturnPortBuffers p c = Some (p', c')" "port_inv hp p'"
    "p' = p\<lparr>m_bufferQueue := [], m_queueDepth := 0\<rparr>"
    "m_log c' = m_log c @ concat (map (buffer_done (drain_ctx (p, c))) (m_bufferQueue p))"
    using ReturnPortBuffers_result [OF assms] by blast
  have "concat (map (buffer_done (drain_ctx (p, c))) q) =
     (if IsTunneled p then []
      else if eDir (m_definition p) = OMX_DirInput
      then (if cb_EmptyBufferDone c then map (\<lambda>b. (m_locked c, EmptyBufferDone b)) q else [])
      else (if cb_FillBufferDone c then map (\<lambda>b. (m_locked c, FillBufferDone b)) q else []))" for q
    by (induction q) (auto simp: buffer_done_def drain_ctx_def IsTunneled_def)
  with r show ?thesis by auto
qed

text \<open>a port number selects the port that carries it: with the port ranges laid out as the
  components do, the search returns a port exactly if some domain has a port with that number.\<close>

theorem find_port_by_index:
  assumes "ports_wf c"
  shows "FindPortByIndex c index = Some p \<longleftrightarrow> (\<exists>d. p \<in> set (port_array d c) \<and> nPortIndex (m_definition p) = index)"
  by (rule FindPortByIndex_iff [OF assms])

section \<open>Witnesses\<close>

text \<open>A decoder shell: two audio ports numbered from 0; flushing port 0 fails.\<close>

definition demo_hooks :: "unit hooks" where
  "demo_hooks =
     \<lparr>CommandStateSet = (\<lambda>_ _ _ c. (OMX_ErrorNone, c)),
      CommandFlush = (\<lambda>_ i c. (if i = 0 then OMX_ErrorHardware else OMX_ErrorNone, c)),
      CommandPortEnable = (\<lambda>_ _ c. (OMX_ErrorNone, c)),
      CommandPortDisable = (\<lambda>_ _ c. (OMX_ErrorNone, c))\<rparr>"

definition demo_component :: "unit component" where
  "demo_component =
     (let c = new_BOMX_Component omx_il_abi ''demo'' 0 (Some (True, True, True)) ''uuid'' () in
      c\<lparr>prot := (prot c)\<lparr>m_pAudioPorts :=
        [new_BOMX_AudioPort omx_il_abi False 0 OMX_DirInput 1 100 False 1 [] [],
         new_BOMX_AudioPort omx_il_abi False 1 OMX_DirOutput 1 100 False 1 [] []]\<rparr>\<rparr>)"

abbreviation demo_msg :: "OMX_COMMANDTYPE \<Rightarrow> u32 \<Rightarrow> BOMX_CommandMsg" where
  "demo_msg cmd n \<equiv> \<lparr>msg_command = cmd, msg_nParam1 = n, msg_markType = 0\<rparr>"

lemmas demo_component_simps =
  demo_component_def demo_hooks_def new_BOMX_Component_def SetRole_def new_BOMX_AudioPort_def new_BOMX_Port_def
  strncpy_str_def

text \<open>when all ports are flushed, enabled or disabled at once, the error of one port is
  overwritten by the success of a later one: the client gets a command complete event for the
  port that failed, and then an error event that carries no error.\<close>

theorem all_ports_error_lost:
  "map snd (m_log (prot (dispatch omx_il_abi demo_hooks (demo_msg OMX_CommandFlush 4294967295) demo_component)))
   = [EventCmdComplete OMX_CommandFlush 0 None, EventCmdComplete OMX_CommandFlush 1 None,
      EventError OMX_ErrorNone OMX_CommandFlush None]"
  by (simp add: dispatch_def command_switch_def port_command_def all_ports_def all_ports_body_def
      BOMX_COMPONENT_MAX_PORTS_def upt_rec demo_component_simps omx_il_abi_def port_array_def port_base_def
      IsEnabled_def call_event_def call_def report_back_def Let_def Lock_def Unlock_def)

lemma demo_component_quiescent: "quiescent demo_component" "m_currentState demo_component = OMX_StateLoaded"
  by (simp_all add: demo_component_simps quiescent_def)

lemma demo_abi: "OMX_STATETYPE_of omx_il_abi 3 = OMX_StateExecuting" "OMX_ALL omx_il_abi = 4294967295"
  by (simp_all add: omx_il_abi_def)

lemma demo_prot: "cb_EventHandler (prot demo_component)" "m_log (prot demo_component) = []"
  by (simp_all add: demo_component_simps)

theorem component_state_machine_safe_witness:
  "let c = dispatch omx_il_abi demo_hooks (demo_msg OMX_CommandStateSet 2)
        (new_BOMX_Component omx_il_abi ''demo'' 0 (Some (True, True, True)) ''uuid'' ())
   in m_currentState c = OMX_StateIdle \<and> m_currentState c = m_targetState c"
proof -
  let ?start = "new_BOMX_Component omx_il_abi ''demo'' 0 (Some (True, True, True)) ''uuid'' () :: unit component"
  let ?m = "demo_msg OMX_CommandStateSet 2"
  let ?c = "dispatch omx_il_abi demo_hooks ?m ?start"
  have "comp_step omx_il_abi demo_hooks list_queue ([?m], ?start) ([], ?c)"
    by (rule step_handle) (simp add: list_queue_def)
  then have "(comp_step omx_il_abi demo_hooks list_queue)\<^sup>*\<^sup>* ([?m], ?start) ([], ?c)" by (rule r_into_rtranclp)
  from component_state_machine_safe [OF this rtranclp.rtrancl_refl] show ?thesis
    by (simp add: dispatch_def command_switch_def state_set_command_def StateChangeStart_def
        demo_component_simps omx_il_abi_def Let_def)
qed

theorem state_command_answered_witness:
  "let c' = dispatch omx_il_abi demo_hooks (demo_msg OMX_CommandStateSet 3) demo_component
   in m_currentState c' = OMX_StateLoaded
    \<and> m_log (prot c') = [(False, EventError OMX_ErrorIncorrectStateTransition OMX_CommandStateSet None)]"
  using state_command_answered [OF demo_component_quiescent(1), of "demo_msg OMX_CommandStateSet 3" omx_il_abi demo_hooks]
  by (simp add: demo_component_quiescent omx_legal_def omx_figure_def demo_abi Let_def reply_event_def demo_prot)

theorem command_answered_once_witness:
  "m_log (prot (dispatch omx_il_abi demo_hooks (demo_msg OMX_CommandFlush 0) demo_component))
   = [(False, EventError OMX_ErrorHardware OMX_CommandFlush None)]"
  using command_answered_once [of "demo_msg OMX_CommandFlush 0" omx_il_abi demo_hooks demo_component]
  by (simp add: command_switch_def port_command_def demo_abi reply_event_def Let_def demo_hooks_def demo_prot)

theorem command_handler_fifo_witness:
  "\<exists>q' c'. CommandEventHandler omx_il_abi demo_hooks list_queue
       [demo_msg OMX_CommandStateSet 2, demo_msg OMX_CommandStateSet 3] demo_component = Some (q', c')
     \<and> q' = [] \<and> m_currentState c' = OMX_StateExecuting"
  using command_handler_fifo [OF list_fifo.fifo_queue_axioms, of omx_il_abi demo_hooks
      "[demo_msg OMX_CommandStateSet 2, demo_msg OMX_CommandStateSet 3]" demo_component]
  by (auto simp: dispatch_def command_switch_def state_set_command_def StateChangeStart_def
      demo_component_simps omx_il_abi_def Let_def)

theorem send_command_bounded_witness:
  "\<exists>q'. SendCommand list_queue OMX_CommandFlush 0 None (replicate 16 (demo_msg OMX_CommandFlush 1))
      = Some (OMX_ErrorTimeout, q')"
  using send_command_bounded [OF list_fifo.fifo_queue_axioms, of OMX_CommandFlush 0
      "replicate 16 (demo_msg OMX_CommandFlush 1)"]
  by (auto simp: BOMX_COMPONENT_MAX_MSGS_def)

theorem return_port_buffers_all_witness:
  "\<exists>c'. ReturnPortBuffers demo_queued (prot demo_component)
        = Some (demo_queued\<lparr>m_bufferQueue := [], m_queueDepth := 0\<rparr>, c')
      \<and> map snd (m_log c') = [EmptyBufferDone 8]"
  using return_port_buffers_all [OF demo_queued_inv, of "prot demo_component"]
  by (auto simp: IsTunneled_def demo_queued_def demo_added_def demo_port_def demo_component_simps)

lemma demo_ports_wf: "ports_wf (prot demo_component)"
proof -
  have "port_range d (prot demo_component) = (if d = OMX_PortDomainAudio then {0..<2} else {})" for d
    by (cases d) (auto simp: port_range_def port_base_def port_array_def demo_component_simps)
  then show ?thesis
    by (auto simp: ports_wf_def all_domains_def numbered_def port_array_def port_base_def
        BOMX_COMPONENT_MAX_PORTS_def demo_component_simps)
qed

theorem find_port_by_index_witness:
  "\<exists>p. FindPortByIndex (prot demo_component) 1 = Some p \<and> eDir (m_definition p) = OMX_DirOutput"
  using find_port_by_index [OF demo_ports_wf, of 1 "m_pAudioPorts (prot demo_component) ! 1"]
  by (auto simp: demo_component_simps port_array_def intro: exI [of _ OMX_PortDomainAudio])

end
