(* ===== verification/Bomx_Tunnels.thy ===== *)
theory Bomx_Tunnels
  imports Bomx_Component
begin

text \<open>
  The part of \<open>bomx_component.cpp\<close> that spans components: the walk over tunnelled components
  and the resource entries that all components of one tunnel graph share. Components are
  addresses; \<open>comps\<close> gives the object at an address.
\<close>

section \<open>Walking tunnels\<close>

definition BOMX_MAX_COMPONENTS_IN_ARRAY :: nat where "BOMX_MAX_COMPONENTS_IN_ARRAY = 16"

text \<open>The tunnel components of a component's ports, in the order of the four loops.\<close>

definition tunnels :: "(addr \<Rightarrow> 's BOMX_Component option) \<Rightarrow> addr \<Rightarrow> addr list" where
  "tunnels comps a =
     (case comps a of
        None \<Rightarrow> []
      | Some c \<Rightarrow> filter (\<lambda>t. t \<noteq> NULL) (map m_pTunnelComponent
          (m_pVideoPorts c @ m_pAudioPorts c @ m_pImagePorts c @ m_pOtherPorts c)))"

text \<open>
  The recursion adds a component to the array before it descends and stops when the array is
  full, so it is at most 17 calls deep: the first argument bounds the depth.
\<close>

fun walk :: "nat \<Rightarrow> (addr \<Rightarrow> addr list) \<Rightarrow> addr \<Rightarrow> addr list \<Rightarrow> addr list" where
  "walk 0 next this arr = arr"
| "walk (Suc n) next this arr =
     (if this \<in> set arr then arr
      else if length arr \<ge> BOMX_MAX_COMPONENTS_IN_ARRAY then arr
      else fold (walk n next) (next this) (arr @ [this]))"

definition WalkTunnels :: "(addr \<Rightarrow> 's BOMX_Component option) \<Rightarrow> addr \<Rightarrow> addr list \<Rightarrow> addr list" where
  "WalkTunnels comps this arr = walk (Suc BOMX_MAX_COMPONENTS_IN_ARRAY) (tunnels comps) this arr"

section \<open>Shared resources\<close>

text \<open>An entry of \<open>g_resourceList\<close>: the components of the graph and which of them use it.\<close>

record BOMX_ComponentResources =
  componentArray :: "addr list"
  allocated :: "bool list"

text \<open>The global list, entries with their addresses, and the \<open>m_pResources\<close> of every component.\<close>

record res_state =
  g_resourceList :: "(addr \<times> BOMX_ComponentResources) list"
  m_pResources :: "addr \<Rightarrow> addr"

text \<open>The inner double loop: how many components of \<open>a\<close> occur in \<open>b\<close>.\<close>

definition num_matches :: "addr list \<Rightarrow> addr list \<Rightarrow> nat" where
  "num_matches a b = length (filter (\<lambda>x. x \<in> set b) a)"

definition same_components :: "addr list \<Rightarrow> BOMX_ComponentResources \<Rightarrow> bool" where
  "same_components arr r \<longleftrightarrow> length (componentArray r) = length arr \<and> num_matches arr (componentArray r) = length arr"

fun update_res :: "addr \<Rightarrow> (BOMX_ComponentResources \<Rightarrow> BOMX_ComponentResources)
   \<Rightarrow> (addr \<times> BOMX_ComponentResources) list \<Rightarrow> (addr \<times> BOMX_ComponentResources) list" where
  "update_res a f [] = []"
| "update_res a f ((b, r) # rs) = (if a = b then (b, f r) # rs else (b, r) # update_res a f rs)"

text \<open>The position of a component in an array, if any.\<close>

fun index_of :: "addr \<Rightarrow> addr list \<Rightarrow> nat option" where
  "index_of x [] = None"
| "index_of x (y # ys) = (if y = x then Some 0 else map_option Suc (index_of x ys))"

text \<open>\<open>newRes\<close> is the entry allocated when none matches (NULL on failure); \<open>None\<close>: an assertion fails.\<close>

definition AllocateResources ::
  "(addr \<Rightarrow> 's BOMX_Component option) \<Rightarrow> addr \<Rightarrow> addr \<Rightarrow> res_state \<Rightarrow> res_state option" where
  "AllocateResources comps newRes this s =
     (let compArray = WalkTunnels comps this [];
          found = find (\<lambda>(a, r). same_components compArray r) (g_resourceList s);
          (pRes, lst) =
            (case found of
               Some (a, r) \<Rightarrow> (Some (a, r), g_resourceList s)
             | None \<Rightarrow> if newRes = NULL then (None, g_resourceList s)
                       else let r = \<lparr>componentArray = compArray, allocated = replicate BOMX_MAX_COMPONENTS_IN_ARRAY False\<rparr>
                            in (Some (newRes, r), (newRes, r) # g_resourceList s))
      in case pRes of
           None \<Rightarrow> Some s
         | Some (a, r) \<Rightarrow>
             (case index_of this (componentArray r) of
                None \<Rightarrow> None
              | Some i \<Rightarrow>
                  if allocated r ! i then None
                  else Some \<lparr>g_resourceList = update_res a (\<lambda>r. r\<lparr>allocated := (allocated r)[i := True]\<rparr>) lst,
                             m_pResources = (m_pResources s)(this := a)\<rparr>))"

definition ReleaseResources :: "addr \<Rightarrow> res_state \<Rightarrow> res_state option" where
  "ReleaseResources this s =
     (if m_pResources s this = NULL then Some s
      else
        let a = m_pResources s this;
            ptrs = (m_pResources s)(this := NULL) in
        case map_of (g_resourceList s) a of
          None \<Rightarrow> None
        | Some r \<Rightarrow>
            (case index_of this (componentArray r) of
               None \<Rightarrow> None
             | Some i \<Rightarrow>
                 if \<not> allocated r ! i then None
                 else
                   let r' = r\<lparr>allocated := (allocated r)[i := False]\<rparr>;
                       active = list_ex id (take (length (componentArray r')) (allocated r'))
                   in Some \<lparr>g_resourceList =
                              (if \<not> active then filter (\<lambda>e. fst e \<noteq> a) (g_resourceList s)
                               else update_res a (\<lambda>_. r') (g_resourceList s)),
                            m_pResources = ptrs\<rparr>))"

section \<open>What the walk finds\<close>

lemma fold_walk_invariant:
  assumes "\<And>x arr. P arr \<Longrightarrow> P (walk n next x arr)" "P arr"
  shows "P (fold (walk n next) xs arr)"
  using assms(2) by (induction xs arbitrary: arr) (auto intro: assms(1))

lemma walk_distinct:
  "distinct arr \<and> length arr \<le> 16 \<Longrightarrow> distinct (walk n next x arr) \<and> length (walk n next x arr) \<le> 16"
proof (induction n arbitrary: x arr)
  case (Suc n)
  show ?case
  proof (cases "x \<in> set arr \<or> 16 \<le> length arr")
    case False
    have "distinct (fold (walk n next) xs a) \<and> length (fold (walk n next) xs a) \<le> 16"
      if "distinct a \<and> length a \<le> 16" for xs a
      using fold_walk_invariant [of "\<lambda>a. distinct a \<and> length a \<le> 16" n "next", OF Suc.IH that] .
    with False Suc.prems show ?thesis by (simp add: BOMX_MAX_COMPONENTS_IN_ARRAY_def)
  qed (use Suc.prems in \<open>auto simp: BOMX_MAX_COMPONENTS_IN_ARRAY_def\<close>)
qed simp

text \<open>The array only grows, and at its end.\<close>

lemma walk_grows: "\<exists>new. walk n next x arr = arr @ new"
proof (induction n arbitrary: x arr)
  case (Suc n)
  have "\<exists>new. fold (walk n next) xs a = a @ new" for xs a
    using fold_walk_invariant [of "\<lambda>b. \<exists>new. b = a @ new" n "next" a xs] Suc.IH by (metis append_assoc append_Nil2)
  then show ?case by (metis append_assoc append_Nil2 walk.simps(2))
qed simp

definition edge :: "(addr \<Rightarrow> addr list) \<Rightarrow> addr \<Rightarrow> addr \<Rightarrow> bool" where
  "edge next x y \<longleftrightarrow> y \<in> set (next x)"

lemma walk_sound:
  "set (walk n next x arr) \<subseteq> set arr \<union> {y. (edge next)\<^sup>*\<^sup>* x y}"
proof (induction n arbitrary: x arr)
  case (Suc n)
  let ?R = "{y. (edge next)\<^sup>*\<^sup>* x y}"
  have step: "set (fold (walk n next) xs a) \<subseteq> set arr \<union> ?R"
    if "set xs \<subseteq> set (next x)" "set a \<subseteq> set arr \<union> ?R" for xs a
    using that
  proof (induction xs arbitrary: a)
    case (Cons z zs)
    have "edge next x z" using Cons.prems(1) by (simp add: edge_def)
    then have "{y. (edge next)\<^sup>*\<^sup>* z y} \<subseteq> ?R" by (auto intro: converse_rtranclp_into_rtranclp)
    then have "set (walk n next z a) \<subseteq> set arr \<union> ?R" using Suc.IH [of z a] Cons.prems(2) by blast
    with Cons.IH [of "walk n next z a"] Cons.prems(1) show ?case by simp
  qed simp
  show ?case using step [of "next x" "arr @ [x]"] by (auto simp: BOMX_MAX_COMPONENTS_IN_ARRAY_def)
qed simp

lemma fold_walk_grows: "\<exists>new. fold (walk n next) xs arr = arr @ new"
proof (induction xs arbitrary: arr)
  case (Cons x xs)
  then show ?case using walk_grows [of n "next" x arr] by (metis append_assoc fold_simps(2))
qed simp

text \<open>
  As long as the array does not fill up, the walk is complete: with enough depth left it adds
  the component and everything its new components are tunnelled to.
\<close>

lemma fold_walk_complete:
  assumes IH: "\<And>x arr. 17 \<le> n + length arr \<Longrightarrow> length (walk n next x arr) < 16 \<Longrightarrow>
      x \<in> set (walk n next x arr) \<and> (\<forall>y \<in> set (walk n next x arr) - set arr. set (next y) \<subseteq> set (walk n next x arr))"
    and "17 \<le> n + length a" "length (fold (walk n next) xs a) < 16"
  shows "set xs \<subseteq> set (fold (walk n next) xs a)
    \<and> (\<forall>y \<in> set (fold (walk n next) xs a) - set a. set (next y) \<subseteq> set (fold (walk n next) xs a))"
  using assms(2,3)
proof (induction xs arbitrary: a)
  case (Cons z zs)
  let ?a = "walk n next z a" and ?r = "fold (walk n next) zs (walk n next z a)"
  obtain w1 where w1: "?a = a @ w1" using walk_grows by blast
  obtain w2 where w2: "?r = ?a @ w2" using fold_walk_grows by blast
  have r: "length ?r < 16" using Cons.prems(2) by simp
  then have "length ?a < 16" by (simp add: w2)
  then have a: "z \<in> set ?a" "\<forall>y \<in> set ?a - set a. set (next y) \<subseteq> set ?a"
    using IH [OF Cons.prems(1)] by blast+
  have "17 \<le> n + length ?a" using Cons.prems(1) by (simp add: w1)
  from Cons.IH [OF this r] have rest: "set zs \<subseteq> set ?r" "\<forall>y \<in> set ?r - set ?a. set (next y) \<subseteq> set ?r" by auto
  have sub: "set ?a \<subseteq> set ?r" by (subst w2) simp
  show ?case using a rest sub by (simp only: fold_simps(2) set_simps) blast
qed simp

lemma walk_complete:
  "17 \<le> n + length arr \<Longrightarrow> length (walk n next x arr) < 16 \<Longrightarrow>
   x \<in> set (walk n next x arr) \<and> (\<forall>y \<in> set (walk n next x arr) - set arr. set (next y) \<subseteq> set (walk n next x arr))"
proof (induction n arbitrary: x arr)
  case (Suc n)
  show ?case
  proof (cases "x \<in> set arr \<or> 16 \<le> length arr")
    case True
    then have "walk (Suc n) next x arr = arr" by (auto simp: BOMX_MAX_COMPONENTS_IN_ARRAY_def)
    with True Suc.prems show ?thesis by simp
  next
    case False
    let ?r = "fold (walk n next) (next x) (arr @ [x])"
    have r: "walk (Suc n) next x arr = ?r" using False by (simp add: BOMX_MAX_COMPONENTS_IN_ARRAY_def)
    have "set (next x) \<subseteq> set ?r \<and> (\<forall>y \<in> set ?r - set (arr @ [x]). set (next y) \<subseteq> set ?r)"
      using Suc.prems r by (intro fold_walk_complete Suc.IH) simp_all
    moreover obtain new where "?r = (arr @ [x]) @ new" using fold_walk_grows by blast
    then have "set (arr @ [x]) \<subseteq> set ?r" by (metis set_append Un_upper1)
    ultimately show ?thesis unfolding r by auto
  qed
qed simp

text \<open>A deeper bound never changes the result.\<close>

lemma walk_depth: "17 \<le> n + length arr \<Longrightarrow> distinct arr \<and> length arr \<le> 16 \<Longrightarrow> walk (Suc n) next x arr = walk n next x arr"
proof (induction n arbitrary: x arr)
  case (Suc n)
  have f: "fold (walk (Suc n) next) xs a = fold (walk n next) xs a"
    if "17 \<le> n + length a" "distinct a \<and> length a \<le> 16" for xs a
    using that
  proof (induction xs arbitrary: a)
    case (Cons z zs)
    obtain w where w: "walk n next z a = a @ w" using walk_grows by blast
    with Cons.IH [of "walk n next z a"] Cons.prems walk_distinct [OF Cons.prems(2), of n "next" z] Suc.IH [of a z]
    show ?case by simp
  qed simp
  show ?case
  proof (cases "x \<in> set arr \<or> 16 \<le> length arr")
    case True
    then show ?thesis by (auto simp: BOMX_MAX_COMPONENTS_IN_ARRAY_def)
  next
    case False
    then have w: "walk (Suc m) next x arr = fold (walk m next) (next x) (arr @ [x])" for m
      by (simp add: BOMX_MAX_COMPONENTS_IN_ARRAY_def)
    show ?thesis unfolding w using f [of "arr @ [x]" "next x"] Suc.prems False by simp
  qed
qed simp

lemma walk_depth_any:
  "17 \<le> n + length arr \<Longrightarrow> distinct arr \<and> length arr \<le> 16 \<Longrightarrow> walk (n + k) next x arr = walk n next x arr"
  by (induction k) (simp_all add: walk_depth del: walk.simps)

lemma walk_from_empty:
  assumes "length (walk 17 next x []) < 16"
  shows "set (walk 17 next x []) = {y. (edge next)\<^sup>*\<^sup>* x y}"
proof
  show "set (walk 17 next x []) \<subseteq> {y. (edge next)\<^sup>*\<^sup>* x y}" using walk_sound [of 17 "next" x "[]"] by simp
  have c: "x \<in> set (walk 17 next x [])" "\<And>y. y \<in> set (walk 17 next x []) \<Longrightarrow> set (next y) \<subseteq> set (walk 17 next x [])"
    using walk_complete [of 17 "[]" "next" x] assms by auto
  show "{y. (edge next)\<^sup>*\<^sup>* x y} \<subseteq> set (walk 17 next x [])"
  proof
    fix y assume "y \<in> {y. (edge next)\<^sup>*\<^sup>* x y}"
    then have "(edge next)\<^sup>*\<^sup>* x y" by simp
    then show "y \<in> set (walk 17 next x [])"
      by (induction rule: rtranclp_induct) (use c in \<open>auto simp: edge_def\<close>)
  qed
qed

text \<open>A component is always in its own array: the walk starts with it.\<close>

lemma walk_self: "x \<in> set (walk (Suc n) next x [])"
proof -
  obtain new where "fold (walk n next) (next x) [x] = [x] @ new" using fold_walk_grows by blast
  then show ?thesis by (simp add: BOMX_MAX_COMPONENTS_IN_ARRAY_def)
qed

section \<open>Resource bookkeeping\<close>

lemma index_of_Some: "index_of x ys = Some i \<Longrightarrow> i < length ys \<and> ys ! i = x"
  by (induction ys arbitrary: i) (auto split: if_splits)

lemma index_of_mem: "x \<in> set ys \<Longrightarrow> \<exists>i. index_of x ys = Some i"
  by (induction ys) auto

lemma set_update_res:
  "distinct (map fst rs) \<Longrightarrow> (a, r) \<in> set rs \<Longrightarrow> set (update_res a f rs) = insert (a, f r) (set rs - {(a, r)})"
proof (induction rs)
  case (Cons e rs)
  obtain b q where e: "e = (b, q)" by (cases e)
  with Cons show ?case by (cases "a = b") (auto simp: image_iff)
qed simp

lemma map_fst_update_res: "map fst (update_res a f rs) = map fst rs"
  by (induction a f rs rule: update_res.induct) auto

lemma same_components_set:
  assumes "same_components arr r" "distinct arr" "distinct (componentArray r)"
  shows "set (componentArray r) = set arr"
proof -
  have "length (filter (\<lambda>x. x \<in> set (componentArray r)) arr) = length arr"
    using assms(1) by (simp add: same_components_def num_matches_def)
  then have "set arr \<subseteq> set (componentArray r)"
    by (metis filter_True filter_id_conv length_filter_less less_irrefl subsetI)
  moreover have "card (set (componentArray r)) = card (set arr)"
    using assms by (simp add: distinct_card same_components_def)
  ultimately show ?thesis using card_subset_eq [of "set (componentArray r)" "set arr"] by simp
qed

definition entry_ok :: "(addr \<Rightarrow> addr) \<Rightarrow> addr \<times> BOMX_ComponentResources \<Rightarrow> bool" where
  "entry_ok ptrs e \<longleftrightarrow> fst e \<noteq> NULL \<and> distinct (componentArray (snd e))
     \<and> length (componentArray (snd e)) \<le> 16 \<and> length (allocated (snd e)) = 16
     \<and> (\<forall>i < length (componentArray (snd e)). allocated (snd e) ! i \<longleftrightarrow> ptrs (componentArray (snd e) ! i) = fst e)"

definition in_use :: "BOMX_ComponentResources \<Rightarrow> bool" where
  "in_use r \<longleftrightarrow> list_ex id (take (length (componentArray r)) (allocated r))"

definition res_base :: "(addr \<times> BOMX_ComponentResources) list \<Rightarrow> (addr \<Rightarrow> addr) \<Rightarrow> bool" where
  "res_base rs ptrs \<longleftrightarrow> distinct (map fst rs) \<and> (\<forall>e \<in> set rs. entry_ok ptrs e)
     \<and> (\<forall>c. ptrs c \<noteq> NULL \<longrightarrow> (\<exists>r. (ptrs c, r) \<in> set rs \<and> c \<in> set (componentArray r)))"

text \<open>
  Every entry is in use, no two entries are for the same set of components, and a component
  points to an entry exactly if its flag is set there.
\<close>

definition graphs_differ :: "(addr \<times> BOMX_ComponentResources) list \<Rightarrow> bool" where
  "graphs_differ rs \<longleftrightarrow> (\<forall>e \<in> set rs. \<forall>e' \<in> set rs.
     set (componentArray (snd e)) = set (componentArray (snd e')) \<longrightarrow> fst e = fst e')"

definition res_inv :: "res_state \<Rightarrow> bool" where
  "res_inv s \<longleftrightarrow> res_base (g_resourceList s) (m_pResources s) \<and> graphs_differ (g_resourceList s)
     \<and> (\<forall>e \<in> set (g_resourceList s). in_use (snd e))"

lemma res_base_unique: "res_base rs ptrs \<Longrightarrow> (a, r) \<in> set rs \<Longrightarrow> (a, r') \<in> set rs \<Longrightarrow> r = r'"
  by (auto simp: res_base_def dest: eq_key_imp_eq_value)

lemma res_base_ptr: "res_base rs ptrs \<Longrightarrow> ptrs c \<noteq> NULL \<Longrightarrow> \<exists>r. (ptrs c, r) \<in> set rs \<and> c \<in> set (componentArray r)"
  by (simp add: res_base_def)

text \<open>Setting or clearing the flag of one component together with its pointer.\<close>

lemma res_base_flag:
  assumes base: "res_base rs ptrs" and mem: "(a, r) \<in> set rs" and i: "index_of this (componentArray r) = Some i"
    and old: "ptrs this = (if v then NULL else a)"
  shows "res_base (update_res a (\<lambda>r. r\<lparr>allocated := (allocated r)[i := v]\<rparr>) rs) (ptrs(this := if v then a else NULL))"
    (is "res_base ?rs ?ptrs")
proof -
  let ?r = "r\<lparr>allocated := (allocated r)[i := v]\<rparr>"
  have d: "distinct (map fst rs)" and ok: "\<And>e. e \<in> set rs \<Longrightarrow> entry_ok ptrs e" using base by (auto simp: res_base_def)
  have set: "set ?rs = insert (a, ?r) (set rs - {(a, r)})" by (rule set_update_res [OF d mem])
  have ii: "i < length (componentArray r)" "componentArray r ! i = this" using index_of_Some [OF i] by auto
  have r: "a \<noteq> NULL" "distinct (componentArray r)" "length (componentArray r) \<le> 16" "length (allocated r) = 16"
    "\<And>j. j < length (componentArray r) \<Longrightarrow> allocated r ! j \<longleftrightarrow> ptrs (componentArray r ! j) = a"
    using ok [OF mem] by (auto simp: entry_ok_def)
  have new: "entry_ok ?ptrs (a, ?r)"
    unfolding entry_ok_def
  proof (intro conjI allI impI)
    fix j assume "j < length (componentArray (snd (a, ?r)))"
    then have j: "j < length (componentArray r)" by simp
    show "allocated (snd (a, ?r)) ! j \<longleftrightarrow> ?ptrs (componentArray (snd (a, ?r)) ! j) = fst (a, ?r)"
    proof (cases "j = i")
      case True
      with ii r show ?thesis by simp
    next
      case False
      then have "componentArray r ! j \<noteq> this" using ii j r(2) by (metis nth_eq_iff_index_eq)
      with False r(5) [OF j] show ?thesis by simp
    qed
  qed (use r in simp_all)
  have others: "entry_ok ?ptrs e" if e: "e \<in> set rs" "e \<noteq> (a, r)" for e
  proof -
    have "fst e \<noteq> a" using e mem d by (metis eq_key_imp_eq_value prod.collapse)
    with ok [OF e(1)] old r(1) show ?thesis by (auto simp: entry_ok_def)
  qed
  have ptr: "\<exists>q. (?ptrs c, q) \<in> set ?rs \<and> c \<in> set (componentArray q)" if "?ptrs c \<noteq> NULL" for c
  proof (cases "c = this")
    case True
    with that have v by (auto split: if_splits)
    moreover have "this \<in> set (componentArray ?r)" using ii nth_mem [of i "componentArray r"] by simp
    ultimately show ?thesis using True set by auto
  next
    case False
    with that base obtain q where q: "(ptrs c, q) \<in> set rs" "c \<in> set (componentArray q)" by (auto simp: res_base_def)
    show ?thesis
    proof (cases "ptrs c = a")
      case True
      then have "q = r" using q mem res_base_unique [OF base] by blast
      with True q set False show ?thesis by auto
    next
      case other: False
      with q set False show ?thesis by auto
    qed
  qed
  show ?thesis using d new others ptr set by (auto simp: res_base_def map_fst_update_res)
qed

text \<open>Removing an entry nobody uses, and adding a fresh one.\<close>

lemma res_base_remove:
  assumes base: "res_base rs ptrs" and mem: "(a, r) \<in> set rs" and unused: "\<not> in_use r"
  shows "res_base (filter (\<lambda>e. fst e \<noteq> a) rs) ptrs"
proof -
  have no: "ptrs c \<noteq> a" for c
  proof
    assume c: "ptrs c = a"
    have ok: "entry_ok ptrs (a, r)" using base mem by (auto simp: res_base_def)
    then have "ptrs c \<noteq> NULL" using c by (simp add: entry_ok_def)
    from res_base_ptr [OF base this] c obtain q where "(a, q) \<in> set rs" "c \<in> set (componentArray q)" by auto
    then have "c \<in> set (componentArray r)" using res_base_unique [OF base mem] by blast
    then obtain i where i: "i < length (componentArray r)" "componentArray r ! i = c" by (auto simp: in_set_conv_nth)
    with ok c have "allocated r ! i" "i < length (allocated r)" by (auto simp: entry_ok_def)
    with i unused show False by (auto simp: in_use_def list_ex_iff in_set_conv_nth)
  qed
  have "distinct (map fst (filter (\<lambda>e. fst e \<noteq> a) rs))"
    using base by (simp add: res_base_def distinct_map_filter)
  with base no show ?thesis by (fastforce simp: res_base_def)
qed

lemma res_base_add:
  assumes base: "res_base rs ptrs" and fresh: "a \<notin> fst ` set rs" "a \<noteq> NULL"
    and arr: "distinct arr" "length arr \<le> 16"
  shows "res_base ((a, \<lparr>componentArray = arr, allocated = replicate 16 False\<rparr>) # rs) ptrs"
proof -
  have "ptrs c \<noteq> a" for c
    using base fresh by (cases "ptrs c = NULL") (force simp: res_base_def)+
  then have "entry_ok ptrs (a, \<lparr>componentArray = arr, allocated = replicate 16 False\<rparr>)"
    using fresh arr by (simp add: entry_ok_def)
  with base fresh(1) show ?thesis unfolding res_base_def by (simp; metis)
qed

lemma same_components_iff:
  assumes "distinct arr" "distinct (componentArray r)"
  shows "same_components arr r \<longleftrightarrow> set (componentArray r) = set arr"
proof
  assume eq: "set (componentArray r) = set arr"
  then have "length (componentArray r) = length arr" using assms by (metis distinct_card)
  with eq show "same_components arr r" by (simp add: same_components_def num_matches_def)
qed (use same_components_set assms in blast)

lemma in_use_set: "i < length (componentArray r) \<Longrightarrow> length (componentArray r) \<le> length (allocated r)
    \<Longrightarrow> in_use (r\<lparr>allocated := (allocated r)[i := True]\<rparr>)"
  by (auto simp: in_use_def list_ex_length intro!: exI [of _ i])

lemma graphs_differ_update:
  assumes "distinct (map fst rs)" "(a, r) \<in> set rs" "componentArray (f r) = componentArray r" "graphs_differ rs"
  shows "graphs_differ (update_res a f rs)"
proof -
  have *: "\<exists>q. (fst e, q) \<in> set rs \<and> componentArray q = componentArray (snd e)" if "e \<in> set (update_res a f rs)" for e
    using that assms(2,3) unfolding set_update_res [OF assms(1,2)] by (cases e) auto
  show ?thesis
    unfolding graphs_differ_def
  proof (intro ballI impI)
    fix e e'
    assume e: "e \<in> set (update_res a f rs)" "e' \<in> set (update_res a f rs)"
      and eq: "set (componentArray (snd e)) = set (componentArray (snd e'))"
    from * [OF e(1)] * [OF e(2)] obtain q q' where
      "(fst e, q) \<in> set rs" "(fst e', q') \<in> set rs" "set (componentArray q) = set (componentArray q')"
      using eq by auto
    with assms(4) show "fst e = fst e'" by (force simp: graphs_differ_def)
  qed
qed

text \<open>The walk gives the array of an entry the shape the invariant asks for.\<close>

lemma WalkTunnels_shape:
  "distinct (WalkTunnels comps this [])" "length (WalkTunnels comps this []) \<le> 16" "this \<in> set (WalkTunnels comps this [])"
  using walk_distinct [of "[]" _ "tunnels comps" this] walk_self [of this _ "tunnels comps"]
  by (simp_all add: WalkTunnels_def del: walk.simps)

text \<open>Taking an entry: the one found, or the one just added, is in the list and not yet used by this component.\<close>

lemma res_take:
  assumes base: "res_base rs ptrs" and differ: "graphs_differ rs" and mem: "(a, r) \<in> set rs"
    and used: "\<And>e. e \<in> set rs \<Longrightarrow> e \<noteq> (a, r) \<Longrightarrow> in_use (snd e)"
    and tm: "this \<in> set (componentArray r)" and null: "ptrs this = NULL"
  shows "\<exists>i. index_of this (componentArray r) = Some i \<and> \<not> allocated r ! i
    \<and> res_inv \<lparr>g_resourceList = update_res a (\<lambda>r. r\<lparr>allocated := (allocated r)[i := True]\<rparr>) rs, m_pResources = ptrs(this := a)\<rparr>"
proof -
  obtain i where i: "index_of this (componentArray r) = Some i" using index_of_mem [OF tm] by blast
  have ok: "entry_ok ptrs (a, r)" "distinct (map fst rs)" using base mem by (auto simp: res_base_def)
  have free: "\<not> allocated r ! i" using ok(1) index_of_Some [OF i] null by (auto simp: entry_ok_def)
  have b: "res_base (update_res a (\<lambda>r. r\<lparr>allocated := (allocated r)[i := True]\<rparr>) rs) (ptrs(this := a))"
    using res_base_flag [OF base mem i, of True] null by simp
  have g: "graphs_differ (update_res a (\<lambda>r. r\<lparr>allocated := (allocated r)[i := True]\<rparr>) rs)"
    by (rule graphs_differ_update [OF ok(2) mem _ differ]) simp
  have "in_use (r\<lparr>allocated := (allocated r)[i := True]\<rparr>)"
    by (rule in_use_set) (use ok(1) index_of_Some [OF i] in \<open>auto simp: entry_ok_def\<close>)
  with used have "\<forall>e \<in> set (update_res a (\<lambda>r. r\<lparr>allocated := (allocated r)[i := True]\<rparr>) rs). in_use (snd e)"
    unfolding set_update_res [OF ok(2) mem] by auto
  with b g i free show ?thesis by (auto simp: res_inv_def)
qed

lemma mem_update_res: "(a, r) \<in> set rs \<Longrightarrow> distinct (map fst rs) \<Longrightarrow> (a, f r) \<in> set (update_res a f rs)"
  by (simp add: set_update_res)

text \<open>The entry of the graph that a state has after the allocation.\<close>

definition serves :: "res_state \<Rightarrow> addr \<Rightarrow> addr set \<Rightarrow> bool" where
  "serves s a C \<longleftrightarrow> (\<exists>r. (a, r) \<in> set (g_resourceList s) \<and> set (componentArray r) = C)"

lemma serves_unique: "res_inv s \<Longrightarrow> serves s e C \<Longrightarrow> serves s f C \<Longrightarrow> e = f"
  unfolding res_inv_def graphs_differ_def serves_def by fastforce

lemma res_inv_used: "res_inv s \<Longrightarrow> e \<in> fst ` set (g_resourceList s) \<Longrightarrow> e \<noteq> NULL \<and> (\<exists>c. m_pResources s c = e)"
  by (fastforce simp: res_inv_def res_base_def entry_ok_def in_use_def list_ex_length)

lemma AllocateResources_found:
  assumes inv: "res_inv s" and null: "m_pResources s this = NULL"
    and found: "find (\<lambda>(a, r). same_components (WalkTunnels comps this []) r) (g_resourceList s) = Some (a, r)"
  shows "\<exists>s'. AllocateResources comps newRes this s = Some s' \<and> res_inv s' \<and> m_pResources s' = (m_pResources s)(this := a)
    \<and> serves s' a (set (WalkTunnels comps this [])) \<and> serves s a (set (WalkTunnels comps this []))"
proof -
  let ?w = "WalkTunnels comps this []" and ?rs = "g_resourceList s"
  have mem: "(a, r) \<in> set ?rs" and same: "same_components ?w r"
    using found by (auto simp: find_Some_iff) (metis nth_mem)
  have base: "res_base ?rs (m_pResources s)" using inv by (simp add: res_inv_def)
  then have "entry_ok (m_pResources s) (a, r)" and d: "distinct (map fst ?rs)" using mem by (auto simp: res_base_def)
  then have eq: "set (componentArray r) = set ?w"
    using same same_components_set [OF same WalkTunnels_shape(1)] by (simp add: entry_ok_def)
  then have tm: "this \<in> set (componentArray r)" using WalkTunnels_shape by simp
  obtain i where i: "index_of this (componentArray r) = Some i" "\<not> allocated r ! i"
    "res_inv \<lparr>g_resourceList = update_res a (\<lambda>r. r\<lparr>allocated := (allocated r)[i := True]\<rparr>) ?rs,
       m_pResources = (m_pResources s)(this := a)\<rparr>"
    using res_take [OF base _ mem _ tm null] inv by (auto simp: res_inv_def)
  have "serves s a (set ?w)" using mem eq by (auto simp: serves_def)
  moreover have "serves \<lparr>g_resourceList = update_res a (\<lambda>r. r\<lparr>allocated := (allocated r)[i := True]\<rparr>) ?rs,
       m_pResources = (m_pResources s)(this := a)\<rparr> a (set ?w)"
    unfolding serves_def
    by (rule exI [of _ "r\<lparr>allocated := (allocated r)[i := True]\<rparr>"])
      (use mem_update_res [OF mem d, of "\<lambda>r. r\<lparr>allocated := (allocated r)[i := True]\<rparr>"] eq in simp)
  ultimately show ?thesis using i found by (simp add: AllocateResources_def Let_def)
qed

lemma graphs_differ_add:
  "graphs_differ rs \<Longrightarrow> (\<And>e. e \<in> set rs \<Longrightarrow> set (componentArray (snd e)) \<noteq> set (componentArray r)) \<Longrightarrow> graphs_differ ((a, r) # rs)"
  unfolding graphs_differ_def list.set ball_simps insert_iff fst_conv snd_conv by metis

lemma graphs_differ_subset: "graphs_differ rs \<Longrightarrow> set rs' \<subseteq> set rs \<Longrightarrow> graphs_differ rs'"
  unfolding graphs_differ_def by blast

lemma AllocateResources_new:
  assumes inv: "res_inv s" and null: "m_pResources s this = NULL"
    and fresh: "newRes \<noteq> NULL" "newRes \<notin> fst ` set (g_resourceList s)"
    and none: "find (\<lambda>(a, r). same_components (WalkTunnels comps this []) r) (g_resourceList s) = None"
  shows "\<exists>s'. AllocateResources comps newRes this s = Some s' \<and> res_inv s' \<and> m_pResources s' = (m_pResources s)(this := newRes)
    \<and> serves s' newRes (set (WalkTunnels comps this [])) \<and> (\<forall>a. \<not> serves s a (set (WalkTunnels comps this [])))"
proof -
  let ?w = "WalkTunnels comps this []" and ?rs = "g_resourceList s"
  let ?r = "\<lparr>componentArray = ?w, allocated = replicate 16 False\<rparr>"
  have base: "res_base ?rs (m_pResources s)" using inv by (simp add: res_inv_def)
  have diff: "set (componentArray (snd e)) \<noteq> set ?w" if "e \<in> set ?rs" for e
  proof -
    have "entry_ok (m_pResources s) e" using base that by (auto simp: res_base_def)
    moreover have "\<not> same_components ?w (snd e)" using none that by (cases e) (auto simp: find_None_iff)
    ultimately show ?thesis using same_components_iff [OF WalkTunnels_shape(1)] by (auto simp: entry_ok_def)
  qed
  have base': "res_base ((newRes, ?r) # ?rs) (m_pResources s)"
    using res_base_add [OF base fresh(2,1)] WalkTunnels_shape by blast
  have g: "graphs_differ ((newRes, ?r) # ?rs)"
    by (rule graphs_differ_add) (use inv diff in \<open>auto simp: res_inv_def\<close>)
  obtain i where i: "index_of this ?w = Some i" "\<not> allocated ?r ! i"
    "res_inv \<lparr>g_resourceList = update_res newRes (\<lambda>r. r\<lparr>allocated := (allocated r)[i := True]\<rparr>) ((newRes, ?r) # ?rs),
       m_pResources = (m_pResources s)(this := newRes)\<rparr>"
    using res_take [OF base' g, of newRes ?r this] inv null WalkTunnels_shape(3) by (auto simp: res_inv_def)
  have no: "\<forall>a. \<not> serves s a (set ?w)" using diff by (auto simp: serves_def)
  have "serves \<lparr>g_resourceList = update_res newRes (\<lambda>r. r\<lparr>allocated := (allocated r)[i := True]\<rparr>) ((newRes, ?r) # ?rs),
       m_pResources = (m_pResources s)(this := newRes)\<rparr> newRes (set ?w)"
    by (auto simp: serves_def)
  moreover have "AllocateResources comps newRes this s = Some \<lparr>g_resourceList = update_res newRes
      (\<lambda>r. r\<lparr>allocated := (allocated r)[i := True]\<rparr>) ((newRes, ?r) # ?rs), m_pResources = (m_pResources s)(this := newRes)\<rparr>"
    using i(1,2) none fresh(1) by (simp add: AllocateResources_def Let_def BOMX_MAX_COMPONENTS_IN_ARRAY_def)
  ultimately show ?thesis using i(3) no by simp
qed

lemma map_of_entry: "res_base rs ptrs \<Longrightarrow> (a, r) \<in> set rs \<Longrightarrow> map_of rs a = Some r"
  by (simp add: res_base_def)

lemma update_res_at: "map_of rs a = Some r \<Longrightarrow> update_res a (\<lambda>_. f r) rs = update_res a f rs"
  by (induction rs) (auto split: if_splits)

lemma filter_update_res: "filter (\<lambda>e. fst e \<noteq> a) (update_res a f rs) = filter (\<lambda>e. fst e \<noteq> a) rs"
  by (induction a f rs rule: update_res.induct) auto

lemma ReleaseResources_ok:
  assumes inv: "res_inv s"
  shows "\<exists>s'. ReleaseResources this s = Some s' \<and> res_inv s' \<and> m_pResources s' = (m_pResources s)(this := NULL)"
proof (cases "m_pResources s this = NULL")
  case True
  then have "(m_pResources s)(this := NULL) = m_pResources s" by (metis fun_upd_triv)
  with True inv show ?thesis by (simp add: ReleaseResources_def)
next
  case False
  let ?a = "m_pResources s this" and ?rs = "g_resourceList s"
  have base: "res_base ?rs (m_pResources s)" and differ: "graphs_differ ?rs"
    and used: "\<And>e. e \<in> set ?rs \<Longrightarrow> in_use (snd e)" using inv by (auto simp: res_inv_def)
  obtain r where mem: "(?a, r) \<in> set ?rs" and tm: "this \<in> set (componentArray r)" using res_base_ptr [OF base False] by blast
  obtain i where i: "index_of this (componentArray r) = Some i" using index_of_mem [OF tm] by blast
  have ok: "entry_ok (m_pResources s) (?a, r)" "distinct (map fst ?rs)" using base mem by (auto simp: res_base_def)
  have set: "allocated r ! i" using ok(1) index_of_Some [OF i] by (auto simp: entry_ok_def)
  let ?f = "\<lambda>r. r\<lparr>allocated := (allocated r)[i := False]\<rparr>"
  have b: "res_base (update_res ?a ?f ?rs) ((m_pResources s)(this := NULL))"
    using res_base_flag [OF base mem i, of False] by simp
  have g: "graphs_differ (update_res ?a ?f ?rs)" by (rule graphs_differ_update [OF ok(2) mem _ differ]) simp
  have m: "map_of ?rs ?a = Some r" by (rule map_of_entry [OF base mem])
  have upd: "set (update_res ?a ?f ?rs) = insert (?a, ?f r) (set ?rs - {(?a, r)})" by (rule set_update_res [OF ok(2) mem])
  show ?thesis
  proof (cases "in_use (?f r)")
    case True
    then have "\<forall>e \<in> set (update_res ?a ?f ?rs). in_use (snd e)" unfolding upd using used by auto
    then have "res_inv \<lparr>g_resourceList = update_res ?a ?f ?rs, m_pResources = (m_pResources s)(this := NULL)\<rparr>"
      using b g by (simp add: res_inv_def)
    with True False m i set show ?thesis
      by (simp add: ReleaseResources_def Let_def in_use_def update_res_at [OF m, of ?f])
  next
    case unused: False
    have "res_base (filter (\<lambda>e. fst e \<noteq> ?a) ?rs) ((m_pResources s)(this := NULL))"
      using res_base_remove [OF b _ unused, of ?a] upd by (simp add: filter_update_res)
    then have "res_inv \<lparr>g_resourceList = filter (\<lambda>e. fst e \<noteq> ?a) ?rs, m_pResources = (m_pResources s)(this := NULL)\<rparr>"
      using used graphs_differ_subset [OF differ, of "filter (\<lambda>e. fst e \<noteq> ?a) ?rs"] by (auto simp: res_inv_def)
    with unused False m i set show ?thesis by (simp add: ReleaseResources_def Let_def in_use_def)
  qed
qed

section \<open>Properties\<close>

text \<open>
  C36: the walk over tunnels terminates within 17 nested calls and collects every component at
  most once and at most 16 of them; unless the array fills up it finds exactly the components
  reachable over tunnels, whatever cycles the graph has.
\<close>

theorem walk_tunnels:
  assumes "arr = WalkTunnels comps a []"
  shows "distinct arr \<and> length arr \<le> 16 \<and> a \<in> set arr
    \<and> set arr \<subseteq> {b. (edge (tunnels comps))\<^sup>*\<^sup>* a b}
    \<and> (length arr < 16 \<longrightarrow> set arr = {b. (edge (tunnels comps))\<^sup>*\<^sup>* a b})
    \<and> walk (Suc BOMX_MAX_COMPONENTS_IN_ARRAY + k) (tunnels comps) a [] = arr"
proof -
  have w: "arr = walk 17 (tunnels comps) a []"
    by (simp add: assms WalkTunnels_def BOMX_MAX_COMPONENTS_IN_ARRAY_def del: walk.simps)
  have "set arr = {b. (edge (tunnels comps))\<^sup>*\<^sup>* a b}" if "length arr < 16" using walk_from_empty that w by metis
  moreover have "walk (Suc BOMX_MAX_COMPONENTS_IN_ARRAY + k) (tunnels comps) a [] = arr"
    using walk_depth_any [of 17 "[]" k "tunnels comps" a] w by (simp add: BOMX_MAX_COMPONENTS_IN_ARRAY_def del: walk.simps)
  ultimately show ?thesis using WalkTunnels_shape assms walk_sound [of 17 "tunnels comps" a "[]"] w by auto
qed

text \<open>
  C9: allocating the resources of a component that has none never fails an assertion: the
  component gets the one entry for its tunnel graph, the entry the other components of the graph
  already use if there is one, and the bookkeeping (every entry in use, one entry per graph,
  pointers and flags in agreement) is kept; releasing the entry of a component keeps the
  bookkeeping too, and only entries that another component uses stay in the list.
\<close>

theorem resources_shared:
  assumes inv: "res_inv s" and null: "m_pResources s a = NULL"
    and fresh: "newRes \<noteq> NULL" "newRes \<notin> fst ` set (g_resourceList s)"
  shows "(\<exists>s'. AllocateResources comps newRes a s = Some s' \<and> res_inv s'
        \<and> serves s' (m_pResources s' a) (set (WalkTunnels comps a []))
        \<and> (\<forall>e. serves s e (set (WalkTunnels comps a [])) \<longrightarrow> m_pResources s' a = e)
        \<and> (\<forall>b. b \<noteq> a \<longrightarrow> m_pResources s' b = m_pResources s b))
    \<and> (\<exists>s'. ReleaseResources b s = Some s' \<and> res_inv s' \<and> m_pResources s' = (m_pResources s)(b := NULL)
        \<and> (\<forall>e. e \<in> fst ` set (g_resourceList s') \<longrightarrow> (\<exists>c. c \<noteq> b \<and> m_pResources s c = e)))"
proof
  let ?C = "set (WalkTunnels comps a [])"
  show "\<exists>s'. AllocateResources comps newRes a s = Some s' \<and> res_inv s' \<and> serves s' (m_pResources s' a) ?C
      \<and> (\<forall>e. serves s e ?C \<longrightarrow> m_pResources s' a = e) \<and> (\<forall>b. b \<noteq> a \<longrightarrow> m_pResources s' b = m_pResources s b)"
  proof (cases "find (\<lambda>(e, r). same_components (WalkTunnels comps a []) r) (g_resourceList s)")
    case None
    then show ?thesis using AllocateResources_new [OF inv null fresh None] by auto
  next
    case (Some p)
    obtain e r where p: "p = (e, r)" by (cases p)
    have "\<forall>f. serves s f ?C \<longrightarrow> serves s e ?C \<longrightarrow> e = f" using serves_unique [OF inv] by blast
    then show ?thesis
      using AllocateResources_found [OF inv null, of comps e r newRes] Some p by (metis fun_upd_apply)
  qed
  show "\<exists>s'. ReleaseResources b s = Some s' \<and> res_inv s' \<and> m_pResources s' = (m_pResources s)(b := NULL)
      \<and> (\<forall>e. e \<in> fst ` set (g_resourceList s') \<longrightarrow> (\<exists>c. c \<noteq> b \<and> m_pResources s c = e))"
  proof -
    obtain s' where s': "ReleaseResources b s = Some s'" "res_inv s'" "m_pResources s' = (m_pResources s)(b := NULL)"
      using ReleaseResources_ok [OF inv] by blast
    have "\<exists>c. c \<noteq> b \<and> m_pResources s c = e" if "e \<in> fst ` set (g_resourceList s')" for e
      using res_inv_used [OF s'(2) that] s'(3) by (auto split: if_splits)
    with s' show ?thesis by blast
  qed
qed

definition demo_comps :: "addr \<Rightarrow> unit BOMX_Component option" where
  "demo_comps a =
     (let to = (\<lambda>t. (prot demo_component)\<lparr>m_pAudioPorts := map (\<lambda>p. p\<lparr>m_pTunnelComponent := t\<rparr>) (m_pAudioPorts (prot demo_component))\<rparr>)
      in if a = 2 then Some (to 3) else if a = 3 then Some (to 2) else None)"

lemma demo_walk: "WalkTunnels demo_comps 2 [] = [2, 3]"
  by (simp add: WalkTunnels_def BOMX_MAX_COMPONENTS_IN_ARRAY_def tunnels_def demo_comps_def demo_component_simps Let_def
      numeral_eq_Suc)

theorem walk_tunnels_witness: "(edge (tunnels demo_comps))\<^sup>*\<^sup>* 2 3 \<and> \<not> (edge (tunnels demo_comps))\<^sup>*\<^sup>* 2 4"
proof -
  have "set (WalkTunnels demo_comps 2 []) = {b. (edge (tunnels demo_comps))\<^sup>*\<^sup>* 2 b}"
    using walk_tunnels [of "WalkTunnels demo_comps 2 []" demo_comps 2 0] by (simp add: demo_walk del: walk.simps)
  then have "(edge (tunnels demo_comps))\<^sup>*\<^sup>* 2 b \<longleftrightarrow> b = 2 \<or> b = 3" for b by (auto simp: demo_walk set_eq_iff)
  then show ?thesis by simp
qed

theorem resources_shared_witness:
  "\<exists>s'. AllocateResources demo_comps 100 2 \<lparr>g_resourceList = [(99, \<lparr>componentArray = [3, 2], allocated = True # replicate 15 False\<rparr>)],
      m_pResources = (\<lambda>_. NULL)(3 := 99)\<rparr> = Some s' \<and> m_pResources s' 2 = 99"
proof -
  let ?s = "\<lparr>g_resourceList = [(99, \<lparr>componentArray = [3, 2], allocated = True # replicate 15 False\<rparr>)],
      m_pResources = (\<lambda>_. NULL)(3 := 99)\<rparr>"
  have "res_inv ?s"
    by (auto simp: res_inv_def res_base_def entry_ok_def graphs_differ_def in_use_def nth_Cons split: nat.splits)
  moreover have "serves ?s 99 (set (WalkTunnels demo_comps 2 []))" by (auto simp: serves_def demo_walk)
  ultimately show ?thesis using resources_shared [of ?s 2 100 demo_comps 3] by auto
qed

end
