(* ===== verification/Bomx_Params.thy ===== *)
theory Bomx_Params
  imports Bomx_Component
begin

text \<open>
  The client interface of \<open>bomx_component.cpp\<close>: the parameters every component has, the default
  implementations of the other virtual methods, and the \<open>BOMX_Component_X\<close> entry points of the
  OMX handle, which run a virtual method with the component mutex held.
\<close>

section \<open>Parameters\<close>

record OMX_PARAM_BUFFERSUPPLIERTYPE =
  bs_struct :: omx_header
  bs_nPortIndex :: u32
  eBufferSupplier :: OMX_BUFFERSUPPLIERTYPE

record OMX_PORT_PARAM_TYPE =
  pp_struct :: omx_header
  nPorts :: u32
  nStartPortNumber :: u32

record OMX_PARAM_COMPONENTROLETYPE =
  cr_struct :: omx_header
  cRole :: string

text \<open>A parameter index with the structure the client passes for it, \<open>None\<close> for a null pointer.\<close>

datatype omx_param =
    OMX_IndexParamPortDefinition "OMX_PARAM_PORTDEFINITIONTYPE option"
  | OMX_IndexParamCompBufferSupplier "OMX_PARAM_BUFFERSUPPLIERTYPE option"
  | OMX_IndexParamAudioInit "OMX_PORT_PARAM_TYPE option"
  | OMX_IndexParamImageInit "OMX_PORT_PARAM_TYPE option"
  | OMX_IndexParamVideoInit "OMX_PORT_PARAM_TYPE option"
  | OMX_IndexParamOtherInit "OMX_PORT_PARAM_TYPE option"
  | OMX_IndexParamAudioPortFormat "OMX_AUDIO_PARAM_PORTFORMATTYPE option"
  | OMX_IndexParamVideoPortFormat "OMX_VIDEO_PARAM_PORTFORMATTYPE option"
  | OMX_IndexParamImagePortFormat "OMX_IMAGE_PARAM_PORTFORMATTYPE option"
  | OMX_IndexParamOtherPortFormat "OMX_OTHER_PARAM_PORTFORMATTYPE option"
  | OMX_IndexParamStandardComponentRole "OMX_PARAM_COMPONENTROLETYPE option"
  | OMX_IndexOther u32

text \<open>
  \<open>BOMX_STRUCT_VALIDATE\<close> returns from the method that uses it: \<open>validated\<close> runs the rest of the
  method on the structure, or gives the macro's error and leaves the structure alone.
\<close>

definition validated ::
  "omx_abi \<Rightarrow> omx_struct \<Rightarrow> ('p \<Rightarrow> omx_header) \<Rightarrow> 'p option \<Rightarrow> ('p \<Rightarrow> OMX_ERRORTYPE \<times> 'p) \<Rightarrow> OMX_ERRORTYPE \<times> 'p option" where
  "validated abi ty hdr ptr body =
     (let v = BOMX_STRUCT_VALIDATE abi ty (map_option hdr ptr) in
      if v \<noteq> OMX_ErrorNone then (v, ptr)
      else case ptr of None \<Rightarrow> (v, ptr) | Some s \<Rightarrow> map_prod id Some (body s))"

text \<open>\<open>GetPortFormat\<close> of the four port classes: the entry of the format table at \<open>index\<close>.\<close>

definition GetPortFormat :: "u32 \<Rightarrow> 'f list \<Rightarrow> 'f \<Rightarrow> OMX_ERRORTYPE \<times> 'f" where
  "GetPortFormat index fmts pFormat =
     (if index \<ge> of_nat (length fmts) then (OMX_ErrorNoMore, pFormat)
      else (OMX_ErrorNone, fmts ! unat index))"

fun audio_formats :: "port_formats \<Rightarrow> OMX_AUDIO_PARAM_PORTFORMATTYPE list" where
  "audio_formats (AudioFormats fs) = fs" | "audio_formats _ = []"
fun video_formats :: "port_formats \<Rightarrow> OMX_VIDEO_PARAM_PORTFORMATTYPE list" where
  "video_formats (VideoFormats fs) = fs" | "video_formats _ = []"
fun image_formats :: "port_formats \<Rightarrow> OMX_IMAGE_PARAM_PORTFORMATTYPE list" where
  "image_formats (ImageFormats fs) = fs" | "image_formats _ = []"
fun other_formats :: "port_formats \<Rightarrow> OMX_OTHER_PARAM_PORTFORMATTYPE list" where
  "other_formats (OtherFormats fs) = fs" | "other_formats _ = []"

text \<open>The range check of the four port format cases and the entry of the port's table.\<close>

definition port_format_case ::
  "u32 \<Rightarrow> BOMX_Port list \<Rightarrow> u32 \<Rightarrow> u32 \<Rightarrow> (port_formats \<Rightarrow> 'f list) \<Rightarrow> 'f \<Rightarrow> OMX_ERRORTYPE \<times> 'f" where
  "port_format_case base ports portIndex nIndex formats pFormat =
     (if portIndex < base \<or> portIndex \<ge> base + of_nat (length ports)
      then (BOMX_ERR_TRACE OMX_ErrorBadPortIndex, pFormat)
      else GetPortFormat nIndex (formats (m_pPortFormats (ports ! unat (portIndex - base)))) pFormat)"

definition port_param_case :: "u32 \<Rightarrow> BOMX_Port list \<Rightarrow> OMX_PORT_PARAM_TYPE \<Rightarrow> OMX_ERRORTYPE \<times> OMX_PORT_PARAM_TYPE" where
  "port_param_case base ports s = (OMX_ErrorNone, s\<lparr>nPorts := of_nat (length ports), nStartPortNumber := base\<rparr>)"

definition GetRole :: "omx_abi \<Rightarrow> 's BOMX_Component \<Rightarrow> string" where
  "GetRole abi c = strncpy_str (OMX_MAX_STRINGNAME_SIZE abi) (m_componentRole c)"

fun GetParameter :: "omx_abi \<Rightarrow> omx_param \<Rightarrow> 's BOMX_Component \<Rightarrow> OMX_ERRORTYPE \<times> omx_param" where
  "GetParameter abi (OMX_IndexParamPortDefinition ptr) c =
     map_prod id OMX_IndexParamPortDefinition (validated abi PORTDEFINITION pd_struct ptr (\<lambda>s.
       case FindPortByIndex c (nPortIndex s) of
         None \<Rightarrow> (BOMX_ERR_TRACE OMX_ErrorBadPortIndex, s)
       | Some p \<Rightarrow> (OMX_ErrorNone, m_definition p)))"
| "GetParameter abi (OMX_IndexParamCompBufferSupplier ptr) c =
     map_prod id OMX_IndexParamCompBufferSupplier (validated abi BUFFERSUPPLIER bs_struct ptr (\<lambda>s.
       case FindPortByIndex c (bs_nPortIndex s) of
         None \<Rightarrow> (BOMX_ERR_TRACE OMX_ErrorBadPortIndex, s)
       | Some p \<Rightarrow> (OMX_ErrorNone, s\<lparr>eBufferSupplier := m_supplier p\<rparr>)))"
| "GetParameter abi (OMX_IndexParamAudioInit ptr) c =
     map_prod id OMX_IndexParamAudioInit (validated abi PORT_PARAM pp_struct ptr (port_param_case (m_audioPortBase c) (m_pAudioPorts c)))"
| "GetParameter abi (OMX_IndexParamImageInit ptr) c =
     map_prod id OMX_IndexParamImageInit (validated abi PORT_PARAM pp_struct ptr (port_param_case (m_imagePortBase c) (m_pImagePorts c)))"
| "GetParameter abi (OMX_IndexParamVideoInit ptr) c =
     map_prod id OMX_IndexParamVideoInit (validated abi PORT_PARAM pp_struct ptr (port_param_case (m_videoPortBase c) (m_pVideoPorts c)))"
| "GetParameter abi (OMX_IndexParamOtherInit ptr) c =
     map_prod id OMX_IndexParamOtherInit (validated abi PORT_PARAM pp_struct ptr (port_param_case (m_otherPortBase c) (m_pOtherPorts c)))"
| "GetParameter abi (OMX_IndexParamAudioPortFormat ptr) c =
     map_prod id OMX_IndexParamAudioPortFormat (validated abi AUDIO_PORTFORMAT apf_struct ptr (\<lambda>s.
       port_format_case (m_audioPortBase c) (m_pAudioPorts c) (apf_nPortIndex s) (apf_nIndex s) audio_formats s))"
| "GetParameter abi (OMX_IndexParamVideoPortFormat ptr) c =
     map_prod id OMX_IndexParamVideoPortFormat (validated abi VIDEO_PORTFORMAT vpf_struct ptr (\<lambda>s.
       port_format_case (m_videoPortBase c) (m_pVideoPorts c) (vpf_nPortIndex s) (vpf_nIndex s) video_formats s))"
| "GetParameter abi (OMX_IndexParamImagePortFormat ptr) c =
     map_prod id OMX_IndexParamImagePortFormat (validated abi IMAGE_PORTFORMAT ipf_struct ptr (\<lambda>s.
       port_format_case (m_imagePortBase c) (m_pImagePorts c) (ipf_nPortIndex s) (ipf_nIndex s) image_formats s))"
| "GetParameter abi (OMX_IndexParamOtherPortFormat ptr) c =
     map_prod id OMX_IndexParamOtherPortFormat (validated abi OTHER_PORTFORMAT opf_struct ptr (\<lambda>s.
       port_format_case (m_otherPortBase c) (m_pOtherPorts c) (opf_nPortIndex s) (opf_nIndex s) other_formats s))"
| "GetParameter abi (OMX_IndexParamStandardComponentRole ptr) c =
     map_prod id OMX_IndexParamStandardComponentRole (validated abi COMPONENTROLE cr_struct ptr (\<lambda>s.
       (OMX_ErrorNone, s\<lparr>cRole := GetRole abi c\<rparr>)))"
| "GetParameter abi (OMX_IndexOther i) c = (BOMX_ERR_TRACE OMX_ErrorUnsupportedIndex, OMX_IndexOther i)"

text \<open>
  The methods that write through the pointer \<open>FindPortByIndex\<close> returns: the port found is
  replaced in its array.
\<close>

definition put_port :: "u32 \<Rightarrow> BOMX_Port \<Rightarrow> 's BOMX_Component \<Rightarrow> 's BOMX_Component" where
  "put_port index p c =
     (if index \<ge> m_audioPortBase c \<and> index < m_audioPortBase c + of_nat (length (m_pAudioPorts c))
      then c\<lparr>m_pAudioPorts := (m_pAudioPorts c)[unat (index - m_audioPortBase c) := p]\<rparr>
      else if index \<ge> m_videoPortBase c \<and> index < m_videoPortBase c + of_nat (length (m_pVideoPorts c))
      then c\<lparr>m_pVideoPorts := (m_pVideoPorts c)[unat (index - m_videoPortBase c) := p]\<rparr>
      else if index \<ge> m_imagePortBase c \<and> index < m_imagePortBase c + of_nat (length (m_pImagePorts c))
      then c\<lparr>m_pImagePorts := (m_pImagePorts c)[unat (index - m_imagePortBase c) := p]\<rparr>
      else if index \<ge> m_otherPortBase c \<and> index < m_otherPortBase c + of_nat (length (m_pOtherPorts c))
      then c\<lparr>m_pOtherPorts := (m_pOtherPorts c)[unat (index - m_otherPortBase c) := p]\<rparr>
      else c)"

fun SetParameter :: "omx_abi \<Rightarrow> omx_param \<Rightarrow> 's BOMX_Component \<Rightarrow> OMX_ERRORTYPE \<times> 's BOMX_Component" where
  "SetParameter abi (OMX_IndexParamPortDefinition ptr) c =
     (let v = BOMX_STRUCT_VALIDATE abi PORTDEFINITION (map_option pd_struct ptr) in
      if v \<noteq> OMX_ErrorNone then (v, c)
      else case ptr of None \<Rightarrow> (v, c) | Some s \<Rightarrow>
        (case FindPortByIndex c (nPortIndex s) of
           None \<Rightarrow> (BOMX_ERR_TRACE OMX_ErrorBadPortIndex, c)
         | Some p \<Rightarrow> (let (err, p) = SetDefinition abi p s
                      in (BOMX_ERR_TRACE err, put_port (nPortIndex s) p c))))"
| "SetParameter abi (OMX_IndexParamCompBufferSupplier ptr) c =
     (let v = BOMX_STRUCT_VALIDATE abi BUFFERSUPPLIER (map_option bs_struct ptr) in
      if v \<noteq> OMX_ErrorNone then (v, c)
      else case ptr of None \<Rightarrow> (v, c) | Some s \<Rightarrow>
        (case FindPortByIndex c (bs_nPortIndex s) of
           None \<Rightarrow> (BOMX_ERR_TRACE OMX_ErrorBadPortIndex, c)
         | Some p \<Rightarrow> (OMX_ErrorNone, put_port (bs_nPortIndex s) (p\<lparr>m_supplier := eBufferSupplier s\<rparr>) c)))"
| "SetParameter abi param c = (BOMX_ERR_TRACE OMX_ErrorUnsupportedIndex, c)"

section \<open>The other virtual methods\<close>

record version_info =
  vi_name :: string
  vi_version :: u32
  vi_spec :: omx_version
  vi_uuid :: string

text \<open>The four output pointers must not be null: \<open>None\<close> is a failed assertion.\<close>

definition GetComponentVersion ::
  "omx_abi \<Rightarrow> addr \<Rightarrow> addr \<Rightarrow> addr \<Rightarrow> addr \<Rightarrow> 's BOMX_Component \<Rightarrow> (OMX_ERRORTYPE \<times> version_info) option" where
  "GetComponentVersion abi pComponentName pComponentVersion pSpecVersion pComponentUUID c =
     (if pComponentName = NULL \<or> pComponentVersion = NULL \<or> pSpecVersion = NULL \<or> pComponentUUID = NULL then None
      else Some (OMX_ErrorNone,
        \<lparr>vi_name = strncpy_str (OMX_MAX_STRINGNAME_SIZE abi) (m_componentName c), vi_version = m_version c,
         vi_spec = \<lparr>nVersionMajor = 1, nVersionMinor = 0, nRevision = 0, nStep = 0\<rparr>, vi_uuid = m_uuid c\<rparr>))"

definition GetConfig :: "u32 \<Rightarrow> OMX_ERRORTYPE" where
  "GetConfig nIndex = BOMX_ERR_TRACE OMX_ErrorUnsupportedIndex"
definition SetConfig :: "u32 \<Rightarrow> OMX_ERRORTYPE" where
  "SetConfig nIndex = BOMX_ERR_TRACE OMX_ErrorUnsupportedIndex"
definition GetExtensionIndex :: "string \<Rightarrow> OMX_ERRORTYPE" where
  "GetExtensionIndex cParameterName = BOMX_ERR_TRACE OMX_ErrorNotImplemented"
definition ComponentTunnelRequest :: "u32 \<Rightarrow> addr \<Rightarrow> u32 \<Rightarrow> addr \<Rightarrow> OMX_ERRORTYPE" where
  "ComponentTunnelRequest nPort hTunneledComp nTunneledPort pTunnelSetup = BOMX_ERR_TRACE OMX_ErrorNotImplemented"
definition UseBuffer :: "u32 \<Rightarrow> addr \<Rightarrow> u32 \<Rightarrow> addr \<Rightarrow> OMX_ERRORTYPE" where
  "UseBuffer portIndex appPrivate nSizeBytes pBuffer = BOMX_ERR_TRACE OMX_ErrorNotImplemented"
definition AllocateBuffer :: "u32 \<Rightarrow> addr \<Rightarrow> u32 \<Rightarrow> OMX_ERRORTYPE" where
  "AllocateBuffer portIndex appPrivate nSizeBytes = BOMX_ERR_TRACE OMX_ErrorNotImplemented"
definition FreeBuffer :: "u32 \<Rightarrow> addr \<Rightarrow> OMX_ERRORTYPE" where
  "FreeBuffer portIndex pBuffer = BOMX_ERR_TRACE OMX_ErrorNotImplemented"
definition EmptyThisBuffer :: "addr \<Rightarrow> OMX_ERRORTYPE" where
  "EmptyThisBuffer pBuffer = BOMX_ERR_TRACE OMX_ErrorNotImplemented"
definition FillThisBuffer :: "addr \<Rightarrow> OMX_ERRORTYPE" where
  "FillThisBuffer pBuffer = BOMX_ERR_TRACE OMX_ErrorNotImplemented"
definition UseEGLImage :: "u32 \<Rightarrow> addr \<Rightarrow> addr \<Rightarrow> OMX_ERRORTYPE" where
  "UseEGLImage portIndex appPrivate eglImage = BOMX_ERR_TRACE OMX_ErrorNotImplemented"

text \<open>\<open>getRole\<close> is the role function the component was created with, \<open>None\<close> if it has none.\<close>

definition ComponentRoleEnum :: "omx_abi \<Rightarrow> (u32 \<Rightarrow> string option) option \<Rightarrow> u32 \<Rightarrow> OMX_ERRORTYPE \<times> string option" where
  "ComponentRoleEnum abi getRole nIndex =
     (case getRole of
        None \<Rightarrow> (BOMX_ERR_TRACE OMX_ErrorNotImplemented, None)
      | Some f \<Rightarrow> (case f nIndex of
           None \<Rightarrow> (OMX_ErrorNoMore, None)
         | Some role \<Rightarrow> (OMX_ErrorNone, Some (strncpy_str (OMX_MAX_STRINGNAME_SIZE abi) role))))"

section \<open>The entry points of the handle\<close>

text \<open>
  The virtual methods as a table: the subclass in effect fills it. A method gets the component and
  returns its result and the component; \<open>None\<close> is a failed assertion.
\<close>

type_synonym ('s, 'r) vmethod = "'s component \<Rightarrow> ('r \<times> 's component) option"

record 's virtuals =
  v_GetComponentVersion :: "addr \<Rightarrow> addr \<Rightarrow> addr \<Rightarrow> addr \<Rightarrow> ('s, OMX_ERRORTYPE \<times> version_info) vmethod"
  v_GetParameter :: "omx_param \<Rightarrow> ('s, OMX_ERRORTYPE \<times> omx_param) vmethod"
  v_SetParameter :: "omx_param \<Rightarrow> ('s, OMX_ERRORTYPE) vmethod"
  v_GetConfig :: "u32 \<Rightarrow> ('s, OMX_ERRORTYPE) vmethod"
  v_SetConfig :: "u32 \<Rightarrow> ('s, OMX_ERRORTYPE) vmethod"
  v_GetExtensionIndex :: "string \<Rightarrow> ('s, OMX_ERRORTYPE) vmethod"
  v_GetState :: "('s, OMX_ERRORTYPE \<times> OMX_STATETYPE) vmethod"
  v_ComponentTunnelRequest :: "u32 \<Rightarrow> addr \<Rightarrow> u32 \<Rightarrow> addr \<Rightarrow> ('s, OMX_ERRORTYPE) vmethod"
  v_UseBuffer :: "u32 \<Rightarrow> addr \<Rightarrow> u32 \<Rightarrow> addr \<Rightarrow> ('s, OMX_ERRORTYPE) vmethod"
  v_AllocateBuffer :: "u32 \<Rightarrow> addr \<Rightarrow> u32 \<Rightarrow> ('s, OMX_ERRORTYPE) vmethod"
  v_FreeBuffer :: "u32 \<Rightarrow> addr \<Rightarrow> ('s, OMX_ERRORTYPE) vmethod"
  v_EmptyThisBuffer :: "addr \<Rightarrow> ('s, OMX_ERRORTYPE) vmethod"
  v_FillThisBuffer :: "addr \<Rightarrow> ('s, OMX_ERRORTYPE) vmethod"
  v_SetCallbacks :: "bool \<times> bool \<times> bool \<Rightarrow> addr \<Rightarrow> ('s, OMX_ERRORTYPE) vmethod"
  v_UseEGLImage :: "u32 \<Rightarrow> addr \<Rightarrow> addr \<Rightarrow> ('s, OMX_ERRORTYPE) vmethod"
  v_ComponentRoleEnum :: "u32 \<Rightarrow> ('s, OMX_ERRORTYPE \<times> string option) vmethod"

text \<open>The frame of every entry point: lock, call, unlock.\<close>

definition api_call :: "('s, 'r) vmethod \<Rightarrow> ('s, 'r) vmethod" where
  "api_call f c =
     (case f (c\<lparr>prot := Lock (prot c)\<rparr>) of
        None \<Rightarrow> None
      | Some (r, c') \<Rightarrow> Some (r, c'\<lparr>prot := Unlock (prot c')\<rparr>))"

definition BOMX_Component_GetComponentVersion where "BOMX_Component_GetComponentVersion v pn pv ps pu c = api_call (v_GetComponentVersion v pn pv ps pu) c"
definition BOMX_Component_GetParameter where "BOMX_Component_GetParameter v param c = api_call (v_GetParameter v param) c"
definition BOMX_Component_SetParameter where "BOMX_Component_SetParameter v param c = api_call (v_SetParameter v param) c"
definition BOMX_Component_GetConfig where "BOMX_Component_GetConfig v i c = api_call (v_GetConfig v i) c"
definition BOMX_Component_SetConfig where "BOMX_Component_SetConfig v i c = api_call (v_SetConfig v i) c"
definition BOMX_Component_GetExtensionIndex where "BOMX_Component_GetExtensionIndex v name c = api_call (v_GetExtensionIndex v name) c"
definition BOMX_Component_GetState where "BOMX_Component_GetState v c = api_call (v_GetState v) c"
definition BOMX_Component_ComponentTunnelRequest where "BOMX_Component_ComponentTunnelRequest v n h m s c = api_call (v_ComponentTunnelRequest v n h m s) c"
definition BOMX_Component_UseBuffer where "BOMX_Component_UseBuffer v n a sz b c = api_call (v_UseBuffer v n a sz b) c"
definition BOMX_Component_AllocateBuffer where "BOMX_Component_AllocateBuffer v n a sz c = api_call (v_AllocateBuffer v n a sz) c"
definition BOMX_Component_FreeBuffer where "BOMX_Component_FreeBuffer v n b c = api_call (v_FreeBuffer v n b) c"
definition BOMX_Component_EmptyThisBuffer where "BOMX_Component_EmptyThisBuffer v b c = api_call (v_EmptyThisBuffer v b) c"
definition BOMX_Component_FillThisBuffer where "BOMX_Component_FillThisBuffer v b c = api_call (v_FillThisBuffer v b) c"
definition BOMX_Component_SetCallbacks where "BOMX_Component_SetCallbacks v cb a c = api_call (v_SetCallbacks v cb a) c"
definition BOMX_Component_UseEGLImage where "BOMX_Component_UseEGLImage v n a e c = api_call (v_UseEGLImage v n a e) c"
definition BOMX_Component_ComponentRoleEnum where "BOMX_Component_ComponentRoleEnum v n c = api_call (v_ComponentRoleEnum v n) c"

text \<open>The table of the base class.\<close>

definition base_virtuals :: "omx_abi \<Rightarrow> (u32 \<Rightarrow> string option) option \<Rightarrow> 's virtuals" where
  "base_virtuals abi getRole =
     \<lparr>v_GetComponentVersion = (\<lambda>pn pv ps pu c. map_option (\<lambda>r. (r, c)) (GetComponentVersion abi pn pv ps pu (prot c))),
      v_GetParameter = (\<lambda>param c. Some (GetParameter abi param (prot c), c)),
      v_SetParameter = (\<lambda>param c. let (err, p) = SetParameter abi param (prot c) in Some (err, c\<lparr>prot := p\<rparr>)),
      v_GetConfig = (\<lambda>i c. Some (GetConfig i, c)),
      v_SetConfig = (\<lambda>i c. Some (SetConfig i, c)),
      v_GetExtensionIndex = (\<lambda>n c. Some (GetExtensionIndex n, c)),
      v_GetState = (\<lambda>c. Some (GetState c, c)),
      v_ComponentTunnelRequest = (\<lambda>n h m s c. Some (ComponentTunnelRequest n h m s, c)),
      v_UseBuffer = (\<lambda>n a sz b c. Some (UseBuffer n a sz b, c)),
      v_AllocateBuffer = (\<lambda>n a sz c. Some (AllocateBuffer n a sz, c)),
      v_FreeBuffer = (\<lambda>n b c. Some (FreeBuffer n b, c)),
      v_EmptyThisBuffer = (\<lambda>b c. Some (EmptyThisBuffer b, c)),
      v_FillThisBuffer = (\<lambda>b c. Some (FillThisBuffer b, c)),
      v_SetCallbacks = (\<lambda>cb a c. let (err, p) = SetCallbacks cb a (prot c) in Some (err, c\<lparr>prot := p\<rparr>)),
      v_UseEGLImage = (\<lambda>n a e c. Some (UseEGLImage n a e, c)),
      v_ComponentRoleEnum = (\<lambda>n c. Some (ComponentRoleEnum abi getRole n, c))\<rparr>"

section \<open>Waiting for ports\<close>

text \<open>
  \<open>PortWait\<close> waits with the mutex released for what is left of the timeout; \<open>B_Time_Diff\<close> and
  \<open>B_Event_Wait\<close> belong to the platform library: \<open>elapsed\<close> is the first's result, \<open>wait\<close> the
  second, which runs while other threads may use the component.
\<close>

definition PortWait ::
  "u32 \<Rightarrow> u32 \<Rightarrow> (u32 \<Rightarrow> 's BOMX_Component \<Rightarrow> 'e \<times> 's BOMX_Component) \<Rightarrow> 's BOMX_Component \<Rightarrow> ('e \<times> 's BOMX_Component) option" where
  "PortWait elapsed portWaitTimeout wait c =
     (if \<not> portWaitTimeout > 0 then None
      else let c = Unlock c;
               timeout = (if elapsed > portWaitTimeout then 0 else portWaitTimeout - elapsed);
               (rc, c) = wait timeout c
           in Some (rc, Lock c))"

section \<open>Ports found and written\<close>

lemma put_port_keeps:
  "m_audioPortBase (put_port i p c) = m_audioPortBase c" "m_videoPortBase (put_port i p c) = m_videoPortBase c"
  "m_imagePortBase (put_port i p c) = m_imagePortBase c" "m_otherPortBase (put_port i p c) = m_otherPortBase c"
  "length (m_pAudioPorts (put_port i p c)) = length (m_pAudioPorts c)"
  "length (m_pVideoPorts (put_port i p c)) = length (m_pVideoPorts c)"
  "length (m_pImagePorts (put_port i p c)) = length (m_pImagePorts c)"
  "length (m_pOtherPorts (put_port i p c)) = length (m_pOtherPorts c)"
  by (simp_all add: put_port_def)

lemma in_range_offset: "base \<le> index \<Longrightarrow> index < base + of_nat n \<Longrightarrow> unat (index - base) < n" for index :: u32
proof -
  assume a: "base \<le> index" "index < base + of_nat n"
  have "unat (base + of_nat n) \<le> unat base + unat (of_nat n :: u32)" by (metis unat_plus_if' le_add_diff_inverse nat_le_linear diff_le_self le_refl)
  moreover have "unat (of_nat n :: u32) \<le> n" by (simp add: unat_of_nat)
  moreover have "unat (index - base) = unat index - unat base" using a(1) by (simp add: unat_sub)
  moreover have "unat index < unat (base + of_nat n)" using a(2) by (simp add: word_less_nat_alt)
  moreover have "unat base \<le> unat index" using a(1) by (simp add: word_le_nat_alt)
  ultimately show ?thesis by linarith
qed

lemma nth_offset_update:
  "base \<le> i \<Longrightarrow> i < base + of_nat (length ps) \<Longrightarrow>
   ps[unat (i - base) := p] ! unat (j - base) = (if i = j then p else ps ! unat (j - base))" for i :: u32
proof -
  assume a: "base \<le> i" "i < base + of_nat (length ps)"
  have "unat (i - base) = unat (j - base) \<longleftrightarrow> i = j" by (metis diff_add_cancel word_unat_eq_iff)
  with in_range_offset [OF a] show ?thesis by (auto simp: nth_list_update)
qed

lemma FindPortByIndex_put:
  "FindPortByIndex c i = Some q \<Longrightarrow>
   FindPortByIndex (put_port i p c) j = (if i = j then Some p else FindPortByIndex c j)"
  unfolding FindPortByIndex_def put_port_keeps
  by (cases "i = j") (auto simp: put_port_def nth_offset_update split: if_splits)

lemma numbered_update:
  assumes "numbered base ps" "nPortIndex (m_definition p) = nPortIndex (m_definition (ps ! k))"
  shows "numbered base (ps[k := p])"
proof (cases "k < length ps")
  case True
  then have "map (\<lambda>p. unat (nPortIndex (m_definition p))) (ps[k := p]) = map (\<lambda>p. unat (nPortIndex (m_definition p))) ps"
    using assms(2) by (intro nth_equalityI) (auto simp: nth_list_update)
  with assms(1) show ?thesis by (simp add: numbered_def)
qed (use assms in \<open>simp add: list_update_beyond\<close>)

lemma ports_wf_put:
  assumes "ports_wf c" "FindPortByIndex c i = Some q" "nPortIndex (m_definition p) = nPortIndex (m_definition q)"
  shows "ports_wf (put_port i p c)"
proof -
  have "numbered (m_audioPortBase c) (m_pAudioPorts c)" "numbered (m_videoPortBase c) (m_pVideoPorts c)"
    "numbered (m_imagePortBase c) (m_pImagePorts c)" "numbered (m_otherPortBase c) (m_pOtherPorts c)"
    using assms(1) by (simp_all add: ports_wf_def all_domains_def port_array_def port_base_def)
  note num = this
  have "numbered (port_base d c) (port_array d (put_port i p c))" for d
    using assms(2,3) num
    by (cases d; auto simp: put_port_def port_array_def port_base_def FindPortByIndex_def
        intro: numbered_update split: if_splits)
  moreover have same: "port_base d (put_port i p c) = port_base d c" "length (port_array d (put_port i p c)) = length (port_array d c)" for d
    by (cases d; simp add: port_base_def port_array_def put_port_keeps)+
  ultimately show ?thesis using assms(1) by (simp add: ports_wf_def all_domains_def port_range_def)
qed

lemma put_port_frame:
  "m_locked (put_port i p c) = m_locked c" "m_log (put_port i p c) = m_log c" "m_heap (put_port i p c) = m_heap c"
  "m_sub (put_port i p c) = m_sub c" "cb_EventHandler (put_port i p c) = cb_EventHandler c"
  by (simp_all add: put_port_def)

section \<open>Client calls\<close>

text \<open>The calls a client can make through the handle, other than sending commands and deleting it.\<close>

datatype client_call =
    CallGetComponentVersion addr addr addr addr | CallGetParameter omx_param | CallSetParameter omx_param
  | CallGetConfig u32 | CallSetConfig u32 | CallGetExtensionIndex string | CallGetState
  | CallComponentTunnelRequest u32 addr u32 addr | CallUseBuffer u32 addr u32 addr
  | CallAllocateBuffer u32 addr u32 | CallFreeBuffer u32 addr | CallEmptyThisBuffer addr
  | CallFillThisBuffer addr | CallSetCallbacks "bool \<times> bool \<times> bool" addr
  | CallUseEGLImage u32 addr addr | CallComponentRoleEnum u32

fun client :: "'s virtuals \<Rightarrow> client_call \<Rightarrow> 's component \<Rightarrow> 's component option" where
  "client v (CallGetComponentVersion pn pv ps pu) c = map_option snd (BOMX_Component_GetComponentVersion v pn pv ps pu c)"
| "client v (CallGetParameter p) c = map_option snd (BOMX_Component_GetParameter v p c)"
| "client v (CallSetParameter p) c = map_option snd (BOMX_Component_SetParameter v p c)"
| "client v (CallGetConfig i) c = map_option snd (BOMX_Component_GetConfig v i c)"
| "client v (CallSetConfig i) c = map_option snd (BOMX_Component_SetConfig v i c)"
| "client v (CallGetExtensionIndex n) c = map_option snd (BOMX_Component_GetExtensionIndex v n c)"
| "client v CallGetState c = map_option snd (BOMX_Component_GetState v c)"
| "client v (CallComponentTunnelRequest n h m s) c = map_option snd (BOMX_Component_ComponentTunnelRequest v n h m s c)"
| "client v (CallUseBuffer n a sz b) c = map_option snd (BOMX_Component_UseBuffer v n a sz b c)"
| "client v (CallAllocateBuffer n a sz) c = map_option snd (BOMX_Component_AllocateBuffer v n a sz c)"
| "client v (CallFreeBuffer n b) c = map_option snd (BOMX_Component_FreeBuffer v n b c)"
| "client v (CallEmptyThisBuffer b) c = map_option snd (BOMX_Component_EmptyThisBuffer v b c)"
| "client v (CallFillThisBuffer b) c = map_option snd (BOMX_Component_FillThisBuffer v b c)"
| "client v (CallSetCallbacks cb a) c = map_option snd (BOMX_Component_SetCallbacks v cb a c)"
| "client v (CallUseEGLImage n a e) c = map_option snd (BOMX_Component_UseEGLImage v n a e c)"
| "client v (CallComponentRoleEnum n) c = map_option snd (BOMX_Component_ComponentRoleEnum v n c)"

lemmas entry_point_defs =
  BOMX_Component_GetComponentVersion_def BOMX_Component_GetParameter_def BOMX_Component_SetParameter_def
  BOMX_Component_GetConfig_def BOMX_Component_SetConfig_def BOMX_Component_GetExtensionIndex_def
  BOMX_Component_GetState_def BOMX_Component_ComponentTunnelRequest_def BOMX_Component_UseBuffer_def
  BOMX_Component_AllocateBuffer_def BOMX_Component_FreeBuffer_def BOMX_Component_EmptyThisBuffer_def
  BOMX_Component_FillThisBuffer_def BOMX_Component_SetCallbacks_def BOMX_Component_UseEGLImage_def
  BOMX_Component_ComponentRoleEnum_def

lemma SetDefinition_index: "SetDefinition abi p s = (err, p') \<Longrightarrow> nPortIndex (m_definition p') = nPortIndex (m_definition p)"
  by (auto simp: SetDefinition_def Let_def split: if_splits)

lemma ports_wf_same:
  assumes "\<And>d. port_array d c = port_array d c'" "\<And>d. port_base d c = port_base d c'"
  shows "ports_wf c = ports_wf c'"
  using assms by (simp add: ports_wf_def port_range_def)

lemma ports_wf_lock [simp]: "ports_wf (Lock c) = ports_wf c" "ports_wf (Unlock c) = ports_wf c"
  by (rule ports_wf_same; rename_tac d; case_tac d; simp add: port_base_def port_array_def Lock_def Unlock_def)+

lemma SetParameter_keeps:
  assumes "SetParameter abi param c = (err, c')"
  shows "(ports_wf c \<longrightarrow> ports_wf c') \<and> m_log c' = m_log c \<and> m_heap c' = m_heap c \<and> m_locked c' = m_locked c"
  using assms
proof (induction abi param c rule: SetParameter.induct)
  case (1 abi ptr c)
  then show ?case
    by (auto simp: Let_def put_port_frame intro!: ports_wf_put dest: SetDefinition_index split: option.splits prod.splits if_splits)
next
  case (2 abi ptr c)
  then show ?case
    by (auto simp: Let_def put_port_frame intro!: ports_wf_put split: option.splits if_splits)
qed simp_all

text \<open>What a client call of the base class leaves behind.\<close>

definition base_keeps :: "'s component \<Rightarrow> 's component \<Rightarrow> bool" where
  "base_keeps c c' \<longleftrightarrow> m_currentState c' = m_currentState c \<and> m_targetState c' = m_targetState c
     \<and> m_log (prot c') = m_log (prot c) \<and> m_heap (prot c') = m_heap (prot c)
     \<and> (ports_wf (prot c) \<longrightarrow> ports_wf (prot c')) \<and> \<not> m_locked (prot c')"

lemma ports_wf_callbacks: "ports_wf (snd (SetCallbacks cb a c)) = ports_wf c"
  by (rule ports_wf_same; rename_tac d; case_tac d; simp add: port_base_def port_array_def SetCallbacks_def)

lemma base_keeps_locked:
  assumes "ports_wf (prot c) \<longrightarrow> ports_wf p" "m_log p = m_log (prot c)" "m_heap p = m_heap (prot c)"
  shows "base_keeps c (c\<lparr>prot := Unlock p\<rparr>)"
  using assms by (simp add: base_keeps_def) (simp add: Unlock_def)

lemma locked_same: "m_log (Lock c) = m_log c" "m_heap (Lock c) = m_heap c"
  by (simp_all add: Lock_def)

lemma base_client:
  assumes "client (base_virtuals abi getRole) op c = Some c'"
  shows "base_keeps c c'"
proof -
  have only: "base_keeps c c'" if "c' = c\<lparr>prot := Unlock (Lock (prot c))\<rparr>"
    unfolding that by (rule base_keeps_locked) (simp_all add: locked_same)
  show ?thesis
  proof (cases op)
    case (CallSetParameter p)
    obtain err q where s: "SetParameter abi p (Lock (prot c)) = (err, q)" by fastforce
    with assms CallSetParameter have "c' = c\<lparr>prot := Unlock q\<rparr>"
      by (simp add: entry_point_defs api_call_def base_virtuals_def)
    then show ?thesis using SetParameter_keeps [OF s] by (simp add: base_keeps_locked locked_same)
  next
    case (CallSetCallbacks cb a)
    with assms have "c' = c\<lparr>prot := Unlock (snd (SetCallbacks cb a (Lock (prot c))))\<rparr>"
      by (simp add: entry_point_defs api_call_def base_virtuals_def split: prod.splits)
    moreover have "m_log (snd (SetCallbacks cb a (Lock (prot c)))) = m_log (prot c)"
      "m_heap (snd (SetCallbacks cb a (Lock (prot c)))) = m_heap (prot c)"
      by (simp_all add: SetCallbacks_def Lock_def)
    ultimately show ?thesis by (simp add: base_keeps_locked ports_wf_callbacks)
  next
    case (CallGetComponentVersion pn pv ps pu)
    with assms show ?thesis
      by (intro only) (auto simp: entry_point_defs api_call_def base_virtuals_def GetComponentVersion_def split: if_splits)
  qed (rule only; use assms in \<open>simp add: entry_point_defs api_call_def base_virtuals_def\<close>)+
qed

fun clients :: "'s virtuals \<Rightarrow> client_call list \<Rightarrow> 's component \<Rightarrow> 's component option" where
  "clients v [] c = Some c"
| "clients v (op # ops) c = Option.bind (client v op c) (clients v ops)"

fun pointers_ok :: "client_call \<Rightarrow> bool" where
  "pointers_ok (CallGetComponentVersion pn pv ps pu) = (pn \<noteq> NULL \<and> pv \<noteq> NULL \<and> ps \<noteq> NULL \<and> pu \<noteq> NULL)"
| "pointers_ok _ = True"

lemma client_returns: "pointers_ok op \<Longrightarrow> \<exists>c'. client (base_virtuals abi getRole) op c = Some c'"
  by (cases op) (auto simp: entry_point_defs api_call_def base_virtuals_def GetComponentVersion_def split: prod.splits)

lemma base_keeps_trans: "base_keeps a b \<Longrightarrow> base_keeps b c \<Longrightarrow> base_keeps a c"
  by (simp add: base_keeps_def)

text \<open>
  C38: no sequence of client calls on the base class (their output pointers not null) fails an
  assertion, moves the state machine, calls back, touches a buffer or breaks the port layout, and
  the component mutex is free after it.
\<close>

theorem client_calls_safe:
  assumes "list_all pointers_ok ops" "\<not> m_locked (prot c)" "ports_wf (prot c)"
  shows "\<exists>c'. clients (base_virtuals abi getRole) ops c = Some c' \<and> ports_wf (prot c') \<and> \<not> m_locked (prot c')
    \<and> m_currentState c' = m_currentState c \<and> m_targetState c' = m_targetState c
    \<and> m_log (prot c') = m_log (prot c) \<and> m_heap (prot c') = m_heap (prot c)"
  using assms
proof (induction ops arbitrary: c)
  case (Cons op ops)
  obtain c1 where c1: "client (base_virtuals abi getRole) op c = Some c1" using client_returns Cons.prems(1) by fastforce
  have k: "base_keeps c c1" by (rule base_client [OF c1])
  with Cons.IH [of c1] Cons.prems c1 show ?case by (auto simp: base_keeps_def)
qed simp

text \<open>
  C37: a port definition that a client sets is the one it reads back, except for the fields that
  are the component's own (index, direction, enabled, populated, domain, contiguity, alignment),
  which keep their values; every other port and the numbering of the ports stay as they were.
\<close>

theorem port_definition_roundtrip:
  assumes wf: "ports_wf c" and p: "FindPortByIndex c (nPortIndex s) = Some p"
    and hdr: "pd_struct s = BOMX_STRUCT_INIT abi PORTDEFINITION" "pd_struct q = BOMX_STRUCT_INIT abi PORTDEFINITION"
    and q: "nPortIndex q = nPortIndex s"
    and set: "SetParameter abi (OMX_IndexParamPortDefinition (Some s)) c = (err, c')"
  shows "err = OMX_ErrorNone \<and> ports_wf c'
    \<and> GetParameter abi (OMX_IndexParamPortDefinition (Some q)) c' = (OMX_ErrorNone, OMX_IndexParamPortDefinition (Some
        (s\<lparr>eDir := eDir (m_definition p), bEnabled := bEnabled (m_definition p), bPopulated := bPopulated (m_definition p),
           eDomain := eDomain (m_definition p), bBuffersContiguous := bBuffersContiguous (m_definition p),
           nBufferAlignment := nBufferAlignment (m_definition p)\<rparr>)))
    \<and> (\<forall>j. j \<noteq> nPortIndex s \<longrightarrow> FindPortByIndex c' j = FindPortByIndex c j)"
proof -
  have idx: "nPortIndex (m_definition p) = nPortIndex s" using FindPortByIndex_iff [OF wf] p by auto
  let ?d = "s\<lparr>nPortIndex := nPortIndex (m_definition p), eDir := eDir (m_definition p),
      bEnabled := bEnabled (m_definition p), bPopulated := bPopulated (m_definition p),
      eDomain := eDomain (m_definition p), bBuffersContiguous := bBuffersContiguous (m_definition p),
      nBufferAlignment := nBufferAlignment (m_definition p)\<rparr>"
  have "SetDefinition abi p s = (OMX_ErrorNone, p\<lparr>m_definition := ?d\<rparr>)" by (simp add: SetDefinition_def hdr Let_def)
  then have c': "err = OMX_ErrorNone" "c' = put_port (nPortIndex s) (p\<lparr>m_definition := ?d\<rparr>) c"
    using set p by (simp_all add: hdr BOMX_ERR_TRACE_def)
  have wf': "ports_wf c'" unfolding c'(2) by (rule ports_wf_put [OF wf p]) simp
  have eq: "?d = s\<lparr>eDir := eDir (m_definition p), bEnabled := bEnabled (m_definition p), bPopulated := bPopulated (m_definition p),
      eDomain := eDomain (m_definition p), bBuffersContiguous := bBuffersContiguous (m_definition p),
      nBufferAlignment := nBufferAlignment (m_definition p)\<rparr>" using idx by simp
  have "FindPortByIndex c' (nPortIndex s) = Some (p\<lparr>m_definition := ?d\<rparr>)"
    unfolding c'(2) using FindPortByIndex_put [OF p] by simp
  then have "GetParameter abi (OMX_IndexParamPortDefinition (Some q)) c' = (OMX_ErrorNone, OMX_IndexParamPortDefinition (Some ?d))"
    by (simp add: q hdr validated_def)
  then show ?thesis using c' wf' eq FindPortByIndex_put [OF p] by simp
qed

section \<open>Witnesses\<close>

theorem client_calls_safe_witness:
  "\<exists>c'. clients (base_virtuals omx_il_abi None) [CallGetState, CallComponentRoleEnum 0, CallFreeBuffer 0 8] demo_component = Some c'
     \<and> ports_wf (prot c')"
  using client_calls_safe [OF _ _ demo_ports_wf, of "[CallGetState, CallComponentRoleEnum 0, CallFreeBuffer 0 8]" omx_il_abi None]
  by (auto simp: demo_component_simps)

text \<open>A client asks for four buffers on port 1 of the shell.\<close>

definition demo_definition :: OMX_PARAM_PORTDEFINITIONTYPE where
  "demo_definition = (m_definition (m_pAudioPorts (prot demo_component) ! 1))\<lparr>nBufferCountActual := 4\<rparr>"

theorem port_definition_roundtrip_witness:
  "let c' = snd (SetParameter omx_il_abi (OMX_IndexParamPortDefinition (Some demo_definition)) (prot demo_component))
   in GetParameter omx_il_abi (OMX_IndexParamPortDefinition (Some demo_definition)) c'
        = (OMX_ErrorNone, OMX_IndexParamPortDefinition (Some demo_definition))"
proof -
  let ?p = "m_pAudioPorts (prot demo_component) ! 1"
  have p: "FindPortByIndex (prot demo_component) (nPortIndex demo_definition) = Some ?p"
    by (simp add: demo_definition_def FindPortByIndex_def demo_component_simps)
  have h: "pd_struct demo_definition = BOMX_STRUCT_INIT omx_il_abi PORTDEFINITION"
    by (simp add: demo_definition_def demo_component_simps)
  show ?thesis
    using port_definition_roundtrip [OF demo_ports_wf p h h refl surjective_pairing]
    by (simp add: demo_definition_def Let_def)
qed

end
