(* ===== verification/Power_Hal.thy ===== *)
theory Power_Hal
  imports Prelude
begin

unbundle bit_operations_syntax

text \<open>
  \<open>hals/power/power.cpp\<close>: the power HAL. It keeps a wake lock while the system must not suspend,
  puts Nexus into the doze or off state, and answers the suspend protocol of the kernel driver
  from a monitor thread. What the code asks of Nexus, the property service, sysfs, timers and the
  driver is the record \<open>pm_env\<close> of answers; an answer may depend on every call made before, which
  the state keeps as a log.
\<close>

section \<open>Data\<close>

datatype b_powerState =
    ePowerState_S0 | ePowerState_S05 | ePowerState_S1 | ePowerState_S2 | ePowerState_S3
  | ePowerState_S4 | ePowerState_S5 | ePowerState_Max

record pmlib_state_t =
  enet_en :: bool
  moca_en :: bool
  sata_en :: bool
  tp1_en :: bool
  tp2_en :: bool
  tp3_en :: bool
  cpufreq_scale_en :: bool
  ddr_pm_en :: bool

datatype pm_thread = DozeMonitorThread | StandbyFinishThread | S5ShutdownThread | WolMonitorThread

datatype pm_event =
    DROID_PM_EVENT_SUSPENDING | DROID_PM_EVENT_SHUTDOWN | DROID_PM_EVENT_RESUMED
  | DROID_PM_EVENT_RESUMED_PARTIAL | DROID_PM_EVENT_RESUMED_WAKEUP | DROID_PM_EVENT_Other nat

text \<open>The calls that have an effect outside the HAL.\<close>

datatype pm_call =
    AcquireWakeLock | ReleaseWakeLock | NexusSetPowerState b_powerState | SetVideoOutputs b_powerState
  | PmLibSetState pmlib_state_t | PropertySet string string | TimerSet int | SuspendAck
  | IoctlSetInteractive bool | SystemShutdown | CreateThread pm_thread | SysfsSet string u32
  | CloseFd int | EthtoolSwol string u32 "u8 list option"

record pm_env =
  property_get :: "pm_call list \<Rightarrow> string \<Rightarrow> string option"
  property_get_bool :: "pm_call list \<Rightarrow> string \<Rightarrow> bool \<Rightarrow> bool"
  property_get_int32 :: "pm_call list \<Rightarrow> string \<Rightarrow> int \<Rightarrow> int"
  sysfs_get :: "pm_call list \<Rightarrow> string \<Rightarrow> status_t \<times> u32"
  sysfs_set :: "pm_call list \<Rightarrow> string \<Rightarrow> u32 \<Rightarrow> status_t"
  nexus_setPowerState :: "pm_call list \<Rightarrow> b_powerState \<Rightarrow> status_t"
  pmlib_service :: "pm_call list \<Rightarrow> bool"
  pmlib_getState :: "pm_call list \<Rightarrow> status_t \<times> pmlib_state_t"
  pmlib_setState :: "pm_call list \<Rightarrow> pmlib_state_t \<Rightarrow> status_t"
  ioctl_suspend_ack :: "pm_call list \<Rightarrow> status_t"
  eventfd_read :: "pm_call list \<Rightarrow> status_t + pm_event"
  pthread_create :: "pm_call list \<Rightarrow> pm_thread \<Rightarrow> bool"

record power =
  wakeLockAcquired :: bool
  shutdownStarted :: bool
  gDozeTimer :: bool
  gNexusPower :: bool
  gPowerFd :: int
  gPowerEventFd :: int
  gPowerEventMonitorThreadExit :: bool
  gPowerEventMonitorThreadExited :: bool
  init_S0_state :: bool
  pmlib_S0_state :: pmlib_state_t
  calls :: "pm_call list"

definition emit :: "pm_call \<Rightarrow> power \<Rightarrow> power" where
  "emit e s = s\<lparr>calls := calls s @ [e]\<rparr>"

section \<open>Power states and properties\<close>

text \<open>\<open>strcasecmp\<close> in the C locale: the ASCII letters compare without case.\<close>

definition tolower :: "char \<Rightarrow> char" where
  "tolower c = (let n = of_char c :: nat in if 65 \<le> n \<and> n \<le> 90 then char_of (n + 32) else c)"

definition strcasecmp_eq :: "string \<Rightarrow> string \<Rightarrow> bool" where
  "strcasecmp_eq a b \<longleftrightarrow> map tolower a = map tolower b"

definition power_get_state_from_string :: "string \<Rightarrow> b_powerState" where
  "power_get_state_from_string v =
     (if strcasecmp_eq v ''0'' \<or> strcasecmp_eq v ''s0'' then ePowerState_S0
      else if strcasecmp_eq v ''0.5'' \<or> strcasecmp_eq v ''s0.5'' then ePowerState_S05
      else if strcasecmp_eq v ''1'' \<or> strcasecmp_eq v ''s1'' then ePowerState_S1
      else if strcasecmp_eq v ''2'' \<or> strcasecmp_eq v ''s2'' then ePowerState_S2
      else if strcasecmp_eq v ''3'' \<or> strcasecmp_eq v ''s3'' then ePowerState_S3
      else if strcasecmp_eq v ''5'' \<or> strcasecmp_eq v ''s5'' then ePowerState_S5
      else ePowerState_Max)"

fun getPowerString :: "b_powerState \<Rightarrow> string" where
  "getPowerString ePowerState_S0 = ''S0''"
| "getPowerString ePowerState_S05 = ''S0.5''"
| "getPowerString ePowerState_S1 = ''S1''"
| "getPowerString ePowerState_S2 = ''S2''"
| "getPowerString ePowerState_S3 = ''S3''"
| "getPowerString ePowerState_S4 = ''S4''"
| "getPowerString ePowerState_S5 = ''S5''"
| "getPowerString ePowerState_Max = []"

definition property_or :: "pm_env \<Rightarrow> power \<Rightarrow> string \<Rightarrow> string \<Rightarrow> string" where
  "property_or env s name dflt = (case property_get env (calls s) name of None \<Rightarrow> dflt | Some v \<Rightarrow> v)"

definition power_get_property_off_state :: "pm_env \<Rightarrow> power \<Rightarrow> b_powerState" where
  "power_get_property_off_state env s =
     power_get_state_from_string (property_or env s ''persist.sys.power.offstate'' ''S2'')"

definition power_get_property_doze_state :: "pm_env \<Rightarrow> power \<Rightarrow> b_powerState" where
  "power_get_property_doze_state env s =
     power_get_state_from_string (property_or env s ''persist.sys.power.dozestate'' ''S0.5'')"

definition SYS_MAP_MEM_TO_S2 :: string where
  "SYS_MAP_MEM_TO_S2 = ''/sys/devices/platform/droid_pm/map_mem_to_s2''"

definition SYS_FULL_WOL_WAKEUP :: string where
  "SYS_FULL_WOL_WAKEUP = ''/sys/devices/platform/droid_pm/full_wol_wakeup''"

definition power_get_off_state :: "pm_env \<Rightarrow> power \<Rightarrow> b_powerState" where
  "power_get_off_state env s =
     (let offState = power_get_property_off_state env s in
      if offState = ePowerState_S3 then
        let (status, map_mem_to_s2) = sysfs_get env (calls s) SYS_MAP_MEM_TO_S2
        in if status = NO_ERROR \<and> map_mem_to_s2 \<noteq> 0 then ePowerState_S2 else offState
      else offState)"

section \<open>The wake lock\<close>

definition acquireWakeLock :: "power \<Rightarrow> power" where
  "acquireWakeLock s =
     (if wakeLockAcquired s = False then (emit AcquireWakeLock s)\<lparr>wakeLockAcquired := True\<rparr> else s)"

definition releaseWakeLock :: "power \<Rightarrow> power" where
  "releaseWakeLock s =
     (if wakeLockAcquired s = True \<and> shutdownStarted s = False
      then (emit ReleaseWakeLock s)\<lparr>wakeLockAcquired := False\<rparr> else s)"

definition dozeTimerCallback :: "power \<Rightarrow> power" where
  "dozeTimerCallback s = releaseWakeLock s"

section \<open>Threads\<close>

definition power_create_thread :: "pm_env \<Rightarrow> pm_thread \<Rightarrow> power \<Rightarrow> status_t \<times> power" where
  "power_create_thread env thr s =
     (if pthread_create env (calls s) thr then (NO_ERROR, emit (CreateThread thr) s)
      else (UNKNOWN_ERROR, s))"

section \<open>Entering a power state\<close>

text \<open>The state asked of the PM library, computed from the one it reports.\<close>

definition pmlib_target :: "pm_env \<Rightarrow> b_powerState \<Rightarrow> pmlib_state_t \<Rightarrow> power \<Rightarrow> pmlib_state_t \<times> power" where
  "pmlib_target env state pmlib_state s =
     (let get = property_get_bool env (calls s) in
      if state = ePowerState_S05 \<or> state = ePowerState_S1 then
        (\<lparr>enet_en = get ''ro.pm.eth_en'' True, moca_en = get ''ro.pm.moca_en'' False,
          sata_en = get ''ro.pm.sata_en'' False, tp1_en = get ''ro.pm.tp1_en'' False,
          tp2_en = get ''ro.pm.tp2_en'' False, tp3_en = get ''ro.pm.tp3_en'' False,
          cpufreq_scale_en = get ''ro.pm.cpufreq_scale_en'' True,
          ddr_pm_en = get ''ro.pm.ddr_pm_en'' True \<and> state \<noteq> ePowerState_S05\<rparr>, s)
      else if state = ePowerState_S0 then
        let s = (if init_S0_state s then s\<lparr>pmlib_S0_state := pmlib_state, init_S0_state := False\<rparr> else s);
            s0 = pmlib_S0_state s
        in (\<lparr>enet_en = enet_en s0, moca_en = moca_en s0, sata_en = sata_en s0,
             tp1_en = tp1_en s0, tp2_en = tp2_en s0, tp3_en = tp3_en s0,
             cpufreq_scale_en = False, ddr_pm_en = False\<rparr>, s)
      else (pmlib_state, s))"

definition power_set_pmlibservice_state :: "pm_env \<Rightarrow> b_powerState \<Rightarrow> power \<Rightarrow> status_t \<times> power" where
  "power_set_pmlibservice_state env state s =
     (if \<not> pmlib_service env (calls s) then (NO_INIT, s)
      else
        let (status, pmlib_orig_state) = pmlib_getState env (calls s) in
        if status \<noteq> NO_ERROR then (status, s)
        else
          let (pmlib_state, s) = pmlib_target env state pmlib_orig_state s
          in if pmlib_orig_state \<noteq> pmlib_state
             then (pmlib_setState env (calls s) pmlib_state, emit (PmLibSetState pmlib_state) s)
             else (status, s))"

definition nexus_set :: "pm_env \<Rightarrow> b_powerState \<Rightarrow> power \<Rightarrow> status_t \<times> power" where
  "nexus_set env state s = (nexus_setPowerState env (calls s) state, emit (NexusSetPowerState state) s)"

definition power_set_state_s0 :: "pm_env \<Rightarrow> power \<Rightarrow> status_t \<times> power" where
  "power_set_state_s0 env s =
     (let (status, s) = power_set_pmlibservice_state env ePowerState_S0 s
      in if gNexusPower s then nexus_set env ePowerState_S0 s else (status, s))"

definition power_set_state_s05 :: "pm_env \<Rightarrow> power \<Rightarrow> status_t \<times> power" where
  "power_set_state_s05 env s =
     (let (status, s) = (if gNexusPower s then nexus_set env ePowerState_S05 s else (NO_ERROR, s))
      in (status, if status = NO_ERROR then snd (power_set_pmlibservice_state env ePowerState_S05 s) else s))"

definition power_set_state_s1 :: "pm_env \<Rightarrow> power \<Rightarrow> status_t \<times> power" where
  "power_set_state_s1 env s =
     (let (status, s) = (if gNexusPower s then nexus_set env ePowerState_S1 s else (NO_ERROR, s))
      in (status, if status = NO_ERROR then snd (power_set_pmlibservice_state env ePowerState_S1 s) else s))"

definition power_set_state_s2_s3 :: "pm_env \<Rightarrow> b_powerState \<Rightarrow> power \<Rightarrow> status_t \<times> power" where
  "power_set_state_s2_s3 env toState s =
     (if gNexusPower s then nexus_set env toState s else (NO_ERROR, s))"

definition power_set_state_s5 :: "pm_env \<Rightarrow> power \<Rightarrow> status_t \<times> power" where
  "power_set_state_s5 env s = power_create_thread env S5ShutdownThread (acquireWakeLock s)"

definition power_s5_shutdown :: "power \<Rightarrow> power" where
  "power_s5_shutdown s = emit SystemShutdown (s\<lparr>shutdownStarted := True\<rparr>)"

definition power_set_state :: "pm_env \<Rightarrow> b_powerState \<Rightarrow> power \<Rightarrow> status_t \<times> power" where
  "power_set_state env toState s =
     (let finish = (\<lambda>(status, s). (status,
            if status = NO_ERROR \<and> toState \<noteq> ePowerState_S0 then emit (PropertySet ''dyn.nx.boot.wakeup'' ''1'') s else s))
      in case toState of
           ePowerState_S0 \<Rightarrow> finish (power_set_state_s0 env s)
         | ePowerState_S05 \<Rightarrow> finish (power_set_state_s05 env s)
         | ePowerState_S1 \<Rightarrow> finish (power_set_state_s1 env s)
         | ePowerState_S2 \<Rightarrow> finish (power_set_state_s2_s3 env toState s)
         | ePowerState_S3 \<Rightarrow> finish (power_set_state_s2_s3 env toState s)
         | ePowerState_S5 \<Rightarrow> finish (power_set_state_s5 env s)
         | _ \<Rightarrow> (BAD_VALUE, s))"

definition power_set_poweroff_state :: "pm_env \<Rightarrow> power \<Rightarrow> status_t \<times> power" where
  "power_set_poweroff_state env s = power_set_state env (power_get_off_state env s) s"

text \<open>A negative timeout dozes for ever; \<open>gDozeTimer\<close> tells whether the timer could be created.\<close>

definition power_set_doze_state :: "pm_env \<Rightarrow> int \<Rightarrow> power \<Rightarrow> status_t \<times> power" where
  "power_set_doze_state env timeout s =
     (let dozeState = power_get_property_doze_state env s;
          powerOffState = power_get_off_state env s;
          timeout = (if powerOffState \<noteq> ePowerState_S2 \<and> powerOffState \<noteq> ePowerState_S3 \<and> powerOffState \<noteq> ePowerState_S5
                     then -1 else timeout);
          s = (if timeout < 0 then s else if gDozeTimer s then emit (TimerSet timeout) s else s);
          s = (if timeout \<noteq> 0 then acquireWakeLock s else releaseWakeLock s)
      in power_set_state env dozeState s)"

section \<open>The suspend protocol\<close>

definition power_prepare_suspend :: "pm_env \<Rightarrow> power \<Rightarrow> status_t \<times> power" where
  "power_prepare_suspend env s =
     (if gPowerFd s = -1 then (NO_INIT, s)
      else if gPowerEventFd s = -1 then (NO_INIT, s)
      else
        let ret = ioctl_suspend_ack env (calls s); s = emit SuspendAck s in
        if ret \<noteq> NO_ERROR then (ret, s)
        else case eventfd_read env (calls s) of
            Inl err \<Rightarrow> (err, s)
          | Inr event \<Rightarrow>
              if event = DROID_PM_EVENT_RESUMED \<or> event = DROID_PM_EVENT_RESUMED_PARTIAL
                 \<or> event = DROID_PM_EVENT_RESUMED_WAKEUP
              then (NO_ERROR, s) else (BAD_VALUE, s))"

text \<open>What \<open>poll\<close> and the read behind it give the monitor thread.\<close>

datatype poll_result = PollTimeout | PollError | PollNotReady | PollReadError | PollEvent pm_event

text \<open>One iteration of the monitor loop: whether the loop goes on, and the new state.\<close>

definition monitor_body :: "pm_env \<Rightarrow> int \<Rightarrow> poll_result \<Rightarrow> power \<Rightarrow> bool \<times> power" where
  "monitor_body env wakeTimeout r s =
     (case r of
        PollError \<Rightarrow> (False, s)
      | PollEvent DROID_PM_EVENT_SUSPENDING \<Rightarrow>
          (let (ret, s) = power_set_poweroff_state env s
           in (True, if ret = NO_ERROR
                     then snd (power_set_doze_state env wakeTimeout (snd (power_prepare_suspend env s)))
                     else s))
      | PollEvent DROID_PM_EVENT_SHUTDOWN \<Rightarrow>
          (let s = (if gNexusPower s then snd (nexus_set env ePowerState_S5 s) else s)
           in (True, snd (power_prepare_suspend env s)))
      | _ \<Rightarrow> (True, s))"

definition monitor_iter :: "pm_env \<Rightarrow> int \<Rightarrow> poll_result \<Rightarrow> power \<Rightarrow> bool \<times> power" where
  "monitor_iter env wakeTimeout r s =
     (if \<not> gPowerEventFd s \<ge> 0 \<or> gPowerEventMonitorThreadExit s then (False, s)
      else monitor_body env wakeTimeout r s)"

definition monitor_start :: "power \<Rightarrow> power" where
  "monitor_start s = s\<lparr>gPowerEventMonitorThreadExit := False, gPowerEventMonitorThreadExited := False\<rparr>"

definition monitor_exit :: "power \<Rightarrow> power" where
  "monitor_exit s = s\<lparr>gPowerEventMonitorThreadExited := True\<rparr>"

text \<open>
  The thread over a finite sequence of poll results: it ends in \<open>monitor_exit\<close> when the loop ends,
  and with an empty sequence it is waiting in \<open>poll\<close>.
\<close>

fun monitor_loop :: "pm_env \<Rightarrow> int \<Rightarrow> poll_result list \<Rightarrow> power \<Rightarrow> power" where
  "monitor_loop env wakeTimeout [] s = s"
| "monitor_loop env wakeTimeout (r # rs) s =
     (let (continue, s) = monitor_iter env wakeTimeout r s
      in if continue then monitor_loop env wakeTimeout rs s else monitor_exit s)"

definition power_event_monitor_thread :: "pm_env \<Rightarrow> poll_result list \<Rightarrow> power \<Rightarrow> power" where
  "power_event_monitor_thread env rs s =
     (let wakeTimeout = property_get_int32 env (calls s) ''persist.sys.power.wake.timeout'' 10
      in monitor_loop env wakeTimeout rs (monitor_start s))"

definition power_doze_monitor_thread :: "pm_env \<Rightarrow> poll_result list \<Rightarrow> power \<Rightarrow> power" where
  "power_doze_monitor_thread env rs s =
     (let dozeTimeout = property_get_int32 env (calls s) ''persist.sys.power.doze.timeout'' 0
      in power_event_monitor_thread env rs (snd (power_set_doze_state env dozeTimeout s)))"

definition power_standby_finish_thread :: "pm_env \<Rightarrow> poll_result list \<Rightarrow> power \<Rightarrow> power" where
  "power_standby_finish_thread env rs s =
     (let s = snd (power_set_state env ePowerState_S0 s);
          s = (if gNexusPower s then emit (SetVideoOutputs ePowerState_S0) s else s)
      in power_event_monitor_thread env rs s)"

text \<open>
  \<open>power_kill_thread\<close> asks a running monitor to exit and waits for it: the monitor finishes the
  iteration it is in (\<open>pending\<close>, if its \<open>poll\<close> has returned) and then sees the flag.
\<close>

definition power_kill_thread :: "pm_env \<Rightarrow> int \<Rightarrow> poll_result option \<Rightarrow> power \<Rightarrow> power" where
  "power_kill_thread env wakeTimeout pending s =
     (if \<not> gPowerEventMonitorThreadExited s then
        let s = s\<lparr>gPowerEventMonitorThreadExit := True\<rparr>;
            s = (case pending of None \<Rightarrow> s | Some r \<Rightarrow> snd (monitor_body env wakeTimeout r s))
        in monitor_exit s
      else s)"

section \<open>The HAL entry points\<close>

definition power_finish_set_no_interactive :: "pm_env \<Rightarrow> int \<Rightarrow> poll_result option \<Rightarrow> power \<Rightarrow> power" where
  "power_finish_set_no_interactive env wakeTimeout pending s =
     snd (power_create_thread env DozeMonitorThread (power_kill_thread env wakeTimeout pending (acquireWakeLock s)))"

text \<open>\<open>armed\<close>: the doze timer still has time to run.\<close>

definition power_finish_set_interactive :: "pm_env \<Rightarrow> int \<Rightarrow> poll_result option \<Rightarrow> bool \<Rightarrow> power \<Rightarrow> status_t \<times> power" where
  "power_finish_set_interactive env wakeTimeout pending armed s =
     (let s = (if gDozeTimer s \<and> armed then emit (TimerSet 0) s else s);
          s = power_kill_thread env wakeTimeout pending s;
          s = snd (power_create_thread env StandbyFinishThread s)
      in (NO_ERROR, releaseWakeLock s))"

definition power_set_interactive :: "pm_env \<Rightarrow> int \<Rightarrow> poll_result option \<Rightarrow> bool \<Rightarrow> bool \<Rightarrow> power \<Rightarrow> power" where
  "power_set_interactive env wakeTimeout pending armed on s =
     (if on \<and> shutdownStarted s then s
      else
        let s = (if on then snd (power_finish_set_interactive env wakeTimeout pending armed s)
                 else let dozeState = power_get_property_doze_state env s;
                          s = (if gNexusPower s then emit (SetVideoOutputs dozeState) s else s)
                      in power_finish_set_no_interactive env wakeTimeout pending s)
        in if gPowerFd s \<noteq> -1 then emit (IoctlSetInteractive on) s else s)"

section \<open>Wake-on-LAN\<close>

text \<open>The \<open>WAKE_X\<close> bits of the kernel's ethtool interface, and an instance with its values.\<close>

record wol_abi =
  WAKE_PHY :: u32
  WAKE_UCAST :: u32
  WAKE_MCAST :: u32
  WAKE_BCAST :: u32
  WAKE_ARP :: u32
  WAKE_MAGIC :: u32
  WAKE_MAGICSECURE :: u32

definition linux_wol_abi :: wol_abi where
  "linux_wol_abi = \<lparr>WAKE_PHY = 1, WAKE_UCAST = 2, WAKE_MCAST = 4, WAKE_BCAST = 8, WAKE_ARP = 16,
     WAKE_MAGIC = 32, WAKE_MAGICSECURE = 64\<rparr>"

fun wolopts_loop :: "wol_abi \<Rightarrow> string \<Rightarrow> status_t \<Rightarrow> u32 \<Rightarrow> status_t \<times> u32" where
  "wolopts_loop k [] status data = (status, data)"
| "wolopts_loop k (c # cs) status data =
     (if c = CHR ''p'' then wolopts_loop k cs status (data OR WAKE_PHY k)
      else if c = CHR ''u'' then wolopts_loop k cs status (data OR WAKE_UCAST k)
      else if c = CHR ''m'' then wolopts_loop k cs status (data OR WAKE_MCAST k)
      else if c = CHR ''b'' then wolopts_loop k cs status (data OR WAKE_BCAST k)
      else if c = CHR ''a'' then wolopts_loop k cs status (data OR WAKE_ARP k)
      else if c = CHR ''g'' then wolopts_loop k cs status (data OR WAKE_MAGIC k)
      else if c = CHR ''s'' then wolopts_loop k cs status (data OR WAKE_MAGICSECURE k)
      else if c = CHR ''d'' then wolopts_loop k cs status 0
      else wolopts_loop k cs BAD_VALUE data)"

definition power_parse_wolopts :: "wol_abi \<Rightarrow> string \<Rightarrow> status_t \<times> u32" where
  "power_parse_wolopts k optstr = wolopts_loop k optstr NO_ERROR 0"

text \<open>
  What the attempt to configure an interface sees: the socket, the entries of \<open>/sys/class/net\<close>,
  the interface flags (a failing ioctl, or whether \<open>IFF_UP\<close> is set), the options property, the
  password file (its path readable, what loading it gives), the parse of the password by
  \<open>sscanf\<close>, and the result of the final ioctl.
\<close>

record wol_env =
  socket_ok :: bool
  class_net :: "string list option"
  if_flags :: "string \<Rightarrow> int + bool"
  wol_opts :: string
  sopass_readable :: bool
  sopass_load :: "status_t \<times> (string \<times> string) list"
  sscanf_sopass :: "string \<Rightarrow> u8 list option"
  ioctl_ethtool :: "string \<Rightarrow> u32 \<Rightarrow> u8 list option \<Rightarrow> int"

definition powerNetInterfaces :: "string list" where
  "powerNetInterfaces = [''gphy'', ''eth0'']"

definition power_is_iface_present :: "wol_env \<Rightarrow> string \<Rightarrow> bool" where
  "power_is_iface_present w ifname =
     (case class_net w of None \<Rightarrow> False | Some names \<Rightarrow> list_ex (\<lambda>n. n = ifname) names)"

definition power_parse_sopass :: "wol_env \<Rightarrow> string \<Rightarrow> status_t \<times> u8 list" where
  "power_parse_sopass w src =
     (case sscanf_sopass w src of
        None \<Rightarrow> (BAD_VALUE, [])
      | Some buf \<Rightarrow> if length buf \<noteq> 6 then (BAD_VALUE, []) else (NO_ERROR, buf))"

text \<open>The search loop: the status so far and, when it breaks, the interface found.\<close>

fun find_iface :: "wol_env \<Rightarrow> string list \<Rightarrow> status_t \<Rightarrow> status_t \<times> string option" where
  "find_iface w [] status = (status, None)"
| "find_iface w (i # is) status =
     (if power_is_iface_present w i then
        (case if_flags w i of
           Inl e \<Rightarrow> find_iface w is (ErrorCode e)
         | Inr up \<Rightarrow> if \<not> up then find_iface w is MINUS_EAGAIN else (NO_ERROR, Some i))
      else find_iface w is status)"

definition read_sopass :: "wol_env \<Rightarrow> status_t \<times> u8 list" where
  "read_sopass w =
     (if \<not> sopass_readable w then (NAME_NOT_FOUND, [])
      else let (status, entries) = sopass_load w in
        if status \<noteq> NO_ERROR then (status, [])
        else if length entries \<noteq> 1 then (BAD_VALUE, [])
        else case map_of entries ''SOPASS'' of
            None \<Rightarrow> (BAD_VALUE, [])
          | Some value \<Rightarrow> power_parse_sopass w value)"

text \<open>The result: the status, and the settings handed to the driver if any were.\<close>

definition power_set_enet_wol :: "wol_abi \<Rightarrow> wol_env \<Rightarrow> status_t \<times> (string \<times> u32 \<times> u8 list option) option" where
  "power_set_enet_wol k w =
     (let (status, ifr) = (if \<not> socket_ok w then (PERMISSION_DENIED, None)
                           else find_iface w powerNetInterfaces NAME_NOT_FOUND) in
      case ifr of
        None \<Rightarrow> (status, None)
      | Some i \<Rightarrow>
          if length (wol_opts w) > 0 then
            let (status, data) = power_parse_wolopts k (wol_opts w) in
            if status \<noteq> NO_ERROR then (status, None)
            else
              let (status, sopass) =
                (if data AND WAKE_MAGICSECURE k \<noteq> 0 then map_prod id Some (read_sopass w) else (NO_ERROR, None)) in
              if status \<noteq> NO_ERROR then (status, None)
              else let r = ioctl_ethtool w i data sopass
                   in (if r = 0 then NO_ERROR else ErrorCode r, Some (i, data, sopass))
          else (BAD_VALUE, None))"

text \<open>\<open>attempt n\<close> is the status of the n-th attempt; the result is the number of the last one.\<close>

partial_function (option) power_wol_monitor_thread :: "(nat \<Rightarrow> status_t) \<Rightarrow> nat \<Rightarrow> nat option" where
  "power_wol_monitor_thread attempt n =
     (if attempt n \<noteq> MINUS_EAGAIN then Some n else power_wol_monitor_thread attempt (Suc n))"

definition power_set_wol_mode :: "pm_env \<Rightarrow> power \<Rightarrow> status_t \<times> power" where
  "power_set_wol_mode env s =
     (let (status, full_wol_en) = sysfs_get env (calls s) SYS_FULL_WOL_WAKEUP;
          s = (if status = NO_ERROR then
                 let full_wol_en_pr = property_get_bool env (calls s) ''ro.pm.wol.en'' False;
                     v = (if full_wol_en_pr then 1 else 0)
                 in if v \<noteq> full_wol_en then emit (SysfsSet SYS_FULL_WOL_WAKEUP v) s else s
               else s)
      in power_create_thread env WolMonitorThread s)"

section \<open>Initialisation\<close>

text \<open>
  \<open>openFd\<close> and \<open>eventFd\<close> are the results of \<open>open\<close> and \<open>eventfd\<close> (negative on failure),
  \<open>registered\<close>, \<open>nexus\<close> and \<open>timer\<close> whether the driver registration, the Nexus client and the
  doze timer could be set up.
\<close>

definition power_init :: "pm_env \<Rightarrow> int \<Rightarrow> int \<Rightarrow> bool \<Rightarrow> bool \<Rightarrow> bool \<Rightarrow> power \<Rightarrow> power" where
  "power_init env openFd eventFd registered nexus timer s =
     (let s = s\<lparr>gPowerFd := openFd\<rparr> in
      if gPowerFd s < 0 then s
      else
        let s = s\<lparr>gPowerEventFd := eventFd\<rparr> in
        if gPowerEventFd s < 0 then emit (CloseFd (gPowerFd s)) s
        else if \<not> registered then
          let s = (emit (CloseFd (gPowerEventFd s)) s)\<lparr>gPowerEventFd := -1\<rparr>
          in (emit (CloseFd (gPowerFd s)) s)\<lparr>gPowerFd := -1\<rparr>
        else
          let s = s\<lparr>gNexusPower := nexus\<rparr> in
          if \<not> gNexusPower s then s
          else snd (power_set_wol_mode env (s\<lparr>gDozeTimer := timer\<rparr>)))"

section \<open>The wake lock protocol\<close>

text \<open>
  The kernel's view of a log: the lock is taken when free and released when held, anything else
  is an error (\<open>None\<close>).
\<close>

fun held :: "bool \<Rightarrow> pm_call list \<Rightarrow> bool option" where
  "held b [] = Some b"
| "held b (AcquireWakeLock # cs) = (if b then None else held True cs)"
| "held b (ReleaseWakeLock # cs) = (if b then held False cs else None)"
| "held b (_ # cs) = held b cs"

lemma held_append [simp]: "held b (xs @ ys) = Option.bind (held b xs) (\<lambda>b. held b ys)"
  by (induction b xs rule: held.induct) auto

text \<open>
  What every operation of the HAL does to the state: it only appends calls, they follow the wake
  lock protocol, they release nothing once the shutdown has started, they acknowledge a suspend
  only if \<open>ack\<close> allows it, and the set-up is kept.
\<close>

definition lawful :: "bool \<Rightarrow> power \<Rightarrow> power \<Rightarrow> bool" where
  "lawful ack s s' \<longleftrightarrow> (\<exists>new. calls s' = calls s @ new
       \<and> held (wakeLockAcquired s) new = Some (wakeLockAcquired s')
       \<and> (shutdownStarted s \<longrightarrow> ReleaseWakeLock \<notin> set new)
       \<and> (SuspendAck \<in> set new \<longrightarrow> ack))
     \<and> (shutdownStarted s \<longrightarrow> shutdownStarted s')
     \<and> gPowerFd s' = gPowerFd s \<and> gPowerEventFd s' = gPowerEventFd s
     \<and> gNexusPower s' = gNexusPower s \<and> gDozeTimer s' = gDozeTimer s"

lemma lawful_refl [intro, simp]: "lawful ack s s"
  by (auto simp: lawful_def)

lemma lawful_trans [trans]: "lawful ack a b \<Longrightarrow> lawful ack b c \<Longrightarrow> lawful ack a c"
  by (fastforce simp: lawful_def)

lemma lawful_emit [intro, simp]: "e \<noteq> AcquireWakeLock \<Longrightarrow> e \<noteq> ReleaseWakeLock \<Longrightarrow> e \<noteq> SuspendAck \<or> ack \<Longrightarrow> lawful ack s (emit e s)"
  by (cases e) (auto simp: lawful_def emit_def)

lemma lawful_flags [simp]:
  "lawful ack s (s'\<lparr>gPowerEventMonitorThreadExit := x\<rparr>) = lawful ack s s'"
  "lawful ack s (s'\<lparr>gPowerEventMonitorThreadExited := x\<rparr>) = lawful ack s s'"
  "lawful ack s (s'\<lparr>init_S0_state := x\<rparr>) = lawful ack s s'"
  "lawful ack s (s'\<lparr>pmlib_S0_state := y\<rparr>) = lawful ack s s'"
  by (simp_all add: lawful_def)

lemma lawful_acquire [intro, simp]: "lawful ack s (acquireWakeLock s)"
  by (auto simp: lawful_def acquireWakeLock_def emit_def)

lemma lawful_release [intro, simp]: "lawful ack s (releaseWakeLock s)"
  by (auto simp: lawful_def releaseWakeLock_def emit_def)

lemma lawful_thread: "lawful ack s (snd (power_create_thread env thr s))"
  by (simp add: power_create_thread_def)

lemma lawful_nexus: "lawful ack s (snd (nexus_set env st s))"
  by (simp add: nexus_set_def)

lemma lawful_target: "lawful ack s (snd (pmlib_target env st p s))"
  by (simp add: pmlib_target_def Let_def)

lemma lawful_pmlib: "lawful ack s (snd (power_set_pmlibservice_state env st s))"
proof -
  obtain status p where g: "pmlib_getState env (calls s) = (status, p)" by fastforce
  obtain q s' where r: "pmlib_target env st p s = (q, s')" by fastforce
  have "lawful ack s s'" using lawful_target [of ack s env st p] r by simp
  moreover from this have "lawful ack s (emit (PmLibSetState q) s')" by (rule lawful_trans) simp
  ultimately show ?thesis by (simp add: power_set_pmlibservice_state_def g r)
qed

lemma lawful_s5: "lawful ack s (snd (power_set_state_s5 env s))"
  unfolding power_set_state_s5_def by (rule lawful_trans [OF lawful_acquire lawful_thread])

lemma lawful_standby:
  "lawful ack s (snd (power_set_state_s0 env s))" "lawful ack s (snd (power_set_state_s05 env s))"
  "lawful ack s (snd (power_set_state_s1 env s))" "lawful ack s (snd (power_set_state_s2_s3 env st s))"
proof -
  have p: "power_set_pmlibservice_state env x s = (st, s') \<Longrightarrow> lawful ack s s'"
    and n: "nexus_set env x s = (st, s') \<Longrightarrow> lawful ack s s'" for x s st s'
    using lawful_pmlib [of ack s env x] lawful_nexus [of ack s env x] by simp_all
  show "lawful ack s (snd (power_set_state_s0 env s))"
    using lawful_trans [OF p lawful_nexus] p by (simp add: power_set_state_s0_def split: prod.splits)
  have *: "lawful ack s s'" if "(if gNexusPower s then nexus_set env x s else (NO_ERROR, s)) = (st, s')" for x st s'
    using that n by (auto split: if_splits)
  show "lawful ack s (snd (power_set_state_s05 env s))"
    unfolding power_set_state_s05_def using * lawful_trans [OF * lawful_pmlib] by (simp split: prod.splits)
  show "lawful ack s (snd (power_set_state_s1 env s))"
    unfolding power_set_state_s1_def using * lawful_trans [OF * lawful_pmlib] by (simp split: prod.splits)
  show "lawful ack s (snd (power_set_state_s2_s3 env st s))"
    by (simp add: power_set_state_s2_s3_def lawful_nexus)
qed

lemma lawful_set_state: "lawful ack s (snd (power_set_state env st s))"
proof -
  have "lawful ack s (snd ((\<lambda>(status, s). (status,
      if status = NO_ERROR \<and> st \<noteq> ePowerState_S0 then emit (PropertySet n v) s else s)) r))"
    if "lawful ack s (snd r)" for n v and r :: "status_t \<times> power"
    using that lawful_trans [OF that lawful_emit] by (auto split: prod.splits)
  then show ?thesis
    by (cases st) (simp_all add: power_set_state_def lawful_standby lawful_s5)
qed

lemma lawful_poweroff: "lawful ack s (snd (power_set_poweroff_state env s))"
  by (simp add: power_set_poweroff_state_def lawful_set_state)

lemma lawful_doze: "lawful ack s (snd (power_set_doze_state env t s))"
proof -
  have 1: "lawful ack s (if a then s else if b then emit (TimerSet t) s else s)" for a b t by simp
  have 2: "lawful ack x (if c then acquireWakeLock x else releaseWakeLock x)" for c x by simp
  show ?thesis unfolding power_set_doze_state_def Let_def
    by (rule lawful_trans [OF lawful_trans [OF 1 2] lawful_set_state])
qed

lemma lawful_suspend: "lawful True s (snd (power_prepare_suspend env s))"
  by (auto simp: power_prepare_suspend_def Let_def split: sum.splits)

lemma lawful_monitor_body: "lawful True s (snd (monitor_body env wt r s))"
proof (cases r)
  case (PollEvent ev)
  have "lawful True s (snd (power_set_doze_state env wt (snd (power_prepare_suspend env s'))))"
    if "power_set_poweroff_state env s = (st, s')" for st s'
    using lawful_poweroff [of True s env] that lawful_trans [OF lawful_trans [OF _ lawful_suspend] lawful_doze] by simp
  moreover have "power_set_poweroff_state env s = (st, s') \<Longrightarrow> lawful True s s'" for st s'
    using lawful_poweroff [of True s env] by simp
  moreover have "lawful True s (snd (power_prepare_suspend env (if gNexusPower s then snd (nexus_set env ePowerState_S5 s) else s)))"
    by (rule lawful_trans [OF _ lawful_suspend]) (simp add: lawful_nexus)
  ultimately show ?thesis using PollEvent by (cases ev) (auto simp: monitor_body_def Let_def split: prod.splits)
qed (simp_all add: monitor_body_def)

lemma lawful_monitor_iter: "lawful True s (snd (monitor_iter env wt r s))"
  by (simp add: monitor_iter_def lawful_monitor_body)

lemma lawful_monitor_loop: "lawful True s (monitor_loop env wt rs s)"
proof (induction rs arbitrary: s)
  case (Cons r rs)
  obtain go s' where i: "monitor_iter env wt r s = (go, s')" by fastforce
  then have "lawful True s s'" using lawful_monitor_iter [of s env wt r] by simp
  with Cons.IH [of s'] i show ?case by (auto simp: monitor_exit_def intro: lawful_trans)
qed simp

lemma lawful_monitor: "lawful True s (power_event_monitor_thread env rs s)"
  using lawful_trans [OF _ lawful_monitor_loop, of s "monitor_start s"]
  by (simp add: power_event_monitor_thread_def Let_def monitor_start_def)

lemma lawful_kill: "lawful True s (power_kill_thread env wt pending s)"
proof -
  have "lawful True s (snd (monitor_body env wt r (s\<lparr>gPowerEventMonitorThreadExit := True\<rparr>)))" for r
    by (rule lawful_trans [OF _ lawful_monitor_body]) simp
  then show ?thesis by (simp add: power_kill_thread_def Let_def monitor_exit_def split: option.splits)
qed

lemma lawful_interactive: "lawful True s (power_set_interactive env wt pending armed on s)"
proof -
  have off: "lawful True x (power_finish_set_no_interactive env wt pending x)" for x
    unfolding power_finish_set_no_interactive_def
    by (rule lawful_trans [OF lawful_trans [OF lawful_acquire lawful_kill] lawful_thread])
  have on: "lawful True x (snd (power_finish_set_interactive env wt pending armed x))" for x
    unfolding power_finish_set_interactive_def Let_def snd_conv
    by (rule lawful_trans [OF lawful_trans [OF lawful_trans [OF _ lawful_kill] lawful_thread] lawful_release]) simp
  have "lawful True s (power_finish_set_no_interactive env wt pending (if c then emit (SetVideoOutputs d) s else s))" for c d
    by (rule lawful_trans [OF _ off]) simp
  then have off': "lawful True s (power_finish_set_no_interactive env wt pending (if c then emit (SetVideoOutputs d) s else s))"
    for c d .
  show ?thesis
    using on [of s] off' lawful_trans [OF on [of s] lawful_emit] lawful_trans [OF off' lawful_emit]
    by (simp add: power_set_interactive_def Let_def)
qed

section \<open>The HAL and its threads\<close>

text \<open>The HAL with the threads created and not yet running, and the number of monitor loops running.\<close>

record pm_sys =
  hal :: power
  created :: "pm_thread list"
  monitors :: nat

fun threads_in :: "pm_call list \<Rightarrow> pm_thread list" where
  "threads_in [] = []"
| "threads_in (CreateThread thr # cs) = thr # threads_in cs"
| "threads_in (_ # cs) = threads_in cs"

definition sys_after :: "pm_sys \<Rightarrow> power \<Rightarrow> pm_sys" where
  "sys_after m s = m\<lparr>hal := s, created := created m @ threads_in (drop (length (calls (hal m))) (calls s))\<rparr>"

text \<open>
  The framework switches interactive mode, the doze timer fires, created threads start to run,
  and running monitor loops make an iteration. Killing a monitor waits until one has left its loop.
\<close>

inductive pm_step :: "pm_env \<Rightarrow> pm_sys \<Rightarrow> pm_sys \<Rightarrow> bool" for env where
  step_ignored: "shutdownStarted (hal m) \<Longrightarrow>
     pm_step env m (sys_after m (power_set_interactive env wt pending armed True (hal m)))"
| step_interactive: "\<not> (on \<and> shutdownStarted (hal m)) \<Longrightarrow> gPowerEventMonitorThreadExited (hal m) \<or> monitors m > 0 \<Longrightarrow>
     pm_step env m ((sys_after m (power_set_interactive env wt pending armed on (hal m)))
       \<lparr>monitors := if gPowerEventMonitorThreadExited (hal m) then monitors m else monitors m - 1\<rparr>)"
| step_timer: "pm_step env m (sys_after m (dozeTimerCallback (hal m)))"
| step_shutdown: "S5ShutdownThread \<in> set (created m) \<Longrightarrow>
     pm_step env m ((sys_after m (power_s5_shutdown (hal m)))\<lparr>created := remove1 S5ShutdownThread (created m)\<rparr>)"
| step_doze: "DozeMonitorThread \<in> set (created m) \<Longrightarrow>
     pm_step env m (sys_after (m\<lparr>created := remove1 DozeMonitorThread (created m), monitors := monitors m + 1\<rparr>)
       (power_doze_monitor_thread env [] (hal m)))"
| step_standby: "StandbyFinishThread \<in> set (created m) \<Longrightarrow>
     pm_step env m (sys_after (m\<lparr>created := remove1 StandbyFinishThread (created m), monitors := monitors m + 1\<rparr>)
       (power_standby_finish_thread env [] (hal m)))"
| step_monitor: "monitors m > 0 \<Longrightarrow> monitor_iter env wt r (hal m) = (go, s) \<Longrightarrow>
     pm_step env m ((sys_after m (if go then s else monitor_exit s))
       \<lparr>monitors := if go then monitors m else monitors m - 1\<rparr>)"

lemma lawful_doze_thread: "lawful True s (power_doze_monitor_thread env rs s)"
  unfolding power_doze_monitor_thread_def Let_def by (rule lawful_trans [OF lawful_doze lawful_monitor])

lemma lawful_standby_thread: "lawful True s (power_standby_finish_thread env rs s)"
proof -
  have "lawful True s (if c then emit (SetVideoOutputs ePowerState_S0) (snd (power_set_state env ePowerState_S0 s))
      else snd (power_set_state env ePowerState_S0 s))" for c
    using lawful_trans [OF lawful_set_state lawful_emit] lawful_set_state by simp
  from lawful_trans [OF this lawful_monitor] show ?thesis by (simp add: power_standby_finish_thread_def Let_def)
qed

lemma lawful_shutdown: "lawful True s (power_s5_shutdown s)"
  by (auto simp: lawful_def power_s5_shutdown_def emit_def)

lemma pm_step_lawful: "pm_step env m m' \<Longrightarrow> lawful True (hal m) (hal m')"
proof (induction rule: pm_step.induct)
  case (step_monitor m wt r go s)
  then show ?case using lawful_monitor_iter [of "hal m" env wt r] by (simp add: sys_after_def monitor_exit_def)
qed (simp_all add: sys_after_def lawful_interactive dozeTimerCallback_def lawful_shutdown lawful_doze_thread
      lawful_standby_thread)

lemma pm_steps_lawful: "(pm_step env)\<^sup>*\<^sup>* m m' \<Longrightarrow> lawful True (hal m) (hal m')"
  by (induction rule: rtranclp_induct) (auto dest: pm_step_lawful intro: lawful_trans)

lemma interactive_ioctl:
  assumes "gPowerFd s \<noteq> -1"
  shows "IoctlSetInteractive False \<in> set (calls (power_set_interactive env wt pending armed False s))"
proof -
  let ?x = "power_finish_set_no_interactive env wt pending
      (if gNexusPower s then emit (SetVideoOutputs (power_get_property_doze_state env s)) s else s)"
  have "lawful True s ?x"
    unfolding power_finish_set_no_interactive_def
    by (rule lawful_trans [OF lawful_trans [OF lawful_trans [OF _ lawful_acquire] lawful_kill] lawful_thread]) simp
  then have "gPowerFd ?x \<noteq> -1" using assms by (simp add: lawful_def)
  then show ?thesis by (simp add: power_set_interactive_def Let_def) (simp add: emit_def)
qed

section \<open>Properties\<close>


text \<open>
  The wake lock after dozing: held unless the timeout is 0 (and suspend is possible at all).
\<close>

lemma set_state_keeps_lock: "st \<noteq> ePowerState_S5 \<Longrightarrow> wakeLockAcquired (snd (power_set_state env st s)) = wakeLockAcquired s"
proof -
  have g: "wakeLockAcquired (snd (pmlib_target env x q s)) = wakeLockAcquired s" for x q s
    by (simp add: pmlib_target_def Let_def)
  have p: "wakeLockAcquired (snd (power_set_pmlibservice_state env x s)) = wakeLockAcquired s" for x s
    by (simp add: power_set_pmlibservice_state_def Let_def emit_def case_prod_beta g)
  have n: "wakeLockAcquired (snd (nexus_set env x s)) = wakeLockAcquired s" for x s by (simp add: nexus_set_def emit_def)
  assume "st \<noteq> ePowerState_S5"
  then show ?thesis
    by (cases st) (simp_all add: power_set_state_def power_set_state_s0_def power_set_state_s05_def emit_def
        power_set_state_s1_def power_set_state_s2_s3_def n p case_prod_beta Let_def)
qed

lemma set_state_s5_lock: "wakeLockAcquired (snd (power_set_state env ePowerState_S5 s))"
  by (simp add: power_set_state_def power_set_state_s5_def power_create_thread_def emit_def acquireWakeLock_def case_prod_beta)

lemma lawful_calls: "lawful ack s s' \<Longrightarrow> \<exists>new. calls s' = calls s @ new \<and> (SuspendAck \<in> set new \<longrightarrow> ack)"
  by (auto simp: lawful_def)

lemma doze_lock:
  assumes "doze = power_get_property_doze_state env s" "off = power_get_off_state env s"
    and "suspendable = (off \<in> {ePowerState_S2, ePowerState_S3, ePowerState_S5})"
  shows "wakeLockAcquired (snd (power_set_doze_state env timeout s)) \<longleftrightarrow> \<not> suspendable \<or> timeout \<noteq> 0
      \<or> doze = ePowerState_S5 \<or> wakeLockAcquired s \<and> shutdownStarted s"
    and "suspendable \<Longrightarrow> timeout \<ge> 0 \<Longrightarrow> gDozeTimer s \<Longrightarrow>
      \<exists>rest. calls (snd (power_set_doze_state env timeout s)) = calls s @ TimerSet timeout # rest"
proof -
  let ?t = "if suspendable then timeout else -1" and ?s' = "snd (power_set_doze_state env timeout s)"
  let ?a = "if ?t < 0 then s else if gDozeTimer s then emit (TimerSet ?t) s else s"
  let ?b = "if ?t \<noteq> 0 then acquireWakeLock ?a else releaseWakeLock ?a"
  have s': "?s' = snd (power_set_state env doze ?b)"
    using assms by (auto simp: power_set_doze_state_def Let_def)
  have b: "wakeLockAcquired ?b \<longleftrightarrow> ?t \<noteq> 0 \<or> wakeLockAcquired s \<and> shutdownStarted s"
    by (auto simp: acquireWakeLock_def releaseWakeLock_def emit_def)
  have "wakeLockAcquired ?s' \<longleftrightarrow> wakeLockAcquired ?b \<or> doze = ePowerState_S5"
    unfolding s' by (cases "doze = ePowerState_S5") (simp_all add: set_state_s5_lock set_state_keeps_lock)
  with b show "wakeLockAcquired ?s' \<longleftrightarrow> \<not> suspendable \<or> timeout \<noteq> 0 \<or> doze = ePowerState_S5
      \<or> wakeLockAcquired s \<and> shutdownStarted s" by auto
  assume that: "suspendable" "timeout \<ge> 0" "gDozeTimer s"
  have "lawful True ?b ?s'" unfolding s' by (rule lawful_set_state)
  moreover have "lawful True ?a ?b" by simp
  ultimately obtain new where "calls ?s' = calls ?a @ new" using lawful_trans lawful_calls by blast
  with that show "\<exists>rest. calls ?s' = calls s @ TimerSet timeout # rest" by (simp add: emit_def)
qed

lemma doze_lock_held: "timeout \<noteq> 0 \<Longrightarrow> wakeLockAcquired (snd (power_set_doze_state env timeout s))"
  using doze_lock(1) [OF refl refl refl] by blast

text \<open>
  dozing keeps the system awake exactly as configured: with an off state the kernel cannot
  suspend to, or a timeout other than 0, the wake lock is held; with timeout 0 it is given up
  (unless a shutdown is in progress, or the doze state is itself S5); and when suspend is possible
  and the timeout not negative, the doze timer is armed with it before anything else.
\<close>

theorem doze_wake_lock_policy:
  assumes "doze = power_get_property_doze_state env s" "off = power_get_off_state env s"
    and "suspendable = (off \<in> {ePowerState_S2, ePowerState_S3, ePowerState_S5})"
    and "power_set_doze_state env timeout s = (status, s')"
  shows "(wakeLockAcquired s' \<longleftrightarrow> \<not> suspendable \<or> timeout \<noteq> 0 \<or> doze = ePowerState_S5
           \<or> wakeLockAcquired s \<and> shutdownStarted s)
    \<and> (suspendable \<and> timeout \<ge> 0 \<and> gDozeTimer s \<longrightarrow> (\<exists>rest. calls s' = calls s @ TimerSet timeout # rest))"
  using doze_lock [OF assms(1-3), of timeout] assms(4) by simp


text \<open>
  the names of the power states read back as the states they name, in any case, except S4,
  which no property value can select.
\<close>

theorem power_state_names:
  "power_get_state_from_string (map tolower (getPowerString st)) = power_get_state_from_string (getPowerString st)
   \<and> power_get_state_from_string (getPowerString st) = (if st = ePowerState_S4 then ePowerState_Max else st)"
  by (cases st) (simp_all add: power_get_state_from_string_def strcasecmp_eq_def tolower_def of_char_def char_of_def bit_0)

text \<open>The reference for the options: the bits of the letters behind the last \<open>d\<close>.\<close>

fun wol_bit :: "wol_abi \<Rightarrow> char \<Rightarrow> u32" where
  "wol_bit k c =
     (if c = CHR ''p'' then WAKE_PHY k else if c = CHR ''u'' then WAKE_UCAST k
      else if c = CHR ''m'' then WAKE_MCAST k else if c = CHR ''b'' then WAKE_BCAST k
      else if c = CHR ''a'' then WAKE_ARP k else if c = CHR ''g'' then WAKE_MAGIC k
      else if c = CHR ''s'' then WAKE_MAGICSECURE k else 0)"

definition behind_d :: "string \<Rightarrow> string" where
  "behind_d cs = rev (takeWhile (\<lambda>c. c \<noteq> CHR ''d'') (rev cs))"

lemma behind_d_Cons:
  "behind_d (c # cs) = (if CHR ''d'' \<in> set cs then behind_d cs else if c = CHR ''d'' then cs else c # cs)"
  by (auto simp: behind_d_def takeWhile_append takeWhile_eq_all_conv)

lemma behind_d_none: "CHR ''d'' \<notin> set cs \<Longrightarrow> behind_d cs = cs"
proof -
  assume "CHR ''d'' \<notin> set cs"
  then have "takeWhile (\<lambda>c. c \<noteq> CHR ''d'') (rev cs) = rev cs" by (auto simp: takeWhile_eq_all_conv)
  then show ?thesis by (simp only: behind_d_def rev_rev_ident)
qed

lemma wolopts_loop_result:
  "wolopts_loop k cs status data =
     (if set cs \<subseteq> set ''pumbagsd'' then status else BAD_VALUE,
      fold (\<lambda>c d. d OR wol_bit k c) (behind_d cs) (if CHR ''d'' \<in> set cs then 0 else data))"
proof (induction k cs status data rule: wolopts_loop.induct)
  case (2 k c cs status data)
  then show ?case by (cases "CHR ''d'' \<in> set cs") (simp_all add: behind_d_Cons behind_d_none)
qed (simp add: behind_d_def)

text \<open>
  the wake-on-LAN option string is accepted exactly if all its letters are known, and then the
  wake-up bits are those of the letters behind the last \<open>d\<close>, which clears the ones before it.
\<close>

theorem wolopts_meaning:
  "power_parse_wolopts k opts =
     (if set opts \<subseteq> set ''pumbagsd'' then NO_ERROR else BAD_VALUE,
      fold (\<lambda>c d. d OR wol_bit k c) (behind_d opts) 0)"
  by (simp add: power_parse_wolopts_def wolopts_loop_result)

lemma find_iface_result:
  "find_iface w is st = (st', Some i) \<Longrightarrow> st' = NO_ERROR \<and> i \<in> set is \<and> power_is_iface_present w i \<and> if_flags w i = Inr True"
  by (induction "is" arbitrary: st) (auto split: if_splits sum.splits)

lemma find_iface_none: "find_iface w is st = (st', None) \<Longrightarrow> st \<noteq> NO_ERROR \<Longrightarrow> st' \<noteq> NO_ERROR"
  by (induction "is" arbitrary: st) (auto split: if_splits sum.splits)

lemma read_sopass_length: "read_sopass w = (NO_ERROR, pw) \<Longrightarrow> length pw = 6"
  by (auto simp: read_sopass_def power_parse_sopass_def split: if_splits prod.splits option.splits)

text \<open>
  the driver is given wake-on-LAN settings only for one of the known interfaces that is
  present and up, with options that all parse, and with a password exactly if secure wake-up is
  asked for, six bytes long; otherwise an error says why and nothing is set.
\<close>

theorem wol_settings_checked:
  assumes "power_set_enet_wol k w = (status, r)"
  shows "(case r of
      None \<Rightarrow> status \<noteq> NO_ERROR
    | Some (i, data, sopass) \<Rightarrow> i \<in> set powerNetInterfaces \<and> power_is_iface_present w i \<and> if_flags w i = Inr True
        \<and> power_parse_wolopts k (wol_opts w) = (NO_ERROR, data)
        \<and> (if data AND WAKE_MAGICSECURE k \<noteq> 0 then \<exists>pw. sopass = Some pw \<and> length pw = 6 else sopass = None)
        \<and> (status = NO_ERROR \<longleftrightarrow> ioctl_ethtool w i data sopass = 0))"
proof -
  obtain st ifr where f: "(if \<not> socket_ok w then (PERMISSION_DENIED, None) else find_iface w powerNetInterfaces NAME_NOT_FOUND) = (st, ifr)"
    by fastforce
  obtain ps data where p: "power_parse_wolopts k (wol_opts w) = (ps, data)" by fastforce
  obtain rs pw where q: "read_sopass w = (rs, pw)" by fastforce
  show ?thesis
  proof (cases ifr)
    case None
    moreover from None f have "st \<noteq> NO_ERROR" using find_iface_none [of w powerNetInterfaces NAME_NOT_FOUND]
      by (auto split: if_splits)
    ultimately show ?thesis using assms f by (simp add: power_set_enet_wol_def)
  next
    case (Some i)
    then have i: "i \<in> set powerNetInterfaces" "power_is_iface_present w i" "if_flags w i = Inr True"
      using f find_iface_result by (auto split: if_splits)
    show ?thesis
    proof (cases "wol_opts w = [] \<or> ps \<noteq> NO_ERROR")
      case True
      then show ?thesis using assms Some
        by (cases "wol_opts w = []") (auto simp: power_set_enet_wol_def f p)
    next
      case False
      then show ?thesis using assms f Some p q i read_sopass_length [of w]
        by (cases "data AND WAKE_MAGICSECURE k = 0"; cases "rs = NO_ERROR")
          (auto simp: power_set_enet_wol_def Let_def)
    qed
  qed
qed

lemma wol_thread_first:
  "attempt (n + k) \<noteq> MINUS_EAGAIN \<Longrightarrow> (\<And>j. j < k \<Longrightarrow> attempt (n + j) = MINUS_EAGAIN)
   \<Longrightarrow> power_wol_monitor_thread attempt n = Some (n + k)"
proof (induction k arbitrary: n)
  case (Suc k)
  have "attempt n = MINUS_EAGAIN" using Suc.prems(2) [of 0] by simp
  moreover have "power_wol_monitor_thread attempt (Suc n) = Some (Suc n + k)"
    using Suc.prems(1) Suc.prems(2) [of "Suc j" for j] by (intro Suc.IH) simp_all
  ultimately show ?case by (subst power_wol_monitor_thread.simps) simp
qed (subst power_wol_monitor_thread.simps, simp)

text \<open>
  the wake-on-LAN thread retries while the interface is down and stops at the first attempt
  with any other outcome; it ends as soon as there is such an attempt.
\<close>

theorem wol_thread_stops:
  assumes "attempt k \<noteq> MINUS_EAGAIN" "\<forall>j < k. attempt j = MINUS_EAGAIN"
  shows "power_wol_monitor_thread attempt 0 = Some k"
  using wol_thread_first [of attempt 0 k] assms by simp

text \<open>
  when the event descriptor cannot be created, initialisation closes the driver's descriptor
  but keeps its number, and a later switch of the interactive mode uses the closed descriptor.
\<close>

theorem init_keeps_closed_fd:
  "let s' = power_init env 3 (-1) registered nexus timer s in
   calls s' = calls s @ [CloseFd 3] \<and> gPowerFd s' = 3
   \<and> IoctlSetInteractive False \<in> set (calls (power_set_interactive env wt pending armed False s'))"
  using interactive_ioctl [of "power_init env 3 (-1) registered nexus timer s" env wt pending armed]
  by (simp add: power_init_def emit_def Let_def)

section \<open>Witnesses\<close>

text \<open>A box with the default properties, on which every request succeeds and the driver resumes.\<close>

definition demo_env :: pm_env where
  "demo_env =
     \<lparr>property_get = (\<lambda>_ _. None), property_get_bool = (\<lambda>_ _ d. d), property_get_int32 = (\<lambda>_ _ d. d),
      sysfs_get = (\<lambda>_ _. (NO_ERROR, 0)), sysfs_set = (\<lambda>_ _ _. NO_ERROR), nexus_setPowerState = (\<lambda>_ _. NO_ERROR),
      pmlib_service = (\<lambda>_. False), pmlib_getState = (\<lambda>_. (NO_INIT, \<lparr>enet_en = True, moca_en = True, sata_en = True,
        tp1_en = True, tp2_en = True, tp3_en = True, cpufreq_scale_en = False, ddr_pm_en = False\<rparr>)),
      pmlib_setState = (\<lambda>_ _. NO_ERROR), ioctl_suspend_ack = (\<lambda>_. NO_ERROR),
      eventfd_read = (\<lambda>_. Inr DROID_PM_EVENT_RESUMED), pthread_create = (\<lambda>_ _. True)\<rparr>"

definition demo_power :: power where
  "demo_power =
     \<lparr>wakeLockAcquired = False, shutdownStarted = False, gDozeTimer = True, gNexusPower = True, gPowerFd = 3,
      gPowerEventFd = 4, gPowerEventMonitorThreadExit = False, gPowerEventMonitorThreadExited = True,
      init_S0_state = True, pmlib_S0_state = snd (pmlib_getState demo_env []), calls = []\<rparr>"

lemmas demo_power_simps =
  demo_env_def demo_power_def emit_def power_set_interactive_def power_finish_set_no_interactive_def
  power_finish_set_interactive_def power_kill_thread_def power_create_thread_def acquireWakeLock_def
  releaseWakeLock_def power_get_property_doze_state_def power_get_property_off_state_def power_get_off_state_def
  property_or_def power_get_state_from_string_def strcasecmp_eq_def tolower_def of_char_def char_of_def bit_0
  power_doze_monitor_thread_def power_standby_finish_thread_def power_event_monitor_thread_def monitor_start_def
  power_set_doze_state_def power_set_state_def power_set_state_s0_def power_set_state_s05_def power_set_state_s2_s3_def
  nexus_set_def power_set_pmlibservice_state_def power_set_poweroff_state_def

definition demo_sys :: pm_sys where
  "demo_sys = \<lparr>hal = demo_power, created = [], monitors = 0\<rparr>"

text \<open>Interactive mode off, then on again before the first thread has started.\<close>

definition demo_off :: pm_sys where
  "demo_off = sys_after demo_sys (power_set_interactive demo_env 10 None False False demo_power)"

definition demo_on :: pm_sys where
  "demo_on = sys_after demo_off (power_set_interactive demo_env 10 None False True (hal demo_off))"

lemma demo_off_state:
  "created demo_off = [DozeMonitorThread]" "monitors demo_off = 0" "gPowerEventMonitorThreadExited (hal demo_off)"
  "\<not> shutdownStarted (hal demo_off)"
  by (simp_all add: demo_off_def demo_sys_def sys_after_def demo_power_simps Let_def)

lemma demo_on_state: "created demo_on = [DozeMonitorThread, StandbyFinishThread]" "monitors demo_on = 0"
  by (simp_all add: demo_on_def demo_off_def demo_sys_def sys_after_def demo_power_simps Let_def)

lemma demo_to_off: "pm_step demo_env demo_sys demo_off"
  using step_interactive [of False demo_sys demo_env 10 None False]
  by (simp add: demo_off_def demo_sys_def demo_power_def sys_after_def)

lemma demo_to_on: "pm_step demo_env demo_off demo_on"
proof -
  have same: "(sys_after m s)\<lparr>monitors := monitors m\<rparr> = sys_after m s" for m s by (simp add: sys_after_def)
  show ?thesis
    using step_interactive [of True demo_off demo_env 10 None False] demo_off_state(4)
    by (simp only: demo_on_def demo_off_state(3) if_True same simp_thms)
qed

text \<open>
  the flag that \<open>power_kill_thread\<close> looks at is cleared only when the created thread starts to
  run: switching the interactive mode twice before that leaves two monitor loops running.
\<close>

theorem two_monitors: "\<exists>m. (pm_step demo_env)\<^sup>*\<^sup>* demo_sys m \<and> monitors m = 2"
proof -
  let ?a = "sys_after (demo_on\<lparr>created := remove1 DozeMonitorThread (created demo_on), monitors := monitors demo_on + 1\<rparr>)
       (power_doze_monitor_thread demo_env [] (hal demo_on))"
  let ?b = "sys_after (?a\<lparr>created := remove1 StandbyFinishThread (created ?a), monitors := monitors ?a + 1\<rparr>)
       (power_standby_finish_thread demo_env [] (hal ?a))"
  have "StandbyFinishThread \<in> set (created ?a)" by (simp add: sys_after_def demo_on_state)
  then have "pm_step demo_env ?a ?b" by (rule step_standby)
  moreover have "pm_step demo_env demo_on ?a" by (rule step_doze) (simp add: demo_on_state)
  ultimately have "(pm_step demo_env)\<^sup>*\<^sup>* demo_sys ?b"
    using demo_to_off demo_to_on by (meson converse_rtranclp_into_rtranclp r_into_rtranclp)
  moreover have "monitors ?b = 2" by (simp add: sys_after_def demo_on_state)
  ultimately show ?thesis by blast
qed


theorem doze_wake_lock_policy_witness: "wakeLockAcquired (snd (power_set_doze_state demo_env 10 demo_power))"
  using doze_wake_lock_policy [OF refl refl refl surjective_pairing, where timeout = 10 and env = demo_env and s = demo_power]
  by simp


theorem wol_settings_checked_witness:
  "let w = \<lparr>socket_ok = True, class_net = Some [''lo'', ''eth0''], if_flags = (\<lambda>_. Inr True), wol_opts = ''g'',
        sopass_readable = False, sopass_load = (NO_ERROR, []), sscanf_sopass = (\<lambda>_. None), ioctl_ethtool = (\<lambda>_ _ _. 0)\<rparr>
   in power_set_enet_wol linux_wol_abi w = (NO_ERROR, Some (''eth0'', 32, None))
      \<and> power_parse_wolopts linux_wol_abi ''g'' = (NO_ERROR, 32)"
proof -
  let ?w = "\<lparr>socket_ok = True, class_net = Some [''lo'', ''eth0''], if_flags = (\<lambda>_. Inr True), wol_opts = ''g'',
        sopass_readable = False, sopass_load = (NO_ERROR, []), sscanf_sopass = (\<lambda>_. None), ioctl_ethtool = (\<lambda>_ _ _. 0)\<rparr>"
  have "power_set_enet_wol linux_wol_abi ?w = (NO_ERROR, Some (''eth0'', 32, None))"
    by (simp add: power_set_enet_wol_def powerNetInterfaces_def power_is_iface_present_def power_parse_wolopts_def
        linux_wol_abi_def)
  with wol_settings_checked [OF this] show ?thesis by simp
qed

theorem wol_thread_stops_witness:
  "power_wol_monitor_thread (\<lambda>n. if n < 3 then MINUS_EAGAIN else NO_ERROR) 0 = Some 3"
  by (rule wol_thread_stops) simp_all

end
