(* ===== verification/Power_Gpio.thy ===== *)
theory Power_Gpio
  imports Power_Hal
begin

text \<open>
  \<open>hals/power/nexus_power.cpp\<close>: the GPIO part of the power HAL. Pins are configured from the file
  \<open>aon_gpio.cfg\<close>, outputs are driven according to the power state, input interrupts are cleared
  before suspending. The pin counts of the chip, the Nexus GPIO calls and the IPC client are
  parameters; the configuration is the list of its entries.
\<close>

section \<open>Data\<close>

datatype NEXUS_GpioMode = NEXUS_GpioMode_eInput | NEXUS_GpioMode_eOutputPushPull | NEXUS_GpioMode_eOutputOpenDrain | NEXUS_GpioMode_eMax
datatype NEXUS_GpioInterrupt =
    NEXUS_GpioInterrupt_eDisabled | NEXUS_GpioInterrupt_eRisingEdge | NEXUS_GpioInterrupt_eFallingEdge
  | NEXUS_GpioInterrupt_eEdge | NEXUS_GpioInterrupt_eLow | NEXUS_GpioInterrupt_eHigh | NEXUS_GpioInterrupt_eMax
datatype NEXUS_GpioValue = NEXUS_GpioValue_eLow | NEXUS_GpioValue_eHigh | NEXUS_GpioValue_eMax
datatype NEXUS_GpioType = NEXUS_GpioType_eStandard | NEXUS_GpioType_eAonStandard | NEXUS_GpioType_eAonSpecial

definition MAX_INSTANCES :: nat where "MAX_INSTANCES = 8"
definition MAX_POWER_STATES :: nat where "MAX_POWER_STATES = 7"
definition MIN_INP_PARAMETERS :: nat where "MIN_INP_PARAMETERS = 2"
definition MAX_INP_PARAMETERS :: nat where "MAX_INP_PARAMETERS = 3"
definition NUM_OUT_PARAMETERS :: nat where "NUM_OUT_PARAMETERS = MAX_POWER_STATES + 1"
definition MIN_PARAMETERS :: nat where "MIN_PARAMETERS = MIN_INP_PARAMETERS"
definition MAX_PARAMETERS :: nat where "MAX_PARAMETERS = NUM_OUT_PARAMETERS"

lemmas gpio_limits = MAX_INSTANCES_def MAX_POWER_STATES_def MIN_INP_PARAMETERS_def MAX_INP_PARAMETERS_def
  NUM_OUT_PARAMETERS_def MIN_PARAMETERS_def MAX_PARAMETERS_def

text \<open>An input has no output values, an output no key.\<close>

record NexusGpio =
  mPinName :: string
  mInstance :: nat
  mPin :: nat
  mPinType :: NEXUS_GpioType
  mPinMode :: NEXUS_GpioMode
  mPinInterruptMode :: NEXUS_GpioInterrupt
  mPinOutputValues :: "NEXUS_GpioValue list"
  mKeyEvent :: u32

section \<open>Parsing\<close>

definition toLower :: "string \<Rightarrow> string" where "toLower s = map tolower s"

text \<open>\<open>KEY_WAKEUP\<close> is the key code of the Linux input headers.\<close>

definition parseGpioKey :: "u32 \<Rightarrow> string \<Rightarrow> status_t \<times> u32" where
  "parseGpioKey KEY_WAKEUP keyString =
     (let string = toLower keyString in
      if string = ''none'' then (NO_ERROR, 0)
      else if string = ''wakeup'' then (NO_ERROR, KEY_WAKEUP)
      else (BAD_VALUE, 0))"

definition parseGpioMode :: "string \<Rightarrow> status_t \<times> NEXUS_GpioMode" where
  "parseGpioMode pinModeString =
     (let string = toLower pinModeString in
      if string = ''input'' then (NO_ERROR, NEXUS_GpioMode_eInput)
      else if string = ''pushpull'' then (NO_ERROR, NEXUS_GpioMode_eOutputPushPull)
      else if string = ''opendrain'' then (NO_ERROR, NEXUS_GpioMode_eOutputOpenDrain)
      else (BAD_VALUE, NEXUS_GpioMode_eMax))"

definition parseGpioInterruptMode :: "string \<Rightarrow> status_t \<times> NEXUS_GpioInterrupt" where
  "parseGpioInterruptMode interruptModeString =
     (let string = toLower interruptModeString in
      if string = ''disabled'' then (NO_ERROR, NEXUS_GpioInterrupt_eDisabled)
      else if string = ''risingedge'' then (NO_ERROR, NEXUS_GpioInterrupt_eRisingEdge)
      else if string = ''fallingedge'' then (NO_ERROR, NEXUS_GpioInterrupt_eFallingEdge)
      else if string = ''edge'' then (NO_ERROR, NEXUS_GpioInterrupt_eEdge)
      else if string = ''low'' then (NO_ERROR, NEXUS_GpioInterrupt_eLow)
      else if string = ''high'' then (NO_ERROR, NEXUS_GpioInterrupt_eHigh)
      else (BAD_VALUE, NEXUS_GpioInterrupt_eMax))"

definition parseGpioOutputValue :: "string \<Rightarrow> status_t \<times> NEXUS_GpioValue" where
  "parseGpioOutputValue outputValueString =
     (let string = toLower outputValueString in
      if string = ''high'' then (NO_ERROR, NEXUS_GpioValue_eHigh)
      else if string = ''low'' then (NO_ERROR, NEXUS_GpioValue_eLow)
      else (BAD_VALUE, NEXUS_GpioValue_eMax))"

lemma dropWhile_shorter: "dropWhile P xs = y # ys \<Longrightarrow> length ys < length xs"
  by (metis Suc_le_eq length_Cons length_dropWhile_le)

text \<open>
  The loop of \<open>parseGpioParameters\<close> over what is left before the closing bracket. Its condition is
  a comma expression whose first half is ignored, so nothing bounds the index: storing a ninth
  parameter writes behind the array (\<open>None\<close>).
\<close>

function (sequential) gpio_params :: "nat \<Rightarrow> string \<Rightarrow> string list option" where
  "gpio_params numPars [] = Some []"
| "gpio_params numPars rest =
     (if numPars \<ge> MAX_PARAMETERS then None
      else case dropWhile (\<lambda>c. c \<noteq> CHR '','') rest of
          [] \<Rightarrow> Some [rest]
        | _ # rest' \<Rightarrow> map_option (Cons (takeWhile (\<lambda>c. c \<noteq> CHR '','') rest)) (gpio_params (Suc numPars) rest'))"
  by pat_completeness auto

termination
proof (relation "measure (length \<circ> snd)")
  fix numPars and v :: char and va x22 and x21 :: char
  assume "dropWhile (\<lambda>c. c \<noteq> CHR '','') (v # va) = x21 # x22"
  from dropWhile_shorter [OF this] show "((Suc numPars, x22), numPars, v # va) \<in> measure (length \<circ> snd)" by simp
qed simp

declare gpio_params.simps(2) [simp del]

definition parseGpioParameters :: "string \<Rightarrow> (status_t \<times> string list) option" where
  "parseGpioParameters inString =
     (if length inString < 5 then Some (BAD_VALUE, [])
      else if hd inString \<noteq> CHR ''['' then Some (BAD_VALUE, [])
      else if dropWhile (\<lambda>c. c \<noteq> CHR '']'') inString \<noteq> [CHR '']''] then Some (BAD_VALUE, [])
      else case gpio_params 0 (butlast (tl inString)) of
          None \<Rightarrow> None
        | Some parameters \<Rightarrow>
            if length parameters \<le> 1 then Some (BAD_VALUE, []) else Some (NO_ERROR, parameters))"

section \<open>Configuring a pin\<close>

text \<open>The loop over the output values stops at the first that does not parse.\<close>

fun output_values :: "string list \<Rightarrow> status_t \<times> NEXUS_GpioValue list" where
  "output_values [] = (NO_ERROR, [])"
| "output_values (p # ps) =
     (let (status, v) = parseGpioOutputValue p in
      if status \<noteq> NO_ERROR then (status, [v])
      else let (status, vs) = output_values ps in (status, v # vs))"

text \<open>
  The constructor takes the next instance number and counts the pin; when \<open>NEXUS_Gpio_Open\<close>
  (\<open>opened pin type\<close>) fails the object is released and its destructor takes the count back.
\<close>

definition gpio_instantiate ::
  "(nat \<Rightarrow> NEXUS_GpioType \<Rightarrow> bool) \<Rightarrow> string \<Rightarrow> nat \<Rightarrow> NEXUS_GpioType \<Rightarrow> nat
   \<Rightarrow> NEXUS_GpioMode \<Rightarrow> NEXUS_GpioInterrupt \<Rightarrow> NEXUS_GpioValue list \<Rightarrow> u32 \<Rightarrow> NexusGpio option \<times> nat" where
  "gpio_instantiate opened pinName pin pinType instances pinMode pinInterruptMode outputValues key =
     (let gpio = \<lparr>mPinName = pinName, mInstance = instances, mPin = pin, mPinType = pinType, mPinMode = pinMode,
                  mPinInterruptMode = pinInterruptMode, mPinOutputValues = outputValues, mKeyEvent = key\<rparr>;
          instances = instances + 1 in
      if opened pin pinType then (Some gpio, instances) else (None, instances - 1))"

text \<open>
  \<open>uninit\<close> is the value of the local variable \<open>key\<close> when it is never assigned. The results are the
  new pin if any, and the number of instances; \<open>None\<close>: the parameter array is overrun.
\<close>

definition gpio_initialise ::
  "u32 \<Rightarrow> u32 \<Rightarrow> (nat \<Rightarrow> NEXUS_GpioType \<Rightarrow> bool) \<Rightarrow> string \<Rightarrow> string \<Rightarrow> nat \<Rightarrow> NEXUS_GpioType \<Rightarrow> nat
   \<Rightarrow> (NexusGpio option \<times> nat) option" where
  "gpio_initialise KEY_WAKEUP uninit opened gpioName gpioValue pin pinType instances =
     (let instantiate = gpio_instantiate opened gpioName pin pinType instances in
      case parseGpioParameters gpioValue of
        None \<Rightarrow> None
      | Some (status, params) \<Rightarrow>
          if status \<noteq> NO_ERROR then Some (None, instances)
          else if length params < MIN_PARAMETERS \<or> length params > MAX_PARAMETERS then Some (None, instances)
          else
            let (status, gpioMode) = parseGpioMode (params ! 0) in
            if status \<noteq> NO_ERROR then Some (None, instances)
            else if gpioMode = NEXUS_GpioMode_eInput then
              if length params < MIN_INP_PARAMETERS \<or> length params > MAX_INP_PARAMETERS then Some (None, instances)
              else
                let (status, gpioInterruptMode) = parseGpioInterruptMode (params ! 1);
                    (status, key) = (if status \<noteq> NO_ERROR then (status, uninit)
                                     else if length params > MIN_INP_PARAMETERS then parseGpioKey KEY_WAKEUP (params ! 2)
                                     else (status, uninit))
                in if status = NO_ERROR then Some (instantiate gpioMode gpioInterruptMode [] key)
                   else Some (None, instances)
            else if length params \<noteq> NUM_OUT_PARAMETERS then Some (None, instances)
            else
              let (status, gpioOutputValues) = output_values (tl params)
              in if status \<noteq> NO_ERROR then Some (None, instances)
                 else Some (instantiate gpioMode NEXUS_GpioInterrupt_eDisabled gpioOutputValues 0))"

section \<open>Configuring all pins\<close>

fun dec :: "nat \<Rightarrow> string" where
  "dec n = (if n < 10 then [char_of (48 + n)] else dec (n div 10) @ [char_of (48 + n mod 10)])"

declare dec.simps [simp del]

text \<open>\<open>printf\<close> with a zero-padded minimum width.\<close>

definition pad0 :: "nat \<Rightarrow> nat \<Rightarrow> string" where
  "pad0 w n = replicate (w - length (dec n)) (CHR ''0'') @ dec n"

record gpio_state =
  gs_status :: status_t
  gs_cnt :: nat
  mInstances :: nat
  gpios :: "nat \<Rightarrow> NexusGpio option"

text \<open>The body of the three loops: \<open>names\<close> are the names to look up for a pin, in order.\<close>

definition gpio_pin ::
  "(string \<Rightarrow> string \<Rightarrow> nat \<Rightarrow> NEXUS_GpioType \<Rightarrow> nat \<Rightarrow> (NexusGpio option \<times> nat) option) \<Rightarrow> (string \<times> string) list
   \<Rightarrow> NEXUS_GpioType \<Rightarrow> string list \<Rightarrow> nat \<Rightarrow> gpio_state \<Rightarrow> gpio_state option" where
  "gpio_pin init config pinType gpioNames pin st =
     (case find (\<lambda>n. map_of config n \<noteq> None) gpioNames of
        None \<Rightarrow> Some st
      | Some gpioName \<Rightarrow>
          (case init gpioName (the (map_of config gpioName)) pin pinType (mInstances st) of
             None \<Rightarrow> None
           | Some (gpio, instances) \<Rightarrow>
               let st = st\<lparr>gs_cnt := gs_cnt st + 1, mInstances := instances\<rparr> in
               Some (case gpio of
                  Some g \<Rightarrow> st\<lparr>gpios := (gpios st)(mInstance g := Some g)\<rparr>
                | None \<Rightarrow> st\<lparr>gs_status := NO_INIT\<rparr>)))"

fun gpio_loop ::
  "(string \<Rightarrow> string \<Rightarrow> nat \<Rightarrow> NEXUS_GpioType \<Rightarrow> nat \<Rightarrow> (NexusGpio option \<times> nat) option) \<Rightarrow> (string \<times> string) list
   \<Rightarrow> NEXUS_GpioType \<Rightarrow> (nat \<Rightarrow> string list) \<Rightarrow> nat list \<Rightarrow> gpio_state \<Rightarrow> gpio_state option" where
  "gpio_loop init config pinType pinNames [] st = Some st"
| "gpio_loop init config pinType pinNames (pin # pins) st =
     (if gs_status st = NO_ERROR \<and> gs_cnt st < length config \<and> mInstances st < MAX_INSTANCES
      then Option.bind (gpio_pin init config pinType (pinNames pin) pin st) (gpio_loop init config pinType pinNames pins)
      else Some st)"

record gpio_chip =
  NUM_GPIO_PINS :: nat
  NUM_AON_GPIO_PINS :: nat
  NUM_AON_SGPIO_PINS :: nat

text \<open>\<open>config\<close> is \<open>None\<close> with an error when the file cannot be found or loaded.\<close>

definition initialiseGpios ::
  "gpio_chip \<Rightarrow> (string \<Rightarrow> string \<Rightarrow> nat \<Rightarrow> NEXUS_GpioType \<Rightarrow> nat \<Rightarrow> (NexusGpio option \<times> nat) option)
   \<Rightarrow> status_t + (string \<times> string) list \<Rightarrow> gpio_state \<Rightarrow> gpio_state option" where
  "initialiseGpios chip init config st =
     (case config of
        Inl err \<Rightarrow> Some (st\<lparr>gs_status := err\<rparr>)
      | Inr config \<Rightarrow>
          map_option (\<lambda>st. if gs_cnt st \<noteq> length config then st\<lparr>gs_status := NO_INIT\<rparr> else st)
            (Option.bind (gpio_loop init config NEXUS_GpioType_eStandard (\<lambda>pin. [''GPIO'' @ pad0 2 pin, ''GPIO'' @ pad0 3 pin])
                [0..<NUM_GPIO_PINS chip] (st\<lparr>gs_status := NO_ERROR, gs_cnt := 0\<rparr>))
              (\<lambda>st. Option.bind (gpio_loop init config NEXUS_GpioType_eAonStandard (\<lambda>pin. [''AON_GPIO'' @ pad0 2 pin])
                [0..<NUM_AON_GPIO_PINS chip] st)
              (gpio_loop init config NEXUS_GpioType_eAonSpecial (\<lambda>pin. [''AON_SGPIO'' @ pad0 2 pin])
                [0..<NUM_AON_SGPIO_PINS chip]))))"

section \<open>Power states\<close>

datatype gpio_call =
    GpioSet string NEXUS_GpioValue | GpioClear string | IpcSetPowerState b_powerState | IpcSetCecPowerState b_powerState

fun state_index :: "b_powerState \<Rightarrow> nat" where
  "state_index ePowerState_S0 = 0" | "state_index ePowerState_S05 = 1" | "state_index ePowerState_S1 = 2"
| "state_index ePowerState_S2 = 3" | "state_index ePowerState_S3 = 4" | "state_index ePowerState_S4 = 5"
| "state_index ePowerState_S5 = 6" | "state_index ePowerState_Max = 7"

definition slots :: "(nat \<Rightarrow> NexusGpio option) \<Rightarrow> NexusGpio list" where
  "slots gs = List.map_filter gs [0..<MAX_INSTANCES]"

definition uninitialiseGpios :: "gpio_state \<Rightarrow> gpio_state" where
  "uninitialiseGpios st = st\<lparr>mInstances := mInstances st - length (slots (gpios st)),
     gpios := (\<lambda>i. if i < MAX_INSTANCES then None else gpios st i)\<rparr>"

text \<open>The array has a value for S0 to S5; \<open>None\<close>: the index is past its end.\<close>

definition getPinOutputValue :: "NexusGpio \<Rightarrow> b_powerState \<Rightarrow> NEXUS_GpioValue option" where
  "getPinOutputValue g state =
     (if state_index state < length (mPinOutputValues g) then Some (mPinOutputValues g ! state_index state) else None)"

text \<open>\<open>ok\<close> tells which Nexus and IPC calls succeed; the result has the calls in order.\<close>

definition all_ok :: "(gpio_call \<Rightarrow> bool) \<Rightarrow> gpio_call list \<Rightarrow> status_t" where
  "all_ok ok cs = (if list_all ok cs then NO_ERROR else INVALID_OPERATION)"

definition setGpios ::
  "(gpio_call \<Rightarrow> bool) \<Rightarrow> (nat \<Rightarrow> NexusGpio option) \<Rightarrow> b_powerState \<Rightarrow> (status_t \<times> gpio_call list) option" where
  "setGpios ok gs state =
     map_option (\<lambda>cs. (all_ok ok cs, cs))
       (those (map (\<lambda>g. map_option (GpioSet (mPinName g)) (getPinOutputValue g state))
                 (filter (\<lambda>g. mPinMode g \<noteq> NEXUS_GpioMode_eInput) (slots gs))))"

definition clearGpios :: "(gpio_call \<Rightarrow> bool) \<Rightarrow> (nat \<Rightarrow> NexusGpio option) \<Rightarrow> status_t \<times> gpio_call list" where
  "clearGpios ok gs =
     (let cs = map (\<lambda>g. GpioClear (mPinName g)) (filter (\<lambda>g. mPinMode g = NEXUS_GpioMode_eInput) (slots gs))
      in (all_ok ok cs, cs))"

text \<open>
  The CEC power state is sent when the device type is invalid, CEC is enabled and the property of
  the direction is set to \<open>"1"\<close>; that it fails is only logged.
\<close>

record nexus_power_cfg =
  cec_device_invalid :: bool
  isCecEnabled :: bool
  prop_tx_standby :: string
  prop_tx_view_on :: string

definition getCecTransmitStandby :: "nexus_power_cfg \<Rightarrow> bool" where
  "getCecTransmitStandby np = (prop_tx_standby np = ''1'')"

definition getCecTransmitViewOn :: "nexus_power_cfg \<Rightarrow> bool" where
  "getCecTransmitViewOn np = (prop_tx_view_on np = ''1'')"

definition nexus_power_setPowerState ::
  "(gpio_call \<Rightarrow> bool) \<Rightarrow> nexus_power_cfg \<Rightarrow> (nat \<Rightarrow> NexusGpio option) \<Rightarrow> b_powerState \<Rightarrow> (status_t \<times> gpio_call list) option" where
  "nexus_power_setPowerState ok np gs state =
     (if state = ePowerState_S0 then
        map_option (\<lambda>(ret, cs).
          if ret \<noteq> NO_ERROR then (ret, cs)
          else if \<not> ok (IpcSetPowerState state) then (INVALID_OPERATION, cs @ [IpcSetPowerState state])
          else (ret, cs @ [IpcSetPowerState state] @
                  (if cec_device_invalid np \<and> isCecEnabled np \<and> getCecTransmitViewOn np then [IpcSetCecPowerState state] else [])))
          (setGpios ok gs state)
      else
        let pre = (if cec_device_invalid np \<and> isCecEnabled np \<and> getCecTransmitStandby np then [IpcSetCecPowerState state] else [])
                  @ [IpcSetPowerState state] in
        if \<not> ok (IpcSetPowerState state) then Some (INVALID_OPERATION, pre)
        else
          map_option (\<lambda>(ret, cs).
            if ret \<noteq> NO_ERROR then (ret, pre @ cs)
            else let (ret, cs') = clearGpios ok gs in (ret, pre @ cs @ cs'))
            (setGpios ok gs state))"

text \<open>
  The interrupt callback: the interrupt is cleared and the configured key is released, pressed and
  released. \<open>status_ok\<close> is the result of \<open>NEXUS_Gpio_GetStatus\<close>, \<open>uInput\<close> whether there is an input device.
\<close>

datatype key_event = ClearInterrupt | EmitKey u32 bool | EmitSyn

definition gpioCallback :: "bool \<Rightarrow> bool \<Rightarrow> NexusGpio option \<Rightarrow> key_event list" where
  "gpioCallback status_ok uInput context =
     (case context of
        None \<Rightarrow> []
      | Some g \<Rightarrow>
          if status_ok then
            ClearInterrupt #
            (if uInput \<and> mKeyEvent g \<noteq> 0
             then [EmitKey (mKeyEvent g) False, EmitSyn, EmitKey (mKeyEvent g) True, EmitSyn, EmitKey (mKeyEvent g) False, EmitSyn]
             else [])
          else [])"

text \<open>
  \<open>setVideoOutputsState\<close> reads the display settings, changes them and writes them back until the write
  is not refused for a stale sequence number. \<open>enabled\<close> and \<open>rcs\<close> are what the successive reads and
  writes return; \<open>None\<close>: the loop has not ended with the answers given.
\<close>

datatype nx_rc = NEXUS_SUCCESS_rc | NXCLIENT_BAD_SEQUENCE_NUMBER_rc | NX_other_error

fun setVideoOutputsState :: "b_powerState \<Rightarrow> (bool \<times> nx_rc) list \<Rightarrow> nx_rc \<Rightarrow> (status_t \<times> nat) option" where
  "setVideoOutputsState state [] rc = None"
| "setVideoOutputsState state ((enabled, answer) # rest) rc =
     (let enableHdmiOutput = (state = ePowerState_S0);
          written = (enabled \<noteq> enableHdmiOutput);
          rc = (if written then answer else rc) in
      if rc = NXCLIENT_BAD_SEQUENCE_NUMBER_rc
      then map_option (\<lambda>(st, n). (st, n + (if written then 1 else 0))) (setVideoOutputsState state rest rc)
      else Some (if rc = NEXUS_SUCCESS_rc then NO_ERROR else UNKNOWN_ERROR, if written then 1 else 0))"

section \<open>The parameter list\<close>

definition plain :: "string \<Rightarrow> bool" where
  "plain p = (p \<noteq> [] \<and> list_all (\<lambda>c. c \<noteq> CHR '','' \<and> c \<noteq> CHR '']'') p)"

fun commas :: "string list \<Rightarrow> string" where
  "commas [] = []"
| "commas [p] = p"
| "commas (p # ps) = p @ CHR '','' # commas ps"

definition bracketed :: "string list \<Rightarrow> string" where
  "bracketed ps = CHR ''['' # commas ps @ [CHR '']'']"

lemma plain_take:
  assumes "plain p"
  shows "takeWhile (\<lambda>c. c \<noteq> CHR '','') (p @ CHR '','' # r) = p" "dropWhile (\<lambda>c. c \<noteq> CHR '','') (p @ CHR '','' # r) = CHR '','' # r"
    "dropWhile (\<lambda>c. c \<noteq> CHR '','') p = []"
  using assms by (auto simp: plain_def list_all_iff dropWhile_append takeWhile_append)

lemma gpio_params_plain:
  assumes "plain p"
  shows "gpio_params k p = (if k \<ge> MAX_PARAMETERS then None else Some [p])"
proof -
  obtain c cs where p: "p = c # cs" using assms by (cases p) (auto simp: plain_def)
  show ?thesis using plain_take(3) [OF assms] unfolding p gpio_params.simps by (simp only: list.case)
qed

lemma gpio_params_cons:
  assumes "plain p"
  shows "gpio_params k (p @ CHR '','' # r) =
    (if k \<ge> MAX_PARAMETERS then None else map_option (Cons p) (gpio_params (Suc k) r))"
proof -
  obtain c cs where p: "p = c # cs" using assms by (cases p) (auto simp: plain_def)
  have "gpio_params k (c # (cs @ CHR '','' # r)) =
    (if k \<ge> MAX_PARAMETERS then None else map_option (Cons p) (gpio_params (Suc k) r))"
    unfolding gpio_params.simps using plain_take(1,2) [OF assms, of r] unfolding p by (simp only: append_Cons list.case)
  then show ?thesis by (simp add: p)
qed

lemma commas_cons: "ps \<noteq> [] \<Longrightarrow> commas (p # ps) = p @ CHR '','' # commas ps"
  by (cases ps) auto

lemma gpio_params_commas:
  "list_all plain ps \<Longrightarrow> ps \<noteq> [] \<Longrightarrow>
   gpio_params k (commas ps) = (if k + length ps \<le> MAX_PARAMETERS then Some ps else None)"
proof (induction ps arbitrary: k)
  case (Cons p ps)
  show ?case
  proof (cases "ps = []")
    case True
    with Cons.prems show ?thesis by (simp add: gpio_params_plain)
  next
    case False
    with Cons show ?thesis by (simp add: commas_cons gpio_params_cons)
  qed
qed simp

lemma commas_no_bracket: "list_all plain ps \<Longrightarrow> CHR '']'' \<notin> set (commas ps)"
  by (induction ps rule: commas.induct) (auto simp: plain_def list_all_iff)

lemma bracketed_end: "list_all plain ps \<Longrightarrow> dropWhile (\<lambda>c. c \<noteq> CHR '']'') (bracketed ps) = [CHR '']'']"
  using commas_no_bracket [of ps] by (auto simp: bracketed_def dropWhile_append)

lemma commas_length: "list_all plain ps \<Longrightarrow> length ps \<ge> 2 \<Longrightarrow> length (commas ps) \<ge> 3"
proof (cases ps rule: commas.cases)
  case (3 p q qs)
  moreover have "commas (q # qs) \<noteq> []" if "plain q"
    using that by (cases qs) (auto simp: plain_def)
  moreover assume "list_all plain ps"
  ultimately have "length p \<ge> 1 \<and> length (commas (q # qs)) \<ge> 1"
    by (simp add: plain_def Suc_le_eq)
  with 3 show ?thesis by simp
qed auto


text \<open>
  Parsing a bracketed list of two to eight non-empty parameters returns exactly those
  parameters; a list of more than eight writes behind the array, because the loop's bound is the
  ignored half of a comma expression.
\<close>

theorem gpio_parameter_list:
  assumes "list_all plain ps" "length ps \<ge> 2"
  shows "parseGpioParameters (bracketed ps) = (if length ps \<le> MAX_PARAMETERS then Some (NO_ERROR, ps) else None)"
proof -
  have "length (bracketed ps) \<ge> 5" "hd (bracketed ps) = CHR ''[''" "butlast (tl (bracketed ps)) = commas ps"
    using commas_length [OF assms] by (simp_all add: bracketed_def)
  moreover have "gpio_params 0 (commas ps) = (if length ps \<le> MAX_PARAMETERS then Some ps else None)"
    using gpio_params_commas [of ps 0] assms by (cases ps) auto
  ultimately show ?thesis using bracketed_end [OF assms(1)] assms(2) by (simp add: parseGpioParameters_def)
qed

theorem gpio_parameter_list_witness:
  "parseGpioParameters ''[Input,Edge,Wakeup]'' = Some (NO_ERROR, [''Input'', ''Edge'', ''Wakeup''])
   \<and> parseGpioParameters ''[a,b,c,d,e,f,g,h,i]'' = None"
  using gpio_parameter_list [of "[''Input'', ''Edge'', ''Wakeup'']"]
    gpio_parameter_list [of "[''a'', ''b'', ''c'', ''d'', ''e'', ''f'', ''g'', ''h'', ''i'']"]
  by (simp add: bracketed_def plain_def gpio_limits)

section \<open>The table of pins\<close>

text \<open>A pin is well formed when an output has a level for every power state.\<close>

definition wf_pin :: "NexusGpio \<Rightarrow> bool" where
  "wf_pin g = (if mPinMode g = NEXUS_GpioMode_eInput then mPinOutputValues g = []
     else length (mPinOutputValues g) = MAX_POWER_STATES \<and> NEXUS_GpioValue_eMax \<notin> set (mPinOutputValues g)
       \<and> mPinInterruptMode g = NEXUS_GpioInterrupt_eDisabled)"

definition wf_slots :: "(NexusGpio \<Rightarrow> bool) \<Rightarrow> nat \<Rightarrow> (nat \<Rightarrow> NexusGpio option) \<Rightarrow> bool" where
  "wf_slots Q n gs = (n \<le> MAX_INSTANCES \<and>
     (\<forall>i. case gs i of None \<Rightarrow> i \<ge> n | Some g \<Rightarrow> i < n \<and> mInstance g = i \<and> Q g))"

lemma wf_slots_new:
  assumes "wf_slots Q n gs" "n < MAX_INSTANCES" "mInstance g = n" "Q g"
  shows "wf_slots Q (Suc n) (gs(n \<mapsto> g))"
proof -
  have "case (gs(n \<mapsto> g)) i of None \<Rightarrow> i \<ge> Suc n | Some g \<Rightarrow> i < Suc n \<and> mInstance g = i \<and> Q g" for i
    using assms by (cases "i = n"; cases "gs i") (auto simp: wf_slots_def Suc_le_eq le_less dest!: spec [of _ i])
  with assms(2) show ?thesis by (simp add: wf_slots_def)
qed

definition configured ::
  "(string \<Rightarrow> string \<Rightarrow> nat \<Rightarrow> NEXUS_GpioType \<Rightarrow> nat \<Rightarrow> (NexusGpio option \<times> nat) option) \<Rightarrow> (string \<times> string) list \<Rightarrow> NexusGpio \<Rightarrow> bool" where
  "configured init config g = (\<exists>v. map_of config (mPinName g) = Some v \<and>
     init (mPinName g) v (mPin g) (mPinType g) (mInstance g) = Some (Some g, Suc (mInstance g)))"

definition progress ::
  "(string \<Rightarrow> string \<Rightarrow> nat \<Rightarrow> NEXUS_GpioType \<Rightarrow> nat \<Rightarrow> (NexusGpio option \<times> nat) option) \<Rightarrow> (string \<times> string) list \<Rightarrow> gpio_state \<Rightarrow> gpio_state \<Rightarrow> bool" where
  "progress init config st st' = (wf_slots (configured init config) (mInstances st') (gpios st') \<and>
     (gs_status st' = NO_ERROR \<longrightarrow> mInstances st' + gs_cnt st = mInstances st + gs_cnt st'))"

lemma gpio_loop_error: "gpio_loop init config ty names pins st = Some st' \<Longrightarrow> gs_status st' = NO_ERROR \<Longrightarrow> gs_status st = NO_ERROR"
  by (cases pins) (auto split: if_splits)

text \<open>
  What \<open>initialiseGpios\<close> relies on when it configures a pin: a new pin takes the next instance
  number, a failed one leaves the count.
\<close>

locale pin_initialiser =
  fixes init :: "string \<Rightarrow> string \<Rightarrow> nat \<Rightarrow> NEXUS_GpioType \<Rightarrow> nat \<Rightarrow> (NexusGpio option \<times> nat) option"
  assumes created: "init name value pin ty n = Some (Some g, n') \<Longrightarrow>
      n' = Suc n \<and> mInstance g = n \<and> mPin g = pin \<and> mPinType g = ty \<and> mPinName g = name \<and> wf_pin g"
    and failed: "init name value pin ty n = Some (None, n') \<Longrightarrow> n' = n"
begin

lemma gpio_pin_progress:
  assumes wf: "wf_slots (configured init config) (mInstances st) (gpios st)" "mInstances st < MAX_INSTANCES"
    and run: "gpio_pin init config ty names pin st = Some st'"
  shows "progress init config st st'"
proof (cases "find (\<lambda>n. map_of config n \<noteq> None) names")
  case None
  with run wf show ?thesis by (simp add: gpio_pin_def progress_def)
next
  case (Some name)
  then obtain v where v: "map_of config name = Some v" by (auto simp: find_Some_iff)
  with Some run obtain gpio n' where i: "init name v pin ty (mInstances st) = Some (gpio, n')"
    and st': "st' = (let st = st\<lparr>gs_cnt := gs_cnt st + 1, mInstances := n'\<rparr> in
      (case gpio of Some g \<Rightarrow> st\<lparr>gpios := (gpios st)(mInstance g := Some g)\<rparr> | None \<Rightarrow> st\<lparr>gs_status := NO_INIT\<rparr>))"
    by (auto simp: gpio_pin_def Let_def split: option.splits)
  show ?thesis
  proof (cases gpio)
    case None
    with failed i have "n' = mInstances st" by simp
    with None st' wf show ?thesis by (simp add: progress_def)
  next
    case (Some g)
    with created i have n: "n' = Suc (mInstances st)" "mInstance g = mInstances st"
      and g: "mPin g = pin \<and> mPinType g = ty \<and> mPinName g = name" by blast+
    from v i Some n g have "configured init config g" by (simp add: configured_def)
    with wf n have "wf_slots (configured init config) n' ((gpios st)(mInstances st \<mapsto> g))" by (simp add: wf_slots_new)
    with Some n st' show ?thesis by (simp add: progress_def)
  qed
qed

lemma gpio_loop_progress:
  "wf_slots (configured init config) (mInstances st) (gpios st) \<Longrightarrow> gpio_loop init config ty names pins st = Some st' \<Longrightarrow>
   progress init config st st'"
proof (induction pins arbitrary: st)
  case (Cons pin pins)
  show ?case
  proof (cases "gs_status st = NO_ERROR \<and> gs_cnt st < length config \<and> mInstances st < MAX_INSTANCES")
    case True
    with Cons.prems obtain st1 where 1: "gpio_pin init config ty (names pin) pin st = Some st1"
      and 2: "gpio_loop init config ty names pins st1 = Some st'" by (auto simp: bind_eq_Some_conv)
    from gpio_pin_progress [OF Cons.prems(1) _ 1] True have p: "progress init config st st1" by simp
    then have "progress init config st1 st'" by (intro Cons.IH [OF _ 2]) (simp add: progress_def)
    moreover have "gs_status st1 = NO_ERROR" if "gs_status st' = NO_ERROR"
      using 2 that by (rule gpio_loop_error)
    ultimately show ?thesis using p by (auto simp: progress_def)
  qed (use Cons.prems in \<open>auto simp: progress_def split: if_splits\<close>)
qed (simp add: progress_def)

lemma three_loops_progress:
  assumes "wf_slots (configured init config) (mInstances st) (gpios st)"
    and "map_option F (Option.bind (gpio_loop init config ty1 n1 p1 st)
      (\<lambda>st. Option.bind (gpio_loop init config ty2 n2 p2 st) (gpio_loop init config ty3 n3 p3))) = Some st'"
  shows "\<exists>s. progress init config st s \<and> st' = F s"
proof -
  from assms(2) obtain s1 s2 s3 where l: "gpio_loop init config ty1 n1 p1 st = Some s1"
      "gpio_loop init config ty2 n2 p2 s1 = Some s2" "gpio_loop init config ty3 n3 p3 s2 = Some s3" and st': "st' = F s3"
    by (auto simp: bind_eq_Some_conv)
  have p1: "progress init config st s1" by (rule gpio_loop_progress [OF assms(1) l(1)])
  then have p2: "progress init config s1 s2" by (intro gpio_loop_progress [OF _ l(2)]) (simp add: progress_def)
  then have p3: "progress init config s2 s3" by (intro gpio_loop_progress [OF _ l(3)]) (simp add: progress_def)
  from p1 p2 p3 have "progress init config st s3"
    by (auto simp: progress_def dest: gpio_loop_error [OF l(2)] gpio_loop_error [OF l(3)])
  with st' show ?thesis by blast
qed

end

lemma output_values_ok: "output_values ps = (NO_ERROR, vs) \<Longrightarrow> length vs = length ps \<and> NEXUS_GpioValue_eMax \<notin> set vs"
  by (induction ps arbitrary: vs) (auto simp: parseGpioOutputValue_def Let_def split: if_splits prod.splits)

lemma gpio_initialise_created:
  assumes "gpio_initialise kw u op name v pin ty n = Some (Some g, n')"
  shows "n' = Suc n \<and> mInstance g = n \<and> mPin g = pin \<and> mPinType g = ty \<and> mPinName g = name \<and> wf_pin g"
  using assms
  by (auto simp: gpio_initialise_def gpio_instantiate_def Let_def wf_pin_def gpio_limits dest!: output_values_ok
      split: option.splits prod.splits if_splits)

lemma gpio_initialise_failed: "gpio_initialise kw u op name v pin ty n = Some (None, n') \<Longrightarrow> n' = n"
  by (auto simp: gpio_initialise_def gpio_instantiate_def Let_def split: option.splits prod.splits if_splits)

interpretation gpio: pin_initialiser "gpio_initialise kw u op" for kw u op
  by unfold_locales (use gpio_initialise_created gpio_initialise_failed in blast)+

lemma wf_slots_mono: "wf_slots Q n gs \<Longrightarrow> (\<And>g. Q g \<Longrightarrow> R g) \<Longrightarrow> wf_slots R n gs"
  unfolding wf_slots_def by (fastforce split: option.splits)

lemma configured_wf: "configured (gpio_initialise kw u op) config g \<Longrightarrow> wf_pin g"
  unfolding configured_def using gpio_initialise_created by blast

definition no_gpios :: gpio_state where
  "no_gpios = \<lparr>gs_status = NO_ERROR, gs_cnt = 0, mInstances = 0, gpios = Map.empty\<rparr>"

lemma initialise_progress:
  assumes "initialiseGpios chip (gpio_initialise kw u op) (Inr config) no_gpios = Some st"
  shows "wf_slots (configured (gpio_initialise kw u op) config) (mInstances st) (gpios st) \<and>
    (gs_status st = NO_ERROR \<longrightarrow> mInstances st = length config)"
proof -
  let ?i = "gpio_initialise kw u op"
  have 0: "wf_slots (configured ?i config) (mInstances no_gpios) (gpios no_gpios)" by (simp add: wf_slots_def no_gpios_def)
  have n: "no_gpios\<lparr>gs_status := NO_ERROR, gs_cnt := 0\<rparr> = no_gpios" by (simp add: no_gpios_def)
  obtain s where "progress ?i config no_gpios s" "st = (if gs_cnt s \<noteq> length config then s\<lparr>gs_status := NO_INIT\<rparr> else s)"
    using gpio.three_loops_progress [OF 0 assms [unfolded initialiseGpios_def sum.case n]] by blast
  then show ?thesis by (auto simp: progress_def no_gpios_def)
qed


definition demo_config :: "(string \<times> string) list" where
  "demo_config = [(''AON_GPIO00'', ''[PushPull,High,High,Low,Low,Low,Low,Low]''), (''AON_SGPIO02'', ''[Input,Edge,Wakeup]'')]"

definition demo_pins :: "gpio_state option" where
  "demo_pins = initialiseGpios \<lparr>NUM_GPIO_PINS = 0, NUM_AON_GPIO_PINS = 2, NUM_AON_SGPIO_PINS = 3\<rparr>
     (gpio_initialise 143 0 (\<lambda>_ _. True)) (Inr demo_config) no_gpios"

definition demo_out :: NexusGpio where
  "demo_out = \<lparr>mPinName = ''AON_GPIO00'', mInstance = 0, mPin = 0, mPinType = NEXUS_GpioType_eAonStandard,
     mPinMode = NEXUS_GpioMode_eOutputPushPull, mPinInterruptMode = NEXUS_GpioInterrupt_eDisabled,
     mPinOutputValues = [NEXUS_GpioValue_eHigh, NEXUS_GpioValue_eHigh, NEXUS_GpioValue_eLow, NEXUS_GpioValue_eLow,
       NEXUS_GpioValue_eLow, NEXUS_GpioValue_eLow, NEXUS_GpioValue_eLow], mKeyEvent = 0\<rparr>"

definition demo_in :: NexusGpio where
  "demo_in = \<lparr>mPinName = ''AON_SGPIO02'', mInstance = 1, mPin = 2, mPinType = NEXUS_GpioType_eAonSpecial,
     mPinMode = NEXUS_GpioMode_eInput, mPinInterruptMode = NEXUS_GpioInterrupt_eEdge, mPinOutputValues = [], mKeyEvent = 143\<rparr>"

lemmas gpio_eval = gpio_initialise_def gpio_instantiate_def parseGpioParameters_def gpio_params.simps gpio_limits parseGpioMode_def
  parseGpioInterruptMode_def parseGpioOutputValue_def parseGpioKey_def toLower_def tolower_def
  of_char_def char_of_def bit_0

lemma demo_out_parsed: "gpio_initialise 143 0 (\<lambda>_ _. True) ''AON_GPIO00'' ''[PushPull,High,High,Low,Low,Low,Low,Low]'' 0 NEXUS_GpioType_eAonStandard 0
  = Some (Some demo_out, Suc 0)"
  by (simp add: gpio_eval demo_out_def)

lemma demo_in_parsed: "gpio_initialise 143 0 (\<lambda>_ _. True) ''AON_SGPIO02'' ''[Input,Edge,Wakeup]'' 2 NEXUS_GpioType_eAonSpecial (Suc 0)
  = Some (Some demo_in, 2)"
  by (simp add: gpio_eval demo_in_def)

lemma demo_pins_eval: "demo_pins = Some \<lparr>gs_status = NO_ERROR, gs_cnt = 2, mInstances = 2, gpios = [0 \<mapsto> demo_out, Suc 0 \<mapsto> demo_in]\<rparr>"
proof -
  have "dec 0 = ''0''" "dec (Suc 0) = ''1''" "dec 2 = ''2''" by (simp_all add: dec.simps char_of_def bit_0)
  moreover have "[0..<3] = [0, Suc 0, 2::nat]" "[0..<2] = [0, Suc 0::nat]" by (simp_all add: upt_rec numeral_2_eq_2)
  ultimately show ?thesis
    by (simp add: demo_pins_def initialiseGpios_def demo_config_def no_gpios_def gpio_pin_def pad0_def demo_out_parsed demo_in_parsed
        MAX_INSTANCES_def demo_out_def demo_in_def)
qed


section \<open>Changing the power state\<close>

definition table_outputs :: "gpio_state \<Rightarrow> NexusGpio list" where
  "table_outputs st = filter (\<lambda>g. mPinMode g \<noteq> NEXUS_GpioMode_eInput) (map (the \<circ> gpios st) [0..<mInstances st])"

definition table_inputs :: "gpio_state \<Rightarrow> NexusGpio list" where
  "table_inputs st = filter (\<lambda>g. mPinMode g = NEXUS_GpioMode_eInput) (map (the \<circ> gpios st) [0..<mInstances st])"

definition drive :: "b_powerState \<Rightarrow> NexusGpio \<Rightarrow> gpio_call" where
  "drive state g = GpioSet (mPinName g) (mPinOutputValues g ! state_index state)"

lemma slots_table:
  assumes "wf_slots Q n gs"
  shows "slots gs = map (the \<circ> gs) [0..<n]"
proof -
  have n: "n \<le> MAX_INSTANCES" and 1: "\<exists>g. gs i = Some g" if "i < n" for i
    using assms that by (auto simp: wf_slots_def split: option.splits dest!: spec [of _ i])
  have 2: "gs i = None" if "n \<le> i" for i
    using assms that by (auto simp: wf_slots_def split: option.splits dest!: spec [of _ i])
  have le: "n \<le> MAX_INSTANCES" using assms by (simp add: wf_slots_def)
  have "slots gs = List.map_filter gs [0..<n] @ List.map_filter gs [n..<MAX_INSTANCES]"
    using le upt_add_eq_append [of 0 n "MAX_INSTANCES - n"] by (simp add: slots_def List.map_filter_def)
  also have "List.map_filter gs [n..<MAX_INSTANCES] = []" using 2 by (simp add: List.map_filter_def filter_empty_conv)
  also have "List.map_filter gs [0..<n] = map (the \<circ> gs) [0..<n]"
    using 1 by (auto simp: List.map_filter_def filter_id_conv)
  finally show ?thesis by simp
qed

lemma those_map_Some: "(\<And>x. x \<in> set xs \<Longrightarrow> f x = Some (g x)) \<Longrightarrow> those (map f xs) = Some (map g xs)"
  by (induction xs) auto

lemma setGpios_table:
  assumes wf: "wf_slots Q (mInstances st) (gpios st)" and Q: "\<And>g. Q g \<Longrightarrow> wf_pin g" and s: "state \<noteq> ePowerState_Max"
  shows "setGpios ok (gpios st) state = (let cs = map (drive state) (table_outputs st) in Some (all_ok ok cs, cs))"
proof -
  have i: "state_index state < MAX_POWER_STATES" using s by (cases state) (simp_all add: MAX_POWER_STATES_def)
  have "map_option (GpioSet (mPinName g)) (getPinOutputValue g state) = Some (drive state g)" if g: "g \<in> set (table_outputs st)" for g
  proof -
    from g obtain k where k: "k < mInstances st" "g = the (gpios st k)" and o: "mPinMode g \<noteq> NEXUS_GpioMode_eInput"
      by (auto simp: table_outputs_def)
    with wf Q have "wf_pin g" by (auto simp: wf_slots_def split: option.splits dest!: spec [of _ k])
    with o i show ?thesis by (simp add: wf_pin_def getPinOutputValue_def drive_def)
  qed
  then have "those (map (\<lambda>g. map_option (GpioSet (mPinName g)) (getPinOutputValue g state)) (table_outputs st))
    = Some (map (drive state) (table_outputs st))" by (rule those_map_Some)
  then show ?thesis by (simp add: setGpios_def slots_table [OF wf] table_outputs_def Let_def)
qed

lemma clearGpios_table:
  assumes "wf_slots Q (mInstances st) (gpios st)"
  shows "clearGpios ok (gpios st) = (let cs = map (\<lambda>g. GpioClear (mPinName g)) (table_inputs st) in (all_ok ok cs, cs))"
  by (simp add: clearGpios_def slots_table [OF assms] table_inputs_def)

text \<open>
  C12: On a table that was configured from a file, setting a power state never reads past the array of
  output levels. Powering up drives every output pin to its S0 level before the platform is
  powered up, and does not power up if that fails. Going to standby powers the platform down
  first, then drives every output to the level configured for that state and last clears every
  input interrupt; no pin is touched when the platform refuses, no interrupt is cleared when an
  output fails, and success means every call succeeded.
\<close>

theorem power_state_sequence:
  assumes conf: "initialiseGpios chip (gpio_initialise kw u op) (Inr config) no_gpios = Some st"
    and state: "state \<noteq> ePowerState_Max"
  defines "outs \<equiv> map (drive state) (table_outputs st)"
    and "ins \<equiv> map (\<lambda>g. GpioClear (mPinName g)) (table_inputs st)"
  shows "\<exists>ret cs cec. nexus_power_setPowerState ok np (gpios st) state = Some (ret, cs)
    \<and> set cec \<subseteq> {IpcSetCecPowerState state}
    \<and> (if state = ePowerState_S0
       then cs = outs @ (if list_all ok outs then [IpcSetPowerState state] else []) @ cec
            \<and> (ret = NO_ERROR \<longleftrightarrow> list_all ok (outs @ [IpcSetPowerState state]))
       else cs = cec @ [IpcSetPowerState state] @ (if ok (IpcSetPowerState state) then outs else [])
                 @ (if ok (IpcSetPowerState state) \<and> list_all ok outs then ins else [])
            \<and> (ret = NO_ERROR \<longleftrightarrow> list_all ok ([IpcSetPowerState state] @ outs @ ins)))"
proof -
  note wf = conjunct1 [OF initialise_progress [OF conf]]
  have s: "setGpios ok (gpios st) state = Some (all_ok ok outs, outs)"
    using setGpios_table [OF wf configured_wf state] by (simp add: outs_def Let_def)
  have c: "clearGpios ok (gpios st) = (all_ok ok ins, ins)"
    using clearGpios_table [OF wf] by (simp add: ins_def Let_def)
  let ?up = "if list_all ok outs \<and> ok (IpcSetPowerState state) \<and> cec_device_invalid np \<and> isCecEnabled np \<and> getCecTransmitViewOn np
             then [IpcSetCecPowerState state] else []"
  let ?down = "if cec_device_invalid np \<and> isCecEnabled np \<and> getCecTransmitStandby np then [IpcSetCecPowerState state] else []"
  show ?thesis
  proof (cases "state = ePowerState_S0")
    case True
    with s have s: "setGpios ok (gpios st) ePowerState_S0 = Some (all_ok ok outs, outs)" by simp
    have eq: "nexus_power_setPowerState ok np (gpios st) state =
      Some (if list_all ok (outs @ [IpcSetPowerState state]) then NO_ERROR else INVALID_OPERATION,
            outs @ (if list_all ok outs then [IpcSetPowerState state] else []) @ ?up)"
      by (simp add: nexus_power_setPowerState_def True s all_ok_def)
    show ?thesis by (rule exI, rule exI, rule exI [of _ ?up], intro conjI, rule eq) (auto simp: True)
  next
    case False
    have eq: "nexus_power_setPowerState ok np (gpios st) state =
      Some (if list_all ok ([IpcSetPowerState state] @ outs @ ins) then NO_ERROR else INVALID_OPERATION,
            ?down @ [IpcSetPowerState state] @ (if ok (IpcSetPowerState state) then outs else [])
                 @ (if ok (IpcSetPowerState state) \<and> list_all ok outs then ins else []))"
      by (simp add: nexus_power_setPowerState_def False s c all_ok_def)
    show ?thesis by (rule exI, rule exI, rule exI [of _ ?down], intro conjI, rule eq) (auto simp: False)
  qed
qed

theorem power_state_sequence_witness:
  "\<exists>st ret cs cec. demo_pins = Some st
     \<and> nexus_power_setPowerState (\<lambda>_. True) \<lparr>cec_device_invalid = True, isCecEnabled = True, prop_tx_standby = ''0'', prop_tx_view_on = ''1''\<rparr>
         (gpios st) ePowerState_S3 = Some (ret, cs)
     \<and> cs = cec @ [IpcSetPowerState ePowerState_S3, GpioSet ''AON_GPIO00'' NEXUS_GpioValue_eLow, GpioClear ''AON_SGPIO02'']"
proof -
  have upt: "[0..<2] = [0, Suc 0]" by (simp add: upt_rec numeral_2_eq_2)
  show ?thesis
    using power_state_sequence [OF demo_pins_eval [unfolded demo_pins_def], of ePowerState_S3 "\<lambda>_. True"
        "\<lparr>cec_device_invalid = True, isCecEnabled = True, prop_tx_standby = ''0'', prop_tx_view_on = ''1''\<rparr>"]
    by (simp add: demo_pins_eval table_outputs_def table_inputs_def upt demo_out_def demo_in_def drive_def list_all_iff) blast
qed

section \<open>The documented behaviour of the pins\<close>

lemma replicate_5_6: "replicate 5 x = [x, x, x, x, x]" "replicate 6 x = [x, x, x, x, x, x]"
  by (simp_all add: numeral_eq_Suc)

text \<open>
  The examples of the configuration file's comment are configured as it says, whenever
  Nexus opens the pin; an input with no third parameter, however, takes its key from an
  uninitialised variable, where the comment promises no key.
\<close>

theorem gpio_examples:
  "gpio_initialise kw u (\<lambda>_ _. True) ''GPIO101'' ''[PushPull,High,Low,Low,Low,Low,Low,High]'' 101 ty n =
     Some (Some \<lparr>mPinName = ''GPIO101'', mInstance = n, mPin = 101, mPinType = ty, mPinMode = NEXUS_GpioMode_eOutputPushPull,
       mPinInterruptMode = NEXUS_GpioInterrupt_eDisabled,
       mPinOutputValues = NEXUS_GpioValue_eHigh # replicate 5 NEXUS_GpioValue_eLow @ [NEXUS_GpioValue_eHigh], mKeyEvent = 0\<rparr>, Suc n)
   \<and> gpio_initialise kw u (\<lambda>_ _. True) ''AON_GPIO03'' ''[OpenDrain,Low,High,High,High,High,High,High]'' 3 ty n =
     Some (Some \<lparr>mPinName = ''AON_GPIO03'', mInstance = n, mPin = 3, mPinType = ty, mPinMode = NEXUS_GpioMode_eOutputOpenDrain,
       mPinInterruptMode = NEXUS_GpioInterrupt_eDisabled,
       mPinOutputValues = NEXUS_GpioValue_eLow # replicate 6 NEXUS_GpioValue_eHigh, mKeyEvent = 0\<rparr>, Suc n)
   \<and> gpio_initialise kw u (\<lambda>_ _. True) ''AON_SGPIO02'' ''[Input,Edge,Wakeup]'' 2 ty n =
     Some (Some \<lparr>mPinName = ''AON_SGPIO02'', mInstance = n, mPin = 2, mPinType = ty, mPinMode = NEXUS_GpioMode_eInput,
       mPinInterruptMode = NEXUS_GpioInterrupt_eEdge, mPinOutputValues = [], mKeyEvent = kw\<rparr>, Suc n)
   \<and> gpio_initialise kw u (\<lambda>_ _. True) ''AON_GPIO01'' ''[Input,FallingEdge]'' 1 ty n =
     Some (Some \<lparr>mPinName = ''AON_GPIO01'', mInstance = n, mPin = 1, mPinType = ty, mPinMode = NEXUS_GpioMode_eInput,
       mPinInterruptMode = NEXUS_GpioInterrupt_eFallingEdge, mPinOutputValues = [], mKeyEvent = u\<rparr>, Suc n)"
  by (intro conjI) (simp add: gpio_eval replicate_5_6)+

text \<open>
  Once a write of the display settings was refused for a stale sequence number and another
  client has meanwhile switched the outputs to the wanted state, \<open>setVideoOutputsState\<close> never
  returns: nothing is written, so the error code of the refused write is tested again and again.
\<close>

theorem video_outputs_livelock:
  "setVideoOutputsState state ((state \<noteq> ePowerState_S0, NXCLIENT_BAD_SEQUENCE_NUMBER_rc) # replicate n (state = ePowerState_S0, rc)) NEXUS_SUCCESS_rc
     = None"
proof -
  have "setVideoOutputsState state (replicate n (state = ePowerState_S0, rc)) NXCLIENT_BAD_SEQUENCE_NUMBER_rc = None"
    by (induction n) simp_all
  then show ?thesis by simp
qed

end
