(* ===== verification/Adec_Data.thy ===== *)
theory Adec_Data
  imports Bomx_Params Bomx_Tracker Bomx_Pes Bomx_Aac "HOL-Library.Monad_Syntax"
begin

text \<open>
  \<open>media/libstagefrighthw/bomx_audio_decoder.cpp\<close>: the members of the audio decoder component,
  what it sees of Nexus, and its buffers: allocation, use and release. Memory is a map from the
  address of a block to its bytes, so that a pointer is a block and an offset; reading a block
  that was freed, a failed assertion and a null dereference are \<open>None\<close>. Every call into Nexus and
  every event set is an entry of the log, and an answer of Nexus may depend on the log so far.
\<close>

section \<open>Members\<close>

datatype OMX_AUDIO_CODINGTYPE =
    OMX_AUDIO_CodingAndroidAC3 | OMX_AUDIO_CodingMP3 | OMX_AUDIO_CodingAAC | OMX_AUDIO_CodingPCM
  | OMX_AUDIO_CodingOther u32

datatype OMX_AUDIO_AACSTREAMFORMATTYPE =
    OMX_AUDIO_AACStreamFormatMP2ADTS | OMX_AUDIO_AACStreamFormatMP4ADTS | OMX_AUDIO_AACStreamFormatMP4FF
  | OMX_AUDIO_AACStreamFormatOther u32

datatype OMX_AUDIO_CHANNELMODETYPE =
    OMX_AUDIO_ChannelModeStereo | OMX_AUDIO_ChannelModeJointStereo | OMX_AUDIO_ChannelModeDual | OMX_AUDIO_ChannelModeMono
  | OMX_AUDIO_ChannelModeMax | OMX_AUDIO_ChannelModeOther u32

text \<open>The parameters of AAC; \<open>aac_rest\<close> are the members that the code only copies.\<close>

record OMX_AUDIO_PARAM_AACPROFILETYPE =
  aac_struct :: omx_header
  aac_nPortIndex :: u32
  aac_nChannels :: u32
  aac_nSampleRate :: u32
  aac_nBitRate :: u32
  aac_nAudioBandWidth :: u32
  aac_nFrameLength :: u32
  aac_nAACtools :: u32
  aac_nAACERtools :: u32
  aac_eAACStreamFormat :: OMX_AUDIO_AACSTREAMFORMATTYPE
  aac_eChannelMode :: OMX_AUDIO_CHANNELMODETYPE
  aac_rest :: omx_opaque

record BOMX_AudioDecoderRole =
  role_name :: string
  role_omxCodec :: u32

record BOMX_AudioDecoderInputBufferInfo =
  pHeader :: addr
  maxHeaderLen :: nat
  headerLen :: nat
  pPayload :: addr
  numDescriptors :: u32
  info_pts :: u32
  complete :: bool

record BOMX_AudioDecoderOutputBufferInfo =
  hMemoryBlock :: addr
  pNexusMemory :: addr
  pClientMemory :: addr
  nexusOwned :: bool

datatype BOMX_AudioDecoderState =
    BOMX_AudioDecoderState_eStopped | BOMX_AudioDecoderState_eStarted | BOMX_AudioDecoderState_eSuspended

datatype ConfigBufferState =
    ConfigBufferState_eAccumulating | ConfigBufferState_eFlushed | ConfigBufferState_eSubmitted

record NEXUS_PlaypumpScatterGatherDescriptor =
  desc_block :: addr
  desc_offset :: nat
  desc_length :: nat

datatype NEXUS_AudioCodec = NEXUS_AudioCodec_eAc3 | NEXUS_AudioCodec_eMp3 | NEXUS_AudioCodec_eAacAdts | NEXUS_AudioCodec_eUnknown

datatype NEXUS_AudioChannel =
    NEXUS_AudioChannel_eLeft | NEXUS_AudioChannel_eRight | NEXUS_AudioChannel_eLeftSurround | NEXUS_AudioChannel_eRightSurround
  | NEXUS_AudioChannel_eLeftRear | NEXUS_AudioChannel_eRightRear | NEXUS_AudioChannel_eCenter | NEXUS_AudioChannel_eLfe
  | NEXUS_AudioChannel_eMax | NEXUS_AudioChannel_Other u32

text \<open>
  The settings of the decoder that the code reads and writes. \<open>ds_complete\<close> is the event that the
  callback for a finished buffer sets, 0 when none was given.
\<close>

record NEXUS_AudioDecoderDecodeToMemorySettings =
  ds_bitsPerSample :: u32
  ds_numPcmChannels :: u32
  ds_maxBuffers :: u32
  ds_channelLayout :: "NEXUS_AudioChannel list"
  ds_complete :: addr

record NEXUS_AudioDecoderCodecSettings =
  cs_drcLine :: bool
  cs_cut :: u32
  cs_boost :: u32
  cs_drcTargetLevel :: u32
  cs_drcDefaultLevel :: u32

datatype nexus_call =
    New | Memory_Allocate nat | Memory_Free addr | MemoryBlock_Allocate | MemoryBlock_Lock addr | MemoryBlock_Unlock addr
  | MemoryBlock_Free addr | SetPortEvent | SetPlaypumpEvent | SetOutputFrameEvent | StartTimer nat | CancelTimer addr
  | Submit "NEXUS_PlaypumpScatterGatherDescriptor list" | Playpump_GetStatus | Decoder_GetStatus
  | GetDecodedFrames | ConsumeDecodedFrames nat | Decoder_QueueBuffer addr u32
  | Playpump_Open u32 | Playpump_SetSettings | Playpump_Close | Playpump_Start | Playpump_Stop | OpenPid | ClosePid
  | Register | Unregister addr | Decoder_Start NEXUS_AudioCodec | Decoder_Stop | Decoder_Suspend | Decoder_Resume | Decoder_Close
  | Property
  | NewArray nat | Delete addr | Event_Create | Event_Destroy addr | GetClient | CreateClientContext | DestroyClientContext addr
  | GetAudioCapabilities | Decoder_Open | GetDecodeToMemorySettings
  | SetDecodeToMemorySettings NEXUS_AudioDecoderDecodeToMemorySettings
  | GetCodecSettings | SetCodecSettings NEXUS_AudioDecoderCodecSettings | OpenFile | CloseFile addr | ShutdownScheduler

type_synonym nexus_log = "nexus_call list"

record BOMX_AudioDecoder =
  m_hAudioDecoder :: addr
  m_hPlaypump :: addr
  m_hPidChannel :: addr
  m_playpumpEventId :: addr
  m_playpumpTimerId :: addr
  m_inputBuffersTimerId :: addr
  m_submittedDescriptors :: u32
  m_decoderState :: BOMX_AudioDecoderState
  m_pBufferTracker :: BOMX_BufferTracker
  m_AvailInputBuffers :: u32
  m_pEosBuffer :: addr
  m_eosPending :: bool
  m_eosDelivered :: bool
  m_eosReceived :: bool
  m_eosStandalone :: bool
  m_eosReady :: bool
  m_eosTimeStamp :: s64
  m_formatChangePending :: bool
  m_sampleRate :: u32
  m_bitsPerSample :: u32
  m_numPcmChannels :: u32
  m_codecDelayAdjusted :: int
  m_ascInfo :: BOMX_AAC_ASCInfo
  m_aacParams :: OMX_AUDIO_PARAM_AACPROFILETYPE
  m_pBcmaHeader :: "u8 list"
  m_pConfigBuffer :: addr
  m_configBufferState :: ConfigBufferState
  m_configBufferSize :: nat
  m_hPlaypumpEvent :: addr
  m_hOutputFrameEvent :: addr
  m_outputFrameEventId :: addr
  m_trackerObject :: addr
  m_pIpcClient :: addr
  m_pNexusClient :: addr
  m_pPesFile :: addr
  m_pInputFile :: addr
  m_pOutputFile :: addr
  m_pPes :: addr
  m_inputMimeType :: string
  m_outputMimeType :: string
  m_pRoles :: addr
  m_roles :: "BOMX_AudioDecoderRole list"
  m_pFrameStatus :: addr
  m_pMemoryBlocks :: addr
  m_arrays :: "addr \<rightharpoonup> nat"
  m_portObjects :: "addr list"
  m_inInfo :: "addr \<rightharpoonup> BOMX_AudioDecoderInputBufferInfo"
  m_outInfo :: "addr \<rightharpoonup> BOMX_AudioDecoderOutputBufferInfo"
  m_mem :: "addr \<rightharpoonup> u8 list"
  m_nexus :: nexus_log

text \<open>
  \<open>m_trackerObject\<close> is the pointer whose object is \<open>m_pBufferTracker\<close>, and \<open>m_roles\<close> the array behind
  \<open>m_pRoles\<close>, \<open>m_numRoles\<close> long; \<open>m_arrays\<close> are the arrays allocated with \<open>new\<close>, by their
  length, and \<open>m_portObjects\<close> the addresses of the ports.
\<close>

abbreviation m_eAACStreamFormat :: "BOMX_AudioDecoder \<Rightarrow> OMX_AUDIO_AACSTREAMFORMATTYPE" where
  "m_eAACStreamFormat s \<equiv> aac_eAACStreamFormat (m_aacParams s)"

type_synonym adc = "BOMX_AudioDecoder BOMX_Component"

text \<open>
  Nexus, the C++ allocator, the system properties and the layout of the OMX format structure. An
  error code is 0 for success; an allocation yields an address, 0 when it failed, and the
  uninitialised bytes of the block. A decoded frame comes with what the decoder has written into its
  block. \<open>e_ndebug\<close> tells that assertions are compiled out, where an operation goes on after one.
\<close>

record NEXUS_AudioDecoderFrame =
  frame_block :: addr
  frame_pts :: u32
  filledBytes :: u32
  frame_sampleRate :: u32
  frame_data :: "u8 list"

record 'b adec_env =
  e_biobits :: biobits
  e_batom :: "'b batom"
  e_abi :: omx_abi
  e_coding :: "port_format \<Rightarrow> OMX_AUDIO_CODINGTYPE"
  e_new :: "nexus_log \<Rightarrow> addr"
  e_node :: "nexus_log \<Rightarrow> BOMX_BufferTrackerNode option"
  e_alloc :: "nexus_log \<Rightarrow> nat \<Rightarrow> addr \<times> u8 list"
  e_block :: "nexus_log \<Rightarrow> addr"
  e_lock :: "nexus_log \<Rightarrow> u32 \<times> addr"
  e_error :: "nexus_log \<Rightarrow> u32"
  e_handle :: "nexus_log \<Rightarrow> addr"
  e_consumed :: "nexus_log \<Rightarrow> nat"
  e_playpump :: "nexus_log \<Rightarrow> bool \<times> u32"
  e_decoder :: "nexus_log \<Rightarrow> u32 \<times> bool \<times> u32"
  e_frames :: "nexus_log \<Rightarrow> u32 \<times> NEXUS_AudioDecoderFrame list"
  e_property :: "nexus_log \<Rightarrow> int"
  e_ndebug :: bool

text \<open>
  The members as the initialiser list of the constructor leaves them. It does not mention
  \<open>m_pEosBuffer\<close>, the AAC parameters, the MIME types and two more, which keep whatever was in the
  memory of the object. The object of the tracker and the arrays do not exist yet.
\<close>

definition initial_members ::
  "addr \<Rightarrow> OMX_AUDIO_PARAM_AACPROFILETYPE \<Rightarrow> BOMX_AAC_ASCInfo \<Rightarrow> u8 list \<Rightarrow> string \<Rightarrow> string \<Rightarrow> BOMX_AudioDecoder" where
  "initial_members eos aac asc bcma inMime outMime =
     \<lparr>m_hAudioDecoder = NULL, m_hPlaypump = NULL, m_hPidChannel = NULL, m_playpumpEventId = NULL, m_playpumpTimerId = NULL,
      m_inputBuffersTimerId = NULL, m_submittedDescriptors = 0, m_decoderState = BOMX_AudioDecoderState_eStopped,
      m_pBufferTracker = \<lparr>m_allocList = [], m_freeList = [], m_minAllocated = 0, m_maxAllocated = 0, m_valid = False\<rparr>,
      m_AvailInputBuffers = 0, m_pEosBuffer = eos, m_eosPending = False, m_eosDelivered = False, m_eosReceived = False,
      m_eosStandalone = False, m_eosReady = False, m_eosTimeStamp = 0, m_formatChangePending = False, m_sampleRate = 0,
      m_bitsPerSample = 0, m_numPcmChannels = 0, m_codecDelayAdjusted = 0, m_ascInfo = asc, m_aacParams = aac,
      m_pBcmaHeader = bcma, m_pConfigBuffer = NULL, m_configBufferState = ConfigBufferState_eAccumulating, m_configBufferSize = 0,
      m_hPlaypumpEvent = NULL, m_hOutputFrameEvent = NULL, m_outputFrameEventId = NULL, m_trackerObject = NULL,
      m_pIpcClient = NULL, m_pNexusClient = NULL, m_pPesFile = NULL, m_pInputFile = NULL, m_pOutputFile = NULL, m_pPes = NULL,
      m_inputMimeType = inMime, m_outputMimeType = outMime, m_pRoles = NULL, m_roles = [], m_pFrameStatus = NULL, m_pMemoryBlocks = NULL,
      m_arrays = Map.empty, m_portObjects = [], m_inInfo = Map.empty, m_outInfo = Map.empty, m_mem = Map.empty, m_nexus = []\<rparr>"

section \<open>Access\<close>

definition sub :: "(BOMX_AudioDecoder \<Rightarrow> BOMX_AudioDecoder) \<Rightarrow> adc \<Rightarrow> adc" where
  "sub f c = c\<lparr>m_sub := f (m_sub c)\<rparr>"

definition nexus :: "nexus_call \<Rightarrow> adc \<Rightarrow> adc" where
  "nexus x = sub (\<lambda>s. s\<lparr>m_nexus := m_nexus s @ [x]\<rparr>)"

abbreviation nlog :: "adc \<Rightarrow> nexus_log" where "nlog c \<equiv> m_nexus (m_sub c)"
abbreviation mem :: "adc \<Rightarrow> addr \<rightharpoonup> u8 list" where "mem c \<equiv> m_mem (m_sub c)"
abbreviation in_port :: "adc \<Rightarrow> BOMX_Port" where "in_port c \<equiv> m_pAudioPorts c ! 0"
abbreviation out_port :: "adc \<Rightarrow> BOMX_Port" where "out_port c \<equiv> m_pAudioPorts c ! 1"

definition set_in :: "BOMX_Port \<Rightarrow> adc \<Rightarrow> adc" where "set_in p c = c\<lparr>m_pAudioPorts := (m_pAudioPorts c)[0 := p]\<rparr>"
definition set_out :: "BOMX_Port \<Rightarrow> adc \<Rightarrow> adc" where "set_out p c = c\<lparr>m_pAudioPorts := (m_pAudioPorts c)[1 := p]\<rparr>"

definition put_header :: "addr \<Rightarrow> OMX_BUFFERHEADERTYPE \<Rightarrow> adc \<Rightarrow> adc" where
  "put_header b h c = c\<lparr>m_heap := (m_heap c)(b := map_option (\<lambda>x. x\<lparr>m_header := h\<rparr>) (m_heap c b))\<rparr>"

definition put_in_info :: "addr \<Rightarrow> BOMX_AudioDecoderInputBufferInfo \<Rightarrow> adc \<Rightarrow> adc" where
  "put_in_info a i = sub (\<lambda>s. s\<lparr>m_inInfo := (m_inInfo s)(a \<mapsto> i)\<rparr>)"

definition put_out_info :: "addr \<Rightarrow> BOMX_AudioDecoderOutputBufferInfo \<Rightarrow> adc \<Rightarrow> adc" where
  "put_out_info a i = sub (\<lambda>s. s\<lparr>m_outInfo := (m_outInfo s)(a \<mapsto> i)\<rparr>)"

definition put_mem :: "addr \<Rightarrow> u8 list \<Rightarrow> adc \<Rightarrow> adc" where
  "put_mem a bs = sub (\<lambda>s. s\<lparr>m_mem := (m_mem s)(a \<mapsto> bs)\<rparr>)"

definition read_at :: "adc \<Rightarrow> addr \<Rightarrow> nat \<Rightarrow> nat \<Rightarrow> u8 list option" where
  "read_at c a off n =
     do {bs \<leftarrow> mem c a; if off + n \<le> length bs then Some (take n (drop off bs)) else None}"

definition write_at :: "addr \<Rightarrow> nat \<Rightarrow> u8 list \<Rightarrow> adc \<Rightarrow> adc option" where
  "write_at a off vs c =
     do {bs \<leftarrow> mem c a;
         if off + length vs \<le> length bs
         then Some (put_mem a (take off bs @ vs @ drop (off + length vs) bs) c) else None}"

text \<open>The private data of a buffer, which the code casts from \<open>GetComponentPrivate\<close>.\<close>

definition in_info :: "adc \<Rightarrow> addr \<Rightarrow> (addr \<times> BOMX_AudioDecoderInputBufferInfo) option" where
  "in_info c b =
     do {x \<leftarrow> m_heap c b; i \<leftarrow> m_inInfo (m_sub c) (GetComponentPrivate x); Some (GetComponentPrivate x, i)}"

definition out_info :: "adc \<Rightarrow> addr \<Rightarrow> (addr \<times> BOMX_AudioDecoderOutputBufferInfo) option" where
  "out_info c b =
     do {x \<leftarrow> m_heap c b; i \<leftarrow> m_outInfo (m_sub c) (GetComponentPrivate x); Some (GetComponentPrivate x, i)}"

definition GetCodec :: "'b adec_env \<Rightarrow> adc \<Rightarrow> OMX_AUDIO_CODINGTYPE" where
  "GetCodec env c = e_coding env (pd_format (m_definition (in_port c)))"

section \<open>Buffers of the input port\<close>

definition B_DATA_BUFFER_SIZE :: nat where "B_DATA_BUFFER_SIZE = 8192"
definition B_AAC_ADTS_HEADER_LEN :: nat where "B_AAC_ADTS_HEADER_LEN = 7"
definition B_MAX_EXTRAFRAMES_PER_BUFFER :: nat where "B_MAX_EXTRAFRAMES_PER_BUFFER = 0"
definition B_MAX_PES_PACKET_LENGTH :: nat where "B_MAX_PES_PACKET_LENGTH = 65535"
definition B_PES_HEADER_START_BYTES :: nat where "B_PES_HEADER_START_BYTES = 6"
definition B_STREAM_ID :: u16 where "B_STREAM_ID = 0xc0"

definition B_MAX_DESCRIPTORS_PER_BUFFER :: nat where
  "B_MAX_DESCRIPTORS_PER_BUFFER = 4 + (B_MAX_EXTRAFRAMES_PER_BUFFER * 3) +
     (2 * (B_DATA_BUFFER_SIZE div (B_MAX_PES_PACKET_LENGTH - (B_PES_HEADER_LENGTH_WITHOUT_PTS - B_PES_HEADER_START_BYTES))))"

definition AllocateInputBuffer :: "'b adec_env \<Rightarrow> nat \<Rightarrow> adc \<Rightarrow> addr \<times> adc" where
  "AllocateInputBuffer env nBytes c =
     (let (a, bs) = e_alloc env (nlog c) nBytes; c = nexus (Memory_Allocate nBytes) c
      in (a, if a = NULL then c else put_mem a bs c))"

definition Memory_free :: "addr \<Rightarrow> adc \<Rightarrow> adc" where
  "Memory_free a c = sub (\<lambda>s. s\<lparr>m_mem := (m_mem s)(a := None)\<rparr>) (nexus (Memory_Free a) c)"

definition FreeInputBuffer :: "addr \<Rightarrow> adc \<Rightarrow> adc" where "FreeInputBuffer a c = Memory_free a c"

definition delete_in_info :: "addr \<Rightarrow> adc \<Rightarrow> adc" where
  "delete_in_info a = sub (\<lambda>s. s\<lparr>m_inInfo := (m_inInfo s)(a := None)\<rparr>)"

definition delete_out_info :: "addr \<Rightarrow> adc \<Rightarrow> adc" where
  "delete_out_info a = sub (\<lambda>s. s\<lparr>m_outInfo := (m_outInfo s)(a := None)\<rparr>)"

definition header_buffer_size :: "'b adec_env \<Rightarrow> adc \<Rightarrow> nat" where
  "header_buffer_size env c =
     B_PES_HEADER_LENGTH_WITH_PTS
     + (case GetCodec env c of OMX_AUDIO_CodingAAC \<Rightarrow> B_AAC_ADTS_HEADER_LEN | _ \<Rightarrow> 0)
     + B_PES_HEADER_LENGTH_WITHOUT_PTS * ((B_MAX_DESCRIPTORS_PER_BUFFER - 4) div 2)"

text \<open>
  The result is the error, the header handed back and the component; \<open>ppBufferHdr\<close> tells whether
  the client gave a place for the header. The fields of the new information object that the code
  does not set keep their uninitialised values, which are arguments here (\<open>junk\<close>).
\<close>

definition AddInputPortBuffer ::
  "'b adec_env \<Rightarrow> BOMX_AudioDecoderInputBufferInfo \<Rightarrow> bool \<Rightarrow> u32 \<Rightarrow> addr \<Rightarrow> u32 \<Rightarrow> addr \<Rightarrow> bool \<Rightarrow> adc
   \<Rightarrow> (OMX_ERRORTYPE \<times> addr \<times> adc) option" where
  "AddInputPortBuffer env junk ppBufferHdr portIndex appPrivate nSizeBytes pBuffer componentAllocated c =
     (if \<not> ppBufferHdr then Some (BOMX_ERR_TRACE OMX_ErrorBadParameter, NULL, c)
      else case FindPortByIndex c portIndex of
        None \<Rightarrow> Some (BOMX_ERR_TRACE OMX_ErrorBadPortIndex, NULL, c)
      | Some pPort \<Rightarrow>
        if eDir (m_definition pPort) \<noteq> OMX_DirInput then Some (BOMX_ERR_TRACE OMX_ErrorBadPortIndex, NULL, c)
        else if IsTunneled pPort then Some (BOMX_ERR_TRACE OMX_ErrorBadPortIndex, NULL, c)
        else
          let pInfo = e_new env (nlog c); c = nexus New c in
          if pInfo = NULL then Some (BOMX_ERR_TRACE OMX_ErrorInsufficientResources, NULL, c)
          else
            let headerBufferSize = header_buffer_size env c;
                (header, c) = AllocateInputBuffer env headerBufferSize c in
            if header = NULL then Some (BOMX_ERR_TRACE OMX_ErrorInsufficientResources, NULL, c)
            else
              let (payload, c) = (if componentAllocated then (NULL, c) else AllocateInputBuffer env (unat nSizeBytes) c) in
              if \<not> componentAllocated \<and> payload = NULL
              then Some (BOMX_ERR_TRACE OMX_ErrorInsufficientResources, NULL, Memory_free header c)
              else
                let info = junk\<lparr>pHeader := header, maxHeaderLen := headerBufferSize, pPayload := payload\<rparr>;
                    node = e_new env (nlog c); c = nexus New c;
                    newBuffer = e_new env (nlog c); c = nexus New c in
                do {(err, hdr, hp, p) \<leftarrow>
                      AddBuffer (e_abi env) (node \<noteq> NULL) newBuffer (m_heap c) pPort appPrivate nSizeBytes pBuffer pInfo componentAllocated;
                    if err \<noteq> OMX_ErrorNone then
                      let c = (if payload \<noteq> NULL then Memory_free payload c else c)
                      in Some (BOMX_ERR_TRACE OMX_ErrorInsufficientResources, NULL, Memory_free header c)
                    else
                      let c = put_in_info pInfo info (put_port portIndex p (c\<lparr>m_heap := hp\<rparr>))
                      in Some (OMX_ErrorNone, hdr, nexus SetPortEvent c)})"

section \<open>Buffers of the output port\<close>

definition AddOutputPortBuffer ::
  "'b adec_env \<Rightarrow> bool \<Rightarrow> u32 \<Rightarrow> addr \<Rightarrow> u32 \<Rightarrow> addr \<Rightarrow> adc \<Rightarrow> (OMX_ERRORTYPE \<times> addr \<times> adc) option" where
  "AddOutputPortBuffer env ppBufferHdr portIndex appPrivate nSizeBytes pBuffer c =
     (if \<not> ppBufferHdr then Some (BOMX_ERR_TRACE OMX_ErrorBadParameter, NULL, c)
      else case FindPortByIndex c portIndex of
        None \<Rightarrow> Some (BOMX_ERR_TRACE OMX_ErrorBadPortIndex, NULL, c)
      | Some pPort \<Rightarrow>
        if eDir (m_definition pPort) \<noteq> OMX_DirOutput then Some (BOMX_ERR_TRACE OMX_ErrorBadPortIndex, NULL, c)
        else if IsTunneled pPort then Some (BOMX_ERR_TRACE OMX_ErrorBadPortIndex, NULL, c)
        else
          let pInfo = e_new env (nlog c); c = nexus New c in
          if pInfo = NULL then Some (BOMX_ERR_TRACE OMX_ErrorInsufficientResources, NULL, c)
          else
            let block = e_block env (nlog c); c = nexus MemoryBlock_Allocate c in
            if block = NULL then Some (BOMX_ERR_TRACE OMX_ErrorInsufficientResources, NULL, c)
            else
              let (errCode, nexusMemory) = e_lock env (nlog c); c = nexus (MemoryBlock_Lock block) c in
              if errCode \<noteq> 0 then Some (BOMX_ERR_TRACE OMX_ErrorInsufficientResources, NULL, nexus (MemoryBlock_Free block) c)
              else
                let info = \<lparr>hMemoryBlock = block, pNexusMemory = nexusMemory, pClientMemory = pBuffer, nexusOwned = False\<rparr>;
                    node = e_new env (nlog c); c = nexus New c;
                    newBuffer = e_new env (nlog c); c = nexus New c in
                do {(err, hdr, hp, p) \<leftarrow>
                      AddBuffer (e_abi env) (node \<noteq> NULL) newBuffer (m_heap c) pPort appPrivate nSizeBytes pBuffer pInfo False;
                    if err \<noteq> OMX_ErrorNone
                    then Some (BOMX_ERR_TRACE OMX_ErrorInsufficientResources, NULL, nexus (MemoryBlock_Free block) c)
                    else
                      let c = put_out_info pInfo info (put_port portIndex p (c\<lparr>m_heap := hp\<rparr>))
                      in Some (OMX_ErrorNone, hdr, nexus SetPortEvent c)})"

section \<open>The client's calls\<close>

definition Adec_UseBuffer ::
  "'b adec_env \<Rightarrow> BOMX_AudioDecoderInputBufferInfo \<Rightarrow> bool \<Rightarrow> u32 \<Rightarrow> addr \<Rightarrow> u32 \<Rightarrow> addr \<Rightarrow> adc \<Rightarrow> (OMX_ERRORTYPE \<times> addr \<times> adc) option" where
  "Adec_UseBuffer env junk ppBufferHdr portIndex appPrivate nSizeBytes pBuffer c =
     (if pBuffer = NULL then Some (BOMX_ERR_TRACE OMX_ErrorBadParameter, NULL, c)
      else if portIndex = m_audioPortBase c
      then AddInputPortBuffer env junk ppBufferHdr portIndex appPrivate nSizeBytes pBuffer False c
      else AddOutputPortBuffer env ppBufferHdr portIndex appPrivate nSizeBytes pBuffer c)"

definition Adec_AllocateBuffer ::
  "'b adec_env \<Rightarrow> BOMX_AudioDecoderInputBufferInfo \<Rightarrow> bool \<Rightarrow> u32 \<Rightarrow> addr \<Rightarrow> u32 \<Rightarrow> adc \<Rightarrow> (OMX_ERRORTYPE \<times> addr \<times> adc) option" where
  "Adec_AllocateBuffer env junk ppBuffer portIndex appPrivate nSizeBytes c =
     (if \<not> ppBuffer then Some (BOMX_ERR_TRACE OMX_ErrorBadParameter, NULL, c)
      else if portIndex = m_audioPortBase c then
        let (pBuffer, c) = AllocateInputBuffer env (unat nSizeBytes) c in
        if pBuffer = NULL then Some (BOMX_ERR_TRACE OMX_ErrorInsufficientResources, NULL, c)
        else do {(err, hdr, c) \<leftarrow> AddInputPortBuffer env junk ppBuffer portIndex appPrivate nSizeBytes pBuffer True c;
                 if err \<noteq> OMX_ErrorNone then Some (BOMX_ERR_TRACE err, NULL, FreeInputBuffer pBuffer c)
                 else Some (OMX_ErrorNone, hdr, c)}
      else Some (BOMX_ERR_TRACE OMX_ErrorNotImplemented, NULL, c))"

text \<open>A header is identified by the address of the buffer object that contains it.\<close>

definition Adec_FreeBuffer :: "u32 \<Rightarrow> addr \<Rightarrow> adc \<Rightarrow> (OMX_ERRORTYPE \<times> adc) option" where
  "Adec_FreeBuffer portIndex pBufferHeader c =
     (case FindPortByIndex c portIndex of
        None \<Rightarrow> Some (BOMX_ERR_TRACE OMX_ErrorBadPortIndex, c)
      | Some pPort \<Rightarrow>
        if pBufferHeader = NULL then Some (BOMX_ERR_TRACE OMX_ErrorBadParameter, c)
        else do {
          object \<leftarrow> m_heap c pBufferHeader;
          pBuffer \<leftarrow> m_heap c (pPlatformPrivate (m_header object));
          let pInfo = GetComponentPrivate pBuffer;
          if pInfo = NULL then Some (BOMX_ERR_TRACE OMX_ErrorBadParameter, c)
          else do {
            (err, hp, p) \<leftarrow> RemoveBuffer (m_heap c) pPort (m_header object);
            if err \<noteq> OMX_ErrorNone then Some (BOMX_ERR_TRACE err, c)
            else
              let c = put_port portIndex p (c\<lparr>m_heap := hp\<rparr>) in
              if eDir (m_definition pPort) = OMX_DirInput then do {
                info \<leftarrow> m_inInfo (m_sub c) pInfo;
                let c = Memory_free (pHeader info) c;
                c \<leftarrow> (if pPayload info \<noteq> NULL then Some (FreeInputBuffer (pPayload info) c)
                      else do {object \<leftarrow> m_heap c pBufferHeader; Some (FreeInputBuffer (bh_pBuffer (m_header object)) c)});
                Some (OMX_ErrorNone, nexus SetPortEvent (delete_in_info pInfo c))}
              else do {
                info \<leftarrow> m_outInfo (m_sub c) pInfo;
                let c = nexus (MemoryBlock_Free (hMemoryBlock info)) (nexus (MemoryBlock_Unlock (hMemoryBlock info)) c);
                Some (OMX_ErrorNone, nexus SetPortEvent (delete_out_info pInfo c))}}})"

section \<open>Codec configuration data\<close>

definition BOMX_AUDIO_CODEC_CONFIG_BUFFER_SIZE :: nat where "BOMX_AUDIO_CODEC_CONFIG_BUFFER_SIZE = 1024"

definition ConfigBufferInit :: "'b adec_env \<Rightarrow> adc \<Rightarrow> OMX_ERRORTYPE \<times> adc" where
  "ConfigBufferInit env c =
     (let (a, c) = (if m_pConfigBuffer (m_sub c) = NULL
                    then AllocateInputBuffer env BOMX_AUDIO_CODEC_CONFIG_BUFFER_SIZE c else (m_pConfigBuffer (m_sub c), c)) in
      if a = NULL then (BOMX_ERR_TRACE OMX_ErrorUndefined, c)
      else (OMX_ErrorNone, sub (\<lambda>s. s\<lparr>m_pConfigBuffer := a, m_configBufferState := ConfigBufferState_eAccumulating,
                                      m_configBufferSize := 0\<rparr>) c))"

definition ConfigBufferAppend :: "u8 list \<Rightarrow> adc \<Rightarrow> (OMX_ERRORTYPE \<times> adc) option" where
  "ConfigBufferAppend pBuffer c =
     (if m_configBufferSize (m_sub c) + length pBuffer > BOMX_AUDIO_CODEC_CONFIG_BUFFER_SIZE
      then Some (BOMX_ERR_TRACE OMX_ErrorOverflow, c)
      else do {c \<leftarrow> write_at (m_pConfigBuffer (m_sub c)) (m_configBufferSize (m_sub c)) pBuffer c;
               Some (OMX_ErrorNone, sub (\<lambda>s. s\<lparr>m_configBufferSize := m_configBufferSize s + length pBuffer\<rparr>) c)})"

section \<open>Rules of the access functions\<close>

lemma sub_simps [simp]:
  "m_sub (sub f c) = f (m_sub c)" "m_heap (sub f c) = m_heap c" "m_pAudioPorts (sub f c) = m_pAudioPorts c"
  "sub f (sub g c) = sub (f \<circ> g) c" "m_log (sub f c) = m_log c" "m_audioPortBase (sub f c) = m_audioPortBase c"
  by (simp_all add: sub_def)

lemma mem_put [simp]: "mem (put_mem a bs c) = (mem c)(a \<mapsto> bs)" "m_heap (put_mem a bs c) = m_heap c"
  by (simp_all add: put_mem_def)

lemma put_mem_twice [simp]: "put_mem a bs (put_mem a bs' c) = put_mem a bs c"
  by (simp add: put_mem_def comp_def)

lemma nexus_simps [simp]:
  "m_heap (nexus x c) = m_heap c" "m_pAudioPorts (nexus x c) = m_pAudioPorts c" "m_log (nexus x c) = m_log c"
  "m_sub (nexus x c) = (m_sub c)\<lparr>m_nexus := m_nexus (m_sub c) @ [x]\<rparr>" "m_audioPortBase (nexus x c) = m_audioPortBase c"
  by (simp_all add: nexus_def)

lemma port_simps [simp]:
  "m_heap (set_in p c) = m_heap c" "m_sub (set_in p c) = m_sub c" "m_log (set_in p c) = m_log c"
  "m_heap (set_out p c) = m_heap c" "m_sub (set_out p c) = m_sub c" "m_log (set_out p c) = m_log c"
  "m_audioPortBase (set_in p c) = m_audioPortBase c" "m_audioPortBase (set_out p c) = m_audioPortBase c"
  "m_pAudioPorts (set_in p c) = (m_pAudioPorts c)[0 := p]" "m_pAudioPorts (set_out p c) = (m_pAudioPorts c)[1 := p]"
  by (simp_all add: set_in_def set_out_def)

section \<open>A component for evaluation\<close>

text \<open>
  A Nexus that grants every request: a handle is one more than the length of the log, an answer
  reports success and nothing pending.
\<close>

definition demo_adec_env :: "bool list adec_env" where
  "demo_adec_env =
     \<lparr>e_biobits = shift_mask_biobits, e_batom = list_reader, e_abi = omx_il_abi, e_coding = (\<lambda>_. OMX_AUDIO_CodingMP3),
      e_new = (\<lambda>l. length l + 1000), e_node = (\<lambda>l. Some \<lparr>ticks = 0, tflags = 0, pts = 0\<rparr>),
      e_alloc = (\<lambda>l n. (length l + 2000, replicate n 0)), e_block = (\<lambda>l. length l + 3000), e_lock = (\<lambda>l. (0, length l + 4000)),
      e_error = (\<lambda>l. 0), e_handle = (\<lambda>l. length l + 1),
      e_consumed = (\<lambda>l. case last l of Submit ds \<Rightarrow> length ds | _ \<Rightarrow> 0), e_playpump = (\<lambda>l. (True, 0)), e_decoder = (\<lambda>l. (0, False, 0)), e_frames = (\<lambda>l. (0, [])),
      e_property = (\<lambda>l. 0), e_ndebug = False\<rparr>"

text \<open>Two ports; an input buffer at 8 with 10 bytes of data in block 300, its own blocks 100 and 200, and a configuration of 2 bytes.\<close>

definition demo_in_buffer :: BOMX_Buffer where
  "demo_in_buffer =
     (let b = new_BOMX_InputBuffer omx_il_abi 8 0 100 300 50
      in b\<lparr>m_header := (m_header b)\<lparr>nFilledLen := 10, nTimeStamp := 1000000\<rparr>\<rparr>)"

definition demo_in_info :: BOMX_AudioDecoderInputBufferInfo where
  "demo_in_info =
     \<lparr>pHeader = 100, maxHeaderLen = 14, headerLen = 0, pPayload = 200, numDescriptors = 0, info_pts = 0, complete = False\<rparr>"

definition demo_aac :: OMX_AUDIO_PARAM_AACPROFILETYPE where
  "demo_aac =
     \<lparr>aac_struct = BOMX_STRUCT_INIT omx_il_abi AUDIO_AAC, aac_nPortIndex = 0, aac_nChannels = 2, aac_nSampleRate = 0, aac_nBitRate = 0,
      aac_nAudioBandWidth = 0, aac_nFrameLength = 0, aac_nAACtools = 0, aac_nAACERtools = 0,
      aac_eAACStreamFormat = OMX_AUDIO_AACStreamFormatMP4FF, aac_eChannelMode = OMX_AUDIO_ChannelModeStereo, aac_rest = []\<rparr>"

definition demo_members :: BOMX_AudioDecoder where
  "demo_members =
     initial_members 7 demo_aac \<lparr>samplingFrequencyIndex = 0, channelConfiguration = 0, profile = 0, sbrPresent = False\<rparr>
       (replicate 10 0) [] []"

definition demo_adec :: adc where
  "demo_adec =
     (let c = prot (new_BOMX_Component omx_il_abi ''adec'' 0 (Some (True, True, True)) ''uuid''
                demo_members)
      in c\<lparr>m_pAudioPorts :=
             [(new_BOMX_AudioPort omx_il_abi False 0 OMX_DirInput 12 8192 False 0 [] [])\<lparr>m_bufferList := [8], m_numBuffers := 1\<rparr>,
              new_BOMX_AudioPort omx_il_abi False 1 OMX_DirOutput 12 65536 False 0 [] []],
           m_heap := [8 \<mapsto> demo_in_buffer],
           m_sub := (m_sub c)\<lparr>m_pConfigBuffer := 400, m_configBufferSize := 2, m_AvailInputBuffers := 12,
             m_inInfo := [50 \<mapsto> demo_in_info],
             m_mem := [100 \<mapsto> replicate 14 0, 200 \<mapsto> replicate 20 0, 300 \<mapsto> replicate 10 7, 400 \<mapsto> replicate 1024 5]\<rparr>\<rparr>)"

lemmas demo_adec_simps =
  demo_adec_def demo_members_def demo_aac_def demo_in_buffer_def demo_in_info_def demo_adec_env_def new_BOMX_Component_def SetRole_def new_BOMX_AudioPort_def
  new_BOMX_Port_def strncpy_str_def initial_members_def new_BOMX_InputBuffer_def new_BOMX_Buffer_def GetComponentPrivate_def

end
