(* ===== verification/Adec_Input.thy ===== *)
theory Adec_Input
  imports Adec_Data
begin

text \<open>
  \<open>media/libstagefrighthw/bomx_audio_decoder.cpp\<close>: the way of an input buffer of the audio decoder:
  it is wrapped into PES packets, submitted to the playpump as a list of descriptors, completed
  when the playpump has consumed them and returned to the client.
\<close>

section \<open>Building the packets of a frame\<close>

text \<open>The buffer flags of the OMX IL specification.\<close>

definition OMX_BUFFERFLAG_EOS :: u32 where "OMX_BUFFERFLAG_EOS = 0x1"
definition OMX_BUFFERFLAG_CODECCONFIG :: u32 where "OMX_BUFFERFLAG_CODECCONFIG = 0x80"

text \<open>A PES header at \<open>pHeader + headerLen\<close>: the bytes written there, 0 when the rest of the block is too small.\<close>

definition pes_header_at ::
  "'b adec_env \<Rightarrow> BOMX_AudioDecoderInputBufferInfo \<Rightarrow> bool \<Rightarrow> u32 \<Rightarrow> adc \<Rightarrow> (nat \<times> adc) option" where
  "pes_header_at env info ptsValid pts' c =
     do {bs \<leftarrow> mem c (pHeader info);
         (n, h) \<leftarrow> InitHeader (e_biobits env) B_STREAM_ID (drop (headerLen info) bs)
                    (maxHeaderLen info - headerLen info) ptsValid pts';
         Some (n, put_mem (pHeader info) (take (headerLen info) bs @ h) c)}"

definition pes_length_at :: "addr \<Rightarrow> nat \<Rightarrow> nat \<Rightarrow> adc \<Rightarrow> adc option" where
  "pes_length_at a off len c =
     do {bs \<leftarrow> mem c a; h \<leftarrow> SetPayloadLength (drop off bs) (of_nat len); Some (put_mem a (take off bs @ h) c)}"

text \<open>The loop over the rest of the data: \<open>payload\<close> is block and offset, \<open>rest\<close> the number of bytes left.\<close>

function residual_packets ::
  "'b adec_env \<Rightarrow> nat \<Rightarrow> addr \<Rightarrow> nat \<Rightarrow> nat \<Rightarrow> BOMX_AudioDecoderInputBufferInfo
   \<Rightarrow> NEXUS_PlaypumpScatterGatherDescriptor list \<Rightarrow> adc
   \<Rightarrow> (OMX_ERRORTYPE \<times> BOMX_AudioDecoderInputBufferInfo \<times> NEXUS_PlaypumpScatterGatherDescriptor list \<times> adc) option" where
  "residual_packets env maxDescriptors block off rest info descs c =
     (if rest = 0 then Some (OMX_ErrorNone, info, descs, c)
      else if maxDescriptors < length descs + 2 then Some (BOMX_ERR_TRACE OMX_ErrorBadParameter, info, descs, c)
      else do {
        (headerBytes, c) \<leftarrow> pes_header_at env info False 0 c;
        if headerBytes = 0 then Some (BOMX_ERR_TRACE OMX_ErrorBadParameter, info, descs, c)
        else do {
          let hoff = headerLen info;
          let info = info\<lparr>headerLen := headerLen info + headerBytes\<rparr>;
          let avail = B_MAX_PES_PACKET_LENGTH - (headerBytes - B_PES_HEADER_START_BYTES);
          let n = (if avail \<ge> rest then rest else avail);
          let descs = descs @ [\<lparr>desc_block = pHeader info, desc_offset = hoff, desc_length = headerBytes\<rparr>,
                               \<lparr>desc_block = block, desc_offset = off, desc_length = n\<rparr>];
          c \<leftarrow> pes_length_at (pHeader info) hoff (B_MAX_PES_PACKET_LENGTH - (avail - n)) c;
          residual_packets env maxDescriptors block (off + n) (rest - n) info descs c}})"
  by pat_completeness auto
termination by (relation "measure (\<lambda>(env, m, block, off, rest, info, descs, c). m - length descs)") auto

declare residual_packets.simps [simp del]

text \<open>
  The steps of \<open>BuildInputFrame\<close>: copying the frame into hardware memory, the descriptor of the
  codec configuration, that of the codec header, and what follows the loop. Flushing the data
  cache has no effect on the bytes and is left out.
\<close>

definition copy_payload :: "BOMX_AudioDecoderInputBufferInfo \<Rightarrow> OMX_BUFFERHEADERTYPE \<Rightarrow> nat \<Rightarrow> adc \<Rightarrow> adc option" where
  "copy_payload info h n c =
     (if pPayload info \<noteq> NULL \<and> n > 0
      then do {bs \<leftarrow> read_at c (bh_pBuffer h) (unat (nOffset h)) n; write_at (pPayload info) 0 bs c} else Some c)"

definition config_desc :: "nat \<Rightarrow> adc \<Rightarrow> (nat \<times> NEXUS_PlaypumpScatterGatherDescriptor list) option" where
  "config_desc avail c =
     (let cfg = m_configBufferSize (m_sub c) in
      if m_configBufferState (m_sub c) \<noteq> ConfigBufferState_eSubmitted then
        if avail < cfg then None
        else if cfg > 0
        then Some (avail - cfg, [\<lparr>desc_block = m_pConfigBuffer (m_sub c), desc_offset = 0, desc_length = cfg\<rparr>])
        else Some (avail, [])
      else Some (avail, []))"

definition codec_desc ::
  "BOMX_AudioDecoderInputBufferInfo \<Rightarrow> u8 list \<Rightarrow> nat \<Rightarrow> adc
   \<Rightarrow> (nat \<times> NEXUS_PlaypumpScatterGatherDescriptor list \<times> BOMX_AudioDecoderInputBufferInfo \<times> adc) option" where
  "codec_desc info codecHeader avail c =
     (if codecHeader \<noteq> [] then
        if avail < length codecHeader then None
        else do {c \<leftarrow> write_at (pHeader info) (headerLen info) codecHeader c;
                 Some (avail - length codecHeader,
                   [\<lparr>desc_block = pHeader info, desc_offset = headerLen info, desc_length = length codecHeader\<rparr>],
                   info\<lparr>headerLen := headerLen info + length codecHeader\<rparr>, c)}
      else Some (avail, [], info, c))"

definition finish_frame ::
  "addr \<Rightarrow> bool \<Rightarrow> OMX_BUFFERHEADERTYPE \<Rightarrow> u32
   \<Rightarrow> OMX_ERRORTYPE \<times> BOMX_AudioDecoderInputBufferInfo \<times> NEXUS_PlaypumpScatterGatherDescriptor list \<times> adc
   \<Rightarrow> (OMX_ERRORTYPE \<times> NEXUS_PlaypumpScatterGatherDescriptor list \<times> adc) option" where
  "finish_frame pInfo configSubmitted h chunkLength r =
     (let (err, info, descs, c) = r; c = put_in_info pInfo info c in
      if err \<noteq> OMX_ErrorNone
      then Some (err, [], if configSubmitted then sub (\<lambda>s. s\<lparr>m_configBufferState := ConfigBufferState_eAccumulating\<rparr>) c else c)
      else do {
        h \<leftarrow> InputBuffer_UpdateBuffer h chunkLength;
        Some (OMX_ErrorNone, descs, put_header (pPlatformPrivate h) h c)})"

text \<open>The result is the error, the descriptors and the component; \<open>codecHeader\<close> are the bytes at \<open>pCodecHeader\<close>.\<close>

definition BuildInputFrame ::
  "'b adec_env \<Rightarrow> addr \<Rightarrow> bool \<Rightarrow> u32 \<Rightarrow> u32 \<Rightarrow> u8 list \<Rightarrow> nat \<Rightarrow> adc
   \<Rightarrow> (OMX_ERRORTYPE \<times> NEXUS_PlaypumpScatterGatherDescriptor list \<times> adc) option" where
  "BuildInputFrame env hdr first chunkLength pts' codecHeader maxDescriptors c =
     do {
       object \<leftarrow> m_heap c hdr;
       (pInfo, info) \<leftarrow> in_info c (pPlatformPrivate (m_header object));
       if maxDescriptors < 4 then Some (BOMX_ERR_TRACE OMX_ErrorBadParameter, [], c)
       else do {
         let h = m_header object;
         let n = unat chunkLength;
         c \<leftarrow> copy_payload info h n c;
         let (block, off) = (if pPayload info \<noteq> NULL then (pPayload info, 0) else (bh_pBuffer h, unat (nOffset h)));
         let info = (if first then info\<lparr>headerLen := 0\<rparr> else info);
         (headerBytes, c) \<leftarrow> pes_header_at env info True pts' c;
         if headerBytes = 0 then Some (BOMX_ERR_TRACE OMX_ErrorBadParameter, [], put_in_info pInfo info c)
         else do {
           let hoff = headerLen info;
           let info = info\<lparr>headerLen := headerLen info + headerBytes\<rparr>;
           let avail = B_MAX_PES_PACKET_LENGTH - (headerBytes - B_PES_HEADER_START_BYTES);
           (avail, cfgs) \<leftarrow> config_desc avail c;
           let configSubmitted = (m_configBufferState (m_sub c) \<noteq> ConfigBufferState_eSubmitted);
           let c = sub (\<lambda>s. s\<lparr>m_configBufferState := ConfigBufferState_eSubmitted\<rparr>) c;
           (avail, hdrs, info, c) \<leftarrow> codec_desc info codecHeader avail c;
           let m = (if avail \<ge> n then n else avail);
           let descs = \<lparr>desc_block = pHeader info, desc_offset = hoff, desc_length = headerBytes\<rparr> # cfgs @ hdrs @
                       (if n > 0 then [\<lparr>desc_block = block, desc_offset = off, desc_length = m\<rparr>] else []);
           c \<leftarrow> pes_length_at (pHeader info) hoff (B_MAX_PES_PACKET_LENGTH - (avail - m)) c;
           r \<leftarrow> residual_packets env maxDescriptors block (off + m) (n - m) info descs c;
           finish_frame pInfo configSubmitted h chunkLength r}}}"

section \<open>Counting the buffers the client holds\<close>

definition B_FRAME_TIMER_INTERVAL :: nat where "B_FRAME_TIMER_INTERVAL = 32"
definition B_INPUT_BUFFERS_RETURN_INTERVAL :: nat where "B_INPUT_BUFFERS_RETURN_INTERVAL = 5000"

text \<open>The reference argument of \<open>CancelTimerId\<close> is a member: its selector and its update.\<close>

definition CancelTimerId ::
  "(BOMX_AudioDecoder \<Rightarrow> addr) \<Rightarrow> ((addr \<Rightarrow> addr) \<Rightarrow> BOMX_AudioDecoder \<Rightarrow> BOMX_AudioDecoder) \<Rightarrow> adc \<Rightarrow> adc" where
  "CancelTimerId timerId set_timerId c =
     (if timerId (m_sub c) \<noteq> NULL
      then sub (set_timerId (\<lambda>_. NULL)) (nexus (CancelTimer (timerId (m_sub c))) c) else c)"

definition InputBufferNew :: "'b adec_env \<Rightarrow> adc \<Rightarrow> adc option" where
  "InputBufferNew env c =
     (if \<not> m_AvailInputBuffers (m_sub c) > 0 then None
      else
        let c = sub (\<lambda>s. s\<lparr>m_AvailInputBuffers := m_AvailInputBuffers s - 1\<rparr>) c in
        if m_AvailInputBuffers (m_sub c) = 0 then
          let c = CancelTimerId m_inputBuffersTimerId m_inputBuffersTimerId_update c;
              t = e_handle env (nlog c)
          in Some (sub (\<lambda>s. s\<lparr>m_inputBuffersTimerId := t\<rparr>) (nexus (StartTimer B_INPUT_BUFFERS_RETURN_INTERVAL) c))
        else Some c)"

definition InputBufferReturned :: "adc \<Rightarrow> adc option" where
  "InputBufferReturned c =
     (let totalBuffers = nBufferCountActual (m_definition (in_port c));
          c = CancelTimerId m_inputBuffersTimerId m_inputBuffersTimerId_update c;
          c = sub (\<lambda>s. s\<lparr>m_AvailInputBuffers := m_AvailInputBuffers s + 1\<rparr>) c
      in if m_AvailInputBuffers (m_sub c) \<le> totalBuffers then Some c else None)"

definition InputBufferCounterReset :: "adc \<Rightarrow> adc" where
  "InputBufferCounterReset c =
     (let c = CancelTimerId m_inputBuffersTimerId m_inputBuffersTimerId_update c
      in sub (\<lambda>s. s\<lparr>m_AvailInputBuffers := nBufferCountActual (m_definition (in_port c))\<rparr>) c)"

section \<open>Submitting a buffer\<close>

text \<open>
  \<open>SubmitScatterGatherDescriptor\<close>: the error and how many descriptors were taken; all must be. The
  answers depend on the log with the call itself, that is on the descriptors.
\<close>

definition submit ::
  "'b adec_env \<Rightarrow> NEXUS_PlaypumpScatterGatherDescriptor list \<Rightarrow> adc \<Rightarrow> (bool \<times> adc) option" where
  "submit env descs c =
     (let c = nexus (Submit descs) c; errCode = e_error env (nlog c); numConsumed = e_consumed env (nlog c) in
      if errCode \<noteq> 0 then Some (False, c)
      else if numConsumed \<noteq> length descs then None
      else Some (True, sub (\<lambda>s. s\<lparr>m_submittedDescriptors := m_submittedDescriptors s + of_nat numConsumed\<rparr>) c))"

definition add_descriptors :: "addr \<Rightarrow> u32 \<Rightarrow> adc \<Rightarrow> adc option" where
  "add_descriptors b n c =
     do {(a, i) \<leftarrow> in_info c b; Some (put_in_info a (i\<lparr>numDescriptors := numDescriptors i + n\<rparr>) c)}"

definition queue_input :: "'b adec_env \<Rightarrow> addr \<Rightarrow> adc \<Rightarrow> (OMX_ERRORTYPE \<times> adc) option" where
  "queue_input env hdr c =
     do {c \<leftarrow> InputBufferNew env c;
         object \<leftarrow> m_heap c hdr;
         (err, p) \<leftarrow> QueueBuffer (in_port c) (m_header object);
         Some (err, set_in p c)}"

text \<open>Codec configuration data is collected and sent with the next frame.\<close>

definition empty_config_buffer :: "'b adec_env \<Rightarrow> addr \<Rightarrow> OMX_BUFFERHEADERTYPE \<Rightarrow> adc \<Rightarrow> (OMX_ERRORTYPE \<times> adc) option" where
  "empty_config_buffer env hdr h c =
     do {
       bs \<leftarrow> read_at c (bh_pBuffer h) (unat (nOffset h)) (unat (nFilledLen h));
       let c = (if GetCodec env c = OMX_AUDIO_CodingAAC \<and> m_eAACStreamFormat (m_sub c) = OMX_AUDIO_AACStreamFormatMP4FF
                then sub (\<lambda>s. s\<lparr>m_ascInfo := snd (ParseASC (e_batom env) (e_biobits env) bs (m_ascInfo s))\<rparr>) c else c);
       let c = (if m_configBufferState (m_sub c) \<noteq> ConfigBufferState_eAccumulating then snd (ConfigBufferInit env c) else c);
       (err, c) \<leftarrow> ConfigBufferAppend bs c;
       if err \<noteq> OMX_ErrorNone then Some (BOMX_ERR_TRACE err, c)
       else queue_input env hdr c}"

text \<open>The ADTS header of a raw AAC frame, in \<open>m_pBcmaHeader\<close>.\<close>

definition codec_header :: "'b adec_env \<Rightarrow> u32 \<Rightarrow> adc \<Rightarrow> (u8 list \<times> adc) option" where
  "codec_header env frameLength c =
     (if GetCodec env c = OMX_AUDIO_CodingAAC \<and> m_eAACStreamFormat (m_sub c) = OMX_AUDIO_AACStreamFormatMP4FF
      then do {(ok, n, hd) \<leftarrow> SetupAdtsHeader (e_biobits env) (m_pBcmaHeader (m_sub c)) (length (m_pBcmaHeader (m_sub c)))
                                (ucast frameLength) (m_ascInfo (m_sub c));
               Some (take n hd, sub (\<lambda>s. s\<lparr>m_pBcmaHeader := hd\<rparr>) c)}
      else Some ([], c))"

text \<open>The frame itself (one per buffer): the error \<open>None\<close> when it was sent and queued.\<close>

definition empty_frame :: "'b adec_env \<Rightarrow> addr \<Rightarrow> adc \<Rightarrow> (OMX_ERRORTYPE \<times> adc) option" where
  "empty_frame env hdr c =
     do {
       object \<leftarrow> m_heap c hdr;
       let frameLength = nFilledLen (m_header object);
       (pInfo, info) \<leftarrow> in_info c (pPlatformPrivate (m_header object));
       (ok, p, t) \<leftarrow> Tracker_Add (e_node env (nlog c)) (m_pBufferTracker (m_sub c)) (m_header object);
       let pts' = (if ok then case p of Some x \<Rightarrow> x | None \<Rightarrow> info_pts info else BOMX_TickToPts (nTimeStamp (m_header object)));
       let c = put_in_info pInfo (info\<lparr>info_pts := pts'\<rparr>) (sub (\<lambda>s. s\<lparr>m_pBufferTracker := t\<rparr>) c);
       (codecHeader, c) \<leftarrow> codec_header env frameLength c;
       (err, descs, c) \<leftarrow> BuildInputFrame env hdr True frameLength pts' codecHeader B_MAX_DESCRIPTORS_PER_BUFFER c;
       if err \<noteq> OMX_ErrorNone then Some (BOMX_ERR_TRACE err, c)
       else if length descs > B_MAX_DESCRIPTORS_PER_BUFFER then None
       else do {
         (sent, c) \<leftarrow> submit env descs c;
         if \<not> sent then Some (BOMX_ERR_TRACE OMX_ErrorUndefined, c)
         else do {
           c \<leftarrow> add_descriptors (pPlatformPrivate (m_header object)) (of_nat (length descs)) c;
           (err, c) \<leftarrow> queue_input env hdr c;
           Some (if err \<noteq> OMX_ErrorNone then BOMX_ERR_TRACE err else OMX_ErrorNone, c)}}}"

definition BOMX_AUDIO_EOS_LEN :: nat where "BOMX_AUDIO_EOS_LEN = B_BPP_PACKET_LEN"

definition submit_eos :: "'b adec_env \<Rightarrow> addr \<Rightarrow> bool \<Rightarrow> adc \<Rightarrow> (OMX_ERRORTYPE \<times> adc) option" where
  "submit_eos env b emptyBuffer c =
     do {
       (sent, c) \<leftarrow> submit env [\<lparr>desc_block = m_pEosBuffer (m_sub c), desc_offset = 0, desc_length = BOMX_AUDIO_EOS_LEN\<rparr>] c;
       if \<not> sent then Some (BOMX_ERR_TRACE OMX_ErrorUndefined, c)
       else do {
         c \<leftarrow> add_descriptors b 1 c;
         Some (OMX_ErrorNone, sub (\<lambda>s. s\<lparr>m_eosPending := True, m_eosStandalone := emptyBuffer\<rparr>) c)}}"

definition Adec_EmptyThisBuffer :: "'b adec_env \<Rightarrow> addr \<Rightarrow> adc \<Rightarrow> (OMX_ERRORTYPE \<times> adc) option" where
  "Adec_EmptyThisBuffer env hdr c =
     do {
       object \<leftarrow> m_heap c hdr;
       let h = m_header object;
       if pPlatformPrivate h = NULL then Some (BOMX_ERR_TRACE OMX_ErrorBadParameter, c)
       else do {
         pBuffer \<leftarrow> m_heap c (pPlatformPrivate h);
         if m_dir pBuffer \<noteq> OMX_DirInput then Some (BOMX_ERR_TRACE OMX_ErrorBadParameter, c)
         else if nFilledLen h + nOffset h > nAllocLen h then Some (BOMX_ERR_TRACE OMX_ErrorBadParameter, c)
         else if nInputPortIndex h \<noteq> m_audioPortBase c then Some (BOMX_ERR_TRACE OMX_ErrorBadParameter, c)
         else if GetComponentPrivate pBuffer = NULL then Some (BOMX_ERR_TRACE OMX_ErrorBadParameter, c)
         else do {
           (pInfo, info) \<leftarrow> in_info c (pPlatformPrivate h);
           let c = put_in_info pInfo (info\<lparr>numDescriptors := 0, complete := False\<rparr>) c;
           if nFlags h AND OMX_BUFFERFLAG_CODECCONFIG \<noteq> 0 then empty_config_buffer env hdr h c
           else do {
             let emptyBuffer = (nFilledLen h = 0);
             (err, c) \<leftarrow> (if \<not> emptyBuffer then empty_frame env hdr c else queue_input env hdr c);
             if err \<noteq> OMX_ErrorNone then Some (BOMX_ERR_TRACE err, c)
             else do {
               let c = (if emptyBuffer then nexus SetPlaypumpEvent c else c);
               (err, c) \<leftarrow> (if nFlags h AND OMX_BUFFERFLAG_EOS \<noteq> 0 then submit_eos env (pPlatformPrivate h) emptyBuffer c
                           else Some (OMX_ErrorNone, c));
               if err \<noteq> OMX_ErrorNone then Some (err, c)
               else Some (OMX_ErrorNone, if m_queueDepth (out_port c) > 0 then nexus SetOutputFrameEvent c else c)}}}}}"

section \<open>Completing and returning buffers\<close>

text \<open>Every buffer of the port has its information object (the compare function asserts it).\<close>

definition FindBufferFromPts :: "adc \<Rightarrow> u32 \<Rightarrow> BOMX_Buffer option \<Rightarrow> bool" where
  "FindBufferFromPts c pts' b =
     (case b of None \<Rightarrow> False
      | Some x \<Rightarrow> (case m_inInfo (m_sub c) (GetComponentPrivate x) of None \<Rightarrow> False | Some i \<Rightarrow> info_pts i = pts'))"

text \<open>The loop over the queued buffers in front of the one the decoder reads.\<close>

fun complete_buffers :: "u32 \<Rightarrow> addr list \<Rightarrow> adc \<Rightarrow> adc option" where
  "complete_buffers numComplete [] c = Some c"
| "complete_buffers numComplete (b # bs) c =
     do {
       (a, i) \<leftarrow> in_info c b;
       if complete i then complete_buffers numComplete bs c
       else if numComplete \<ge> numDescriptors i then
         if m_submittedDescriptors (m_sub c) \<ge> numDescriptors i then
           complete_buffers (numComplete - numDescriptors i) bs
             (put_in_info a (i\<lparr>complete := True\<rparr>)
               (sub (\<lambda>s. s\<lparr>m_submittedDescriptors := m_submittedDescriptors s - numDescriptors i\<rparr>) c))
         else None
       else Some c}"

definition fifo_head :: "'b adec_env \<Rightarrow> adc \<Rightarrow> addr \<times> adc" where
  "fifo_head env c =
     (if m_hAudioDecoder (m_sub c) \<noteq> NULL then
        let (errCode, coded, pts') = e_decoder env (nlog c); c = nexus Decoder_GetStatus c;
            b = (if errCode = 0 \<and> coded then FindBuffer (m_heap c) (in_port c) (Some (FindBufferFromPts c pts')) else NULL)
        in (if b \<noteq> NULL then GetNextBuffer (in_port c) b else b, c)
      else (NULL, c))"

definition PlaypumpEvent :: "'b adec_env \<Rightarrow> adc \<Rightarrow> adc option" where
  "PlaypumpEvent env c =
     (let c = CancelTimerId m_playpumpTimerId m_playpumpTimerId_update c in
      if m_hPlaypump (m_sub c) = NULL then Some c
      else
        let (started, descFifoDepth) = e_playpump env (nlog c); c = nexus Playpump_GetStatus c in
        if \<not> started then Some c
        else do {
          let (pFifoHead, c) = fifo_head env c;
          let numComplete = m_submittedDescriptors (m_sub c) - descFifoDepth;
          c \<leftarrow> complete_buffers numComplete (takeWhile (\<lambda>b. b \<noteq> pFifoHead) (m_bufferQueue (in_port c))) c;
          Some (if pFifoHead \<noteq> NULL
                then sub (\<lambda>s. s\<lparr>m_playpumpTimerId := e_handle env (nlog c)\<rparr>) (nexus (StartTimer B_FRAME_TIMER_INTERVAL) c)
                else c)})"

definition ReturnInputPortBuffer :: "addr \<Rightarrow> adc \<Rightarrow> (bool \<times> adc) option" where
  "ReturnInputPortBuffer b c =
     do {(p, c) \<leftarrow> ReturnPortBuffer (in_port c) b c;
         c \<leftarrow> InputBufferReturned (set_in p c);
         x \<leftarrow> m_heap c b;
         Some (nFlags (m_header x) AND OMX_BUFFERFLAG_CODECCONFIG = 0, c)}"

text \<open>The first loop of \<open>ReturnInputBuffers\<close>: the last buffer to return.\<close>

fun return_scan :: "adc \<Rightarrow> s64 \<Rightarrow> bool \<Rightarrow> addr list \<Rightarrow> addr \<Rightarrow> addr option" where
  "return_scan c decodeTs causedByTimeout [] ret = Some ret"
| "return_scan c decodeTs causedByTimeout (b # bs) ret =
     do {
       (a, i) \<leftarrow> in_info c b;
       if \<not> complete i then Some ret
       else if causedByTimeout \<or> ret = NULL then return_scan c decodeTs causedByTimeout bs b
       else do {x \<leftarrow> m_heap c b;
                if nTimeStamp (m_header x) = decodeTs then Some b else return_scan c decodeTs causedByTimeout bs ret}}"

text \<open>The second loop, over the queue as it was before: every buffer up to \<open>ret\<close>.\<close>

fun return_until :: "addr \<Rightarrow> addr list \<Rightarrow> adc \<Rightarrow> adc option" where
  "return_until ret [] c = None"
| "return_until ret (b # bs) c =
     do {(counted, c) \<leftarrow> ReturnInputPortBuffer b c; if b = ret then Some c else return_until ret bs c}"

definition ReturnInputBuffers :: "'b adec_env \<Rightarrow> s64 \<Rightarrow> bool \<Rightarrow> adc \<Rightarrow> adc option" where
  "ReturnInputBuffers env decodeTs causedByTimeout c =
     do {
       c \<leftarrow> PlaypumpEvent env c;
       ret \<leftarrow> return_scan c decodeTs causedByTimeout (m_bufferQueue (in_port c)) NULL;
       if ret \<noteq> NULL then return_until ret (m_bufferQueue (in_port c)) c else Some c}"

definition InputBufferTimeoutCallback :: "'b adec_env \<Rightarrow> adc \<Rightarrow> adc option" where
  "InputBufferTimeoutCallback env c =
     ReturnInputBuffers env 0 True (CancelTimerId m_inputBuffersTimerId m_inputBuffersTimerId_update c)"

end
