(* ===== verification/Adec_Packets.thy ===== *)
theory Adec_Packets
  imports Adec_Input
begin

text \<open>
  What the playpump is given for a frame: the bytes behind the descriptors of \<open>BuildInputFrame\<close>,
  read back by a reader of PES packets.
\<close>

section \<open>Reading PES packets back\<close>

text \<open>
  A reader of a stream of PES packets: it skips the 6 byte prefix and the header of each packet,
  whose size is 9 plus the byte at offset 8, and collects the payloads.
\<close>

function depacketize :: "u8 list \<Rightarrow> u8 list option" where
  "depacketize bs =
     (if bs = [] then Some []
      else if length bs < 9 \<or> take 3 bs \<noteq> [0, 0, 1] then None
      else
        let n = pes_length bs + 6; h = 9 + unat (bs ! 8) in
        if length bs < n \<or> n < h then None
        else map_option (\<lambda>rest. drop h (take n bs) @ rest) (depacketize (drop n bs)))"
  by pat_completeness auto
termination by (relation "measure length") auto

declare depacketize.simps [simp del]

lemma depacketize_Nil [simp]: "depacketize [] = Some []"
  by (simp add: depacketize.simps)

lemma depacketize_packet:
  assumes "take 3 p = [0, 0, 1]" "9 \<le> length p" "pes_length p + 6 = length p" "9 + unat (p ! 8) \<le> length p"
  shows "depacketize (p @ rest) = map_option ((@) (drop (9 + unat (p ! 8)) p)) (depacketize rest)"
proof -
  have n: "pes_length (p @ rest) = pes_length p" "(p @ rest) ! 8 = p ! 8"
    using assms(2) by (simp_all add: pes_length_def nth_append)
  show ?thesis
    unfolding depacketize.simps [of "p @ rest"] Let_def n using assms by auto
qed

definition desc_bytes :: "adc \<Rightarrow> NEXUS_PlaypumpScatterGatherDescriptor \<Rightarrow> u8 list" where
  "desc_bytes c d = (case mem c (desc_block d) of None \<Rightarrow> [] | Some bs \<Rightarrow> take (desc_length d) (drop (desc_offset d) bs))"

definition stream :: "adc \<Rightarrow> NEXUS_PlaypumpScatterGatherDescriptor list \<Rightarrow> u8 list" where
  "stream c ds = concat (map (desc_bytes c) ds)"

text \<open>Descriptors whose bytes a change of the block behind \<open>n\<close> does not touch.\<close>

definition stable :: "addr \<Rightarrow> nat \<Rightarrow> NEXUS_PlaypumpScatterGatherDescriptor list \<Rightarrow> bool" where
  "stable a n ds = list_all (\<lambda>d. desc_block d = a \<longrightarrow> desc_offset d + desc_length d \<le> n) ds"

lemma stream_stable:
  assumes "stable a n ds" "mem c a = Some bs" "take n bs' = take n bs"
  shows "stream (put_mem a bs' c) ds = stream c ds"
proof -
  have "take l (drop off bs') = take l (drop off bs)" if "off + l \<le> n" for off l
    using that assms(3) by (metis (no_types, lifting) drop_take le_add_diff_inverse min.absorb1 min.absorb2 take_drop take_take add.commute)
  then show ?thesis using assms(1,2)
    by (induction ds) (auto simp: stream_def stable_def desc_bytes_def split: option.splits)
qed

lemma pes_header_residual:
  assumes "mem c (pHeader info) = Some hb" "length hb = maxHeaderLen info" "headerLen info \<le> maxHeaderLen info"
  shows "pes_header_at env info False 0 c =
    (if headerLen info + 9 \<le> maxHeaderLen info
     then Some (9, put_mem (pHeader info) (take (headerLen info) hb @ [0, 0, 1, 0xc0, 0, 0, 0x81, 0, 0] @ drop (headerLen info + 9) hb) c)
     else Some (0, put_mem (pHeader info) hb c))"
proof (cases "headerLen info + 9 \<le> maxHeaderLen info")
  case True
  then have "InitHeader (e_biobits env) B_STREAM_ID (drop (headerLen info) hb) (maxHeaderLen info - headerLen info) False 0 =
    Some (9, [0, 0, 1, 0xc0, 0, 0, 0x81, 0, 0] @ drop 9 (drop (headerLen info) hb))"
    using assms by (subst InitHeader_no_pts) (simp_all add: B_STREAM_ID_def)
  with True assms(1) show ?thesis by (simp add: pes_header_at_def add.commute)
next
  case False
  then have "maxHeaderLen info - headerLen info < 9" using assms by simp
  with False assms(1) show ?thesis by (simp add: pes_header_at_def InitHeader_too_small)
qed

lemma pes_length_at_ok:
  assumes "mem c a = Some (pre @ H @ post)" "length pre = off" "6 \<le> length H" "len < 65536"
  shows "\<exists>hi lo. pes_length_at a off len c = Some (put_mem a (pre @ (take 4 H @ [hi, lo] @ drop 6 H) @ post) c)
    \<and> 256 * unat hi + unat lo = len"
proof -
  from SetPayloadLength_bytes [of "H @ post" "of_nat len"] assms(3) obtain hi lo
    where s: "SetPayloadLength (H @ post) (of_nat len) = Some (take 4 (H @ post) @ [hi, lo] @ drop 6 (H @ post))"
      "256 * unat hi + unat lo = unat (of_nat len :: u16)" by auto
  have "unat (of_nat len :: u16) = len" using assms(4) by (simp add: unat_of_nat)
  with s assms show ?thesis by (intro exI [of _ hi] exI [of _ lo]) (simp add: pes_length_at_def)
qed

lemma take_split: "a \<le> r \<Longrightarrow> take a xs @ take (r - a) (drop a xs) = take r xs"
  using take_add [of a "r - a" xs] by simp

lemma residual_packets_ok:
  assumes "residual_packets env mx block off rest info descs c = Some (OMX_ErrorNone, info', descs', c')"
    and "mem c (pHeader info) = Some hb" "length hb = maxHeaderLen info" "headerLen info \<le> maxHeaderLen info"
    and "mem c block = Some pb" "off + rest \<le> length pb" "block \<noteq> pHeader info" "stable (pHeader info) (headerLen info) descs"
    and "length descs \<le> mx"
  shows "\<exists>ds hb'. descs' = descs @ ds \<and> length descs' \<le> mx \<and> c' = put_mem (pHeader info) hb' c
    \<and> length hb' = length hb \<and> take (headerLen info) hb' = take (headerLen info) hb
    \<and> depacketize (stream c' ds) = Some (take rest (drop off pb)) \<and> pHeader info' = pHeader info"
  using assms
proof (induction rest arbitrary: off info descs c hb rule: less_induct)
  case (less rest)
  note prems = less.prems
  show ?case
  proof (cases "rest = 0")
    case True
    with prems show ?thesis
      by (intro exI [of _ "[]"] exI [of _ hb]) (auto simp: residual_packets.simps [of env mx] stream_def put_mem_def sub_def fun_upd_idem)
  next
    case False
    let ?L = "headerLen info" and ?a = "pHeader info"
    let ?H = "[0, 0, 1, 0xc0, 0, 0, 0x81, 0, 0] :: u8 list"
    have dl: "length descs + 2 \<le> mx" and hl: "?L + 9 \<le> maxHeaderLen info"
      using prems False by (auto simp: residual_packets.simps [of env mx] pes_header_residual [OF prems(2-4)] Let_def split: if_splits)
    let ?c1 = "put_mem ?a (take ?L hb @ ?H @ drop (?L + 9) hb) c"
    have h1: "pes_header_at env info False 0 c = Some (9, ?c1)" using pes_header_residual [OF prems(2-4)] hl by simp
    let ?n = "if 65532 \<ge> rest then rest else 65532"
    have n: "0 < ?n" "?n \<le> rest" using False by auto
    have len: "65535 - (65532 - ?n) < 65536" by simp
    from pes_length_at_ok [OF _ _ _ len, of ?c1 ?a "take ?L hb" ?H "drop (?L + 9) hb" ?L] prems(3,4)
    obtain hi lo where h2: "pes_length_at ?a ?L (65535 - (65532 - ?n)) ?c1 =
        Some (put_mem ?a (take ?L hb @ (take 4 ?H @ [hi, lo] @ drop 6 ?H) @ drop (?L + 9) hb) ?c1)"
      and v: "256 * unat hi + unat lo = 65535 - (65532 - ?n)" by auto
    let ?H' = "[0, 0, 1, 0xc0, hi, lo, 0x81, 0, 0] :: u8 list"
    let ?hb2 = "take ?L hb @ ?H' @ drop (?L + 9) hb"
    let ?c2 = "put_mem ?a ?hb2 c"
    let ?info = "info\<lparr>headerLen := ?L + 9\<rparr>"
    let ?d1 = "\<lparr>desc_block = ?a, desc_offset = ?L, desc_length = 9\<rparr>"
    let ?d2 = "\<lparr>desc_block = block, desc_offset = off, desc_length = ?n\<rparr>"
    have rec: "residual_packets env mx block (off + ?n) (rest - ?n) ?info (descs @ [?d1, ?d2]) ?c2 = Some (OMX_ErrorNone, info', descs', c')"
      using prems(1) False dl h1 h2
      by (simp add: residual_packets.simps [of env mx block off rest] B_MAX_PES_PACKET_LENGTH_def B_PES_HEADER_START_BYTES_def Let_def
          split del: if_split)
    have lb: "length ?hb2 = length hb" using prems(3) hl by simp
    have "\<exists>ds hb'. descs' = (descs @ [?d1, ?d2]) @ ds \<and> length descs' \<le> mx \<and> c' = put_mem (pHeader ?info) hb' ?c2
      \<and> length hb' = length ?hb2 \<and> take (headerLen ?info) hb' = take (headerLen ?info) ?hb2
      \<and> depacketize (stream c' ds) = Some (take (rest - ?n) (drop (off + ?n) pb)) \<and> pHeader info' = pHeader ?info"
    proof (rule less.IH [OF _ rec])
      show "rest - ?n < rest" using n by simp
    qed (use prems lb hl dl n in \<open>auto simp: stable_def list_all_iff\<close>)
    then obtain ds hb' where r: "descs' = (descs @ [?d1, ?d2]) @ ds" "length descs' \<le> mx" "c' = put_mem ?a hb' c"
      "length hb' = length hb" "take (?L + 9) hb' = take (?L + 9) ?hb2"
      "depacketize (stream c' ds) = Some (take (rest - ?n) (drop (off + ?n) pb))" "pHeader info' = ?a"
      using lb by auto
    have t: "take ?L hb' = take ?L hb" "take 9 (drop ?L hb') = ?H'"
      using arg_cong [OF r(5), of "take ?L"] arg_cong [OF r(5), of "drop ?L"] prems(3) hl by (simp_all add: take_drop add.commute)
    let ?p = "?H' @ take ?n (drop off pb)"
    have "stream c' ([?d1, ?d2] @ ds) = ?p @ stream c' ds"
      using r(3) t(2) prems(5,7) by (simp add: stream_def desc_bytes_def)
    moreover have "depacketize (?p @ stream c' ds) = map_option ((@) (drop (9 + unat (?p ! 8)) ?p)) (depacketize (stream c' ds))"
    proof (rule depacketize_packet)
      show "pes_length ?p + 6 = length ?p" using v prems(6) n by (simp add: pes_length_def split: if_splits)
    qed simp_all
    moreover have "take ?n (drop off pb) @ take (rest - ?n) (drop (off + ?n) pb) = take rest (drop off pb)"
      using n(2) take_split [of ?n rest "drop off pb"] by (simp only: drop_drop add.commute)
    ultimately show ?thesis using r t(1)
      by (intro exI [of _ "[?d1, ?d2] @ ds"] exI [of _ hb']) simp
  qed
qed

section \<open>The packets of a frame\<close>

definition pes_head :: "u32 \<Rightarrow> u8 list" where
  "pes_head pts' = map ucast ([0, 0, 1, 0xc0, 0, 0, 0x81, 0x80, 5] @ pes_pts_bytes pts')"

lemma length_pes_head [simp]: "length (pes_head pts') = 14"
  by (simp add: pes_head_def pes_pts_bytes_def Let_def)

lemma pes_header_first:
  assumes "biobits_laws (e_biobits env)" "mem c (pHeader info) = Some hb" "length hb = maxHeaderLen info" "14 \<le> maxHeaderLen info"
    "headerLen info = 0"
  shows "pes_header_at env info True pts' c = Some (14, put_mem (pHeader info) (pes_head pts' @ drop 14 hb) c)"
  using biobits_laws.InitHeader_pts [OF assms(1), of "maxHeaderLen info" hb B_STREAM_ID pts'] assms
  by (simp add: pes_header_at_def pes_head_def B_STREAM_ID_def)

text \<open>A buffer ready to be sent: its information object, and four separate blocks that are large enough.\<close>

record frame =
  fr_info :: addr
  fr_object :: BOMX_AudioDecoderInputBufferInfo
  fr_header :: OMX_BUFFERHEADERTYPE
  fr_hb :: "u8 list"
  fr_data :: "u8 list"
  fr_config :: "u8 list"

definition frame_ready :: "adc \<Rightarrow> addr \<Rightarrow> nat \<Rightarrow> frame \<Rightarrow> bool" where
  "frame_ready c hdr codec f =
     (let h = fr_header f; i = fr_object f; s = m_sub c in
      map_option m_header (m_heap c hdr) = Some h \<and> pPlatformPrivate h = hdr \<and> in_info c hdr = Some (fr_info f, i)
      \<and> mem c (pHeader i) = Some (fr_hb f) \<and> length (fr_hb f) = maxHeaderLen i \<and> 14 + codec \<le> maxHeaderLen i
      \<and> read_at c (bh_pBuffer h) (unat (nOffset h)) (unat (nFilledLen h)) = Some (fr_data f) \<and> bh_pBuffer h \<noteq> pHeader i
      \<and> (pPayload i \<noteq> NULL \<longrightarrow> (\<exists>pb. mem c (pPayload i) = Some pb \<and> unat (nFilledLen h) \<le> length pb)
                          \<and> pPayload i \<noteq> pHeader i \<and> pPayload i \<noteq> m_pConfigBuffer s)
      \<and> (if m_configBufferState s = ConfigBufferState_eSubmitted then fr_config f = []
         else read_at c (m_pConfigBuffer s) 0 (m_configBufferSize s) = Some (fr_config f) \<and> m_pConfigBuffer s \<noteq> pHeader i)
      \<and> length (fr_config f) + codec \<le> 65527)"

text \<open>Where the payload descriptors point to, and the memory after copying the data there.\<close>

definition pay_block :: "frame \<Rightarrow> addr" where
  "pay_block f = (if pPayload (fr_object f) \<noteq> NULL then pPayload (fr_object f) else bh_pBuffer (fr_header f))"

definition pay_off :: "frame \<Rightarrow> nat" where
  "pay_off f = (if pPayload (fr_object f) \<noteq> NULL then 0 else unat (nOffset (fr_header f)))"

definition copied :: "adc \<Rightarrow> frame \<Rightarrow> adc" where
  "copied c f =
     (case mem c (pPayload (fr_object f)) of
        Some pb \<Rightarrow> if pPayload (fr_object f) \<noteq> NULL \<and> fr_data f \<noteq> []
                   then put_mem (pPayload (fr_object f)) (fr_data f @ drop (length (fr_data f)) pb) c else c
      | None \<Rightarrow> c)"

lemma read_at_Some: "read_at c a off n = Some bs \<longleftrightarrow> (\<exists>m. mem c a = Some m \<and> off + n \<le> length m \<and> bs = take n (drop off m))"
  by (auto simp: read_at_def split: option.splits bind_splits if_splits)

lemma frame_data_length: "frame_ready c hdr k f \<Longrightarrow> length (fr_data f) = unat (nFilledLen (fr_header f))"
  by (auto simp: frame_ready_def Let_def read_at_Some)

lemma copied_mem:
  assumes "frame_ready c hdr k f"
  shows "mem (copied c f) (pHeader (fr_object f)) = Some (fr_hb f)"
    and "\<exists>pb. mem (copied c f) (pay_block f) = Some pb \<and> pay_off f + length (fr_data f) \<le> length pb
       \<and> take (length (fr_data f)) (drop (pay_off f) pb) = fr_data f"
    and "pay_block f \<noteq> pHeader (fr_object f)"
    and "m_configBufferState (m_sub c) \<noteq> ConfigBufferState_eSubmitted \<Longrightarrow>
       read_at (copied c f) (m_pConfigBuffer (m_sub c)) 0 (m_configBufferSize (m_sub c)) = Some (fr_config f)"
  using assms frame_data_length [OF assms]
  by (auto simp: frame_ready_def copied_def pay_block_def pay_off_def Let_def read_at_Some split: option.splits if_splits)

lemma copied_frame:
  "m_heap (copied c f) = m_heap c" "m_pConfigBuffer (m_sub (copied c f)) = m_pConfigBuffer (m_sub c)"
  "m_configBufferState (m_sub (copied c f)) = m_configBufferState (m_sub c)"
  "m_configBufferSize (m_sub (copied c f)) = m_configBufferSize (m_sub c)" "m_inInfo (m_sub (copied c f)) = m_inInfo (m_sub c)"
  by (simp_all add: copied_def put_mem_def split: option.splits)

lemma copied_shape:
  "put_mem a bs (sub (\<lambda>s. s\<lparr>m_configBufferState := st\<rparr>) (put_mem a' bs' (copied c f))) =
   sub (\<lambda>s. s\<lparr>m_mem := (mem (copied c f))(a' \<mapsto> bs', a \<mapsto> bs), m_configBufferState := st\<rparr>) c"
  "put_mem a bs (sub (\<lambda>s. s\<lparr>m_mem := M, m_configBufferState := st\<rparr>) c) = sub (\<lambda>s. s\<lparr>m_mem := M(a \<mapsto> bs), m_configBufferState := st\<rparr>) c"
  by (simp_all add: copied_def put_mem_def comp_def sub_def split: option.splits)

lemma copy_step:
  assumes "frame_ready c hdr k f"
  shows "copy_payload (fr_object f) (fr_header f) (length (fr_data f)) c = Some (copied c f)"
  using assms frame_data_length [OF assms]
  by (auto simp: frame_ready_def Let_def copied_def write_at_def copy_payload_def split: option.splits)

definition head_descs :: "adc \<Rightarrow> frame \<Rightarrow> nat \<Rightarrow> NEXUS_PlaypumpScatterGatherDescriptor list" where
  "head_descs c f K =
     [\<lparr>desc_block = pHeader (fr_object f), desc_offset = 0, desc_length = 14\<rparr>]
     @ (if fr_config f \<noteq> [] then [\<lparr>desc_block = m_pConfigBuffer (m_sub c), desc_offset = 0, desc_length = length (fr_config f)\<rparr>] else [])
     @ (if K > 0 then [\<lparr>desc_block = pHeader (fr_object f), desc_offset = 14, desc_length = K\<rparr>] else [])"

definition pay_descs :: "frame \<Rightarrow> nat \<Rightarrow> NEXUS_PlaypumpScatterGatherDescriptor list" where
  "pay_descs f m = (if fr_data f \<noteq> [] then [\<lparr>desc_block = pay_block f, desc_offset = pay_off f, desc_length = m\<rparr>] else [])"

lemma frame_config_length:
  "frame_ready c hdr k f \<Longrightarrow> m_configBufferState (m_sub c) \<noteq> ConfigBufferState_eSubmitted \<Longrightarrow> length (fr_config f) = m_configBufferSize (m_sub c)"
  by (auto simp: frame_ready_def Let_def read_at_Some)

lemma build_shape:
  fixes codec :: "u8 list" and f :: frame
  assumes laws: "biobits_laws (e_biobits env)" and r: "frame_ready c hdr (length codec) f" and mx: "4 \<le> mx"
  defines "A \<equiv> 65527 - length (fr_config f) - length codec" and "n \<equiv> length (fr_data f)"
  shows "\<exists>c1 H. BuildInputFrame env hdr True (nFilledLen (fr_header f)) pts' codec mx c =
      Option.bind (residual_packets env mx (pay_block f) (pay_off f + min n A) (n - min n A) ((fr_object f)\<lparr>headerLen := 14 + length codec\<rparr>)
          (head_descs c f (length codec) @ pay_descs f (min n A)) c1)
        (finish_frame (fr_info f) (m_configBufferState (m_sub c) \<noteq> ConfigBufferState_eSubmitted) (fr_header f) (nFilledLen (fr_header f)))
    \<and> mem c1 = (mem (copied c f))(pHeader (fr_object f) \<mapsto> H @ codec @ drop (14 + length codec) (fr_hb f))
    \<and> length H = 14 \<and> take 4 H = [0, 0, 1, 0xc0] \<and> drop 6 H = drop 6 (pes_head pts')
    \<and> pes_length H = 65535 - (A - min n A)
    \<and> c1 = sub (\<lambda>s. s\<lparr>m_mem := mem c1, m_configBufferState := ConfigBufferState_eSubmitted\<rparr>) c"
proof -
  let ?i = "fr_object f" and ?h = "fr_header f" and ?a = "pHeader (fr_object f)" and ?K = "length codec"
  let ?sub = "m_configBufferState (m_sub c) \<noteq> ConfigBufferState_eSubmitted"
  from r obtain obj where heap: "m_heap c hdr = Some obj" "m_header obj = ?h" "pPlatformPrivate ?h = hdr"
    and info: "in_info c hdr = Some (fr_info f, ?i)" and hb: "length (fr_hb f) = maxHeaderLen ?i" "14 + ?K \<le> maxHeaderLen ?i"
    and fit: "length (fr_config f) + ?K \<le> 65527"
    by (auto simp: frame_ready_def Let_def)
  have n: "unat (nFilledLen ?h) = n" using frame_data_length [OF r] by (simp add: n_def)
  let ?i0 = "?i\<lparr>headerLen := 0\<rparr>"
  let ?c0 = "put_mem ?a (pes_head pts' @ drop 14 (fr_hb f)) (copied c f)"
  have h0: "pes_header_at env ?i0 True pts' (copied c f) = Some (14, ?c0)"
    using pes_header_first [OF laws, of "copied c f" ?i0 "fr_hb f" pts'] copied_mem(1) [OF r] hb by simp
  let ?c1 = "sub (\<lambda>s. s\<lparr>m_configBufferState := ConfigBufferState_eSubmitted\<rparr>) ?c0"
  let ?c2 = "if codec \<noteq> [] then put_mem ?a (pes_head pts' @ codec @ drop (14 + ?K) (fr_hb f)) ?c1 else ?c1"
  have w: "codec \<noteq> [] \<Longrightarrow> write_at ?a 14 codec ?c1 = Some ?c2" using hb
    by (simp add: write_at_def put_mem_def comp_def add.commute)
  have m2: "mem ?c2 = (mem (copied c f))(?a \<mapsto> pes_head pts' @ codec @ drop (14 + ?K) (fr_hb f))"
    by (simp add: put_mem_def)
  have len: "65535 - (A - min n A) < 65536" by simp
  from pes_length_at_ok [OF _ _ _ len, of ?c2 ?a "[]" "pes_head pts'" "codec @ drop (14 + ?K) (fr_hb f)" 0] m2
  obtain hi lo where p: "pes_length_at ?a 0 (65535 - (A - min n A)) ?c2 =
      Some (put_mem ?a ((take 4 (pes_head pts') @ [hi, lo] @ drop 6 (pes_head pts')) @ codec @ drop (14 + ?K) (fr_hb f)) ?c2)"
    and v: "256 * unat hi + unat lo = 65535 - (A - min n A)" by auto
  let ?H = "take 4 (pes_head pts') @ [hi, lo] @ drop 6 (pes_head pts')"
  let ?c3 = "put_mem ?a (?H @ codec @ drop (14 + ?K) (fr_hb f)) ?c2"
  have cfg: "config_desc 65527 ?c0 = Some (65527 - length (fr_config f), if fr_config f \<noteq> []
      then [\<lparr>desc_block = m_pConfigBuffer (m_sub c), desc_offset = 0, desc_length = length (fr_config f)\<rparr>] else [])"
    using fit frame_config_length [OF r] r
    by (cases "?sub"; cases "fr_config f = []") (auto simp: config_desc_def put_mem_def copied_frame frame_ready_def Let_def, (metis length_greater_0_conv)+)
  have cod: "codec_desc (?i\<lparr>headerLen := 14\<rparr>) codec (65527 - length (fr_config f)) ?c1 = Some (A, if ?K > 0
      then [\<lparr>desc_block = ?a, desc_offset = 14, desc_length = ?K\<rparr>] else [], ?i\<lparr>headerLen := 14 + ?K\<rparr>, ?c2)"
    using fit w by (auto simp: codec_desc_def A_def)
  have st: "m_configBufferState (m_sub ?c0) = m_configBufferState (m_sub c)" by (simp add: put_mem_def copied_frame)
  have ne: "n > 0 \<longleftrightarrow> fr_data f \<noteq> []" and mn: "(if A \<ge> n then n else A) = min n A" by (simp_all add: n_def min_def)
  have "BuildInputFrame env hdr True (nFilledLen ?h) pts' codec mx c =
      Option.bind (residual_packets env mx (pay_block f) (pay_off f + min n A) (n - min n A) (?i\<lparr>headerLen := 14 + ?K\<rparr>)
          (head_descs c f ?K @ pay_descs f (min n A)) ?c3)
        (finish_frame (fr_info f) ?sub ?h (nFilledLen ?h))"
    unfolding BuildInputFrame_def heap Option.bind.bind_lunit heap(2,3) info Let_def prod.case n
    using mx h0 p cfg cod copy_step [OF r, folded n_def] st ne
    by (cases "pPayload ?i = NULL") (simp_all add: head_descs_def pay_descs_def pay_block_def pay_off_def
        B_MAX_PES_PACKET_LENGTH_def B_PES_HEADER_START_BYTES_def mn cong: if_cong split del: if_split)
  moreover have "take 4 ?H = [0, 0, 1, 0xc0]" "pes_length ?H = 65535 - (A - min n A)" "drop 6 ?H = drop 6 (pes_head pts')"
    using v by (simp_all add: pes_head_def pes_length_def)
  moreover have "?c3 = sub (\<lambda>s. s\<lparr>m_mem := mem ?c3, m_configBufferState := ConfigBufferState_eSubmitted\<rparr>) c"
    by (cases "codec = []") (simp_all add: copied_shape)
  moreover have "mem ?c3 = (mem (copied c f))(?a \<mapsto> ?H @ codec @ drop (14 + ?K) (fr_hb f))" using m2 by simp
  ultimately show ?thesis by (intro exI [of _ ?c3] exI [of _ ?H]) simp
qed


lemma stream_append: "stream c (xs @ ys) = stream c xs @ stream c ys"
  by (simp add: stream_def)

lemma stream_mem: "mem c' = mem c \<Longrightarrow> stream c' ds = stream c ds"
  by (auto simp: stream_def desc_bytes_def intro!: arg_cong [where f = concat])

text \<open>The bytes of the first packet, whatever the loop did to the rest of the header block.\<close>

lemma first_packet:
  assumes r: "frame_ready c hdr (length codec) f" and k: "k \<le> length (fr_data f)"
    and m: "mem c1 = (mem (copied c f))(pHeader (fr_object f) \<mapsto> hb)" "take (14 + length codec) hb = H @ codec" "length H = 14"
  shows "stream c1 (head_descs c f (length codec) @ pay_descs f k) = H @ fr_config f @ codec @ take k (fr_data f)"
proof -
  let ?a = "pHeader (fr_object f)"
  from copied_mem(2) [OF r] obtain pb where pb: "mem (copied c f) (pay_block f) = Some pb"
    "take (length (fr_data f)) (drop (pay_off f) pb) = fr_data f" by blast
  have pay: "take k (drop (pay_off f) pb) = take k (fr_data f)"
    using arg_cong [OF pb(2), of "take k"] k by (simp add: min_def)
  have H: "take 14 hb = H" "take (length codec) (drop 14 hb) = codec"
    using arg_cong [OF m(2), of "take 14"] arg_cong [OF m(2), of "drop 14"] m(3) by (simp_all add: take_drop add.commute min_def)
  have cfg: "fr_config f \<noteq> [] \<Longrightarrow> m_pConfigBuffer (m_sub c) \<noteq> ?a \<and>
      (\<exists>kb. mem (copied c f) (m_pConfigBuffer (m_sub c)) = Some kb \<and> take (length (fr_config f)) kb = fr_config f)"
    using r copied_mem(4) [OF r] frame_config_length [OF r] by (auto simp: frame_ready_def Let_def read_at_Some split: if_splits)
  show ?thesis using pay pb(1) H cfg m(1) copied_mem(3) [OF r]
    by (auto simp: stream_def desc_bytes_def head_descs_def pay_descs_def)
qed

lemma stable_descs:
  assumes "frame_ready c hdr (length codec) f"
  shows "stable (pHeader (fr_object f)) (14 + length codec) (head_descs c f (length codec) @ pay_descs f k)"
  using assms copied_mem(3) [OF assms] by (auto simp: stable_def head_descs_def pay_descs_def frame_ready_def Let_def split: if_splits)


lemma frame_stream:
  assumes laws: "biobits_laws (e_biobits env)" and r: "frame_ready c hdr (length codec) f" and mx: "4 \<le> mx"
    and ok: "BuildInputFrame env hdr True (nFilledLen (fr_header f)) pts' codec mx c = Some (OMX_ErrorNone, ds, c')"
  shows "\<exists>H k rest. stream c' ds = (H @ fr_config f @ codec @ take k (fr_data f)) @ rest
    \<and> length H = 14 \<and> take 4 H = [0, 0, 1, 0xc0] \<and> drop 6 H = drop 6 (pes_head pts')
    \<and> pes_length H + 6 = 14 + length (fr_config f) + length codec + k
    \<and> k \<le> length (fr_data f) \<and> depacketize rest = Some (drop k (fr_data f)) \<and> length ds \<le> mx"
proof -
  let ?a = "pHeader (fr_object f)" and ?K = "length codec" and ?n = "length (fr_data f)"
  let ?A = "65527 - length (fr_config f) - ?K"
  let ?k = "min ?n ?A"
  let ?d = "head_descs c f ?K @ pay_descs f ?k"
  from build_shape [OF laws r mx, of pts'] obtain c1 H where
    b: "BuildInputFrame env hdr True (nFilledLen (fr_header f)) pts' codec mx c =
      Option.bind (residual_packets env mx (pay_block f) (pay_off f + ?k) (?n - ?k) ((fr_object f)\<lparr>headerLen := 14 + ?K\<rparr>) ?d c1)
        (finish_frame (fr_info f) (m_configBufferState (m_sub c) \<noteq> ConfigBufferState_eSubmitted) (fr_header f) (nFilledLen (fr_header f)))"
    and m: "mem c1 = (mem (copied c f))(?a \<mapsto> H @ codec @ drop (14 + ?K) (fr_hb f))"
    and H: "length H = 14" "take 4 H = [0, 0, 1, 0xc0]" "drop 6 H = drop 6 (pes_head pts')" "pes_length H = 65535 - (?A - ?k)" by blast
  have hb: "length (fr_hb f) = maxHeaderLen (fr_object f)" "14 + ?K \<le> maxHeaderLen (fr_object f)" "length (fr_config f) + ?K \<le> 65527"
    using r by (auto simp: frame_ready_def Let_def)
  from ok [unfolded b] obtain info2 c2
    where res: "residual_packets env mx (pay_block f) (pay_off f + ?k) (?n - ?k) ((fr_object f)\<lparr>headerLen := 14 + ?K\<rparr>) ?d c1 = Some (OMX_ErrorNone, info2, ds, c2)"
      and c': "mem c' = mem c2"
    by (auto simp: finish_frame_def put_in_info_def put_header_def Let_def split: bind_splits if_splits)
  from copied_mem(2,3) [OF r] obtain pb where pb: "mem (copied c f) (pay_block f) = Some pb" "pay_off f + ?n \<le> length pb"
    "take ?n (drop (pay_off f) pb) = fr_data f" "pay_block f \<noteq> ?a" by blast
  have ld: "length ?d \<le> mx" using mx by (simp add: head_descs_def pay_descs_def)
  from residual_packets_ok [OF res, of "H @ codec @ drop (14 + ?K) (fr_hb f)" pb] m H(1) hb pb ld stable_descs [OF r, of ?k]
  obtain ds2 hb2 where d2: "ds = ?d @ ds2" "length ds \<le> mx" "c2 = put_mem ?a hb2 c1" "take (14 + ?K) hb2 = H @ codec"
    "depacketize (stream c2 ds2) = Some (take (?n - ?k) (drop (pay_off f + ?k) pb))" by auto
  have m2: "mem c2 = (mem (copied c f))(?a \<mapsto> hb2)" using d2(3) m by simp
  have s: "stream c' ds = (H @ fr_config f @ codec @ take ?k (fr_data f)) @ stream c2 ds2"
    using first_packet [OF r _ m2 d2(4) H(1), of ?k] d2(1) stream_mem [OF c'] by (simp add: stream_append)
  have "drop ?k (fr_data f) = take (?n - ?k) (drop (pay_off f + ?k) pb)"
    by (subst pb(3) [symmetric]) (simp add: drop_take add.commute)
  then show ?thesis using s H d2(2,5) hb(3)
    by (intro exI [of _ H] exI [of _ ?k] exI [of _ "stream c2 ds2"]) (simp add: min_def)
qed

text \<open>
  The packets that \<open>BuildInputFrame\<close> makes of a frame carry its time stamp, and a reader gets back
  the codec configuration that was not sent yet, the codec header and the client's data, in
  this order and complete, even when they need more than one packet.
\<close>

lemma frame_packets:
  assumes "biobits_laws (e_biobits env)" "frame_ready c hdr (length codec) f" "4 \<le> mx"
    and "BuildInputFrame env hdr True (nFilledLen (fr_header f)) pts' codec mx c = Some (OMX_ErrorNone, ds, c')"
  shows "depacketize (stream c' ds) = Some (fr_config f @ codec @ fr_data f)
    \<and> pes_pts (stream c' ds) = push_bit 1 (ucast pts') \<and> pes_markers (stream c' ds) \<and> length ds \<le> mx"
proof -
  from frame_stream [OF assms] obtain H k rest where
    s: "stream c' ds = (H @ fr_config f @ codec @ take k (fr_data f)) @ rest"
    and H: "length H = 14" "take 4 H = [0, 0, 1, 0xc0]" "drop 6 H = drop 6 (pes_head pts')"
      "pes_length H + 6 = 14 + length (fr_config f) + length codec + k"
    and k: "k \<le> length (fr_data f)" "depacketize rest = Some (drop k (fr_data f))" "length ds \<le> mx" by blast
  let ?p = "H @ fr_config f @ codec @ take k (fr_data f)"
  have H8: "H ! 8 = 5" using arg_cong [OF H(3), of "\<lambda>xs. xs ! 2"] H(1) by (simp add: pes_head_def pes_pts_bytes_def Let_def)
  have e1: "depacketize (?p @ rest) = map_option ((@) (drop (9 + unat (?p ! 8)) ?p)) (depacketize rest)"
  proof (rule depacketize_packet)
    show "take 3 ?p = [0, 0, 1]" using arg_cong [OF H(2), of "take 3"] H(1) by simp
    show "pes_length ?p + 6 = length ?p" using H(1,4) k(1) by (simp add: pes_length_def nth_append)
    show "9 + unat (?p ! 8) \<le> length ?p" using H(1) H8 by (simp add: nth_append)
  qed (use H(1) in simp)
  have e2: "drop (9 + unat (?p ! 8)) ?p = fr_config f @ codec @ take k (fr_data f)" using H(1) H8 by (simp add: nth_append)
  have "depacketize (stream c' ds) = Some (fr_config f @ codec @ fr_data f)" unfolding s e1 e2 k(2) by simp
  moreover have "\<forall>i < 5. (?p @ rest) ! (9 + i) = ucast (pes_pts_bytes pts' ! i)"
  proof (intro allI impI)
    fix i :: nat assume i: "i < 5"
    have "(?p @ rest) ! (9 + i) = drop 6 H ! (3 + i)" using i H(1) by (simp add: nth_append)
    also have "\<dots> = ucast (pes_pts_bytes pts' ! i)"
      using i unfolding H(3) by (auto simp: pes_head_def nth_append pes_pts_bytes_def Let_def less_Suc_eq numeral_eq_Suc)
    finally show "(?p @ rest) ! (9 + i) = ucast (pes_pts_bytes pts' ! i)" .
  qed
  then have "pes_pts (stream c' ds) = push_bit 1 (ucast pts') \<and> pes_markers (stream c' ds)" unfolding s
    using pes_pts_of_bytes by blast
  ultimately show ?thesis using k(3) by blast
qed

lemma residual_full:
  assumes "rest > 0" "mem c (pHeader info) = Some hb" "length hb = maxHeaderLen info" "headerLen info \<le> maxHeaderLen info"
    "maxHeaderLen info < headerLen info + 9"
  shows "\<exists>c'. residual_packets env mx block off rest info descs c = Some (BOMX_ERR_TRACE OMX_ErrorBadParameter, info, descs, c')
    \<and> m_configBufferState (m_sub c') = m_configBufferState (m_sub c)"
  using assms pes_header_residual [OF assms(2-4), of env]
  by (auto simp: residual_packets.simps [of env mx] put_mem_def)

lemma residual_none: "residual_packets env mx block off 0 info descs c = Some (OMX_ErrorNone, info, descs, c)"
  by (simp add: residual_packets.simps)

lemma frame_fits:
  assumes laws: "biobits_laws (e_biobits env)" and r: "frame_ready c hdr (length codec) f" and mx: "4 \<le> mx"
    and fit: "length (fr_config f) + length codec + length (fr_data f) \<le> 65527"
  shows "\<exists>M. BuildInputFrame env hdr True (nFilledLen (fr_header f)) pts' codec mx c =
    Some (OMX_ErrorNone, head_descs c f (length codec) @ pay_descs f (length (fr_data f)),
      put_header hdr ((fr_header f)\<lparr>nOffset := nOffset (fr_header f) + nFilledLen (fr_header f), nFilledLen := 0\<rparr>)
        (put_in_info (fr_info f) ((fr_object f)\<lparr>headerLen := 14 + length codec\<rparr>)
          (sub (\<lambda>s. s\<lparr>m_mem := M, m_configBufferState := ConfigBufferState_eSubmitted\<rparr>) c)))"
proof -
  have m: "min (length (fr_data f)) (65527 - length (fr_config f) - length codec) = length (fr_data f)" using fit by simp
  have h: "pPlatformPrivate (fr_header f) = hdr" using r by (auto simp: frame_ready_def Let_def)
  from build_shape [OF laws r mx, of pts', unfolded m] obtain c1 where
    "BuildInputFrame env hdr True (nFilledLen (fr_header f)) pts' codec mx c =
      Option.bind (residual_packets env mx (pay_block f) (pay_off f + length (fr_data f)) 0 ((fr_object f)\<lparr>headerLen := 14 + length codec\<rparr>)
          (head_descs c f (length codec) @ pay_descs f (length (fr_data f))) c1)
        (finish_frame (fr_info f) (m_configBufferState (m_sub c) \<noteq> ConfigBufferState_eSubmitted) (fr_header f) (nFilledLen (fr_header f)))"
    "c1 = sub (\<lambda>s. s\<lparr>m_mem := mem c1, m_configBufferState := ConfigBufferState_eSubmitted\<rparr>) c" by auto
  then show ?thesis using h
    by (intro exI [of _ "mem c1"]) (simp add: residual_none finish_frame_def InputBuffer_UpdateBuffer_def Let_def)
qed

lemma frame_too_long:
  assumes laws: "biobits_laws (e_biobits env)" and r: "frame_ready c hdr (length codec) f" and mx: "4 \<le> mx"
    and small: "maxHeaderLen (fr_object f) < 14 + length codec + 9"
    and fit: "\<not> length (fr_config f) + length codec + length (fr_data f) \<le> 65527"
  shows "\<exists>c'. BuildInputFrame env hdr True (nFilledLen (fr_header f)) pts' codec mx c = Some (BOMX_ERR_TRACE OMX_ErrorBadParameter, [], c')
    \<and> (m_configBufferState (m_sub c') = ConfigBufferState_eSubmitted \<longleftrightarrow> m_configBufferState (m_sub c) = ConfigBufferState_eSubmitted)"
proof -
  let ?a = "pHeader (fr_object f)" and ?K = "length codec" and ?n = "length (fr_data f)"
  let ?A = "65527 - length (fr_config f) - ?K"
  let ?d = "head_descs c f ?K @ pay_descs f (min ?n ?A)" and ?i = "(fr_object f)\<lparr>headerLen := 14 + ?K\<rparr>"
  from build_shape [OF laws r mx, of pts'] obtain c1 H where
    b: "BuildInputFrame env hdr True (nFilledLen (fr_header f)) pts' codec mx c =
      Option.bind (residual_packets env mx (pay_block f) (pay_off f + min ?n ?A) (?n - min ?n ?A) ?i ?d c1)
        (finish_frame (fr_info f) (m_configBufferState (m_sub c) \<noteq> ConfigBufferState_eSubmitted) (fr_header f) (nFilledLen (fr_header f)))"
    and m: "mem c1 = (mem (copied c f))(?a \<mapsto> H @ codec @ drop (14 + ?K) (fr_hb f))" "length H = 14"
    and sh: "c1 = sub (\<lambda>s. s\<lparr>m_mem := mem c1, m_configBufferState := ConfigBufferState_eSubmitted\<rparr>) c" by blast
  have st: "m_configBufferState (m_sub c1) = ConfigBufferState_eSubmitted" by (subst sh) simp
  have hb: "length (fr_hb f) = maxHeaderLen (fr_object f)" "14 + ?K \<le> maxHeaderLen (fr_object f)" "length (fr_config f) + ?K \<le> 65527"
    using r by (auto simp: frame_ready_def Let_def)
  have "0 < ?n - min ?n ?A" using fit hb(3) by (simp add: min_def)
  from residual_full [OF this, of c1 ?i "H @ codec @ drop (14 + ?K) (fr_hb f)" env mx "pay_block f" "pay_off f + min ?n ?A" ?d]
    m st hb small obtain c2 where
    "residual_packets env mx (pay_block f) (pay_off f + min ?n ?A) (?n - min ?n ?A) ?i ?d c1
      = Some (BOMX_ERR_TRACE OMX_ErrorBadParameter, ?i, ?d, c2)" "m_configBufferState (m_sub c2) = ConfigBufferState_eSubmitted"
    by auto
  with b show ?thesis by (auto simp: finish_frame_def put_in_info_def Let_def)
qed

text \<open>
  C8: With the header block the component allocates and the descriptors it allows for a buffer, a
  frame is sent exactly when the pending configuration, the codec header and the data fit into one
  packet. Then the bytes behind the descriptors are a stream of PES packets from which a reader gets
  back the configuration, the codec header and the client's data, in this order and complete, and
  the time stamp of the frame, and the client's buffer is used up. Otherwise the call fails, and a
  configuration that was pending is still pending.
\<close>

theorem adec_frame_sent:
  assumes "biobits_laws (e_biobits env)" "frame_ready c hdr (length codec) f" "maxHeaderLen (fr_object f) < 14 + length codec + 9"
  shows "\<exists>err ds c'. BuildInputFrame env hdr True (nFilledLen (fr_header f)) pts' codec B_MAX_DESCRIPTORS_PER_BUFFER c = Some (err, ds, c')
    \<and> (if length (fr_config f) + length codec + length (fr_data f) \<le> 65527
       then err = OMX_ErrorNone \<and> m_configBufferState (m_sub c') = ConfigBufferState_eSubmitted
         \<and> map_option (\<lambda>x. nFilledLen (m_header x)) (m_heap c' hdr) = Some 0
         \<and> depacketize (stream c' ds) = Some (fr_config f @ codec @ fr_data f)
         \<and> pes_pts (stream c' ds) = push_bit 1 (ucast pts') \<and> pes_markers (stream c' ds)
         \<and> length ds \<le> B_MAX_DESCRIPTORS_PER_BUFFER
       else err = BOMX_ERR_TRACE OMX_ErrorBadParameter \<and> ds = []
         \<and> (m_configBufferState (m_sub c') = ConfigBufferState_eSubmitted \<longleftrightarrow> m_configBufferState (m_sub c) = ConfigBufferState_eSubmitted))"
proof -
  have mx: "4 \<le> B_MAX_DESCRIPTORS_PER_BUFFER" by (simp add: B_MAX_DESCRIPTORS_PER_BUFFER_def)
  have h: "map_option m_header (m_heap c hdr) = Some (fr_header f)" using assms(2) by (auto simp: frame_ready_def Let_def)
  show ?thesis
  proof (cases "length (fr_config f) + length codec + length (fr_data f) \<le> 65527")
    case True
    note packets = frame_packets [OF assms(1,2) mx, of pts']
    from frame_fits [OF assms(1,2) mx True, of pts'] packets h True show ?thesis
      by (auto simp: put_header_def put_in_info_def)
  next
    case False
    from frame_too_long [OF assms(1,2) mx assms(3) False, of pts'] False show ?thesis by auto
  qed
qed

section \<open>Witnesses\<close>

definition demo_frame :: frame where
  "demo_frame = \<lparr>fr_info = 50, fr_object = demo_in_info, fr_header = m_header demo_in_buffer, fr_hb = replicate 14 0,
     fr_data = replicate 10 7, fr_config = replicate 2 5\<rparr>"

lemma demo_frame_ready: "frame_ready demo_adec 8 (length ([] :: u8 list)) demo_frame"
  by (simp add: frame_ready_def demo_frame_def demo_adec_simps in_info_def read_at_def)

lemma demo_biobits: "biobits_laws (e_biobits demo_adec_env)"
  using shift_mask.biobits_laws_axioms by (simp add: demo_adec_env_def)

lemma demo_frame_fields: "fr_config demo_frame = replicate 2 5" "fr_data demo_frame = replicate 10 7" "nFilledLen (fr_header demo_frame) = 10"
  "maxHeaderLen (fr_object demo_frame) < 14 + length ([] :: u8 list) + 9"
  by (simp_all add: demo_frame_def demo_in_info_def demo_in_buffer_def Let_def)

theorem adec_frame_sent_witness:
  "\<exists>ds c'. BuildInputFrame demo_adec_env 8 True 10 90 [] B_MAX_DESCRIPTORS_PER_BUFFER demo_adec = Some (OMX_ErrorNone, ds, c')
    \<and> depacketize (stream c' ds) = Some (replicate 2 5 @ replicate 10 7)"
  using adec_frame_sent [OF demo_biobits demo_frame_ready demo_frame_fields(4), of 90] unfolding demo_frame_fields by auto

end
