(* ===== verification/Adec_Queue.thy ===== *)
theory Adec_Queue
  imports Adec_Input
begin

text \<open>
  The input queue of the audio decoder: which buffers the playpump has consumed, and which ones
  go back to the client. The invariant ties the two counters of the component, the free buffers
  and the submitted descriptors, to the queue of the port.
\<close>

section \<open>The invariant\<close>

abbreviation in_queue :: "adc \<Rightarrow> addr list" where "in_queue c \<equiv> m_bufferQueue (in_port c)"

definition priv :: "adc \<Rightarrow> addr \<Rightarrow> addr" where
  "priv c b = (case m_heap c b of None \<Rightarrow> NULL | Some x \<Rightarrow> GetComponentPrivate x)"

definition is_complete :: "adc \<Rightarrow> addr \<Rightarrow> bool" where
  "is_complete c b = (case m_inInfo (m_sub c) (priv c b) of None \<Rightarrow> False | Some i \<Rightarrow> complete i)"

text \<open>The descriptors of a buffer that the component still counts as submitted.\<close>

definition pend :: "adc \<Rightarrow> addr \<Rightarrow> nat" where
  "pend c b = (case m_inInfo (m_sub c) (priv c b) of None \<Rightarrow> 0 | Some i \<Rightarrow> if complete i then 0 else unat (numDescriptors i))"

definition infos_ok :: "adc \<Rightarrow> addr list \<Rightarrow> bool" where
  "infos_ok c bs \<longleftrightarrow> distinct (map (priv c) bs) \<and> (\<forall>b \<in> set bs. m_heap c b \<noteq> None \<and> m_inInfo (m_sub c) (priv c b) \<noteq> None)"

definition input_inv :: "adc \<Rightarrow> bool" where
  "input_inv c \<longleftrightarrow> length (m_pAudioPorts c) = 2 \<and> port_inv (m_heap c) (in_port c) \<and> infos_ok c (in_queue c)
     \<and> unat (m_AvailInputBuffers (m_sub c)) + length (in_queue c) = unat (nBufferCountActual (m_definition (in_port c)))
     \<and> unat (m_submittedDescriptors (m_sub c)) = (\<Sum>b\<leftarrow>in_queue c. pend c b)"

lemma in_info_priv: "infos_ok c bs \<Longrightarrow> b \<in> set bs \<Longrightarrow> \<exists>i. in_info c b = Some (priv c b, i) \<and> m_inInfo (m_sub c) (priv c b) = Some i"
  by (auto simp: infos_ok_def in_info_def priv_def)

section \<open>Completing\<close>

text \<open>The reference: how many of the first buffers fit into the consumed descriptors.\<close>

fun fits :: "nat \<Rightarrow> nat list \<Rightarrow> nat" where
  "fits n [] = 0"
| "fits n (d # ds) = (if d \<le> n then Suc (fits (n - d) ds) else 0)"

lemma fits_greatest: "k \<le> length ds \<Longrightarrow> k \<le> fits n ds \<longleftrightarrow> sum_list (take k ds) \<le> n"
proof (induction ds arbitrary: n k)
  case (Cons d ds)
  then show ?case by (cases k) auto
qed simp

lemma fits_length: "fits n ds \<le> length ds"
  by (induction n ds rule: fits.induct) auto

lemma fits_sum: "sum_list (take (fits n ds) ds) \<le> n"
  by (induction n ds rule: fits.induct) auto

text \<open>Marking the buffers of a list as complete.\<close>

definition set_complete :: "addr set \<Rightarrow> (addr \<rightharpoonup> BOMX_AudioDecoderInputBufferInfo) \<Rightarrow> addr \<rightharpoonup> BOMX_AudioDecoderInputBufferInfo" where
  "set_complete A M = (\<lambda>a. if a \<in> A then map_option (\<lambda>i. i\<lparr>complete := True\<rparr>) (M a) else M a)"

lemma set_complete_twice [simp]: "set_complete A (set_complete B M) = set_complete (A \<union> B) M" "set_complete {} M = M"
  by (auto simp: set_complete_def fun_eq_iff option.map_comp comp_def)

definition mark :: "adc \<Rightarrow> addr list \<Rightarrow> adc" where
  "mark c bs = sub (\<lambda>s. s\<lparr>m_inInfo := set_complete (priv c ` set bs) (m_inInfo s),
     m_submittedDescriptors := m_submittedDescriptors s - of_nat (\<Sum>b\<leftarrow>bs. pend c b)\<rparr>) c"

lemma mark_frame [simp]: "m_heap (mark c bs) = m_heap c" "m_pAudioPorts (mark c bs) = m_pAudioPorts c" "m_log (mark c bs) = m_log c"
  "priv (mark c bs) = priv c" "m_AvailInputBuffers (m_sub (mark c bs)) = m_AvailInputBuffers (m_sub c)" "nlog (mark c bs) = nlog c"
  by (simp_all add: mark_def priv_def fun_eq_iff)

lemma mark_Nil [simp]: "mark c [] = c"
  by (simp add: mark_def sub_def)

lemma mark_pend:
  "pend (mark c bs) b = (if priv c b \<in> priv c ` set bs then 0 else pend c b)"
  "is_complete (mark c bs) b \<longleftrightarrow> is_complete c b \<or> priv c b \<in> priv c ` set bs \<and> m_inInfo (m_sub c) (priv c b) \<noteq> None"
  by (auto simp: mark_def set_complete_def pend_def is_complete_def priv_def split: option.splits)

lemma mark_infos_ok [simp]: "infos_ok (mark c bs) ds = infos_ok c ds"
proof -
  have "m_inInfo (m_sub (mark c bs)) a = None \<longleftrightarrow> m_inInfo (m_sub c) a = None" for a by (simp add: mark_def set_complete_def)
  then show ?thesis unfolding infos_ok_def mark_frame by simp
qed

lemma mark_Cons:
  assumes "infos_ok c (b # bs)"
  shows "mark (mark c [b]) bs = mark c (b # bs)"
proof -
  have "priv c x \<noteq> priv c b" if "x \<in> set bs" for x using that assms by (auto simp: infos_ok_def image_iff)
  then have "(\<Sum>x\<leftarrow>bs. pend (mark c [b]) x) = (\<Sum>x\<leftarrow>bs. pend c x)"
    by (intro arg_cong [where f = sum_list] map_cong) (auto simp: mark_pend)
  then show ?thesis unfolding mark_def [of "mark c [b]" bs] mark_frame
    by (simp add: mark_def [of c] comp_def algebra_simps)
qed

lemma mark_complete: "is_complete c b \<Longrightarrow> mark c [b] = c"
  by (cases "m_inInfo (m_sub c) (priv c b)") (auto simp: mark_def set_complete_def is_complete_def pend_def sub_def fun_eq_iff
      intro!: BOMX_Component.equality BOMX_AudioDecoder.equality)

lemma complete_buffers_mark:
  assumes "infos_ok c bs" "(\<Sum>b\<leftarrow>bs. pend c b) \<le> unat (m_submittedDescriptors (m_sub c))"
  shows "complete_buffers n bs c = Some (mark c (take (fits (unat n) (map (pend c) bs)) bs))"
  using assms
proof (induction bs arbitrary: n c)
  case (Cons b bs)
  from in_info_priv [OF Cons.prems(1), of b] obtain i
    where i: "in_info c b = Some (priv c b, i)" "m_inInfo (m_sub c) (priv c b) = Some i" by auto
  have ok: "infos_ok c bs" and ne: "priv c b \<notin> priv c ` set bs" using Cons.prems(1) by (auto simp: infos_ok_def)
  have p: "map (pend (mark c [b])) bs = map (pend c) bs" using ne by (auto simp: mark_pend image_iff)
  have sub1: "unat (m_submittedDescriptors (m_sub (mark c [b]))) = unat (m_submittedDescriptors (m_sub c)) - pend c b"
  proof -
    have "unat (of_nat (pend c b) :: u32) = pend c b" by (simp add: pend_def split: option.splits)
    then show ?thesis using Cons.prems(2) by (simp add: mark_def unat_sub word_le_nat_alt)
  qed
  have IH: "complete_buffers m bs (mark c [b]) = Some (mark c (b # take (fits (unat m) (map (pend c) bs)) bs))" for m
  proof -
    have "infos_ok c (b # take k bs)" for k using Cons.prems(1) by (auto simp: infos_ok_def dest: in_set_takeD) (metis distinct_take take_map)
    with Cons.IH [of "mark c [b]" m] ok Cons.prems(2) sub1 p show ?thesis by (simp add: mark_Cons)
  qed
  show ?case
  proof (cases "complete i")
    case True
    then have "is_complete c b" "pend c b = 0" using i by (simp_all add: is_complete_def pend_def)
    with IH [of n] True i show ?thesis by (simp add: mark_complete)
  next
    case False
    then have pe: "pend c b = unat (numDescriptors i)" using i by (simp add: pend_def)
    have m: "put_in_info (priv c b) (i\<lparr>complete := True\<rparr>) (sub (\<lambda>s. s\<lparr>m_submittedDescriptors := m_submittedDescriptors s - numDescriptors i\<rparr>) c) = mark c [b]"
      using i pe by (auto simp: put_in_info_def mark_def set_complete_def comp_def sub_def fun_eq_iff
          intro!: BOMX_Component.equality BOMX_AudioDecoder.equality)
    have "numDescriptors i \<le> m_submittedDescriptors (m_sub c)" using Cons.prems(2) pe by (simp add: word_le_nat_alt)
    moreover have "unat (n - numDescriptors i) = unat n - pend c b" if "numDescriptors i \<le> n" using that pe by (simp add: unat_sub word_le_nat_alt)
    ultimately show ?thesis using i False IH [of "n - numDescriptors i"] m pe
      by (auto simp: word_le_nat_alt)
  qed
qed simp

text \<open>The members that completing and returning buffers does not touch.\<close>

definition core :: "BOMX_AudioDecoder \<Rightarrow> BOMX_AudioDecoder" where
  "core s = s\<lparr>m_playpumpTimerId := NULL, m_inputBuffersTimerId := NULL, m_submittedDescriptors := 0, m_AvailInputBuffers := 0,
     m_inInfo := Map.empty, m_nexus := []\<rparr>"

lemma core_sel:
  "m_mem (core s) = m_mem s" "m_outInfo (core s) = m_outInfo s" "m_hPlaypump (core s) = m_hPlaypump s" "m_eosPending (core s) = m_eosPending s"
  "m_codecDelayAdjusted (core s) = m_codecDelayAdjusted s" "m_decoderState (core s) = m_decoderState s"
  "m_bitsPerSample (core s) = m_bitsPerSample s" "m_numPcmChannels (core s) = m_numPcmChannels s" "m_eosReceived (core s) = m_eosReceived s"
  "m_pBufferTracker (core s) = m_pBufferTracker s" "m_sampleRate (core s) = m_sampleRate s" "m_eosDelivered (core s) = m_eosDelivered s"
  by (simp_all add: core_def)

definition outer :: "adc \<Rightarrow> bool \<times> bool \<times> bool \<times> bool \<times> u32" where
  "outer c = (cb_EventHandler c, cb_EmptyBufferDone c, cb_FillBufferDone c, m_locked c, m_audioPortBase c)"

text \<open>Two components that differ in timers, handles and the log of Nexus calls only.\<close>

definition like :: "adc \<Rightarrow> adc \<Rightarrow> bool" where
  "like c c' \<longleftrightarrow> m_heap c' = m_heap c \<and> m_pAudioPorts c' = m_pAudioPorts c \<and> m_log c' = m_log c
     \<and> outer c' = outer c \<and> core (m_sub c') = core (m_sub c)
     \<and> m_inInfo (m_sub c') = m_inInfo (m_sub c) \<and> m_AvailInputBuffers (m_sub c') = m_AvailInputBuffers (m_sub c)
     \<and> m_submittedDescriptors (m_sub c') = m_submittedDescriptors (m_sub c)"

lemma mark_core [simp]: "core (m_sub (mark c bs)) = core (m_sub c)" "outer (mark c bs) = outer c"
  by (simp_all add: mark_def core_def outer_def sub_def)

lemma like_refl [simp]: "like c c" by (simp add: like_def)
lemma like_trans: "like a b \<Longrightarrow> like b c \<Longrightarrow> like a c" by (simp add: like_def)

lemma like_eqs:
  assumes "like c c'"
  shows "priv c' = priv c" "pend c' = pend c" "is_complete c' = is_complete c" "infos_ok c' = infos_ok c" "input_inv c' = input_inv c"
proof -
  show p: "priv c' = priv c" using assms by (simp add: like_def priv_def fun_eq_iff)
  then show q: "pend c' = pend c" "is_complete c' = is_complete c" "infos_ok c' = infos_ok c"
    using assms unfolding pend_def is_complete_def infos_ok_def by (simp_all add: like_def)
  then show "input_inv c' = input_inv c" using assms by (simp add: like_def input_inv_def)
qed

lemma like_mark: "like c c' \<Longrightarrow> like (mark c bs) (mark c' bs)"
  using like_eqs(1,2) [of c c'] by (simp add: like_def mark_def sub_def outer_def core_def)

lemma like_nexus [simp]: "like c (nexus x c)"
  by (simp add: like_def nexus_def sub_def outer_def core_def)

lemma like_timer [simp]:
  "like c (CancelTimerId m_playpumpTimerId m_playpumpTimerId_update c)" "like c (CancelTimerId m_inputBuffersTimerId m_inputBuffersTimerId_update c)"
  "like c (sub (\<lambda>s. s\<lparr>m_playpumpTimerId := t\<rparr>) c)" "like c (sub (\<lambda>s. s\<lparr>m_inputBuffersTimerId := t\<rparr>) c)"
  by (simp_all add: like_def CancelTimerId_def nexus_def sub_def outer_def core_def)

lemma like_fifo_head [simp]: "like c (snd (fifo_head env c))"
  by (simp add: fifo_head_def Let_def split: prod.splits)

lemma mark_input_inv:
  assumes "input_inv c" "bs = take k (in_queue c)"
  shows "input_inv (mark c bs)"
proof -
  have i: "infos_ok c (in_queue c)" and s: "unat (m_submittedDescriptors (m_sub c)) = (\<Sum>b\<leftarrow>in_queue c. pend c b)"
    using assms(1) by (auto simp: input_inv_def)
  let ?r = "drop k (in_queue c)"
  have q: "in_queue c = bs @ ?r" using assms(2) by simp
  have d: "(\<Sum>b\<leftarrow>?r. pend (mark c bs) b) = (\<Sum>b\<leftarrow>?r. pend c b)" "(\<Sum>b\<leftarrow>bs. pend (mark c bs) b) = 0"
  proof -
    have "distinct (map (priv c) (bs @ ?r))" using i unfolding q [symmetric] by (simp add: infos_ok_def)
    then show "(\<Sum>b\<leftarrow>?r. pend (mark c bs) b) = (\<Sum>b\<leftarrow>?r. pend c b)"
      by (intro arg_cong [where f = sum_list] map_cong) (auto simp: mark_pend)
  qed (simp add: mark_pend)
  have "(\<Sum>b\<leftarrow>in_queue c. pend c b) = (\<Sum>b\<leftarrow>bs. pend c b) + (\<Sum>b\<leftarrow>?r. pend c b)" by (subst q) simp
  then have "unat (m_submittedDescriptors (m_sub (mark c bs))) = (\<Sum>b\<leftarrow>?r. pend c b)"
    using s u32_lt [of "m_submittedDescriptors (m_sub c)"] by (simp add: mark_def unat_sub word_le_nat_alt unat_of_nat)
  moreover have "(\<Sum>b\<leftarrow>in_queue (mark c bs). pend (mark c bs) b) = (\<Sum>b\<leftarrow>?r. pend c b)"
    using d by (simp add: q [symmetric]) (subst q, simp)
  ultimately show ?thesis using assms(1) by (simp add: input_inv_def)
qed

section \<open>The playpump event\<close>

abbreviation timer_off :: "adc \<Rightarrow> adc" where "timer_off c \<equiv> CancelTimerId m_playpumpTimerId m_playpumpTimerId_update c"

text \<open>The buffers in front of the one the decoder reads, and those of them that the playpump has consumed.\<close>

definition ahead :: "'b adec_env \<Rightarrow> adc \<Rightarrow> addr list" where
  "ahead env c = takeWhile (\<lambda>b. b \<noteq> fst (fifo_head env (nexus Playpump_GetStatus (timer_off c)))) (in_queue c)"

definition consumed :: "'b adec_env \<Rightarrow> adc \<Rightarrow> addr list" where
  "consumed env c =
     (let (started, depth) = e_playpump env (nlog (timer_off c)) in
      if m_hPlaypump (m_sub c) = NULL \<or> \<not> started then []
      else take (fits (unat (m_submittedDescriptors (m_sub c) - depth)) (map (pend c) (ahead env c))) (ahead env c))"

lemma ahead_prefix: "ahead env c = take (length (ahead env c)) (in_queue c)"
  unfolding ahead_def by (rule takeWhile_eq_take)

lemma consumed_prefix: "\<exists>k. consumed env c = take k (in_queue c)"
proof -
  obtain st d where p: "e_playpump env (nlog (timer_off c)) = (st, d)" by fastforce
  have "\<exists>k. take n (ahead env c) = take k (in_queue c)" for n by (subst ahead_prefix) (metis take_take)
  moreover have "\<exists>k. [] = take k (in_queue c)" by (rule exI [of _ 0]) simp
  ultimately show ?thesis by (simp add: consumed_def p)
qed

lemma PlaypumpEvent_mark:
  assumes inv: "input_inv c"
  shows "\<exists>c'. PlaypumpEvent env c = Some c' \<and> like (mark c (consumed env c)) c'"
proof -
  let ?c1 = "timer_off c" and ?c2 = "nexus Playpump_GetStatus (timer_off c)"
  have h: "m_hPlaypump (m_sub ?c1) = m_hPlaypump (m_sub c)" by (simp add: CancelTimerId_def)
  obtain st depth where pp: "e_playpump env (nlog ?c1) = (st, depth)" by fastforce
  obtain hd c3 where f: "fifo_head env ?c2 = (hd, c3)" by fastforce
  show ?thesis
  proof (cases "m_hPlaypump (m_sub c) = NULL \<or> \<not> st")
    case True
    then have "consumed env c = []" by (simp add: consumed_def pp)
    with True h pp show ?thesis by (auto simp: PlaypumpEvent_def Let_def intro: like_trans [OF like_timer(1) like_nexus])
  next
    case False
    have l: "like c c3" using like_fifo_head [of ?c2 env] f by (auto intro: like_trans [OF like_timer(1)] like_trans [OF like_nexus])
    have q: "in_queue c3 = in_queue c" "m_submittedDescriptors (m_sub c3) = m_submittedDescriptors (m_sub c)" using l by (simp_all add: like_def)
    have a: "takeWhile (\<lambda>b. b \<noteq> hd) (in_queue c3) = ahead env c" by (simp add: ahead_def f q)
    have ap: "ahead env c = take (length (ahead env c)) (in_queue c)" by (rule ahead_prefix)
    have i: "infos_ok c (ahead env c)" using inv by (subst ap) (auto simp: input_inv_def infos_ok_def dest: in_set_takeD simp flip: take_map)
    have "(\<Sum>b\<leftarrow>ahead env c. pend c b) \<le> (\<Sum>b\<leftarrow>in_queue c. pend c b)"
      by (subst ap, subst (2) append_take_drop_id [symmetric, of _ "length (ahead env c)"]) (simp del: append_take_drop_id)
    then have s: "(\<Sum>b\<leftarrow>ahead env c. pend c3 b) \<le> unat (m_submittedDescriptors (m_sub c3))"
      using inv l by (simp add: like_eqs input_inv_def q)
    let ?m = "mark c3 (consumed env c)"
    have "complete_buffers (m_submittedDescriptors (m_sub c3) - depth) (ahead env c) c3 = Some ?m"
      using complete_buffers_mark [OF _ s, of "m_submittedDescriptors (m_sub c3) - depth"] i l False
      by (simp add: like_eqs consumed_def pp q)
    then have e: "PlaypumpEvent env c = Some (if hd \<noteq> NULL
        then sub (\<lambda>s. s\<lparr>m_playpumpTimerId := e_handle env (nlog ?m)\<rparr>) (nexus (StartTimer B_FRAME_TIMER_INTERVAL) ?m) else ?m)"
      using False h pp f a by (simp add: PlaypumpEvent_def Let_def)
    have "like (mark c (consumed env c)) ?m" by (rule like_mark [OF l])
    then show ?thesis unfolding e by (auto intro: like_trans [OF _ like_trans [OF like_nexus like_timer(3)]])
  qed
qed

lemma nth_in_take: "distinct xs \<Longrightarrow> k < length xs \<Longrightarrow> m \<le> length xs \<Longrightarrow> xs ! k \<in> set (take m xs) \<longleftrightarrow> k < m"
  by (auto simp: in_set_conv_nth nth_eq_iff_index_eq)

lemma mark_complete_iff:
  assumes "infos_ok c Q" "k < length Q" "m \<le> length Q"
  shows "is_complete (mark c (take m Q)) (Q ! k) \<longleftrightarrow> is_complete c (Q ! k) \<or> k < m"
proof -
  have d: "distinct (map (priv c) Q)" and n: "m_inInfo (m_sub c) (priv c (Q ! k)) \<noteq> None"
    using assms(1,2) by (auto simp: infos_ok_def)
  have "priv c (Q ! k) \<in> priv c ` set (take m Q) \<longleftrightarrow> map (priv c) Q ! k \<in> set (take m (map (priv c) Q))" using assms(2) by (simp add: take_map)
  also have "\<dots> \<longleftrightarrow> k < m" using d assms(2,3) by (intro nth_in_take) simp_all
  finally show ?thesis using n by (simp add: mark_pend)
qed

text \<open>
  C18: The playpump event marks as complete exactly the buffers whose descriptors, together with
  those of all the buffers queued before them, the playpump has consumed, and which are queued in
  front of the one the decoder reads; a buffer that was complete stays so. The queue does not change,
  the counters stay tied to it, and the descriptors still counted cover what the playpump holds.
\<close>

theorem adec_playpump_completes:
  assumes inv: "input_inv c" and pp: "m_hPlaypump (m_sub c) \<noteq> NULL" "e_playpump env (nlog (timer_off c)) = (True, depth)"
    and le: "depth \<le> m_submittedDescriptors (m_sub c)"
  shows "\<exists>c'. PlaypumpEvent env c = Some c' \<and> input_inv c' \<and> in_queue c' = in_queue c \<and> depth \<le> m_submittedDescriptors (m_sub c')
    \<and> (\<forall>k < length (in_queue c). is_complete c' (in_queue c ! k) \<longleftrightarrow> is_complete c (in_queue c ! k)
        \<or> k < length (ahead env c) \<and> (\<Sum>b\<leftarrow>take (Suc k) (in_queue c). pend c b) \<le> unat (m_submittedDescriptors (m_sub c)) - unat depth)"
proof -
  let ?Q = "in_queue c" and ?ds = "map (pend c) (ahead env c)" and ?n = "unat (m_submittedDescriptors (m_sub c)) - unat depth"
  let ?m = "fits ?n ?ds"
  have m: "?m \<le> length (ahead env c)" "length (ahead env c) \<le> length ?Q" using fits_length [of ?n ?ds] by (simp_all add: ahead_def length_takeWhile_le)
  have "take ?m (ahead env c) = take ?m ?Q" by (subst ahead_prefix) (use m in simp)
  then have co: "consumed env c = take ?m ?Q" using pp le by (simp add: consumed_def unat_sub word_le_nat_alt)
  from PlaypumpEvent_mark [OF inv, of env] co obtain c' where r: "PlaypumpEvent env c = Some c'" "like (mark c (take ?m ?Q)) c'" by auto
  have i: "infos_ok c ?Q" and s: "unat (m_submittedDescriptors (m_sub c)) = (\<Sum>b\<leftarrow>?Q. pend c b)" using inv by (simp_all add: input_inv_def)
  have "k < ?m \<longleftrightarrow> k < length (ahead env c) \<and> (\<Sum>b\<leftarrow>take (Suc k) ?Q. pend c b) \<le> ?n" for k
  proof (cases "k < length (ahead env c)")
    case True
    then have "take (Suc k) (ahead env c) = take (Suc k) ?Q" by (subst ahead_prefix) simp
    with True fits_greatest [of "Suc k" ?ds ?n] show ?thesis by (simp add: Suc_le_eq take_map)
  qed (use m in simp)
  then have "\<forall>k < length ?Q. is_complete c' (?Q ! k) \<longleftrightarrow> is_complete c (?Q ! k)
      \<or> k < length (ahead env c) \<and> (\<Sum>b\<leftarrow>take (Suc k) ?Q. pend c b) \<le> ?n"
    using mark_complete_iff [OF i _ le_trans [OF m]] by (simp add: like_eqs(3) [OF r(2)])
  moreover have "(\<Sum>b\<leftarrow>take ?m ?Q. pend c b) \<le> ?n"
    using fits_sum [of ?n ?ds] \<open>take ?m (ahead env c) = take ?m ?Q\<close> by (simp add: take_map)
  then have "depth \<le> m_submittedDescriptors (m_sub c')"
    using r(2) le u32_lt [of "m_submittedDescriptors (m_sub c)"] by (simp add: like_def mark_def word_le_nat_alt unat_sub unat_of_nat)
  ultimately show ?thesis using r mark_input_inv [OF inv refl, of ?m] like_eqs(5) [OF r(2)] by (auto simp: like_def)
qed

section \<open>Returning\<close>

definition stamp :: "adc \<Rightarrow> addr \<Rightarrow> s64" where
  "stamp c b = (case m_heap c b of None \<Rightarrow> 0 | Some x \<Rightarrow> nTimeStamp (m_header x))"

text \<open>
  The reference: how many buffers go back. Only completed ones in front of the first incomplete
  one do: all of them after a timeout, otherwise the first one and, when a later one has the time
  stamp of the decoded frame, all up to that.
\<close>

definition to_return :: "adc \<Rightarrow> s64 \<Rightarrow> bool \<Rightarrow> addr list \<Rightarrow> nat" where
  "to_return c decodeTs causedByTimeout Q =
     (let P = takeWhile (is_complete c) Q; early = takeWhile (\<lambda>b. stamp c b \<noteq> decodeTs) (tl P) in
      if causedByTimeout then length P
      else if P = [] then 0
      else if length early < length (tl P) then length early + 2 else 1)"

lemma return_scan_step:
  assumes "infos_ok c (b # bs)"
  shows "return_scan c ts to (b # bs) ret =
    (if \<not> is_complete c b then Some ret else if to \<or> ret = NULL then return_scan c ts to bs b
     else if stamp c b = ts then Some b else return_scan c ts to bs ret)"
  using in_info_priv [OF assms, of b] assms by (auto simp: is_complete_def stamp_def infos_ok_def)

lemma infos_ok_Cons: "infos_ok c (b # bs) \<Longrightarrow> infos_ok c bs"
  by (simp add: infos_ok_def)

lemma return_scan_timeout:
  assumes "infos_ok c bs"
  shows "return_scan c ts True bs ret = Some (last (ret # takeWhile (is_complete c) bs))"
  using assms
proof (induction bs arbitrary: ret)
  case (Cons b bs)
  then show ?case using infos_ok_Cons [OF Cons.prems] by (simp add: return_scan_step [OF Cons.prems] del: return_scan.simps)
qed simp

lemma return_scan_frame:
  assumes "infos_ok c bs" "ret \<noteq> NULL"
  shows "return_scan c ts False bs ret =
    (let P = takeWhile (is_complete c) bs; early = takeWhile (\<lambda>b. stamp c b \<noteq> ts) P
     in Some (if length early < length P then P ! length early else ret))"
  using assms
proof (induction bs)
  case (Cons b bs)
  then show ?case using infos_ok_Cons [OF Cons.prems(1)]
    by (auto simp: return_scan_step [OF Cons.prems(1)] Let_def simp del: return_scan.simps)
qed simp

lemma to_return_le: "to_return c ts to Q \<le> length (takeWhile (is_complete c) Q)"
  by (auto simp: to_return_def Let_def Suc_le_eq simp flip: length_greater_0_conv)

lemma return_scan_result:
  assumes "infos_ok c Q" "NULL \<notin> set Q"
  shows "return_scan c ts to Q NULL = Some (if to_return c ts to Q = 0 then NULL else Q ! (to_return c ts to Q - 1))"
proof (cases to)
  case True
  have "last (takeWhile (is_complete c) Q) = Q ! (length (takeWhile (is_complete c) Q) - 1)" if "takeWhile (is_complete c) Q \<noteq> []"
    using that takeWhile_nth [of "length (takeWhile (is_complete c) Q) - 1" "is_complete c" Q] by (simp add: last_conv_nth)
  with True show ?thesis by (simp add: return_scan_timeout [OF assms(1)] to_return_def Let_def)
next
  case False
  show ?thesis
  proof (cases Q)
    case (Cons b bs)
    have n: "b \<noteq> NULL" "infos_ok c bs" using assms Cons infos_ok_Cons by auto
    let ?P = "takeWhile (is_complete c) bs"
    let ?e = "takeWhile (\<lambda>b. stamp c b \<noteq> ts) ?P"
    have "?P ! length ?e = bs ! length ?e" if "length ?e < length ?P" using that takeWhile_nth by blast
    with Cons False n show ?thesis using assms(1)
      by (simp add: return_scan_step return_scan_frame Let_def to_return_def nth_Cons' del: return_scan.simps)
  qed (simp add: to_return_def)
qed

text \<open>What a return leaves as it was.\<close>

abbreviation ctx :: "adc \<Rightarrow> BOMX_Port \<times> bool \<times> bool \<times> bool" where "ctx c \<equiv> drain_ctx (in_port c, c)"

definition kept :: "adc \<Rightarrow> adc \<Rightarrow> bool" where
  "kept c c' \<longleftrightarrow> m_heap c' = m_heap c \<and> m_inInfo (m_sub c') = m_inInfo (m_sub c) \<and> ctx c' = ctx c
     \<and> outer c' = outer c \<and> core (m_sub c') = core (m_sub c) \<and> out_port c' = out_port c"

lemma kept_eqs: "kept c c' \<Longrightarrow> is_complete c' = is_complete c" "kept c c' \<Longrightarrow> ctx c' = ctx c" "kept c c' \<Longrightarrow> m_heap c' = m_heap c"
  by (auto simp: kept_def is_complete_def priv_def fun_eq_iff)

lemma return_head:
  assumes inv: "input_inv c" and q: "in_queue c = b # q" and cmp: "is_complete c b"
  shows "\<exists>c' n. ReturnInputPortBuffer b c = Some (n, c') \<and> input_inv c' \<and> in_queue c' = q
    \<and> m_log c' = m_log c @ buffer_done (ctx c) b \<and> kept c c'"
proof -
  from inv have port: "port_inv (m_heap c) (in_port c)" "length (m_pAudioPorts c) = 2" "infos_ok c (b # q)"
    and av: "unat (m_AvailInputBuffers (m_sub c)) + Suc (length q) = unat (nBufferCountActual (m_definition (in_port c)))"
    and sd: "unat (m_submittedDescriptors (m_sub c)) = (\<Sum>x\<leftarrow>b # q. pend c x)"
    by (simp_all add: input_inv_def q)
  from ReturnPortBuffer_result [OF port(1), of b c] obtain p1 c1 where r: "ReturnPortBuffer (in_port c) b c = Some (p1, c1)"
      "port_inv (m_heap c) p1" "p1 = (in_port c)\<lparr>m_bufferQueue := q, m_queueDepth := m_queueDepth (in_port c) - 1\<rparr>"
      "m_log c1 = m_log c @ buffer_done (ctx c) b" "drain_ctx (p1, c1) = ctx c" by (auto simp: q)
  have c1: "m_heap c1 = m_heap c" "m_pAudioPorts c1 = m_pAudioPorts c" "m_sub c1 = m_sub c" "outer c1 = outer c"
    using r(1) by (auto simp: ReturnPortBuffer_def call_def outer_def split: option.splits if_splits)
  let ?c2 = "set_in p1 c1"
  have p0: "in_port ?c2 = p1" using c1 port(2) by simp
  let ?c3 = "sub (\<lambda>s. s\<lparr>m_AvailInputBuffers := m_AvailInputBuffers s + 1\<rparr>) (CancelTimerId m_inputBuffersTimerId m_inputBuffersTimerId_update ?c2)"
  have s3: "m_AvailInputBuffers (m_sub ?c3) = m_AvailInputBuffers (m_sub c) + 1" "m_inInfo (m_sub ?c3) = m_inInfo (m_sub c)"
    "m_submittedDescriptors (m_sub ?c3) = m_submittedDescriptors (m_sub c)" "m_heap ?c3 = m_heap c" "in_port ?c3 = p1"
    "m_log ?c3 = m_log c1" "length (m_pAudioPorts ?c3) = 2" "drain_ctx (p1, ?c3) = drain_ctx (p1, c1)"
    "outer ?c3 = outer c" "core (m_sub ?c3) = core (m_sub c)" "out_port ?c3 = out_port c"
    using c1 p0 port(2) by (simp_all add: CancelTimerId_def drain_ctx_def nexus_def sub_def set_in_def outer_def core_def)
  have av': "unat (m_AvailInputBuffers (m_sub c) + 1) = unat (m_AvailInputBuffers (m_sub c)) + 1"
    using av u32_lt [of "nBufferCountActual (m_definition (in_port c))"] by (simp add: unat_word_ariths)
  have "InputBufferReturned ?c2 = Some ?c3" using av av' r(3) s3(1) p0 by (simp add: InputBufferReturned_def Let_def word_le_nat_alt)
  moreover have "\<exists>x. m_heap c b = Some x" using port(3) by (auto simp: infos_ok_def)
  ultimately obtain n where ret: "ReturnInputPortBuffer b c = Some (n, ?c3)" using r(1) s3(4) by (auto simp: ReturnInputPortBuffer_def)
  have pv: "priv ?c3 = priv c" "pend ?c3 = pend c" using s3 by (simp_all add: priv_def pend_def fun_eq_iff)
  have "pend c b = 0" using cmp by (auto simp: is_complete_def pend_def split: option.splits)
  then have "input_inv ?c3" using r(2,3) s3 av av' sd pv port(3) by (simp add: input_inv_def infos_ok_def)
  moreover have "kept c ?c3" using s3 r(5) by (simp add: kept_def)
  ultimately show ?thesis using ret s3 r(3,4) by (intro exI [of _ ?c3] exI [of _ n]) simp
qed

lemma return_until_ok:
  assumes "input_inv c" "in_queue c = xs @ ret # q" "\<forall>b \<in> set (xs @ [ret]). is_complete c b" "ret \<notin> set xs"
  shows "\<exists>c'. return_until ret (xs @ ret # q) c = Some c' \<and> input_inv c' \<and> in_queue c' = q
    \<and> m_log c' = m_log c @ concat (map (buffer_done (ctx c)) (xs @ [ret])) \<and> kept c c'"
  using assms
proof (induction xs arbitrary: c)
  case Nil
  from return_head [OF Nil.prems(1), of ret q] Nil.prems show ?case by auto
next
  case (Cons b xs)
  from return_head [OF Cons.prems(1), of b "xs @ ret # q"] Cons.prems obtain c1 n where
    r: "ReturnInputPortBuffer b c = Some (n, c1)" "input_inv c1" "in_queue c1 = xs @ ret # q"
      "m_log c1 = m_log c @ buffer_done (ctx c) b" "kept c c1" by auto
  have k: "is_complete c1 = is_complete c" "ctx c1 = ctx c" using kept_eqs [OF r(5)] by auto
  from Cons.IH [OF r(2,3)] Cons.prems k obtain c2 where
    "return_until ret (xs @ ret # q) c1 = Some c2" "input_inv c2" "in_queue c2 = q"
    "m_log c2 = m_log c1 @ concat (map (buffer_done (ctx c)) (xs @ [ret]))" "kept c1 c2" by auto
  with r Cons.prems(4) show ?case by (auto simp: kept_def)
qed

lemma input_done:
  assumes "\<not> IsTunneled (in_port c)" "eDir (m_definition (in_port c)) = OMX_DirInput" "cb_EmptyBufferDone c"
  shows "concat (map (buffer_done (ctx c)) bs) = map (\<lambda>b. (m_locked c, EmptyBufferDone b)) bs"
  by (induction bs) (use assms in \<open>auto simp: buffer_done_def drain_ctx_def IsTunneled_def\<close>)

lemma take_drop_nth: "0 < r \<Longrightarrow> r \<le> length Q \<Longrightarrow> Q = take (r - 1) Q @ Q ! (r - 1) # drop r Q"
  using id_take_nth_drop [of "r - 1" Q] by simp

lemma take_takeWhile: "n \<le> length (takeWhile P xs) \<Longrightarrow> take n (takeWhile P xs) = take n xs"
  using take_append [of n "takeWhile P xs" "dropWhile P xs"] by simp

lemma like_ctx: "like c c' \<Longrightarrow> ctx c' = ctx c \<and> in_queue c' = in_queue c \<and> m_log c' = m_log c"
  by (simp add: like_def outer_def drain_ctx_def)

lemma ReturnInputBuffers_result:
  assumes inv: "input_inv c"
  shows "\<exists>c1 c' r. PlaypumpEvent env c = Some c1 \<and> ReturnInputBuffers env ts to c = Some c' \<and> input_inv c' \<and> in_queue c' = drop r (in_queue c)
    \<and> r = to_return c1 ts to (in_queue c) \<and> is_complete c' = is_complete c1
    \<and> m_log c' = m_log c @ concat (map (buffer_done (ctx c)) (take r (in_queue c))) \<and> ctx c' = ctx c
    \<and> m_heap c' = m_heap c \<and> core (m_sub c') = core (m_sub c) \<and> outer c' = outer c \<and> out_port c' = out_port c"
proof -
  from PlaypumpEvent_mark [OF inv, of env] obtain c1 where
    e: "PlaypumpEvent env c = Some c1" and l: "like (mark c (consumed env c)) c1" by blast
  from consumed_prefix [of env c] mark_input_inv [OF inv] l have i1: "input_inv c1" by (auto simp: like_eqs)
  let ?Q = "in_queue c" and ?r = "to_return c1 ts to (in_queue c)"
  have q: "in_queue c1 = ?Q" "m_log c1 = m_log c" "ctx c1 = ctx c"
    using like_ctx [OF l] by (simp_all add: drain_ctx_def mark_def sub_def)
  have k: "m_heap c1 = m_heap c" "core (m_sub c1) = core (m_sub c)" "outer c1 = outer c" "out_port c1 = out_port c"
    using l by (simp_all add: like_def)
  have w: "infos_ok c1 ?Q" "port_inv (m_heap c1) (in_port c1)" using i1 by (auto simp: input_inv_def q)
  have n: "NULL \<notin> set ?Q" "distinct ?Q"
    using port_inv_queue_nonnull [OF w(2), of NULL] w(2) q(1) by (auto, simp add: port_inv_def)
  note scan = return_scan_result [OF w(1) n(1), of ts to]
  show ?thesis
  proof (cases "?r = 0")
    case True
    then show ?thesis using e i1 q k scan by (intro exI [of _ c1] exI [of _ c1] exI [of _ 0]) (simp add: ReturnInputBuffers_def)
  next
    case False
    have le: "?r \<le> length (takeWhile (is_complete c1) ?Q)" by (rule to_return_le)
    then have lQ: "?r \<le> length ?Q" using length_takeWhile_le le_trans by blast
    let ?b = "?Q ! (?r - 1)" and ?xs = "take (?r - 1) ?Q"
    have sp: "?Q = ?xs @ ?b # drop ?r ?Q" using take_drop_nth [of ?r ?Q] False lQ by simp
    have t: "take ?r ?Q = ?xs @ [?b]" using take_Suc_conv_app_nth [of "?r - 1" ?Q] False lQ by simp
    have tw: "take ?r ?Q = take ?r (takeWhile (is_complete c1) ?Q)" using take_takeWhile [OF le] by simp
    have "\<forall>b \<in> set (?xs @ [?b]). is_complete c1 b" unfolding t [symmetric] tw by (auto dest: in_set_takeD set_takeWhileD)
    moreover have "distinct (?xs @ ?b # drop ?r ?Q)" by (subst sp [symmetric]) (rule n(2))
    then have "?b \<notin> set ?xs" by simp
    ultimately have "\<exists>c2. return_until ?b (?xs @ ?b # drop ?r ?Q) c1 = Some c2 \<and> input_inv c2 \<and> in_queue c2 = drop ?r ?Q
        \<and> m_log c2 = m_log c1 @ concat (map (buffer_done (ctx c1)) (?xs @ [?b])) \<and> kept c1 c2"
      by (intro return_until_ok [OF i1 trans [OF q(1) sp]])
    then obtain c2 where c2: "return_until ?b ?Q c1 = Some c2" "input_inv c2" "in_queue c2 = drop ?r ?Q"
        "m_log c2 = m_log c1 @ concat (map (buffer_done (ctx c1)) (take ?r ?Q))" "kept c1 c2"
      unfolding sp [symmetric] t [symmetric] by blast
    have "?b \<in> set ?Q" using False lQ by (intro nth_mem) simp
    then have "?b \<noteq> NULL" using n(1) by metis
    then have "ReturnInputBuffers env ts to c = Some c2" using e scan c2(1) False q(1) by (simp add: ReturnInputBuffers_def)
    then show ?thesis using e c2 q k kept_eqs [OF c2(5)] by (intro exI [of _ c1] exI [of _ c2] exI [of _ ?r]) (simp add: kept_def)
  qed
qed

text \<open>
  C6: Input buffers go back to the client in the order in which they came, each one once, and only
  after the playpump has consumed it; when the timeout causes the return, all those go back that
  are complete and not behind an incomplete one, and otherwise at least the first, if it is complete.
  The count of free buffers and the queue stay in step, so its assertion cannot fail.
\<close>

theorem adec_returns_in_order:
  assumes inv: "input_inv c" and cl: "\<not> IsTunneled (in_port c)" "eDir (m_definition (in_port c)) = OMX_DirInput" "cb_EmptyBufferDone c"
  shows "\<exists>c' r. ReturnInputBuffers env ts to c = Some c' \<and> input_inv c' \<and> in_queue c' = drop r (in_queue c)
    \<and> m_log c' = m_log c @ map (\<lambda>b. (m_locked c, EmptyBufferDone b)) (take r (in_queue c))
    \<and> (\<forall>b \<in> set (take r (in_queue c)). is_complete c' b)
    \<and> (to \<longrightarrow> in_queue c' = [] \<or> \<not> is_complete c' (hd (in_queue c')))
    \<and> (r = 0 \<longrightarrow> in_queue c = [] \<or> \<not> is_complete c' (hd (in_queue c)))"
proof -
  let ?Q = "in_queue c"
  from ReturnInputBuffers_result [OF inv, of env ts to] obtain c1 c' r where
    r: "ReturnInputBuffers env ts to c = Some c'" "input_inv c'" "in_queue c' = drop r ?Q" "r = to_return c1 ts to ?Q"
      "is_complete c' = is_complete c1" "m_log c' = m_log c @ concat (map (buffer_done (ctx c)) (take r ?Q))" by blast
  let ?P = "takeWhile (is_complete c1) ?Q"
  have le: "r \<le> length ?P" using to_return_le r(4) by simp
  have "take r ?Q = take r ?P" using take_takeWhile [OF le] by simp
  then have "\<forall>b \<in> set (take r ?Q). is_complete c' b" using r(5) by (auto dest: in_set_takeD set_takeWhileD)
  moreover have "drop r ?Q = [] \<or> \<not> is_complete c' (hd (drop r ?Q))" if to
    using that r(4,5) hd_dropWhile [of "is_complete c1" ?Q] by (auto simp: to_return_def Let_def simp flip: dropWhile_eq_drop)
  moreover have "?Q = [] \<or> \<not> is_complete c' (hd ?Q)" if "r = 0"
    using that r(4,5) by (cases ?Q) (auto simp: to_return_def Let_def split: if_splits)
  ultimately show ?thesis using r input_done [OF cl] by (intro exI [of _ c'] exI [of _ r]) simp
qed

lemma consumed_all:
  assumes inv: "input_inv c" and pp: "m_hPlaypump (m_sub c) \<noteq> NULL" "e_playpump env (nlog (timer_off c)) = (True, 0)"
    and dec: "\<forall>l. \<not> fst (snd (e_decoder env l))"
  shows "consumed env c = in_queue c"
proof -
  let ?Q = "in_queue c"
  have "fst (fifo_head env x) = NULL" for x
    using dec [rule_format, of "nlog x"] by (cases "e_decoder env (nlog x)") (simp add: fifo_head_def Let_def)
  moreover have "b \<noteq> NULL" if "b \<in> set ?Q" for b using inv that port_inv_queue_nonnull unfolding input_inv_def by blast
  ultimately have a: "ahead env c = ?Q" by (simp add: ahead_def takeWhile_eq_all_conv)
  have "length ?Q \<le> fits (unat (m_submittedDescriptors (m_sub c))) (map (pend c) ?Q)"
    using inv fits_greatest [of "length ?Q" "map (pend c) ?Q"] by (simp add: input_inv_def)
  then show ?thesis using pp by (simp add: consumed_def a)
qed

text \<open>
  C19: No input buffer is stuck: when the playpump and the decoder have nothing left and the timer for
  unreturned buffers fires, every queued buffer goes back to the client, and all buffers count as free again.
\<close>

theorem adec_all_returned:
  assumes inv: "input_inv c" and cl: "\<not> IsTunneled (in_port c)" "eDir (m_definition (in_port c)) = OMX_DirInput" "cb_EmptyBufferDone c"
    and pp: "m_hPlaypump (m_sub c) \<noteq> NULL" "\<forall>l. e_playpump env l = (True, 0)" and dec: "\<forall>l. \<not> fst (snd (e_decoder env l))"
  shows "\<exists>c'. InputBufferTimeoutCallback env c = Some c' \<and> input_inv c' \<and> in_queue c' = []
    \<and> m_AvailInputBuffers (m_sub c') = nBufferCountActual (m_definition (in_port c)) \<and> m_submittedDescriptors (m_sub c') = 0
    \<and> m_log c' = m_log c @ map (\<lambda>b. (m_locked c, EmptyBufferDone b)) (in_queue c)"
proof -
  let ?Q = "in_queue c"
  define d where "d = CancelTimerId m_inputBuffersTimerId m_inputBuffersTimerId_update c"
  have l: "like c d" by (simp add: d_def)
  then have d: "input_inv d" "in_queue d = ?Q" "ctx d = ctx c" "m_log d = m_log c" "m_hPlaypump (m_sub d) = m_hPlaypump (m_sub c)"
    using inv like_eqs(5) [OF l] like_ctx [OF l] by (simp_all add: d_def CancelTimerId_def)
  have all: "consumed env d = ?Q" using consumed_all [OF d(1), of env] d pp dec by simp
  from PlaypumpEvent_mark [OF d(1), of env] all have m: "PlaypumpEvent env d = Some c1 \<Longrightarrow> like (mark d ?Q) c1" for c1 by auto
  from ReturnInputBuffers_result [OF d(1), of env 0 True] obtain c1 c' r where
    r: "PlaypumpEvent env d = Some c1" "ReturnInputBuffers env 0 True d = Some c'" "input_inv c'" "in_queue c' = drop r ?Q" "r = to_return c1 0 True ?Q"
      "m_log c' = m_log c @ concat (map (buffer_done (ctx c)) (take r ?Q))" "ctx c' = ctx c" unfolding d by blast
  have "infos_ok d ?Q" using d(1,2) by (simp add: input_inv_def)
  then have "is_complete (mark d ?Q) b" if "b \<in> set ?Q" for b using that by (auto simp: mark_pend infos_ok_def)
  then have tw: "takeWhile (is_complete c1) ?Q = ?Q" using like_eqs(3) [OF m [OF r(1)]] by (simp add: takeWhile_eq_all_conv)
  have rl: "r = length ?Q" unfolding r(5) to_return_def Let_def tw by simp
  have q': "in_queue c' = []" using r(4) rl by simp
  have "m_definition (in_port c') = m_definition (in_port c)"
    using arg_cong [OF r(7), of "\<lambda>x. m_definition (fst x)"] by (simp add: drain_ctx_def)
  with r(3) q' have "unat (m_AvailInputBuffers (m_sub c')) = unat (nBufferCountActual (m_definition (in_port c)))"
    "unat (m_submittedDescriptors (m_sub c')) = 0" by (simp_all add: input_inv_def)
  then have "m_AvailInputBuffers (m_sub c') = nBufferCountActual (m_definition (in_port c))" "m_submittedDescriptors (m_sub c') = 0"
    by (simp_all only: word_unat_eq_iff unat_0)
  then show ?thesis using r(2,3,6) q' rl input_done [OF cl] by (intro exI [of _ c']) (simp add: InputBufferTimeoutCallback_def d_def)
qed

section \<open>Witnesses\<close>

text \<open>One buffer is queued, its two descriptors are submitted.\<close>

definition demo_adec_queued :: adc where
  "demo_adec_queued =
     set_in ((in_port demo_adec)\<lparr>m_bufferQueue := [8], m_queueDepth := 1\<rparr>)
       (sub (\<lambda>s. s\<lparr>m_hPlaypump := 9, m_AvailInputBuffers := 11, m_submittedDescriptors := 2,
          m_inInfo := [50 \<mapsto> demo_in_info\<lparr>numDescriptors := 2\<rparr>]\<rparr>) demo_adec)"

lemma demo_queued_parts:
  "in_queue demo_adec_queued = [8]" "m_sub demo_adec_queued = (m_sub demo_adec)\<lparr>m_hPlaypump := 9, m_AvailInputBuffers := 11,
    m_submittedDescriptors := 2, m_inInfo := [50 \<mapsto> demo_in_info\<lparr>numDescriptors := 2\<rparr>]\<rparr>"
  "priv demo_adec_queued 8 = 50" "pend demo_adec_queued 8 = 2" "cb_EmptyBufferDone demo_adec_queued"
  "\<not> IsTunneled (in_port demo_adec_queued)" "eDir (m_definition (in_port demo_adec_queued)) = OMX_DirInput" "\<not> m_locked demo_adec_queued"
  by (simp_all add: demo_adec_queued_def demo_adec_simps priv_def pend_def set_in_def sub_def IsTunneled_def Let_def)

lemma demo_adec_queued_inv: "input_inv demo_adec_queued"
proof -
  have "infos_ok demo_adec_queued [8]" using demo_queued_parts
    by (simp add: infos_ok_def) (simp add: demo_adec_queued_def demo_adec_simps Let_def)
  moreover have "port_inv (m_heap demo_adec_queued) (in_port demo_adec_queued)" "length (m_pAudioPorts demo_adec_queued) = 2"
    "nBufferCountActual (m_definition (in_port demo_adec_queued)) = 12"
    by (simp_all add: demo_adec_queued_def demo_adec_simps port_inv_def buffer_ok_def Let_def)
  ultimately show ?thesis using demo_queued_parts by (simp add: input_inv_def)
qed

theorem adec_playpump_completes_witness:
  "\<exists>c'. PlaypumpEvent demo_adec_env demo_adec_queued = Some c' \<and> is_complete c' 8"
proof -
  have "m_hPlaypump (m_sub demo_adec_queued) \<noteq> NULL" "(0::u32) \<le> m_submittedDescriptors (m_sub demo_adec_queued)"
    by (simp_all add: demo_queued_parts)
  moreover have "e_playpump demo_adec_env (nlog (timer_off demo_adec_queued)) = (True, 0)" by (simp add: demo_adec_env_def)
  moreover have "ahead demo_adec_env demo_adec_queued = [8]"
    by (simp add: ahead_def fifo_head_def demo_adec_env_def demo_queued_parts)
  ultimately show ?thesis using adec_playpump_completes [OF demo_adec_queued_inv, of demo_adec_env 0]
    by (auto simp: demo_queued_parts)
qed

theorem adec_returns_in_order_witness:
  "\<exists>c' r. ReturnInputBuffers demo_adec_env 0 True demo_adec_queued = Some c' \<and> in_queue c' = drop r [8]
    \<and> m_log c' = m_log demo_adec_queued @ map (\<lambda>b. (False, EmptyBufferDone b)) (take r [8])"
  using adec_returns_in_order [OF demo_adec_queued_inv, of demo_adec_env 0 True] by (auto simp: demo_queued_parts)

theorem adec_all_returned_witness:
  "\<exists>c'. InputBufferTimeoutCallback demo_adec_env demo_adec_queued = Some c' \<and> in_queue c' = [] \<and> m_AvailInputBuffers (m_sub c') = 12"
proof -
  have "nBufferCountActual (m_definition (in_port demo_adec_queued)) = 12"
    by (simp add: demo_adec_queued_def demo_adec_simps Let_def)
  then show ?thesis using adec_all_returned [OF demo_adec_queued_inv, of demo_adec_env]
    by (auto simp: demo_queued_parts demo_adec_env_def)
qed

end
