(* ===== verification/Adec_Empty.thy ===== *)
theory Adec_Empty
  imports Adec_Packets Adec_Queue
begin

text \<open>
  \<open>BOMX_AudioDecoder::EmptyThisBuffer\<close> as a whole: what the client's frame becomes, and the queue,
  the counters and the log of Nexus calls afterwards.
\<close>

section \<open>Adding a buffer to the queue\<close>

lemma enqueue_inv:
  assumes inv: "input_inv c" and b: "b \<in> set (m_bufferList (in_port c))" "b \<notin> set (in_queue c)" "priv c b \<notin> priv c ` set (in_queue c)"
    and heap: "m_heap c' = (m_heap c)(b \<mapsto> x)" "GetComponentPrivate x = priv c b" "pPlatformPrivate (m_header x) = b"
    and port: "m_pAudioPorts c' = (m_pAudioPorts c)[0 := (in_port c)\<lparr>m_bufferQueue := in_queue c @ [b], m_queueDepth := m_queueDepth (in_port c) + 1\<rparr>]"
    and info: "m_inInfo (m_sub c') = (m_inInfo (m_sub c))(priv c b \<mapsto> i)" "\<not> complete i"
    and av: "m_AvailInputBuffers (m_sub c) > 0" "m_AvailInputBuffers (m_sub c') = m_AvailInputBuffers (m_sub c) - 1"
    and sd: "m_submittedDescriptors (m_sub c') = m_submittedDescriptors (m_sub c) + numDescriptors i"
      "unat (m_submittedDescriptors (m_sub c)) + unat (numDescriptors i) < 2 ^ 32"
  shows "input_inv c'" "pend c' b = unat (numDescriptors i)"
proof -
  let ?Q = "in_queue c"
  have i: "length (m_pAudioPorts c) = 2" "port_inv (m_heap c) (in_port c)" "infos_ok c ?Q"
    "unat (m_AvailInputBuffers (m_sub c)) + length ?Q = unat (nBufferCountActual (m_definition (in_port c)))"
    "unat (m_submittedDescriptors (m_sub c)) = (\<Sum>b\<leftarrow>?Q. pend c b)" using inv by (simp_all add: input_inv_def)
  have p0: "in_port c' = (in_port c)\<lparr>m_bufferQueue := ?Q @ [b], m_queueDepth := m_queueDepth (in_port c) + 1\<rparr>" using port i(1) by simp
  have pv: "priv c' = priv c" using heap by (auto simp: priv_def fun_eq_iff)
  have pq: "pend c' y = pend c y" if "y \<in> set ?Q" for y
  proof -
    have "priv c y \<noteq> priv c b" using that b(3) by (metis imageI)
    then show ?thesis using info(1) by (simp add: pend_def pv)
  qed
  show pb: "pend c' b = unat (numDescriptors i)" using info by (simp add: pend_def pv)
  have "buffer_ok (m_heap c') y = buffer_ok (m_heap c) y" for y using i(2) b(1) heap by (auto simp: buffer_ok_def port_inv_def list_all_iff)
  then have "port_inv (m_heap c') (in_port c')" using i(2) b(1,2) by (auto simp: p0 port_inv_def list_all_iff)
  moreover have "infos_ok c' (?Q @ [b])" using i(3) b(3) heap(1) info(1) by (auto simp: infos_ok_def pv)
  moreover have "unat (m_AvailInputBuffers (m_sub c')) + 1 = unat (m_AvailInputBuffers (m_sub c))"
    using av by (simp add: unat_minus_one word_gt_0 unat_gt_0)
  moreover have "unat (m_submittedDescriptors (m_sub c')) = (\<Sum>b\<leftarrow>?Q. pend c b) + unat (numDescriptors i)"
    using i(5) sd by (simp add: unat_word_ariths)
  moreover have "(\<Sum>b\<leftarrow>?Q. pend c' b) = (\<Sum>b\<leftarrow>?Q. pend c b)" using pq by (intro arg_cong [where f = sum_list] map_cong) auto
  ultimately show "input_inv c'" using i(1,4) pb port by (simp add: input_inv_def p0)
qed

section \<open>A frame of the client\<close>

lemma frame_ready_info:
  assumes "frame_ready c hdr k f" "pHeader i = pHeader (fr_object f)" "maxHeaderLen i = maxHeaderLen (fr_object f)" "pPayload i = pPayload (fr_object f)"
  shows "frame_ready (put_in_info (fr_info f) i c) hdr k (f\<lparr>fr_object := i\<rparr>)"
proof -
  have "in_info (put_in_info (fr_info f) i c) hdr = Some (fr_info f, i)"
    using assms(1) by (auto simp: frame_ready_def Let_def in_info_def put_in_info_def split: bind_splits)
  moreover have "read_at (put_in_info (fr_info f) i c) = read_at c" "m_sub (put_in_info (fr_info f) i c) = (m_sub c)\<lparr>m_inInfo := (m_inInfo (m_sub c))(fr_info f \<mapsto> i)\<rparr>"
    "m_heap (put_in_info (fr_info f) i c) = m_heap c" by (simp_all add: read_at_def put_in_info_def fun_eq_iff)
  ultimately show ?thesis using assms by (simp add: frame_ready_def Let_def)
qed

lemma frame_ready_other:
  "frame_ready (sub (\<lambda>s. s\<lparr>m_pBufferTracker := t\<rparr>) c) hdr k f = frame_ready c hdr k f"
  "frame_ready (sub (\<lambda>s. s\<lparr>m_pBcmaHeader := h\<rparr>) c) hdr k f = frame_ready c hdr k f"
  by (simp_all add: frame_ready_def Let_def read_at_def in_info_def)

text \<open>What the component and the client have prepared when \<open>EmptyThisBuffer\<close> is called with a frame.\<close>

definition client_frame :: "'b adec_env \<Rightarrow> adc \<Rightarrow> addr \<Rightarrow> u8 list \<Rightarrow> frame \<Rightarrow> bool" where
  "client_frame env c hdr codec f =
     (let h = fr_header f; p = in_port c in
      input_inv c \<and> frame_ready c hdr (length codec) f \<and> maxHeaderLen (fr_object f) < 14 + length codec + 9
      \<and> map_option fst (codec_header env (nFilledLen h) c) = Some codec
      \<and> map_option m_dir (m_heap c hdr) = Some OMX_DirInput \<and> fr_info f \<noteq> NULL \<and> fr_info f \<notin> priv c ` set (in_queue c)
      \<and> hdr \<in> set (m_bufferList p) \<and> hdr \<notin> set (in_queue c) \<and> length (m_bufferList p) \<le> unat (nBufferCountActual (m_definition p))
      \<and> nFilledLen h + nOffset h \<le> nAllocLen h \<and> nInputPortIndex h = m_audioPortBase c
      \<and> nFlags h AND OMX_BUFFERFLAG_CODECCONFIG = 0 \<and> fr_data f \<noteq> []
      \<and> length (fr_config f) + length codec + length (fr_data f) \<le> 65527
      \<and> tracker_inv (m_pBufferTracker (m_sub c)) \<and> unat (m_submittedDescriptors (m_sub c)) + 5 < 2 ^ 32)"

lemma codec_header_other:
  assumes "map_option fst (codec_header env n c) = Some codec"
    and "in_port c' = in_port c" "m_ascInfo (m_sub c') = m_ascInfo (m_sub c)" "m_eAACStreamFormat (m_sub c') = m_eAACStreamFormat (m_sub c)"
      "m_pBcmaHeader (m_sub c') = m_pBcmaHeader (m_sub c)"
  shows "\<exists>hd. codec_header env n c' = Some (codec, sub (\<lambda>s. s\<lparr>m_pBcmaHeader := hd\<rparr>) c')"
proof (cases "GetCodec env c = OMX_AUDIO_CodingAAC \<and> m_eAACStreamFormat (m_sub c) = OMX_AUDIO_AACStreamFormatMP4FF")
  case True
  with assms show ?thesis by (auto simp: codec_header_def GetCodec_def split: bind_splits prod.splits)
next
  case False
  have "c' = sub (\<lambda>s. s\<lparr>m_pBcmaHeader := m_pBcmaHeader (m_sub c)\<rparr>) c'" unfolding assms(5) [symmetric] by (simp add: sub_def)
  with False assms show ?thesis by (auto simp: codec_header_def GetCodec_def)
qed

definition is_submit :: "nexus_call \<Rightarrow> bool" where
  "is_submit e = (case e of Submit _ \<Rightarrow> True | _ \<Rightarrow> False)"

lemma is_submit_simps [simp]: "is_submit (Submit ds)" "\<not> is_submit (StartTimer n)" "\<not> is_submit (CancelTimer t)" "\<not> is_submit SetOutputFrameEvent"
  by (simp_all add: is_submit_def)

lemma InputBufferNew_ok:
  assumes "m_AvailInputBuffers (m_sub c) > 0"
  shows "\<exists>t l. InputBufferNew env c = Some (sub (\<lambda>s. s\<lparr>m_AvailInputBuffers := m_AvailInputBuffers s - 1, m_inputBuffersTimerId := t,
    m_nexus := m_nexus s @ l\<rparr>) c) \<and> filter is_submit l = []"
proof (cases "m_AvailInputBuffers (m_sub c) - 1 = 0")
  case True
  let ?l = "if m_inputBuffersTimerId (m_sub c) \<noteq> NULL then [CancelTimer (m_inputBuffersTimerId (m_sub c))] else []"
  show ?thesis using assms True
    by (intro exI [of _ "e_handle env (nlog c @ ?l)"] exI [of _ "?l @ [StartTimer B_INPUT_BUFFERS_RETURN_INTERVAL]"])
       (simp add: InputBufferNew_def Let_def CancelTimerId_def nexus_def sub_def)
next
  case False
  then show ?thesis using assms
    by (intro exI [of _ "m_inputBuffersTimerId (m_sub c)"] exI [of _ "[]"]) (simp add: InputBufferNew_def Let_def sub_def)
qed

lemma put_simps [simp]:
  "m_sub (put_header b h c) = m_sub c" "m_pAudioPorts (put_header b h c) = m_pAudioPorts c" "m_log (put_header b h c) = m_log c"
  "m_heap (put_header b h c) = (m_heap c)(b := map_option (\<lambda>x. x\<lparr>m_header := h\<rparr>) (m_heap c b))"
  "m_sub (put_in_info a i c) = (m_sub c)\<lparr>m_inInfo := (m_inInfo (m_sub c))(a \<mapsto> i)\<rparr>" "m_heap (put_in_info a i c) = m_heap c"
  "m_pAudioPorts (put_in_info a i c) = m_pAudioPorts c" "m_log (put_in_info a i c) = m_log c"
  by (simp_all add: put_header_def put_in_info_def)

lemma Tracker_Add_pts:
  assumes "tracker_inv t"
  shows "\<exists>ok p t'. Tracker_Add n t h = Some (ok, p, t')
    \<and> (if ok then case p of Some x \<Rightarrow> x | None \<Rightarrow> old else BOMX_TickToPts (nTimeStamp h)) = BOMX_TickToPts (nTimeStamp h)"
proof -
  have "sorted_pts (m_allocList t)" using assms by (simp add: tracker_inv_def)
  from Tracker_Add_result [OF this, of n h] show ?thesis by (cases "m_freeList t"; cases n) (simp_all add: ex_bool_eq)
qed

lemma submit_ok:
  assumes "e_error env (nlog c @ [Submit ds]) = 0" "e_consumed env (nlog c @ [Submit ds]) = length ds"
  shows "submit env ds c = Some (True, sub (\<lambda>s. s\<lparr>m_nexus := m_nexus s @ [Submit ds], m_submittedDescriptors := m_submittedDescriptors s + of_nat (length ds)\<rparr>) c)"
  using assms by (simp add: submit_def Let_def nexus_def comp_def)

lemma add_descriptors_ok:
  assumes "m_heap c b = Some x" "m_inInfo (m_sub c) (GetComponentPrivate x) = Some i"
  shows "add_descriptors b n c = Some (put_in_info (GetComponentPrivate x) (i\<lparr>numDescriptors := numDescriptors i + n\<rparr>) c)"
  using assms by (simp add: add_descriptors_def in_info_def)

lemma queue_input_ok:
  assumes "m_AvailInputBuffers (m_sub c) > 0" "m_heap c hdr = Some x" "pPlatformPrivate (m_header x) = hdr" "hdr \<noteq> NULL"
    "hdr \<in> set (m_bufferList (in_port c))" "hdr \<notin> set (in_queue c)"
  shows "\<exists>t l. queue_input env hdr c = Some (OMX_ErrorNone,
    set_in ((in_port c)\<lparr>m_bufferQueue := in_queue c @ [hdr], m_queueDepth := m_queueDepth (in_port c) + 1\<rparr>)
      (sub (\<lambda>s. s\<lparr>m_AvailInputBuffers := m_AvailInputBuffers s - 1, m_inputBuffersTimerId := t, m_nexus := m_nexus s @ l\<rparr>) c)) \<and> filter is_submit l = []"
proof -
  from InputBufferNew_ok [OF assms(1), of env] obtain t l where
    "InputBufferNew env c = Some (sub (\<lambda>s. s\<lparr>m_AvailInputBuffers := m_AvailInputBuffers s - 1, m_inputBuffersTimerId := t, m_nexus := m_nexus s @ l\<rparr>) c)"
    "filter is_submit l = []" by blast
  with assms show ?thesis by (intro exI [of _ t] exI [of _ l]) (simp add: queue_input_def QueueBuffer_def Let_def)
qed

text \<open>What a submitted frame changes: \<open>ds\<close> are its descriptors and \<open>i\<close> its information object afterwards.\<close>

definition submitted :: "adc \<Rightarrow> addr \<Rightarrow> frame \<Rightarrow> NEXUS_PlaypumpScatterGatherDescriptor list list \<Rightarrow> adc \<Rightarrow> bool" where
  "submitted c hdr f dss c' \<longleftrightarrow>
     (\<exists>x i l. m_heap c' = (m_heap c)(hdr \<mapsto> x) \<and> m_dir x = OMX_DirInput \<and> pInputPortPrivate (m_header x) = fr_info f
        \<and> pPlatformPrivate (m_header x) = hdr \<and> nFilledLen (m_header x) = 0
        \<and> m_pAudioPorts c' = (m_pAudioPorts c)[0 := (in_port c)\<lparr>m_bufferQueue := in_queue c @ [hdr], m_queueDepth := m_queueDepth (in_port c) + 1\<rparr>]
        \<and> m_inInfo (m_sub c') = (m_inInfo (m_sub c))(fr_info f \<mapsto> i) \<and> \<not> complete i \<and> numDescriptors i = of_nat (length (concat dss))
        \<and> m_AvailInputBuffers (m_sub c') = m_AvailInputBuffers (m_sub c) - 1
        \<and> m_submittedDescriptors (m_sub c') = m_submittedDescriptors (m_sub c) + of_nat (length (concat dss))
        \<and> nlog c' = nlog c @ l \<and> filter is_submit l = map Submit dss)
     \<and> m_log c' = m_log c"

definition sent :: "adc \<Rightarrow> addr \<Rightarrow> addr \<Rightarrow> BOMX_AudioDecoderInputBufferInfo \<Rightarrow> NEXUS_PlaypumpScatterGatherDescriptor list \<Rightarrow> addr \<Rightarrow> nexus_log \<Rightarrow> adc" where
  "sent c hdr a i ds t l =
     set_in ((in_port c)\<lparr>m_bufferQueue := in_queue c @ [hdr], m_queueDepth := m_queueDepth (in_port c) + 1\<rparr>)
       (sub (\<lambda>s. s\<lparr>m_submittedDescriptors := m_submittedDescriptors s + of_nat (length ds), m_inInfo := (m_inInfo s)(a \<mapsto> i),
          m_AvailInputBuffers := m_AvailInputBuffers s - 1, m_inputBuffersTimerId := t, m_nexus := m_nexus s @ Submit ds # l\<rparr>) c)"

lemma send_ok:
  assumes nexus: "\<forall>l ds. e_error env (l @ [Submit ds]) = 0 \<and> e_consumed env (l @ [Submit ds]) = length ds"
    and x: "m_heap c hdr = Some x" "m_inInfo (m_sub c) (GetComponentPrivate x) = Some i" "pPlatformPrivate (m_header x) = hdr"
    and q: "m_AvailInputBuffers (m_sub c) > 0" "hdr \<noteq> NULL" "hdr \<in> set (m_bufferList (in_port c))" "hdr \<notin> set (in_queue c)"
  shows "\<exists>c1 c2 c3 t l. submit env ds c = Some (True, c1) \<and> add_descriptors hdr (of_nat (length ds)) c1 = Some c2
    \<and> queue_input env hdr c2 = Some (OMX_ErrorNone, c3) \<and> filter is_submit l = []
    \<and> c3 = sent c hdr (GetComponentPrivate x) (i\<lparr>numDescriptors := numDescriptors i + of_nat (length ds)\<rparr>) ds t l"
proof -
  let ?i = "i\<lparr>numDescriptors := numDescriptors i + of_nat (length ds)\<rparr>" and ?a = "GetComponentPrivate x"
  define c1 where "c1 = sub (\<lambda>s. s\<lparr>m_nexus := m_nexus s @ [Submit ds], m_submittedDescriptors := m_submittedDescriptors s + of_nat (length ds)\<rparr>) c"
  define c2 where "c2 = put_in_info ?a ?i c1"
  have s: "submit env ds c = Some (True, c1)" "add_descriptors hdr (of_nat (length ds)) c1 = Some c2"
    using nexus x add_descriptors_ok [of c1 hdr x i] by (auto simp: c1_def c2_def intro: submit_ok)
  have p: "m_pAudioPorts c2 = m_pAudioPorts c" "m_AvailInputBuffers (m_sub c2) = m_AvailInputBuffers (m_sub c)" "m_heap c2 hdr = Some x"
    using x(1) by (simp_all add: c2_def c1_def)
  from queue_input_ok [of c2 hdr x env] p q x(3) obtain t l where
    "queue_input env hdr c2 = Some (OMX_ErrorNone,
      set_in ((in_port c)\<lparr>m_bufferQueue := in_queue c @ [hdr], m_queueDepth := m_queueDepth (in_port c) + 1\<rparr>)
        (sub (\<lambda>s. s\<lparr>m_AvailInputBuffers := m_AvailInputBuffers s - 1, m_inputBuffersTimerId := t, m_nexus := m_nexus s @ l\<rparr>) c2))"
      "filter is_submit l = []" by auto
  moreover have "set_in ((in_port c)\<lparr>m_bufferQueue := in_queue c @ [hdr], m_queueDepth := m_queueDepth (in_port c) + 1\<rparr>)
      (sub (\<lambda>s. s\<lparr>m_AvailInputBuffers := m_AvailInputBuffers s - 1, m_inputBuffersTimerId := t, m_nexus := m_nexus s @ l\<rparr>) c2) = sent c hdr ?a ?i ds t l"
    by (simp add: sent_def c2_def c1_def put_in_info_def comp_def)
  ultimately show ?thesis using s
    by (intro exI [of _ c1] exI [of _ c2] exI [of _ "sent c hdr ?a ?i ds t l"] exI [of _ t] exI [of _ l]) simp
qed

lemma free_slot:
  assumes inv: "input_inv c" and q: "b \<in> set (m_bufferList (in_port c))" "b \<notin> set (in_queue c)"
    "length (m_bufferList (in_port c)) \<le> unat (nBufferCountActual (m_definition (in_port c)))"
  shows "m_AvailInputBuffers (m_sub c) > 0" "b \<noteq> NULL"
proof -
  have "card (insert b (set (in_queue c))) \<le> card (set (m_bufferList (in_port c)))"
    using inv q(1) by (intro card_mono) (auto simp: input_inv_def port_inv_def)
  then have "length (in_queue c) < length (m_bufferList (in_port c))" using inv q(2) by (auto simp: input_inv_def port_inv_def distinct_card)
  then have "unat (m_AvailInputBuffers (m_sub c)) \<noteq> 0" using inv q(3) by (auto simp: input_inv_def)
  then show "m_AvailInputBuffers (m_sub c) > 0" by (simp add: word_gt_0 unat_eq_0)
  show "b \<noteq> NULL" using inv q(1) port_inv_list_nonnull by (auto simp: input_inv_def)
qed

lemma empty_frame_ok:
  assumes laws: "biobits_laws (e_biobits env)" and nexus: "\<forall>l ds. e_error env (l @ [Submit ds]) = 0 \<and> e_consumed env (l @ [Submit ds]) = length ds"
    and cf: "client_frame env c hdr codec f"
  defines "c0 \<equiv> put_in_info (fr_info f) ((fr_object f)\<lparr>numDescriptors := 0, complete := False\<rparr>) c"
  shows "\<exists>ds c'. empty_frame env hdr c0 = Some (OMX_ErrorNone, c') \<and> submitted c hdr f [ds] c' \<and> length ds \<le> B_MAX_DESCRIPTORS_PER_BUFFER
    \<and> depacketize (stream c' ds) = Some (fr_config f @ codec @ fr_data f)
    \<and> pes_pts (stream c' ds) = push_bit 1 (ucast (BOMX_TickToPts (nTimeStamp (fr_header f))))"
proof -
  let ?h = "fr_header f" and ?a = "fr_info f" and ?i0 = "(fr_object f)\<lparr>numDescriptors := 0, complete := False\<rparr>"
  let ?pts = "BOMX_TickToPts (nTimeStamp ?h)" and ?mx = B_MAX_DESCRIPTORS_PER_BUFFER
  have mx: "4 \<le> ?mx" by (simp add: B_MAX_DESCRIPTORS_PER_BUFFER_def)
  from cf have r: "frame_ready c hdr (length codec) f" and small: "maxHeaderLen (fr_object f) < 14 + length codec + 9"
    and cd: "map_option fst (codec_header env (nFilledLen ?h) c) = Some codec" and inv: "input_inv c"
    and q: "hdr \<in> set (m_bufferList (in_port c))" "hdr \<notin> set (in_queue c)" "length (m_bufferList (in_port c)) \<le> unat (nBufferCountActual (m_definition (in_port c)))"
    and fit: "length (fr_config f) + length codec + length (fr_data f) \<le> 65527" and tr: "tracker_inv (m_pBufferTracker (m_sub c))"
    and dir: "map_option m_dir (m_heap c hdr) = Some OMX_DirInput"
    by (auto simp: client_frame_def Let_def)
  from r dir obtain obj where obj: "m_heap c hdr = Some obj" "m_header obj = ?h" "pPlatformPrivate ?h = hdr" "m_dir obj = OMX_DirInput"
    and gi: "GetComponentPrivate obj = ?a" by (auto simp: frame_ready_def Let_def in_info_def split: bind_splits)
  have pp: "pInputPortPrivate ?h = ?a" using gi obj by (simp add: GetComponentPrivate_def)
  from Tracker_Add_pts [OF tr, of "e_node env (nlog c)" ?h "info_pts ?i0"] obtain ok p t where
    t: "Tracker_Add (e_node env (nlog c)) (m_pBufferTracker (m_sub c)) ?h = Some (ok, p, t)"
      "(if ok then case p of Some x \<Rightarrow> x | None \<Rightarrow> info_pts ?i0 else ?pts) = ?pts" by blast
  let ?i1 = "?i0\<lparr>info_pts := ?pts\<rparr>"
  define c1 where "c1 = put_in_info ?a ?i1 (sub (\<lambda>s. s\<lparr>m_pBufferTracker := t\<rparr>) c0)"
  from codec_header_other [OF cd, of c1] obtain hd where
    ch: "codec_header env (nFilledLen ?h) c1 = Some (codec, sub (\<lambda>s. s\<lparr>m_pBcmaHeader := hd\<rparr>) c1)" by (auto simp: c0_def c1_def)
  define c2 where "c2 = sub (\<lambda>s. s\<lparr>m_pBcmaHeader := hd\<rparr>) c1"
  let ?f = "f\<lparr>fr_object := ?i1\<rparr>"
  have r2: "frame_ready c2 hdr (length codec) ?f"
    using frame_ready_info [of "sub (\<lambda>s. s\<lparr>m_pBufferTracker := t\<rparr>) c0" hdr "length codec" "f\<lparr>fr_object := ?i0\<rparr>" ?i1]
      frame_ready_info [OF r, of ?i0] by (simp add: frame_ready_other c0_def c1_def c2_def)
  define ds where "ds = head_descs c2 ?f (length codec) @ pay_descs ?f (length (fr_data ?f))"
  let ?h' = "?h\<lparr>nOffset := nOffset ?h + nFilledLen ?h, nFilledLen := 0\<rparr>"
  from frame_fits [OF laws r2 mx, of ?pts] fit obtain M where
    b: "BuildInputFrame env hdr True (nFilledLen ?h) ?pts codec ?mx c2 = Some (OMX_ErrorNone, ds,
      put_header hdr ?h' (put_in_info ?a (?i1\<lparr>headerLen := 14 + length codec\<rparr>) (sub (\<lambda>s. s\<lparr>m_mem := M, m_configBufferState := ConfigBufferState_eSubmitted\<rparr>) c2)))"
    by (auto simp: ds_def)
  define c3 where "c3 = put_header hdr ?h' (put_in_info ?a (?i1\<lparr>headerLen := 14 + length codec\<rparr>)
    (sub (\<lambda>s. s\<lparr>m_mem := M, m_configBufferState := ConfigBufferState_eSubmitted\<rparr>) c2))"
  note b = b [folded c3_def]
  from frame_packets [OF laws r2 mx, of ?pts ds c3] b have
    pk: "depacketize (stream c3 ds) = Some (fr_config f @ codec @ fr_data f)" "pes_pts (stream c3 ds) = push_bit 1 (ucast ?pts)" "length ds \<le> ?mx"
    by auto
  let ?x = "obj\<lparr>m_header := ?h'\<rparr>" and ?i2 = "?i1\<lparr>headerLen := 14 + length codec\<rparr>"
  have x: "GetComponentPrivate ?x = ?a" "m_heap c3 hdr = Some ?x" "m_inInfo (m_sub c3) ?a = Some ?i2" "m_pAudioPorts c3 = m_pAudioPorts c"
      "m_AvailInputBuffers (m_sub c3) = m_AvailInputBuffers (m_sub c)"
    using pp obj by (simp_all add: GetComponentPrivate_def c3_def c2_def c1_def c0_def)
  from send_ok [of env c3 hdr ?x ?i2 ds] nexus x q free_slot [OF inv q] obj(3) obtain c4 c5 c6 t' l where
    s: "submit env ds c3 = Some (True, c4)" "add_descriptors hdr (of_nat (length ds)) c4 = Some c5" "queue_input env hdr c5 = Some (OMX_ErrorNone, c6)"
    and l: "filter is_submit l = []" and c6: "c6 = sent c3 hdr (fr_info f) (?i2\<lparr>numDescriptors := of_nat (length ds)\<rparr>) ds t' l" by auto
  have e: "m_heap c0 hdr = Some obj" "in_info c0 hdr = Some (?a, ?i0)" "nlog c0 = nlog c" "m_pBufferTracker (m_sub c0) = m_pBufferTracker (m_sub c)"
    using obj gi by (simp_all add: c0_def in_info_def)
  have "empty_frame env hdr c0 = Some (OMX_ErrorNone, c6)"
    using t ch [folded c2_def] b s pk(3) obj e
    by (cases ok) (simp_all add: empty_frame_def c1_def Let_def)
  moreover have "submitted c hdr f [ds] c6" unfolding submitted_def
    using obj pp l by (intro conjI exI [of _ ?x] exI [of _ "?i2\<lparr>numDescriptors := of_nat (length ds)\<rparr>"] exI [of _ "Submit ds # l"])
      (simp_all add: c6 sent_def c3_def c2_def c1_def c0_def)
  moreover have "mem c6 = mem c3" by (simp add: c6 sent_def)
  ultimately show ?thesis using pk stream_mem [of c6 c3 ds] by auto
qed

section \<open>The whole call\<close>

lemma submitted_nexus:
  assumes "submitted c hdr f dss c'" "\<not> is_submit e"
  shows "submitted c hdr f dss (nexus e c')"
  using assms unfolding submitted_def
  apply (elim exE conjE)
  subgoal for x i l by (intro conjI exI [of _ x] exI [of _ i] exI [of _ "l @ [e]"]) simp_all
  done

definition eos_desc :: "adc \<Rightarrow> NEXUS_PlaypumpScatterGatherDescriptor" where
  "eos_desc c = \<lparr>desc_block = m_pEosBuffer (m_sub c), desc_offset = 0, desc_length = BOMX_AUDIO_EOS_LEN\<rparr>"

lemma submit_eos_ok:
  assumes nexus: "\<forall>l ds. e_error env (l @ [Submit ds]) = 0 \<and> e_consumed env (l @ [Submit ds]) = length ds"
    and s: "submitted c hdr f dss c'"
  shows "\<exists>c2. submit_eos env hdr eb c' = Some (OMX_ErrorNone, c2) \<and> submitted c hdr f (dss @ [[eos_desc c']]) c2 \<and> mem c2 = mem c'
    \<and> m_eosPending (m_sub c2)"
proof -
  let ?d = "[eos_desc c']" and ?n = "length (concat dss)"
  from s obtain x i l where
    x: "m_heap c' = (m_heap c)(hdr \<mapsto> x)" "m_dir x = OMX_DirInput" "pInputPortPrivate (m_header x) = fr_info f" "pPlatformPrivate (m_header x) = hdr"
      "nFilledLen (m_header x) = 0"
    and p: "m_pAudioPorts c' = (m_pAudioPorts c)[0 := (in_port c)\<lparr>m_bufferQueue := in_queue c @ [hdr], m_queueDepth := m_queueDepth (in_port c) + 1\<rparr>]"
    and i: "m_inInfo (m_sub c') = (m_inInfo (m_sub c))(fr_info f \<mapsto> i)" "\<not> complete i" "numDescriptors i = of_nat ?n"
    and n: "m_AvailInputBuffers (m_sub c') = m_AvailInputBuffers (m_sub c) - 1"
      "m_submittedDescriptors (m_sub c') = m_submittedDescriptors (m_sub c) + of_nat ?n"
      "nlog c' = nlog c @ l" "filter is_submit l = map Submit dss" "m_log c' = m_log c" by (auto simp: submitted_def)
  have a: "GetComponentPrivate x = fr_info f" using x by (simp add: GetComponentPrivate_def)
  define c1 where "c1 = sub (\<lambda>s. s\<lparr>m_nexus := m_nexus s @ [Submit ?d], m_submittedDescriptors := m_submittedDescriptors s + of_nat (length ?d)\<rparr>) c'"
  let ?i = "i\<lparr>numDescriptors := numDescriptors i + 1\<rparr>"
  have "submit env ?d c' = Some (True, c1)" "add_descriptors hdr 1 c1 = Some (put_in_info (fr_info f) ?i c1)"
    using nexus x a i add_descriptors_ok [of c1 hdr x i 1] by (auto simp: c1_def intro: submit_ok [where ds = ?d, simplified])
  then have "submit_eos env hdr eb c' = Some (OMX_ErrorNone, sub (\<lambda>s. s\<lparr>m_eosPending := True, m_eosStandalone := eb\<rparr>) (put_in_info (fr_info f) ?i c1))"
    by (simp add: submit_eos_def eos_desc_def)
  moreover have "submitted c hdr f (dss @ [?d]) (sub (\<lambda>s. s\<lparr>m_eosPending := True, m_eosStandalone := eb\<rparr>) (put_in_info (fr_info f) ?i c1))"
    unfolding submitted_def using x p i n
    by (intro conjI exI [of _ x] exI [of _ ?i] exI [of _ "l @ [Submit ?d]"]) (simp_all add: c1_def)
  ultimately show ?thesis by (simp add: c1_def)
qed

lemma submitted_inv:
  assumes cf: "client_frame env c hdr codec f" and s: "submitted c hdr f dss c'" "length (concat dss) \<le> 5"
  shows "input_inv c'" "pend c' hdr = length (concat dss)" "in_queue c' = in_queue c @ [hdr]"
    "filter is_submit (drop (length (nlog c)) (nlog c')) = map Submit dss"
proof -
  have inv: "input_inv c" and q: "hdr \<in> set (m_bufferList (in_port c))" "hdr \<notin> set (in_queue c)"
      "length (m_bufferList (in_port c)) \<le> unat (nBufferCountActual (m_definition (in_port c)))"
    and pr: "fr_info f \<notin> priv c ` set (in_queue c)" and sd: "unat (m_submittedDescriptors (m_sub c)) + 5 < 2 ^ 32"
    and r: "frame_ready c hdr (length codec) f"
    using cf by (simp_all add: client_frame_def Let_def)
  have pv: "priv c hdr = fr_info f" using r by (auto simp: frame_ready_def Let_def in_info_def priv_def split: bind_splits)
  from s(1) obtain x i l where x: "m_heap c' = (m_heap c)(hdr \<mapsto> x)" "GetComponentPrivate x = priv c hdr" "pPlatformPrivate (m_header x) = hdr"
    and p: "m_pAudioPorts c' = (m_pAudioPorts c)[0 := (in_port c)\<lparr>m_bufferQueue := in_queue c @ [hdr], m_queueDepth := m_queueDepth (in_port c) + 1\<rparr>]"
    and i: "m_inInfo (m_sub c') = (m_inInfo (m_sub c))(priv c hdr \<mapsto> i)" "\<not> complete i" "numDescriptors i = of_nat (length (concat dss))"
    and n: "m_AvailInputBuffers (m_sub c') = m_AvailInputBuffers (m_sub c) - 1"
      "m_submittedDescriptors (m_sub c') = m_submittedDescriptors (m_sub c) + numDescriptors i"
      "nlog c' = nlog c @ l" "filter is_submit l = map Submit dss" by (auto simp: submitted_def GetComponentPrivate_def pv)
  have u: "unat (numDescriptors i) = length (concat dss)" using i(3) s(2) by (simp add: unat_of_nat)
  have "unat (m_submittedDescriptors (m_sub c)) + unat (numDescriptors i) < 2 ^ 32" using sd u s(2) by linarith
  note e = enqueue_inv [OF inv q(1,2) _ x p i(1,2) free_slot(1) [OF inv q] n(1,2) this]
  from e pr u show "input_inv c'" "pend c' hdr = length (concat dss)" by (simp_all add: pv)
  show "in_queue c' = in_queue c @ [hdr]" using p inv by (simp add: input_inv_def)
  show "filter is_submit (drop (length (nlog c)) (nlog c')) = map Submit dss" using n(3,4) by simp
qed


section \<open>Witness\<close>

lemma demo_client_frame: "client_frame demo_adec_env demo_adec 8 [] demo_frame"
proof -
  have "input_inv demo_adec"
    by (simp add: input_inv_def infos_ok_def port_inv_def buffer_ok_def demo_adec_simps Let_def)
  moreover have "codec_header demo_adec_env n demo_adec = Some ([], demo_adec)" for n by (simp add: codec_header_def GetCodec_def demo_adec_env_def)
  moreover have "m_heap demo_adec 8 = Some demo_in_buffer" "m_dir demo_in_buffer = OMX_DirInput" "m_bufferList (in_port demo_adec) = [8]"
    "in_queue demo_adec = []" "nBufferCountActual (m_definition (in_port demo_adec)) = 12" "m_audioPortBase demo_adec = 0"
    "m_submittedDescriptors (m_sub demo_adec) = 0" "tracker_inv (m_pBufferTracker (m_sub demo_adec))"
    by (simp_all add: demo_adec_simps Let_def tracker_inv_def)
  moreover have "nFlags (fr_header demo_frame) = 0" "nInputPortIndex (fr_header demo_frame) = 0" "nFilledLen (fr_header demo_frame) = 10"
    "nOffset (fr_header demo_frame) = 0" "nAllocLen (fr_header demo_frame) = 100" "fr_info demo_frame = 50" "maxHeaderLen (fr_object demo_frame) = 14"
    by (simp_all add: demo_frame_def demo_in_buffer_def demo_in_info_def new_BOMX_InputBuffer_def new_BOMX_Buffer_def Let_def)
  ultimately show ?thesis using demo_frame_ready
    by (simp add: client_frame_def Let_def demo_frame_fields(1,2))
qed


end
