(* ===== verification/Adec_Output.thy ===== *)
theory Adec_Output
  imports Adec_Empty
begin

text \<open>
  \<open>media/libstagefrighthw/bomx_audio_decoder.cpp\<close>: the output side of the audio decoder. Buffers go
  to Nexus, which fills them; \<open>PollDecodedFrames\<close> hands the decoded frames to the client, cuts
  off the delay of the codec and delivers the end of the stream.
\<close>

section \<open>Giving buffers to Nexus\<close>

definition Decoder_queue :: "'b adec_env \<Rightarrow> addr \<Rightarrow> BOMX_AudioDecoderOutputBufferInfo \<Rightarrow> u32 \<Rightarrow> adc \<Rightarrow> bool \<times> adc" where
  "Decoder_queue env a info len c =
     (let c = nexus (Decoder_QueueBuffer (hMemoryBlock info) len) c in
      if e_error env (nlog c) \<noteq> 0 then (False, c) else (True, put_out_info a (info\<lparr>nexusOwned := True\<rparr>) c))"

definition Adec_FillThisBuffer :: "'b adec_env \<Rightarrow> addr \<Rightarrow> adc \<Rightarrow> (OMX_ERRORTYPE \<times> adc) option" where
  "Adec_FillThisBuffer env hdr c =
     (if hdr = NULL then Some (BOMX_ERR_TRACE OMX_ErrorBadParameter, c)
      else do {
        object \<leftarrow> m_heap c hdr;
        let b = pPlatformPrivate (m_header object);
        if b = NULL then Some (BOMX_ERR_TRACE OMX_ErrorBadParameter, c)
        else do {
          pBuffer \<leftarrow> m_heap c b;
          if m_dir pBuffer \<noteq> OMX_DirOutput then Some (BOMX_ERR_TRACE OMX_ErrorBadParameter, c)
          else if GetComponentPrivate pBuffer = NULL then Some (BOMX_ERR_TRACE OMX_ErrorBadParameter, c)
          else do {
            (a, info) \<leftarrow> out_info c b;
            h \<leftarrow> OutputBuffer_Reset (m_header pBuffer) 0;
            let c = put_header b h c;
            let (ok, c) = (if m_decoderState (m_sub c) = BOMX_AudioDecoderState_eStarted
                           then Decoder_queue env a info (nAllocLen h) c else (True, c));
            if \<not> ok then Some (BOMX_ERR_TRACE OMX_ErrorUndefined, c)
            else do {
              object \<leftarrow> m_heap c hdr;
              (err, p) \<leftarrow> QueueBuffer (out_port c) (m_header object);
              if err \<noteq> OMX_ErrorNone then None
              else Some (OMX_ErrorNone, nexus SetOutputFrameEvent (set_out p c))}}}})"

text \<open>The loop over the queue of the port.\<close>

fun add_output :: "'b adec_env \<Rightarrow> addr list \<Rightarrow> adc \<Rightarrow> adc option" where
  "add_output env [] c = Some c"
| "add_output env (b # bs) c =
     do {
       (a, info) \<leftarrow> out_info c b;
       if nexusOwned info then add_output env bs c
       else do {
         x \<leftarrow> m_heap c b;
         let (ok, c) = Decoder_queue env a info (nAllocLen (m_header x)) c;
         if ok then add_output env bs c else Some c}}"

definition AddOutputBuffers :: "'b adec_env \<Rightarrow> adc \<Rightarrow> adc option" where
  "AddOutputBuffers env c = add_output env (m_bufferQueue (out_port c)) c"

definition FindBufferFromBlock :: "adc \<Rightarrow> addr \<Rightarrow> BOMX_Buffer option \<Rightarrow> bool" where
  "FindBufferFromBlock c hBlock b =
     (case b of None \<Rightarrow> False
      | Some x \<Rightarrow> (case m_outInfo (m_sub c) (GetComponentPrivate x) of None \<Rightarrow> False | Some i \<Rightarrow> hMemoryBlock i = hBlock))"

definition buffer_of_frame :: "adc \<Rightarrow> NEXUS_AudioDecoderFrame \<Rightarrow> addr" where
  "buffer_of_frame c fr = FindBuffer (m_heap c) (out_port c) (Some (FindBufferFromBlock c (frame_block fr)))"

fun release_frames :: "NEXUS_AudioDecoderFrame list \<Rightarrow> adc \<Rightarrow> adc option" where
  "release_frames [] c = Some c"
| "release_frames (fr # frs) c =
     (let b = buffer_of_frame c fr in
      if b = NULL then release_frames frs c
      else do {(a, info) \<leftarrow> out_info c b; release_frames frs (put_out_info a (info\<lparr>nexusOwned := False\<rparr>) c)})"

definition GetDecodedFrames_call :: "'b adec_env \<Rightarrow> adc \<Rightarrow> (u32 \<times> NEXUS_AudioDecoderFrame list) \<times> adc" where
  "GetDecodedFrames_call env c = (let c = nexus GetDecodedFrames c in (e_frames env (nlog c), c))"

definition RemoveOutputBuffers :: "'b adec_env \<Rightarrow> adc \<Rightarrow> adc option" where
  "RemoveOutputBuffers env c =
     (let ((errCode, frames), c) = GetDecodedFrames_call env c in
      if errCode \<noteq> 0 then Some c
      else do {
        c \<leftarrow> release_frames frames c;
        Some (if length frames > 0 then nexus (ConsumeDecodedFrames (length frames)) c else c)})"

section \<open>Delivering a frame\<close>

definition GetCodecDelay :: "'b adec_env \<Rightarrow> adc \<Rightarrow> int \<times> adc" where
  "GetCodecDelay env c =
     (case GetCodec env c of
        OMX_AUDIO_CodingMP3 \<Rightarrow> (let c = nexus Property c in (e_property env (nlog c), c))
      | OMX_AUDIO_CodingAAC \<Rightarrow> (let c = nexus Property c in (e_property env (nlog c), c))
      | _ \<Rightarrow> (0, c))"

text \<open>The bytes of one sample on all channels.\<close>

definition sample_size :: "adc \<Rightarrow> u32" where
  "sample_size c = m_bitsPerSample (m_sub c) div 8 * m_numPcmChannels (m_sub c)"

text \<open>The time stamp and flags of the frame; the end-of-stream flag waits for the last frame.\<close>

definition frame_flags :: "NEXUS_AudioDecoderFrame \<Rightarrow> OMX_BUFFERHEADERTYPE \<Rightarrow> adc \<Rightarrow> OMX_BUFFERHEADERTYPE \<times> adc" where
  "frame_flags fr h c =
     (let (found, h, t) = Tracker_Remove (m_pBufferTracker (m_sub c)) (frame_pts fr) h;
          c = sub (\<lambda>s. s\<lparr>m_pBufferTracker := t\<rparr>) c;
          h = (if found then h else h\<lparr>nFlags := 0, nTimeStamp := BOMX_PtsToTick (frame_pts fr)\<rparr>)
      in if nFlags h AND OMX_BUFFERFLAG_EOS \<noteq> 0 \<and> \<not> Tracker_Last t (nTimeStamp h)
         then (h\<lparr>nFlags := nFlags h AND NOT OMX_BUFFERFLAG_EOS\<rparr>, sub (\<lambda>s. s\<lparr>m_eosReceived := True\<rparr>) c)
         else if m_eosReceived (m_sub c) \<and> Tracker_Last t (nTimeStamp h)
         then (h\<lparr>nFlags := nFlags h OR OMX_BUFFERFLAG_EOS\<rparr>, sub (\<lambda>s. s\<lparr>m_eosReceived := False\<rparr>) c)
         else (h, c))"

text \<open>The samples are copied to the client's memory.\<close>

definition frame_copy :: "NEXUS_AudioDecoderFrame \<Rightarrow> BOMX_AudioDecoderOutputBufferInfo \<Rightarrow> adc \<Rightarrow> adc option" where
  "frame_copy fr info c =
     (if filledBytes fr > 0 \<and> pClientMemory info \<noteq> NULL then
        if unat (filledBytes fr) \<le> length (frame_data fr)
        then write_at (pClientMemory info) 0 (take (unat (filledBytes fr)) (frame_data fr)) c else None
      else Some c)"

text \<open>The delay of the codec is cut off the first frames; the divisor is 0 before the format is known.\<close>

definition frame_trim :: "'b adec_env \<Rightarrow> NEXUS_AudioDecoderFrame \<Rightarrow> OMX_BUFFERHEADERTYPE \<Rightarrow> adc \<Rightarrow> (OMX_BUFFERHEADERTYPE \<times> adc) option" where
  "frame_trim env fr h c =
     do {
       (h, c) \<leftarrow>
         (if filledBytes fr > 0 then
            let (delaySamples, c) = GetCodecDelay env c; delaySamples = delaySamples - m_codecDelayAdjusted (m_sub c) in
            if delaySamples > 0 then
              if sample_size c = 0 then None
              else
                let frameSamples = sint (filledBytes fr div sample_size c);
                    delaySamples = (if delaySamples > frameSamples then frameSamples else delaySamples);
                    off = of_int delaySamples * (m_bitsPerSample (m_sub c) div 8) * m_numPcmChannels (m_sub c);
                    off = (if off > filledBytes fr then filledBytes fr else off)
                in Some (h\<lparr>nOffset := off\<rparr>, sub (\<lambda>s. s\<lparr>m_codecDelayAdjusted := m_codecDelayAdjusted s + delaySamples\<rparr>) c)
            else Some (h, c)
          else Some (h, c));
       Some (h\<lparr>nFilledLen := filledBytes fr - nOffset h\<rparr>, c)}"

text \<open>The last frame keeps its flag back until the padding frame; \<open>None\<close> in the first component: the poll ends.\<close>

definition frame_eos :: "OMX_BUFFERHEADERTYPE \<Rightarrow> adc \<Rightarrow> (OMX_BUFFERHEADERTYPE option \<times> adc) option" where
  "frame_eos h c =
     (if nFlags h AND OMX_BUFFERFLAG_EOS \<noteq> 0 then
        if m_eosPending (m_sub c) \<and> \<not> m_eosReady (m_sub c) then
          if m_eosStandalone (m_sub c) then None
          else Some (Some (h\<lparr>nFlags := nFlags h AND NOT OMX_BUFFERFLAG_EOS\<rparr>), sub (\<lambda>s. s\<lparr>m_eosReady := True\<rparr>) c)
        else if \<not> m_eosPending (m_sub c) then None
        else Some (None, c)
      else Some (Some h, c))"

text \<open>The time stamp a following end-of-stream buffer gets: the end of this frame.\<close>

definition frame_end_time :: "NEXUS_AudioDecoderFrame \<Rightarrow> OMX_BUFFERHEADERTYPE \<Rightarrow> adc \<Rightarrow> adc option" where
  "frame_end_time fr h c =
     (if nTimeStamp h \<noteq> 0 then
        if sample_size c = 0 \<or> frame_sampleRate fr = 0 then None
        else
          let numSample = sint (nFilledLen h div sample_size c)
          in Some (sub (\<lambda>s. s\<lparr>m_eosTimeStamp := nTimeStamp h + of_int (numSample * 1000000 div int (unat (frame_sampleRate fr)))\<rparr>) c)
      else Some c)"

definition deliver_frame :: "'b adec_env \<Rightarrow> NEXUS_AudioDecoderFrame \<Rightarrow> addr \<Rightarrow> adc \<Rightarrow> (bool \<times> adc) option" where
  "deliver_frame env fr b c =
     do {
       (a, info) \<leftarrow> out_info c b;
       x \<leftarrow> m_heap c b;
       let c = put_out_info a (info\<lparr>nexusOwned := False\<rparr>) c;
       let (h, c) = frame_flags fr ((m_header x)\<lparr>nOffset := 0\<rparr>) c;
       c \<leftarrow> frame_copy fr info c;
       (h, c) \<leftarrow> frame_trim env fr h c;
       (h', c) \<leftarrow> frame_eos h c;
       case h' of
         None \<Rightarrow> Some (False, put_header b h c)
       | Some h \<Rightarrow> do {
           c \<leftarrow> frame_end_time fr h c;
           let c = put_header b h c;
           (p, c) \<leftarrow> ReturnPortBuffer (out_port c) b c;
           c \<leftarrow> ReturnInputBuffers env (nTimeStamp h) False (set_out p c);
           Some (True, nexus (ConsumeDecodedFrames 1) c)}}"

text \<open>The loop over the frames: \<open>False\<close> when the function returns from it.\<close>

fun poll_frames :: "'b adec_env \<Rightarrow> NEXUS_AudioDecoderFrame list \<Rightarrow> adc \<Rightarrow> (bool \<times> adc) option" where
  "poll_frames env [] c = Some (True, c)"
| "poll_frames env (fr # frs) c =
     (if frame_sampleRate fr \<noteq> m_sampleRate (m_sub c) \<and> filledBytes fr > 0
      then Some (False, PortFormatChanged (out_port c)
             (sub (\<lambda>s. s\<lparr>m_formatChangePending := True, m_sampleRate := frame_sampleRate fr\<rparr>) c))
      else
        let b = buffer_of_frame c fr in
        if b = NULL then poll_frames env frs c
        else do {(go, c) \<leftarrow> deliver_frame env fr b c; if go then poll_frames env frs c else Some (False, c)})"

section \<open>The end of the stream\<close>

text \<open>
  \<open>ReturnPortBuffer\<close> calls \<open>BufferComplete\<close>, whose assertion fails for a buffer that is not queued;
  without assertions it changes nothing then and the callback is made.
\<close>

definition return_again :: "'b adec_env \<Rightarrow> addr \<Rightarrow> adc \<Rightarrow> adc option" where
  "return_again env b c =
     (case ReturnPortBuffer (out_port c) b c of
        Some (p, c) \<Rightarrow> Some (set_out p c)
      | None \<Rightarrow> if \<not> e_ndebug env then None
                else Some (if \<not> IsTunneled (out_port c) \<and> cb_FillBufferDone c then call (FillBufferDone b) c else c))"

definition deliver_eos :: "'b adec_env \<Rightarrow> adc \<Rightarrow> adc option" where
  "deliver_eos env c =
     do {
       let delaySamples = m_codecDelayAdjusted (m_sub c);
       let b = GetBuffer (out_port c);
       x \<leftarrow> m_heap c b;
       let len = (if delaySamples > 0 then of_int delaySamples * (m_bitsPerSample (m_sub c) div 8) * m_numPcmChannels (m_sub c) else 0);
       c \<leftarrow> (if delaySamples > 0 then write_at (bh_pBuffer (m_header x)) 0 (replicate (unat len) 0) c else Some c);
       let c = put_header b ((m_header x)\<lparr>nFilledLen := len, nTimeStamp := m_eosTimeStamp (m_sub c), nFlags := OMX_BUFFERFLAG_EOS\<rparr>) c;
       p \<leftarrow> BufferComplete (out_port c) b;
       let c = sub (\<lambda>s. s\<lparr>m_eosPending := False, m_eosStandalone := False, m_eosReady := False, m_eosDelivered := True, m_eosTimeStamp := 0\<rparr>) (set_out p c);
       c \<leftarrow> return_again env b c;
       ReturnInputBuffers env 0 True c}"

definition PollDecodedFrames :: "'b adec_env \<Rightarrow> adc \<Rightarrow> adc option" where
  "PollDecodedFrames env c =
     (if m_formatChangePending (m_sub c) \<or> m_eosDelivered (m_sub c) then Some c
      else if \<not> m_queueDepth (out_port c) > 0 then Some c
      else
        let ((errCode, frames), c) = GetDecodedFrames_call env c in
        if errCode \<noteq> 0 then Some c
        else do {
          (go, c) \<leftarrow> poll_frames env frames c;
          if \<not> go then Some c
          else if m_eosPending (m_sub c) \<and> (m_eosStandalone (m_sub c) \<or> m_eosReady (m_sub c)) then
            if m_queueDepth (in_port c) \<le> 1 \<and> m_queueDepth (out_port c) > 0 then
              let ((errCode, frames), c) = GetDecodedFrames_call env c in
              if errCode \<noteq> 0 then Some c
              else if frames = [] then deliver_eos env c else Some c
            else Some c
          else Some c})"

definition OutputFrameEvent :: "'b adec_env \<Rightarrow> adc \<Rightarrow> adc option" where
  "OutputFrameEvent env c = PollDecodedFrames env c"

section \<open>Cutting off the delay\<close>

text \<open>The samples cut off a frame: what is left of the delay, at most the whole frame.\<close>

definition cut_samples :: "int \<Rightarrow> NEXUS_AudioDecoderFrame \<Rightarrow> nat \<Rightarrow> nat" where
  "cut_samples delay fr U = (if filledBytes fr > 0 then nat (min (max 0 delay) (int (unat (filledBytes fr) div U))) else 0)"

lemma cut_le: "cut_samples d fr U * U \<le> unat (filledBytes fr)"
proof -
  have "cut_samples d fr U \<le> unat (filledBytes fr) div U" by (auto simp: cut_samples_def)
  then have "cut_samples d fr U * U \<le> unat (filledBytes fr) div U * U" by (rule mult_le_mono1)
  also have "\<dots> \<le> unat (filledBytes fr)" by (rule div_times_less_eq_dividend)
  finally show ?thesis .
qed

lemma GetCodecDelay_frame: "\<exists>l. snd (GetCodecDelay env c) = sub (\<lambda>s. s\<lparr>m_nexus := m_nexus s @ l\<rparr>) c"
proof -
  have id: "\<exists>l. c = sub (\<lambda>s. s\<lparr>m_nexus := m_nexus s @ l\<rparr>) c" by (rule exI [of _ "[]"]) (simp add: sub_def)
  show ?thesis by (cases "GetCodec env c") (auto simp: GetCodecDelay_def nexus_def Let_def intro: id)
qed

lemma frame_trim_result:
  fixes env :: "'b adec_env"
  assumes U: "unat (m_bitsPerSample (m_sub c) div 8) * unat (m_numPcmChannels (m_sub c)) = U" "0 < U" "U < 2 ^ 31"
    and fr: "unat (filledBytes fr) < 2 ^ 31" and h: "nOffset h = 0"
  defines "k \<equiv> cut_samples (fst (GetCodecDelay env c) - m_codecDelayAdjusted (m_sub c)) fr U"
  shows "\<exists>l. frame_trim env fr h c = Some (h\<lparr>nOffset := of_nat (k * U), nFilledLen := of_nat (unat (filledBytes fr) - k * U)\<rparr>,
    sub (\<lambda>s. s\<lparr>m_nexus := m_nexus s @ l, m_codecDelayAdjusted := m_codecDelayAdjusted s + int k\<rparr>) c)"
proof -
  obtain D c1 where g: "GetCodecDelay env c = (D, c1)" by fastforce
  from GetCodecDelay_frame [of env c] g obtain l where c1: "c1 = sub (\<lambda>s. s\<lparr>m_nexus := m_nexus s @ l\<rparr>) c" by auto
  let ?d = "D - m_codecDelayAdjusted (m_sub c)" and ?F = "unat (filledBytes fr)"
  have ss: "unat (sample_size c) = U" "sample_size c1 = sample_size c" using U by (simp_all add: sample_size_def c1 unat_word_ariths)
  have dv: "sint (filledBytes fr div sample_size c) = int (?F div U)"
  proof -
    have "unat (filledBytes fr div sample_size c) = ?F div U" by (simp add: unat_div ss)
    moreover have "?F div U < 2 ^ 31" using fr div_le_dividend le_less_trans by blast
    ultimately show ?thesis by (simp add: sint_uint uint_nat signed_take_bit_int_eq_self)
  qed
  have id: "c = sub (\<lambda>s. s\<lparr>m_nexus := m_nexus s @ [], m_codecDelayAdjusted := m_codecDelayAdjusted s + int 0\<rparr>) c" by (simp add: sub_def)
  have rest: "filledBytes fr - of_nat (k * U) = of_nat (?F - k * U)"
    using cut_le [of _ fr U] by (simp add: k_def of_nat_diff)
  show ?thesis
  proof (cases "filledBytes fr > 0 \<and> ?d > 0")
    case False
    then have k0: "k = 0" using g by (auto simp: k_def cut_samples_def)
    have "h\<lparr>nOffset := 0\<rparr> = h" using h by simp
    then show ?thesis
    proof (cases "filledBytes fr > 0")
      case True
      with False g k0 c1 h show ?thesis by (intro exI [of _ l]) (simp add: frame_trim_def sub_def)
    next
      case F: False
      with k0 h id show ?thesis by (intro exI [of _ "[]"]) (simp add: frame_trim_def)
    qed
  next
    case True
    let ?n = "if ?d > int (?F div U) then int (?F div U) else ?d"
    have n: "?n = int k" using True g by (auto simp: k_def cut_samples_def min_def)
    have "m_bitsPerSample (m_sub c) div 8 * m_numPcmChannels (m_sub c) = (of_nat U :: u32)" unfolding ss(1) [symmetric] by (simp add: sample_size_def)
    then have o: "of_nat k * (m_bitsPerSample (m_sub c) div 8) * m_numPcmChannels (m_sub c) = (of_nat (k * U) :: u32)"
      by (simp add: mult.assoc)
    have kU: "k * U \<le> ?F" unfolding k_def by (rule cut_le)
    have "unat (of_nat (k * U) :: u32) = k * U" unfolding unat_of_nat by (rule mod_less) (use kU fr in simp)
    then have le: "\<not> (of_nat (k * U) :: u32) > filledBytes fr" using kU by (simp add: word_less_nat_alt not_less del: of_nat_mult)
    have "sample_size c1 \<noteq> 0" using ss U(2) by auto
    then show ?thesis using True g n o le rest dv ss c1
      by (intro exI [of _ l]) (simp add: frame_trim_def Let_def sub_def comp_def cong: if_cong split del: if_split)
  qed
qed

end
