(* ===== verification/Adec_Delivery.thy ===== *)
theory Adec_Delivery
  imports Adec_Output
begin

text \<open>
  The output side of the audio decoder: what the client gets for a decoded frame, what happens
  at the end of the stream, and which buffers Nexus is given.
\<close>

section \<open>The steps of a delivery\<close>

lemma frame_flags_result:
  "\<exists>fl t e. frame_flags fr h c = (h\<lparr>nFlags := fl, nTimeStamp := nTimeStamp (fst (snd (Tracker_Remove (m_pBufferTracker (m_sub c)) (frame_pts fr) h)))\<rparr>,
     sub (\<lambda>s. s\<lparr>m_pBufferTracker := t, m_eosReceived := e\<rparr>) c)"
proof -
  obtain found h1 t where r: "Tracker_Remove (m_pBufferTracker (m_sub c)) (frame_pts fr) h = (found, h1, t)" by (cases rule: prod_cases3)
  have h1: "h1 = h\<lparr>nFlags := nFlags h1, nTimeStamp := nTimeStamp h1\<rparr>" "\<not> found \<Longrightarrow> nTimeStamp h1 = BOMX_PtsToTick (frame_pts fr)"
    using r by (auto simp: Tracker_Remove_def Let_def split: option.splits prod.splits if_splits)
  define h2 where "h2 = (if found then h1 else h1\<lparr>nFlags := 0, nTimeStamp := BOMX_PtsToTick (frame_pts fr)\<rparr>)"
  have h2: "h2 = h\<lparr>nFlags := nFlags h2, nTimeStamp := nTimeStamp h1\<rparr>"
  proof (cases found)
    case False
    then have "h2 = (h\<lparr>nFlags := nFlags h1, nTimeStamp := nTimeStamp h1\<rparr>)\<lparr>nFlags := 0, nTimeStamp := BOMX_PtsToTick (frame_pts fr)\<rparr>"
      using h1(1) by (simp add: h2_def)
    with False h1(2) show ?thesis by simp
  qed (use h1(1) in \<open>simp add: h2_def\<close>)
  have f: "h2\<lparr>nFlags := fl\<rparr> = h\<lparr>nFlags := fl, nTimeStamp := nTimeStamp h1\<rparr>" for fl
    by (subst h2) simp
  let ?eos = "nFlags h2 AND OMX_BUFFERFLAG_EOS \<noteq> 0" and ?last = "Tracker_Last t (nTimeStamp h2)"
  consider (later) "?eos \<and> \<not> ?last" | (final) "\<not> (?eos \<and> \<not> ?last)" "m_eosReceived (m_sub c) \<and> ?last"
    | (other) "\<not> (?eos \<and> \<not> ?last)" "\<not> (m_eosReceived (m_sub c) \<and> ?last)" by blast
  then show ?thesis
  proof cases
    case later
    then show ?thesis by (intro exI [of _ "nFlags h2 AND NOT OMX_BUFFERFLAG_EOS"] exI [of _ t] exI [of _ True])
      (simp add: frame_flags_def r f comp_def flip: h2_def)
  next
    case final
    then show ?thesis by (intro exI [of _ "nFlags h2 OR OMX_BUFFERFLAG_EOS"] exI [of _ t] exI [of _ False])
      (simp add: frame_flags_def r f comp_def flip: h2_def)
  next
    case other
    then have "frame_flags fr h c = (h2, sub (\<lambda>s. s\<lparr>m_pBufferTracker := t\<rparr>) c)"
      by (cases ?last) (simp_all add: frame_flags_def r flip: h2_def)
    moreover have "sub (\<lambda>s. s\<lparr>m_pBufferTracker := t, m_eosReceived := m_eosReceived (m_sub c)\<rparr>) c = sub (\<lambda>s. s\<lparr>m_pBufferTracker := t\<rparr>) c"
      by (simp add: sub_def)
    ultimately show ?thesis using h2 r by (intro exI [of _ "nFlags h2"] exI [of _ t] exI [of _ "m_eosReceived (m_sub c)"]) simp
  qed
qed

lemma frame_copy_result:
  assumes "pClientMemory info \<noteq> NULL" "mem c (pClientMemory info) = Some bs"
    and "unat (filledBytes fr) \<le> length bs" "unat (filledBytes fr) \<le> length (frame_data fr)"
  shows "frame_copy fr info c = Some (sub (\<lambda>s. s\<lparr>m_mem := (m_mem s)(pClientMemory info \<mapsto>
    take (unat (filledBytes fr)) (frame_data fr) @ drop (unat (filledBytes fr)) bs)\<rparr>) c)"
proof (cases "filledBytes fr = 0")
  case True
  with assms show ?thesis by (simp add: frame_copy_def sub_def fun_upd_idem)
next
  case False
  with assms show ?thesis by (simp add: frame_copy_def word_gt_0 write_at_def put_mem_def min_absorb2)
qed

text \<open>The frame may be delivered: without the flag, or as the first one that carries it.\<close>

definition eos_expected :: "OMX_BUFFERHEADERTYPE \<Rightarrow> adc \<Rightarrow> bool" where
  "eos_expected h c \<longleftrightarrow> nFlags h AND OMX_BUFFERFLAG_EOS = 0
     \<or> m_eosPending (m_sub c) \<and> \<not> m_eosReady (m_sub c) \<and> \<not> m_eosStandalone (m_sub c)"

lemma frame_eos_result:
  assumes "eos_expected h c"
  shows "\<exists>fl e. frame_eos h c = Some (Some (h\<lparr>nFlags := fl\<rparr>), sub (\<lambda>s. s\<lparr>m_eosReady := e\<rparr>) c) \<and> fl AND OMX_BUFFERFLAG_EOS = 0"
proof (cases "nFlags h AND OMX_BUFFERFLAG_EOS = 0")
  case True
  then show ?thesis by (intro exI [of _ "nFlags h"] exI [of _ "m_eosReady (m_sub c)"]) (simp add: frame_eos_def sub_def)
next
  case False
  have "(nFlags h AND NOT OMX_BUFFERFLAG_EOS) AND OMX_BUFFERFLAG_EOS = 0" by (simp add: and.assoc)
  with False assms show ?thesis
    by (intro exI [of _ "nFlags h AND NOT OMX_BUFFERFLAG_EOS"] exI [of _ True]) (simp add: frame_eos_def eos_expected_def)
qed

lemma frame_end_time_result:
  assumes "sample_size c \<noteq> 0" "frame_sampleRate fr \<noteq> 0"
  shows "\<exists>t. frame_end_time fr h c = Some (sub (\<lambda>s. s\<lparr>m_eosTimeStamp := t\<rparr>) c)"
proof (cases "nTimeStamp h = 0")
  case True
  then show ?thesis by (intro exI [of _ "m_eosTimeStamp (m_sub c)"]) (simp add: frame_end_time_def sub_def)
qed (use assms in \<open>auto simp: frame_end_time_def Let_def\<close>)

section \<open>A delivered frame\<close>

text \<open>Changing the header of a buffer, but not its platform private field, and everything of the output side keeps the input side.\<close>

lemma put_header_priv:
  assumes "m_heap c b = Some x" "pPlatformPrivate h = pPlatformPrivate (m_header x)" "pInputPortPrivate h = pInputPortPrivate (m_header x)"
    "pOutputPortPrivate h = pOutputPortPrivate (m_header x)"
  shows "buffer_ok (m_heap (put_header b h c)) = buffer_ok (m_heap c)" "priv (put_header b h c) = priv c"
    "m_heap (put_header b h c) y = None \<longleftrightarrow> m_heap c y = None"
  using assms by (auto simp: put_header_def buffer_ok_def priv_def GetComponentPrivate_def fun_eq_iff split: OMX_DIRTYPE.splits)

lemma put_header_inv:
  assumes "m_heap c b = Some x" "pPlatformPrivate h = pPlatformPrivate (m_header x)" "pInputPortPrivate h = pInputPortPrivate (m_header x)"
    "pOutputPortPrivate h = pOutputPortPrivate (m_header x)"
  shows "port_inv (m_heap (put_header b h c)) p = port_inv (m_heap c) p" "input_inv (put_header b h c) = input_inv c"
proof -
  note p = put_header_priv [OF assms]
  show i: "port_inv (m_heap (put_header b h c)) p = port_inv (m_heap c) p" for p by (simp only: port_inv_def p)
  have s: "m_sub (put_header b h c) = m_sub c" "m_pAudioPorts (put_header b h c) = m_pAudioPorts c" by (simp_all add: put_header_def)
  have "infos_ok (put_header b h c) = infos_ok c" "pend (put_header b h c) = pend c"
    by (simp_all only: infos_ok_def pend_def p s fun_eq_iff simp_thms)
  then show "input_inv (put_header b h c) = input_inv c" by (simp only: input_inv_def i s)
qed

text \<open>The members of the input side.\<close>

definition input_side :: "BOMX_AudioDecoder \<Rightarrow> (addr \<rightharpoonup> BOMX_AudioDecoderInputBufferInfo) \<times> u32 \<times> u32" where
  "input_side s = (m_inInfo s, m_AvailInputBuffers s, m_submittedDescriptors s)"

lemma input_inv_side:
  assumes "m_heap c' = m_heap c" "length (m_pAudioPorts c') = length (m_pAudioPorts c)" "in_port c' = in_port c" "input_side (m_sub c') = input_side (m_sub c)"
  shows "input_inv c' = input_inv c"
proof -
  have s: "m_inInfo (m_sub c') = m_inInfo (m_sub c)" "m_AvailInputBuffers (m_sub c') = m_AvailInputBuffers (m_sub c)"
    "m_submittedDescriptors (m_sub c') = m_submittedDescriptors (m_sub c)" using assms(4) by (simp_all add: input_side_def)
  have p: "priv c' = priv c" using assms(1) by (simp add: priv_def fun_eq_iff)
  have "infos_ok c' = infos_ok c" "pend c' = pend c" by (simp_all only: infos_ok_def pend_def p s assms(1) fun_eq_iff simp_thms)
  then show ?thesis by (simp only: input_inv_def assms s)
qed

lemma GetCodecDelay_cong: "nlog c' = nlog c \<Longrightarrow> in_port c' = in_port c \<Longrightarrow> fst (GetCodecDelay env c') = fst (GetCodecDelay env c)"
  by (simp add: GetCodecDelay_def GetCodec_def Let_def split: OMX_AUDIO_CODINGTYPE.splits)

lemma frame_flags_cong:
  assumes "m_pBufferTracker (m_sub c') = m_pBufferTracker (m_sub c)" "m_eosReceived (m_sub c') = m_eosReceived (m_sub c)"
  shows "fst (frame_flags fr h c') = fst (frame_flags fr h c)"
proof -
  obtain found h1 t where "Tracker_Remove (m_pBufferTracker (m_sub c)) (frame_pts fr) h = (found, h1, t)" by (cases rule: prod_cases3)
  with assms show ?thesis by (simp add: frame_flags_def Let_def)
qed

lemma deliver_head:
  fixes h0 :: OMX_BUFFERHEADERTYPE
  assumes "pClientMemory info \<noteq> NULL" "mem c (pClientMemory info) = Some bs"
    "unat (filledBytes fr) \<le> length bs" "unat (filledBytes fr) \<le> length (frame_data fr)"
  defines "h \<equiv> fst (frame_flags fr h0 c)" and "F \<equiv> unat (filledBytes fr)"
  shows "\<exists>fl t e c2. frame_flags fr h0 (put_out_info a i c) = (h, c2)
    \<and> h = h0\<lparr>nFlags := fl, nTimeStamp := nTimeStamp (fst (snd (Tracker_Remove (m_pBufferTracker (m_sub c)) (frame_pts fr) h0)))\<rparr>
    \<and> frame_copy fr info c2 = Some (sub (\<lambda>s. s\<lparr>m_outInfo := (m_outInfo s)(a \<mapsto> i), m_pBufferTracker := t, m_eosReceived := e,
        m_mem := (m_mem s)(pClientMemory info \<mapsto> take F (frame_data fr) @ drop F bs)\<rparr>) c)"
proof -
  let ?c1 = "put_out_info a i c"
  obtain fl t e where ff: "frame_flags fr h0 ?c1 = (h0\<lparr>nFlags := fl, nTimeStamp := nTimeStamp (fst (snd (Tracker_Remove (m_pBufferTracker (m_sub ?c1)) (frame_pts fr) h0)))\<rparr>,
      sub (\<lambda>s. s\<lparr>m_pBufferTracker := t, m_eosReceived := e\<rparr>) ?c1)"
    using frame_flags_result [of fr h0 ?c1] by blast
  have "fst (frame_flags fr h0 ?c1) = h" unfolding h_def by (rule frame_flags_cong) (simp_all add: put_out_info_def)
  moreover have "mem (sub (\<lambda>s. s\<lparr>m_pBufferTracker := t, m_eosReceived := e\<rparr>) ?c1) (pClientMemory info) = Some bs"
    using assms(2) by (simp add: put_out_info_def)
  note frame_copy_result [OF assms(1) this assms(3,4)]
  ultimately show ?thesis using ff by (auto simp: put_out_info_def comp_def F_def)
qed

lemma deliver_tail:
  fixes env :: "'b adec_env"
  assumes U: "unat (m_bitsPerSample (m_sub c) div 8) * unat (m_numPcmChannels (m_sub c)) = U" "0 < U" "U < 2 ^ 31"
    and fr: "unat (filledBytes fr) < 2 ^ 31" "frame_sampleRate fr \<noteq> 0" and h: "nOffset h = 0" "eos_expected h c"
  defines "k \<equiv> cut_samples (fst (GetCodecDelay env c) - m_codecDelayAdjusted (m_sub c)) fr U"
  shows "\<exists>h2 c4 fl c5 l r t. frame_trim env fr h c = Some (h2, c4) \<and> frame_eos h2 c4 = Some (Some (h2\<lparr>nFlags := fl\<rparr>), c5)
    \<and> h2 = h\<lparr>nOffset := of_nat (k * U), nFilledLen := of_nat (unat (filledBytes fr) - k * U)\<rparr> \<and> fl AND OMX_BUFFERFLAG_EOS = 0
    \<and> frame_end_time fr (h2\<lparr>nFlags := fl\<rparr>) c5 = Some (sub (\<lambda>s. s\<lparr>m_nexus := m_nexus s @ l,
        m_codecDelayAdjusted := m_codecDelayAdjusted s + int k, m_eosReady := r, m_eosTimeStamp := t\<rparr>) c)"
proof -
  define h2 where "h2 = h\<lparr>nOffset := of_nat (k * U), nFilledLen := of_nat (unat (filledBytes fr) - k * U)\<rparr>"
  from frame_trim_result [OF U fr(1) h(1), of env, folded k_def] obtain l where
    tr: "frame_trim env fr h c = Some (h2, sub (\<lambda>s. s\<lparr>m_nexus := m_nexus s @ l, m_codecDelayAdjusted := m_codecDelayAdjusted s + int k\<rparr>) c)"
    unfolding h2_def [symmetric] by blast
  define c4 where "c4 = sub (\<lambda>s. s\<lparr>m_nexus := m_nexus s @ l, m_codecDelayAdjusted := m_codecDelayAdjusted s + int k\<rparr>) c"
  have "eos_expected h2 c4" using h(2) by (simp add: eos_expected_def h2_def c4_def)
  from frame_eos_result [OF this] obtain fl r where
    eo: "frame_eos h2 c4 = Some (Some (h2\<lparr>nFlags := fl\<rparr>), sub (\<lambda>s. s\<lparr>m_eosReady := r\<rparr>) c4)" and fl: "fl AND OMX_BUFFERFLAG_EOS = 0" by blast
  define c5 where "c5 = sub (\<lambda>s. s\<lparr>m_eosReady := r\<rparr>) c4"
  have "unat (sample_size c5) = U" using U by (simp add: sample_size_def c5_def c4_def unat_word_ariths)
  then have "sample_size c5 \<noteq> 0" using U(2) by auto
  from frame_end_time_result [OF this fr(2), of "h2\<lparr>nFlags := fl\<rparr>"] obtain t where
    en: "frame_end_time fr (h2\<lparr>nFlags := fl\<rparr>) c5 = Some (sub (\<lambda>s. s\<lparr>m_eosTimeStamp := t\<rparr>) c5)" by blast
  have c5: "sub (\<lambda>s. s\<lparr>m_eosTimeStamp := t\<rparr>) c5 = sub (\<lambda>s. s\<lparr>m_nexus := m_nexus s @ l,
        m_codecDelayAdjusted := m_codecDelayAdjusted s + int k, m_eosReady := r, m_eosTimeStamp := t\<rparr>) c"
    by (simp add: c5_def c4_def comp_def)
  show ?thesis using tr eo en [unfolded c5] fl h2_def unfolding c4_def [symmetric] c5_def [symmetric] by blast
qed

text \<open>The state in which the buffer is handed to the client: the header and the members that the steps before have changed.\<close>

lemma deliver_frame_steps:
  fixes env :: "'b adec_env"
  assumes x: "m_heap c b = Some x" and info: "out_info c b = Some (a, info)"
    and M: "pClientMemory info \<noteq> NULL" "mem c (pClientMemory info) = Some bs"
      "unat (filledBytes fr) \<le> length bs" "unat (filledBytes fr) \<le> length (frame_data fr)" "unat (filledBytes fr) < 2 ^ 31"
    and U: "unat (m_bitsPerSample (m_sub c) div 8) * unat (m_numPcmChannels (m_sub c)) = U" "0 < U" "U < 2 ^ 31"
    and sr: "frame_sampleRate fr \<noteq> 0" and eos: "eos_expected (fst (frame_flags fr ((m_header x)\<lparr>nOffset := 0\<rparr>) c)) c"
  defines "k \<equiv> cut_samples (fst (GetCodecDelay env c) - m_codecDelayAdjusted (m_sub c)) fr U"
    and "F \<equiv> unat (filledBytes fr)"
  shows "\<exists>s h fl. deliver_frame env fr b c =
      do {let c = put_header b h (sub (\<lambda>_. s) c); (p, c) \<leftarrow> ReturnPortBuffer (out_port c) b c;
          c \<leftarrow> ReturnInputBuffers env (nTimeStamp h) False (set_out p c); Some (True, nexus (ConsumeDecodedFrames 1) c)}
    \<and> h = (m_header x)\<lparr>nOffset := of_nat (k * U), nFilledLen := of_nat (F - k * U), nFlags := fl,
        nTimeStamp := nTimeStamp (fst (snd (Tracker_Remove (m_pBufferTracker (m_sub c)) (frame_pts fr) (m_header x))))\<rparr>
    \<and> fl AND OMX_BUFFERFLAG_EOS = 0
    \<and> input_side s = input_side (m_sub c) \<and> m_mem s = (mem c)(pClientMemory info \<mapsto> take F (frame_data fr) @ drop F bs)
    \<and> m_outInfo s = (m_outInfo (m_sub c))(a \<mapsto> info\<lparr>nexusOwned := False\<rparr>) \<and> m_codecDelayAdjusted s = m_codecDelayAdjusted (m_sub c) + int k"
proof -
  let ?h0 = "(m_header x)\<lparr>nOffset := 0\<rparr>"
  define h1 where "h1 = fst (frame_flags fr ?h0 c)"
  from deliver_head [OF M(1-4), of ?h0 a "info\<lparr>nexusOwned := False\<rparr>"] obtain fl t e c2 where
    h: "frame_flags fr ?h0 (put_out_info a (info\<lparr>nexusOwned := False\<rparr>) c) = (h1, c2)"
      "h1 = ?h0\<lparr>nFlags := fl, nTimeStamp := nTimeStamp (fst (snd (Tracker_Remove (m_pBufferTracker (m_sub c)) (frame_pts fr) ?h0)))\<rparr>"
    and cp: "frame_copy fr info c2 = Some (sub (\<lambda>s. s\<lparr>m_outInfo := (m_outInfo s)(a \<mapsto> info\<lparr>nexusOwned := False\<rparr>), m_pBufferTracker := t,
        m_eosReceived := e, m_mem := (m_mem s)(pClientMemory info \<mapsto> take F (frame_data fr) @ drop F bs)\<rparr>) c)"
    unfolding h1_def F_def by blast
  define c3 where "c3 = sub (\<lambda>s. s\<lparr>m_outInfo := (m_outInfo s)(a \<mapsto> info\<lparr>nexusOwned := False\<rparr>), m_pBufferTracker := t,
        m_eosReceived := e, m_mem := (m_mem s)(pClientMemory info \<mapsto> take F (frame_data fr) @ drop F bs)\<rparr>) c"
  have s3: "m_bitsPerSample (m_sub c3) = m_bitsPerSample (m_sub c)" "m_numPcmChannels (m_sub c3) = m_numPcmChannels (m_sub c)"
    "m_codecDelayAdjusted (m_sub c3) = m_codecDelayAdjusted (m_sub c)" "fst (GetCodecDelay env c3) = fst (GetCodecDelay env c)"
    by (auto simp: c3_def intro!: GetCodecDelay_cong)
  have ho: "nOffset h1 = 0" by (simp add: h(2))
  have eo: "eos_expected h1 c3" using eos unfolding h1_def [symmetric] by (simp add: eos_expected_def c3_def)
  from deliver_tail [OF _ U(2,3) M(5) sr ho eo, of env] U(1) obtain h2 c4 fl' c5 l r t' where
    tl: "frame_trim env fr h1 c3 = Some (h2, c4)" "frame_eos h2 c4 = Some (Some (h2\<lparr>nFlags := fl'\<rparr>), c5)"
      "h2 = h1\<lparr>nOffset := of_nat (k * U), nFilledLen := of_nat (F - k * U)\<rparr>" "fl' AND OMX_BUFFERFLAG_EOS = 0"
      "frame_end_time fr (h2\<lparr>nFlags := fl'\<rparr>) c5 = Some (sub (\<lambda>s. s\<lparr>m_nexus := m_nexus s @ l,
        m_codecDelayAdjusted := m_codecDelayAdjusted s + int k, m_eosReady := r, m_eosTimeStamp := t'\<rparr>) c3)"
    unfolding s3 k_def F_def by blast
  let ?s = "(m_sub c3)\<lparr>m_nexus := nlog c3 @ l, m_codecDelayAdjusted := m_codecDelayAdjusted (m_sub c3) + int k, m_eosReady := r, m_eosTimeStamp := t'\<rparr>"
  define h3 where "h3 = h2\<lparr>nFlags := fl'\<rparr>"
  have c5: "sub (\<lambda>s. s\<lparr>m_nexus := m_nexus s @ l,
        m_codecDelayAdjusted := m_codecDelayAdjusted s + int k, m_eosReady := r, m_eosTimeStamp := t'\<rparr>) c3 = sub (\<lambda>_. ?s) c"
    by (simp add: c3_def sub_def)
  have "nTimeStamp (fst (snd (Tracker_Remove T q ?h0))) = nTimeStamp (fst (snd (Tracker_Remove T q (m_header x))))" for T q
    by (simp add: Tracker_Remove_def Let_def split: option.splits prod.splits)
  then have h3: "h3 = (m_header x)\<lparr>nOffset := of_nat (k * U), nFilledLen := of_nat (F - k * U), nFlags := fl',
      nTimeStamp := nTimeStamp (fst (snd (Tracker_Remove (m_pBufferTracker (m_sub c)) (frame_pts fr) (m_header x))))\<rparr>"
    by (simp add: h3_def tl(3) h(2))
  have "deliver_frame env fr b c =
      do {let c = put_header b h3 (sub (\<lambda>_. ?s) c); (p, c) \<leftarrow> ReturnPortBuffer (out_port c) b c;
          c \<leftarrow> ReturnInputBuffers env (nTimeStamp h3) False (set_out p c); Some (True, nexus (ConsumeDecodedFrames 1) c)}"
    using info x h(1) cp [folded c3_def] tl(1,2) tl(5) [unfolded c5] unfolding h3_def [symmetric] by (simp add: deliver_frame_def)
  moreover have "input_side ?s = input_side (m_sub c)" "m_mem ?s = (mem c)(pClientMemory info \<mapsto> take F (frame_data fr) @ drop F bs)"
    "m_outInfo ?s = (m_outInfo (m_sub c))(a \<mapsto> info\<lparr>nexusOwned := False\<rparr>)" "m_codecDelayAdjusted ?s = m_codecDelayAdjusted (m_sub c) + int k"
    by (simp_all add: input_side_def c3_def)
  ultimately show ?thesis using h3 tl(4) by blast
qed

lemma output_done:
  assumes "\<not> IsTunneled (out_port c)" "eDir (m_definition (out_port c)) = OMX_DirOutput" "cb_FillBufferDone c"
  shows "buffer_done (drain_ctx (out_port c, c)) b = [(m_locked c, FillBufferDone b)]"
  using assms by (auto simp: buffer_done_def drain_ctx_def IsTunneled_def)

lemma ReturnPortBuffer_frame:
  assumes "ReturnPortBuffer p b c = Some (p', c')"
  shows "m_heap c' = m_heap c" "m_pAudioPorts c' = m_pAudioPorts c" "m_sub c' = m_sub c" "outer c' = outer c"
  using assms by (auto simp: ReturnPortBuffer_def call_def outer_def split: option.splits if_splits)

text \<open>Handing the buffer over and returning input buffers after it.\<close>

lemma hand_over:
  assumes inv: "input_inv c" "port_inv (m_heap c) (out_port c)" and b: "b \<in> set (m_bufferQueue (out_port c))"
    and cl: "\<not> IsTunneled (out_port c)" "eDir (m_definition (out_port c)) = OMX_DirOutput" "cb_FillBufferDone c"
  shows "\<exists>p c1 c' r. ReturnPortBuffer (out_port c) b c = Some (p, c1) \<and> ReturnInputBuffers env ts to (set_out p c1) = Some c'
    \<and> input_inv c' \<and> in_queue c' = drop r (in_queue c) \<and> m_heap c' = m_heap c \<and> core (m_sub c') = core (m_sub c)
    \<and> m_bufferQueue (out_port c') = remove1 b (m_bufferQueue (out_port c)) \<and> port_inv (m_heap c') (out_port c')
    \<and> m_log c' = m_log c @ (m_locked c, FillBufferDone b) # concat (map (buffer_done (ctx c)) (take r (in_queue c)))"
proof -
  from ReturnPortBuffer_result [OF inv(2) b, of c] obtain p c1 where
    r: "ReturnPortBuffer (out_port c) b c = Some (p, c1)" "port_inv (m_heap c) p" "m_bufferQueue p = remove1 b (m_bufferQueue (out_port c))"
      "m_log c1 = m_log c @ [(m_locked c, FillBufferDone b)]" unfolding output_done [OF cl] by force
  note k = ReturnPortBuffer_frame [OF r(1)]
  have l: "length (m_pAudioPorts c) = 2" using inv(1) by (simp add: input_inv_def)
  let ?c = "set_out p c1"
  have c: "in_port ?c = in_port c" "out_port ?c = p" "m_log ?c = m_log c1" "m_heap ?c = m_heap c" "m_sub ?c = m_sub c" "drain_ctx (in_port c, ?c) = ctx c"
    using k l by (simp_all add: drain_ctx_def set_out_def outer_def)
  have i: "input_inv ?c" using inv(1) input_inv_side [of ?c c] k c by simp
  from ReturnInputBuffers_result [OF i, of env ts to] obtain c' n where
    "ReturnInputBuffers env ts to ?c = Some c'" "input_inv c'" "in_queue c' = drop n (in_queue c)"
    "m_log c' = m_log c1 @ concat (map (buffer_done (ctx c)) (take n (in_queue c)))"
    "m_heap c' = m_heap c" "core (m_sub c') = core (m_sub c)" "out_port c' = p" unfolding c by blast
  then show ?thesis using r by (intro exI [of _ p] exI [of _ c1] exI [of _ c'] exI [of _ n]) simp
qed

text \<open>
  C15: A decoded frame that came back in a queued buffer reaches the client: the buffer leaves the
  queue and is handed over once, its window holds the decoded samples without the codec delay that is
  still to be cut off, it carries the time stamp that the tracker has for the frame and never the
  end-of-stream flag, and Nexus does not own it any longer. Input buffers go back after it.
\<close>

theorem adec_frame_delivered:
  fixes env :: "'b adec_env"
  assumes inv: "input_inv c" "port_inv (m_heap c) (out_port c)" and b: "b \<in> set (m_bufferQueue (out_port c))"
    and cl: "\<not> IsTunneled (out_port c)" "eDir (m_definition (out_port c)) = OMX_DirOutput" "cb_FillBufferDone c"
    and x: "m_heap c b = Some x" and info: "out_info c b = Some (a, info)"
    and M: "pClientMemory info \<noteq> NULL" "mem c (pClientMemory info) = Some bs"
      "unat (filledBytes fr) \<le> length bs" "unat (filledBytes fr) \<le> length (frame_data fr)" "unat (filledBytes fr) < 2 ^ 31"
    and U: "unat (m_bitsPerSample (m_sub c) div 8) * unat (m_numPcmChannels (m_sub c)) = U" "0 < U" "U < 2 ^ 31"
    and sr: "frame_sampleRate fr \<noteq> 0" and eos: "eos_expected (fst (frame_flags fr ((m_header x)\<lparr>nOffset := 0\<rparr>) c)) c"
  defines "k \<equiv> cut_samples (fst (GetCodecDelay env c) - m_codecDelayAdjusted (m_sub c)) fr U"
  shows "\<exists>c' x' r. deliver_frame env fr b c = Some (True, c') \<and> m_heap c' b = Some x'
    \<and> unat (nOffset (m_header x')) = k * U \<and> unat (nFilledLen (m_header x')) = unat (filledBytes fr) - k * U
    \<and> read_at c' (pClientMemory info) (k * U) (unat (filledBytes fr) - k * U) = Some (drop (k * U) (take (unat (filledBytes fr)) (frame_data fr)))
    \<and> nTimeStamp (m_header x') = nTimeStamp (fst (snd (Tracker_Remove (m_pBufferTracker (m_sub c)) (frame_pts fr) (m_header x))))
    \<and> nFlags (m_header x') AND OMX_BUFFERFLAG_EOS = 0
    \<and> m_codecDelayAdjusted (m_sub c') = m_codecDelayAdjusted (m_sub c) + int k
    \<and> m_bufferQueue (out_port c') = remove1 b (m_bufferQueue (out_port c)) \<and> out_info c' b = Some (a, info\<lparr>nexusOwned := False\<rparr>)
    \<and> input_inv c' \<and> in_queue c' = drop r (in_queue c)
    \<and> m_log c' = m_log c @ (m_locked c, FillBufferDone b) # concat (map (buffer_done (ctx c)) (take r (in_queue c)))"
proof -
  let ?F = "unat (filledBytes fr)"
  from deliver_frame_steps [OF x info M U sr eos, of env] obtain s h fl where
    d: "deliver_frame env fr b c =
      do {let c = put_header b h (sub (\<lambda>_. s) c); (p, c) \<leftarrow> ReturnPortBuffer (out_port c) b c;
          c \<leftarrow> ReturnInputBuffers env (nTimeStamp h) False (set_out p c); Some (True, nexus (ConsumeDecodedFrames 1) c)}"
    and h: "h = (m_header x)\<lparr>nOffset := of_nat (k * U), nFilledLen := of_nat (?F - k * U), nFlags := fl,
        nTimeStamp := nTimeStamp (fst (snd (Tracker_Remove (m_pBufferTracker (m_sub c)) (frame_pts fr) (m_header x))))\<rparr>"
    and fl: "fl AND OMX_BUFFERFLAG_EOS = 0"
    and s: "input_side s = input_side (m_sub c)" "m_mem s = (mem c)(pClientMemory info \<mapsto> take ?F (frame_data fr) @ drop ?F bs)"
      "m_outInfo s = (m_outInfo (m_sub c))(a \<mapsto> info\<lparr>nexusOwned := False\<rparr>)" "m_codecDelayAdjusted s = m_codecDelayAdjusted (m_sub c) + int k"
    unfolding k_def by blast
  let ?c0 = "sub (\<lambda>_. s) c" and ?x = "x\<lparr>m_header := h\<rparr>"
  define c1 where "c1 = put_header b h ?c0"
  have c1: "m_heap c1 b = Some ?x" "m_sub c1 = s" "m_pAudioPorts c1 = m_pAudioPorts c" "m_log c1 = m_log c" "drain_ctx (in_port c, c1) = ctx c"
    "cb_FillBufferDone c1 = cb_FillBufferDone c" "m_locked c1 = m_locked c"
    using x by (simp_all add: c1_def put_header_def drain_ctx_def sub_def)
  have "input_inv ?c0" using inv(1) input_inv_side [of ?c0 c] s(1) by simp
  then have i1: "input_inv c1" "port_inv (m_heap c1) (out_port c1)"
    using put_header_inv [of ?c0 b x h] x inv(2) unfolding c1_def by (simp_all add: h c1(3) [unfolded c1_def])
  from hand_over [OF i1, of b env "nTimeStamp h" False, unfolded c1(2-7), OF b cl] obtain p c2 c3 r where
    r: "ReturnPortBuffer (out_port c1) b c1 = Some (p, c2)" "ReturnInputBuffers env (nTimeStamp h) False (set_out p c2) = Some c3"
      "input_inv c3" "in_queue c3 = drop r (in_queue c)" "m_heap c3 = m_heap c1" "core (m_sub c3) = core s"
      "m_bufferQueue (out_port c3) = remove1 b (m_bufferQueue (out_port c))"
      "m_log c3 = m_log c @ (m_locked c, FillBufferDone b) # concat (map (buffer_done (ctx c)) (take r (in_queue c)))"
    unfolding c1(3) by blast
  let ?c' = "nexus (ConsumeDecodedFrames 1) c3"
  have dv: "deliver_frame env fr b c = Some (True, ?c')" using d r(1,2) unfolding c1_def by (simp add: Let_def)
  have m3: "mem c3 = m_mem s" "m_outInfo (m_sub c3) = m_outInfo s" "m_codecDelayAdjusted (m_sub c3) = m_codecDelayAdjusted s"
    using r(6) by (metis core_sel(1), metis core_sel(2), metis core_sel(5))
  have kU: "k * U \<le> ?F" unfolding k_def by (rule cut_le)
  then have w: "unat (of_nat (k * U) :: u32) = k * U" "unat (of_nat (?F - k * U) :: u32) = ?F - k * U"
    unfolding unat_of_nat using M(5) by (simp_all add: mod_less)
  have ap: "a = GetComponentPrivate x" using info x by (auto simp: out_info_def split: option.splits bind_splits)
  have "GetComponentPrivate ?x = a" unfolding ap by (simp add: GetComponentPrivate_def h split: OMX_DIRTYPE.splits)
  then have oi: "out_info ?c' b = Some (a, info\<lparr>nexusOwned := False\<rparr>)" using c1(1) r(5) m3(2) s(3) by (simp add: out_info_def)
  have rd: "read_at ?c' (pClientMemory info) (k * U) (?F - k * U) = Some (drop (k * U) (take ?F (frame_data fr)))"
    using kU M(3,4) m3(1) s(2) by (simp add: read_at_def drop_take min_absorb2)
  have "input_inv ?c'" using r(3) input_inv_side [of ?c' c3] by (simp add: input_side_def)
  then show ?thesis using dv c1(1) r fl w oi rd m3(3) s(4)
    by (intro exI [of _ ?c'] exI [of _ ?x] exI [of _ r]) (simp add: h del: of_nat_mult)
qed

section \<open>The end of the stream\<close>

lemma BufferComplete_twice:
  assumes "port_inv hp p" "BufferComplete p b = Some p'"
  shows "BufferComplete p' b = None" "ReturnPortBuffer p' b c = None"
proof -
  have "distinct (m_bufferQueue p)" using assms(1) by (simp add: port_inv_def)
  then show "BufferComplete p' b = None" using assms(2) by (auto simp: BufferComplete_def split: if_splits)
  then show "ReturnPortBuffer p' b c = None" by (simp add: ReturnPortBuffer_def)
qed

text \<open>
  The end of the stream cannot be delivered while assertions are on: the buffer is taken off the
  queue by \<open>BufferComplete\<close> and then passed to \<open>ReturnPortBuffer\<close>, which takes it off again.
\<close>

lemma adec_eos_asserts:
  assumes inv: "port_inv (m_heap c) (out_port c)" "length (m_pAudioPorts c) = 2" and nd: "\<not> e_ndebug env"
  shows "deliver_eos env c = None"
proof -
  have "return_again env b (sub f (set_out p (put_header b h c'))) = None"
    if "BufferComplete (out_port (put_header b h c')) b = Some p" "m_pAudioPorts c' = m_pAudioPorts c" for b f p h c'
  proof -
    have "BufferComplete (out_port c) b = Some p" using that by (simp add: put_header_def)
    note n = BufferComplete_twice(2) [OF inv(1) this]
    have "out_port (sub f (set_out p (put_header b h c'))) = p" using that(2) inv(2) by (simp add: put_header_def)
    then show ?thesis using nd by (simp add: return_again_def n)
  qed
  moreover have "m_pAudioPorts c' = m_pAudioPorts c" if "write_at a n vs c = Some c'" for a n vs c'
    using that by (auto simp: write_at_def put_mem_def split: bind_splits if_splits)
  ultimately show ?thesis by (auto simp: deliver_eos_def Let_def split: bind_splits)
qed

lemma deliver_eos_steps:
  assumes inv: "input_inv c" "port_inv (m_heap c) (out_port c)" and q: "m_bufferQueue (out_port c) = b # q" and x: "m_heap c b = Some x"
    and cl: "\<not> IsTunneled (out_port c)" "cb_FillBufferDone c" and nd: "e_ndebug env"
    and d: "m_codecDelayAdjusted (m_sub c) = int d" "unat (m_bitsPerSample (m_sub c) div 8) * unat (m_numPcmChannels (m_sub c)) = U" "d * U < 2 ^ 32"
    and M: "mem c (bh_pBuffer (m_header x)) = Some bs" "d * U \<le> length bs"
  defines "M' \<equiv> (mem c)(bh_pBuffer (m_header x) \<mapsto> replicate (d * U) 0 @ drop (d * U) bs)"
  shows "\<exists>c1. deliver_eos env c = ReturnInputBuffers env 0 True c1 \<and> input_inv c1 \<and> in_queue c1 = in_queue c \<and> ctx c1 = ctx c
    \<and> m_heap c1 b = Some (x\<lparr>m_header := (m_header x)\<lparr>nFilledLen := of_nat (d * U), nTimeStamp := m_eosTimeStamp (m_sub c), nFlags := OMX_BUFFERFLAG_EOS\<rparr>\<rparr>)
    \<and> mem c1 = M' \<and> m_eosDelivered (m_sub c1) \<and> \<not> m_eosPending (m_sub c1)
    \<and> m_bufferQueue (out_port c1) = q \<and> m_log c1 = m_log c @ [(m_locked c, FillBufferDone b)]"
proof -
  let ?h = "(m_header x)\<lparr>nFilledLen := of_nat (d * U), nTimeStamp := m_eosTimeStamp (m_sub c), nFlags := OMX_BUFFERFLAG_EOS\<rparr>"
  let ?p = "(out_port c)\<lparr>m_bufferQueue := q, m_queueDepth := m_queueDepth (out_port c) - 1\<rparr>"
  let ?len = "(if int d > 0 then of_int (int d) * (m_bitsPerSample (m_sub c) div 8) * m_numPcmChannels (m_sub c) else 0) :: u32"
  have len: "?len = of_nat (d * U)" using d(2) by (simp add: mult.assoc flip: d(2))
  have lu: "unat (of_nat (d * U) :: u32) = d * U" unfolding unat_of_nat using d(3) by (simp add: mod_less)
  have gb: "GetBuffer (out_port c) = b" using q by (simp add: GetBuffer_def)
  have bc: "BufferComplete (out_port c) b = Some ?p" using BufferComplete_result [OF inv(2), of b] q by simp
  have l: "length (m_pAudioPorts c) = 2" using inv(1) by (simp add: input_inv_def)
  define c0 where "c0 = sub (\<lambda>s. s\<lparr>m_mem := M'\<rparr>) c"
  have w: "(if int d > 0 then write_at (bh_pBuffer (m_header x)) 0 (replicate (d * U) 0) c else Some c) = Some c0"
    using M by (cases "d = 0") (auto simp: write_at_def put_mem_def c0_def M'_def sub_def fun_upd_idem)
  define c2 where "c2 = sub (\<lambda>s. s\<lparr>m_eosPending := False, m_eosStandalone := False, m_eosReady := False, m_eosDelivered := True, m_eosTimeStamp := 0\<rparr>)
    (set_out ?p (put_header b ?h c0))"
  have c2: "out_port c2 = ?p" "in_port c2 = in_port c" "cb_FillBufferDone c2 = cb_FillBufferDone c" "m_locked c2 = m_locked c"
    "m_heap c2 = m_heap (put_header b ?h c)" "m_log c2 = m_log c" "drain_ctx (in_port c, c2) = ctx c"
    using l by (simp_all add: c2_def c0_def put_header_def sub_def set_out_def drain_ctx_def)
  have ra: "return_again env b c2 = Some (call (FillBufferDone b) c2)"
    unfolding return_again_def c2 BufferComplete_twice(2) [OF inv(2) bc] using nd cl by (simp add: IsTunneled_def)
  have c0: "m_eosTimeStamp (m_sub c0) = m_eosTimeStamp (m_sub c)" "BufferComplete (out_port (put_header b ?h c0)) b = Some ?p"
    using bc by (simp_all add: c0_def put_header_def)
  have "deliver_eos env c = ReturnInputBuffers env 0 True (call (FillBufferDone b) c2)"
    by (simp only: deliver_eos_def Let_def gb d(1) x Option.bind.bind_lunit len lu w c0 c2_def [symmetric] ra)
  moreover have "input_inv (put_header b ?h c)" using put_header_inv(2) [OF x, of ?h] inv(1) by simp
  then have "input_inv (call (FillBufferDone b) c2)"
    by (rule input_inv_side [THEN iffD2, rotated -1]) (simp_all add: c2 [simplified] call_def input_side_def, simp_all add: c2_def c0_def put_header_def)
  ultimately show ?thesis using x
    by (intro exI [of _ "call (FillBufferDone b) c2"]) (simp add: call_def c2 [simplified], simp add: c2_def c0_def put_header_def drain_ctx_def sub_def set_out_def)
qed

text \<open>
  C16: The end of the stream, with assertions compiled out: the first output buffer goes to the client
  once, with the end-of-stream flag, the time at which the last frame ended, and as many zero samples
  as were cut off the beginning; the component is in the delivered state, and every input buffer
  that is complete and not behind an incomplete one goes back.
\<close>

theorem adec_eos_delivered:
  assumes inv: "input_inv c" "port_inv (m_heap c) (out_port c)" and q: "m_bufferQueue (out_port c) = b # q" and x: "m_heap c b = Some x"
    and cl: "\<not> IsTunneled (out_port c)" "cb_FillBufferDone c" and nd: "e_ndebug env"
    and d: "m_codecDelayAdjusted (m_sub c) = int d" "unat (m_bitsPerSample (m_sub c) div 8) * unat (m_numPcmChannels (m_sub c)) = U" "d * U < 2 ^ 32"
    and M: "mem c (bh_pBuffer (m_header x)) = Some bs" "d * U \<le> length bs"
  shows "\<exists>c' x' r. deliver_eos env c = Some c' \<and> m_heap c' b = Some x' \<and> nFlags (m_header x') = OMX_BUFFERFLAG_EOS
    \<and> nTimeStamp (m_header x') = m_eosTimeStamp (m_sub c) \<and> unat (nFilledLen (m_header x')) = d * U
    \<and> read_at c' (bh_pBuffer (m_header x')) 0 (d * U) = Some (replicate (d * U) 0)
    \<and> m_eosDelivered (m_sub c') \<and> \<not> m_eosPending (m_sub c') \<and> m_bufferQueue (out_port c') = q
    \<and> input_inv c' \<and> in_queue c' = drop r (in_queue c) \<and> (in_queue c' = [] \<or> \<not> is_complete c' (hd (in_queue c')))
    \<and> m_log c' = m_log c @ (m_locked c, FillBufferDone b) # concat (map (buffer_done (ctx c)) (take r (in_queue c)))"
proof -
  from deliver_eos_steps [OF assms] obtain c1 where
    s: "deliver_eos env c = ReturnInputBuffers env 0 True c1" "input_inv c1" "in_queue c1 = in_queue c" "ctx c1 = ctx c"
      "m_heap c1 b = Some (x\<lparr>m_header := (m_header x)\<lparr>nFilledLen := of_nat (d * U), nTimeStamp := m_eosTimeStamp (m_sub c), nFlags := OMX_BUFFERFLAG_EOS\<rparr>\<rparr>)"
      "mem c1 = (mem c)(bh_pBuffer (m_header x) \<mapsto> replicate (d * U) 0 @ drop (d * U) bs)" "m_eosDelivered (m_sub c1)" "\<not> m_eosPending (m_sub c1)"
      "m_bufferQueue (out_port c1) = q" "m_log c1 = m_log c @ [(m_locked c, FillBufferDone b)]" by blast
  from ReturnInputBuffers_result [OF s(2), of env 0 True] obtain c2 c' r where
    r: "ReturnInputBuffers env 0 True c1 = Some c'" "input_inv c'" "in_queue c' = drop r (in_queue c1)" "r = to_return c2 0 True (in_queue c1)"
      "is_complete c' = is_complete c2" "m_log c' = m_log c1 @ concat (map (buffer_done (ctx c1)) (take r (in_queue c1)))"
      "m_heap c' = m_heap c1" "core (m_sub c') = core (m_sub c1)" "out_port c' = out_port c1" by blast
  have "in_queue c' = [] \<or> \<not> is_complete c' (hd (in_queue c'))"
    using r(3-5) hd_dropWhile [of "is_complete c2" "in_queue c1"] by (auto simp: to_return_def Let_def simp flip: dropWhile_eq_drop)
  moreover have "mem c' = mem c1" "m_eosPending (m_sub c') = m_eosPending (m_sub c1)" "m_eosDelivered (m_sub c') = m_eosDelivered (m_sub c1)"
    using r(8) by (metis core_sel(1), metis core_sel(4), metis core_sel(12))
  moreover have "unat (of_nat (d * U) :: u32) = d * U" unfolding unat_of_nat using d(3) by (simp add: mod_less)
  ultimately show ?thesis using s r M(2)
    by (intro exI [of _ c'] exI [of _ "the (m_heap c1 b)"] exI [of _ r]) (simp add: read_at_def del: of_nat_mult)
qed

section \<open>Buffers for Nexus\<close>

definition owned :: "adc \<Rightarrow> addr \<Rightarrow> bool" where
  "owned c b = (case out_info c b of None \<Rightarrow> False | Some (a, i) \<Rightarrow> nexusOwned i)"

definition outputs_ok :: "adc \<Rightarrow> addr list \<Rightarrow> bool" where
  "outputs_ok c bs \<longleftrightarrow> distinct (map (priv c) bs) \<and> (\<forall>b \<in> set bs. out_info c b \<noteq> None)"

text \<open>The call that gives a buffer to Nexus.\<close>

definition queue_call :: "adc \<Rightarrow> addr \<Rightarrow> nexus_call" where
  "queue_call c b =
     (case (out_info c b, m_heap c b) of
        (Some (a, i), Some x) \<Rightarrow> Decoder_QueueBuffer (hMemoryBlock i) (nAllocLen (m_header x)) | _ \<Rightarrow> New)"

lemma out_info_priv: "out_info c b = Some (a, i) \<Longrightarrow> a = priv c b \<and> (\<exists>x. m_heap c b = Some x)"
  by (auto simp: out_info_def priv_def split: bind_splits)

lemma out_info_other:
  assumes "m_heap c' = m_heap c" "m_outInfo (m_sub c') = (m_outInfo (m_sub c))(a \<mapsto> i)" "priv c b \<noteq> a"
  shows "out_info c' b = out_info c b" "owned c' b = owned c b" "queue_call c' b = queue_call c b" "priv c' b = priv c b"
proof -
  show o: "out_info c' b = out_info c b" using assms by (cases "m_heap c b") (auto simp: out_info_def priv_def)
  then show "owned c' b = owned c b" "queue_call c' b = queue_call c b" "priv c' b = priv c b"
    using assms(1) by (simp_all add: owned_def queue_call_def priv_def)
qed

lemma add_output_result:
  assumes "outputs_ok c bs" "\<forall>l. e_error env l = 0"
  shows "\<exists>c'. add_output env bs c = Some c' \<and> nlog c' = nlog c @ map (queue_call c) (filter (\<lambda>b. \<not> owned c b) bs)
    \<and> (\<forall>b \<in> set bs. owned c' b) \<and> (\<forall>b. priv c b \<notin> priv c ` set bs \<longrightarrow> out_info c' b = out_info c b)
    \<and> m_heap c' = m_heap c \<and> m_pAudioPorts c' = m_pAudioPorts c \<and> input_side (m_sub c') = input_side (m_sub c)"
  using assms(1)
proof (induction bs arbitrary: c)
  case (Cons b bs)
  then obtain i where i: "out_info c b = Some (priv c b, i)" by (fastforce simp: outputs_ok_def dest: out_info_priv)
  from out_info_priv [OF i] obtain x where x: "m_heap c b = Some x" by auto
  have ok: "outputs_ok c bs" and ne: "\<forall>y \<in> set bs. priv c y \<noteq> priv c b" using Cons.prems by (auto simp: outputs_ok_def image_iff)
  have nb: "priv c b \<notin> priv c ` set bs" using Cons.prems by (simp add: outputs_ok_def)
  show ?case
  proof (cases "nexusOwned i")
    case True
    then have o: "owned c b" using i by (simp add: owned_def)
    from Cons.IH [OF ok] obtain c' where r: "add_output env bs c = Some c'" "nlog c' = nlog c @ map (queue_call c) (filter (\<lambda>b. \<not> owned c b) bs)"
      "\<forall>b \<in> set bs. owned c' b" "\<forall>b. priv c b \<notin> priv c ` set bs \<longrightarrow> out_info c' b = out_info c b"
      "m_heap c' = m_heap c" "m_pAudioPorts c' = m_pAudioPorts c" "input_side (m_sub c') = input_side (m_sub c)" by blast
    have "out_info c' b = out_info c b" using r(4) nb by blast
    then have "owned c' b" using o by (simp add: owned_def)
    with True i o r show ?thesis by (intro exI [of _ c']) simp
  next
    case False
    then have o: "\<not> owned c b" using i by (simp add: owned_def)
    define c1 where "c1 = put_out_info (priv c b) (i\<lparr>nexusOwned := True\<rparr>) (nexus (queue_call c b) c)"
    have c1: "m_heap c1 = m_heap c" "m_outInfo (m_sub c1) = (m_outInfo (m_sub c))(priv c b \<mapsto> i\<lparr>nexusOwned := True\<rparr>)"
      "m_pAudioPorts c1 = m_pAudioPorts c" "input_side (m_sub c1) = input_side (m_sub c)" "nlog c1 = nlog c @ [queue_call c b]"
      by (simp_all add: c1_def put_out_info_def input_side_def)
    note oth = out_info_other [OF c1(1,2)]
    have pv: "priv c1 = priv c" using c1(1) by (simp add: priv_def fun_eq_iff)
    have "Decoder_queue env (priv c b) i (nAllocLen (m_header x)) c = (True, c1)"
      using assms(2) i x by (simp add: Decoder_queue_def c1_def queue_call_def)
    then have st: "add_output env (b # bs) c = add_output env bs c1" using i x False by simp
    have "outputs_ok c1 bs" using ok ne oth(1) by (auto simp: outputs_ok_def pv)
    from Cons.IH [OF this] obtain c' where r: "add_output env bs c1 = Some c'"
      "nlog c' = nlog c1 @ map (queue_call c1) (filter (\<lambda>b. \<not> owned c1 b) bs)"
      "\<forall>b \<in> set bs. owned c' b" "\<forall>b. priv c b \<notin> priv c ` set bs \<longrightarrow> out_info c' b = out_info c1 b"
      "m_heap c' = m_heap c" "m_pAudioPorts c' = m_pAudioPorts c" "input_side (m_sub c') = input_side (m_sub c)" unfolding pv c1(1,3,4) by blast
    have "out_info c1 b = Some (priv c b, i\<lparr>nexusOwned := True\<rparr>)" using x c1(1,2) by (simp add: out_info_def priv_def)
    moreover have "out_info c' b = out_info c1 b" using r(4) nb by blast
    ultimately have "owned c' b" by (simp add: owned_def)
    moreover have "map (queue_call c1) (filter (\<lambda>b. \<not> owned c1 b) bs) = map (queue_call c) (filter (\<lambda>b. \<not> owned c b) bs)"
    proof -
      have "filter (\<lambda>b. \<not> owned c1 b) bs = filter (\<lambda>b. \<not> owned c b) bs" using ne oth(2) by (intro filter_cong) auto
      then show ?thesis using ne oth(3) by auto
    qed
    ultimately show ?thesis using st r c1(5) o oth(1) by (intro exI [of _ c']) simp
  qed
qed simp


section \<open>Witnesses\<close>

text \<open>An output buffer at 9 of 16 bytes in block 500 is queued; samples have two channels of two bytes each.\<close>

definition demo_out_buffer :: BOMX_Buffer where
  "demo_out_buffer = new_BOMX_OutputBuffer omx_il_abi 9 0 16 500 60"

definition demo_out_info :: BOMX_AudioDecoderOutputBufferInfo where
  "demo_out_info = \<lparr>hMemoryBlock = 3000, pNexusMemory = 600, pClientMemory = 500, nexusOwned = False\<rparr>"

definition demo_adec_out :: adc where
  "demo_adec_out =
     set_out ((out_port demo_adec)\<lparr>m_bufferList := [9], m_numBuffers := 1, m_bufferQueue := [9], m_queueDepth := 1\<rparr>)
       (sub (\<lambda>s. s\<lparr>m_bitsPerSample := 16, m_numPcmChannels := 2, m_outInfo := [60 \<mapsto> demo_out_info], m_mem := [500 \<mapsto> replicate 16 1]\<rparr>)
          (demo_adec\<lparr>m_heap := [8 \<mapsto> demo_in_buffer, 9 \<mapsto> demo_out_buffer]\<rparr>))"

definition demo_frame :: NEXUS_AudioDecoderFrame where
  "demo_frame = \<lparr>frame_block = 3000, frame_pts = 90, filledBytes = 12, frame_sampleRate = 48000, frame_data = [1, 2, 3, 4, 5, 6, 7, 8, 9, 10, 11, 12]\<rparr>"

lemma demo_out_parts:
  "m_heap demo_adec_out = [8 \<mapsto> demo_in_buffer, 9 \<mapsto> demo_out_buffer]" "length (m_pAudioPorts demo_adec_out) = 2"
  "in_port demo_adec_out = in_port demo_adec" "m_bufferQueue (out_port demo_adec_out) = [9]"
  "\<not> IsTunneled (out_port demo_adec_out)" "eDir (m_definition (out_port demo_adec_out)) = OMX_DirOutput"
  "cb_FillBufferDone demo_adec_out" "port_inv (m_heap demo_adec_out) (out_port demo_adec_out)" "GetComponentPrivate demo_out_buffer = 60"
  "m_sub demo_adec_out = (m_sub demo_adec)\<lparr>m_bitsPerSample := 16, m_numPcmChannels := 2, m_outInfo := [60 \<mapsto> demo_out_info], m_mem := [500 \<mapsto> replicate 16 1]\<rparr>"
  "m_codecDelayAdjusted (m_sub demo_adec) = 0" "m_eosReceived (m_sub demo_adec) = False" "m_allocList (m_pBufferTracker (m_sub demo_adec)) = []"
  by (simp_all add: demo_adec_out_def demo_adec_simps set_out_def sub_def demo_out_buffer_def new_BOMX_OutputBuffer_def IsTunneled_def
      port_inv_def buffer_ok_def Let_def)

lemma demo_out_info: "out_info demo_adec_out 9 = Some (60, demo_out_info)"
  by (simp add: out_info_def demo_out_parts)

lemma demo_out_inv: "input_inv demo_adec_out"
proof -
  have "in_queue demo_adec = []" "nBufferCountActual (m_definition (in_port demo_adec)) = 12" "m_AvailInputBuffers (m_sub demo_adec) = 12"
    "m_submittedDescriptors (m_sub demo_adec) = 0" "port_inv [8 \<mapsto> demo_in_buffer, 9 \<mapsto> demo_out_buffer] (in_port demo_adec)"
    by (simp_all add: demo_adec_simps port_inv_def buffer_ok_def Let_def)
  then show ?thesis by (simp add: input_inv_def demo_out_parts infos_ok_def)
qed

theorem adec_frame_delivered_witness:
  "\<exists>c'. deliver_frame (demo_adec_env\<lparr>e_property := \<lambda>l. 1\<rparr>) demo_frame 9 demo_adec_out = Some (True, c')
     \<and> read_at c' 500 4 8 = Some [5, 6, 7, 8, 9, 10, 11, 12] \<and> m_bufferQueue (out_port c') = []"
proof -
  let ?e = "demo_adec_env\<lparr>e_property := \<lambda>l. 1\<rparr>" and ?h = "(m_header demo_out_buffer)\<lparr>nOffset := 0\<rparr>"
  have k: "cut_samples (fst (GetCodecDelay ?e demo_adec_out) - m_codecDelayAdjusted (m_sub demo_adec_out)) demo_frame 4 = 1"
    by (simp add: cut_samples_def demo_frame_def demo_out_parts GetCodecDelay_def GetCodec_def demo_adec_env_def Let_def)
  have "eos_expected (fst (frame_flags demo_frame ?h demo_adec_out)) demo_adec_out"
    by (simp add: eos_expected_def frame_flags_def Tracker_Remove_def demo_out_parts Let_def)
  from adec_frame_delivered [OF demo_out_inv demo_out_parts(8) _ demo_out_parts(5-7) _ demo_out_info _ _ _ _ _ _ _ _ _ this,
      where bs = "replicate 16 1" and U = 4 and env = ?e] k
  show ?thesis by (auto simp: demo_out_parts demo_out_parts(4) [simplified] demo_out_info_def demo_frame_def)
qed

theorem adec_eos_delivered_witness:
  "\<exists>c' x'. deliver_eos (demo_adec_env\<lparr>e_ndebug := True\<rparr>) (sub (\<lambda>s. s\<lparr>m_codecDelayAdjusted := 2\<rparr>) demo_adec_out) = Some c'
     \<and> m_heap c' 9 = Some x' \<and> nFlags (m_header x') = OMX_BUFFERFLAG_EOS \<and> nFilledLen (m_header x') = 8"
proof -
  let ?c = "sub (\<lambda>s. s\<lparr>m_codecDelayAdjusted := 2\<rparr>) demo_adec_out"
  have "input_inv ?c" using demo_out_inv input_inv_side [of ?c demo_adec_out] by (simp add: input_side_def)
  moreover have "bh_pBuffer (m_header demo_out_buffer) = 500" by (simp add: demo_out_buffer_def new_BOMX_OutputBuffer_def new_BOMX_Buffer_def)
  moreover have "cb_FillBufferDone ?c" using demo_out_parts(7) by (simp add: sub_def)
  ultimately have "\<exists>c' x' r. deliver_eos (demo_adec_env\<lparr>e_ndebug := True\<rparr>) ?c = Some c' \<and> m_heap c' 9 = Some x'
      \<and> nFlags (m_header x') = OMX_BUFFERFLAG_EOS \<and> unat (nFilledLen (m_header x')) = 2 * 4"
    using adec_eos_delivered [of ?c 9 "[]" demo_out_buffer "demo_adec_env\<lparr>e_ndebug := True\<rparr>" 2 4 "replicate 16 1"] demo_out_parts by simp blast
  then show ?thesis by (auto simp: word_unat_eq_iff)
qed


end
