(* ===== verification/Adec_Commands.thy ===== *)
theory Adec_Commands
  imports Adec_Delivery
begin

text \<open>
  \<open>media/libstagefrighthw/bomx_audio_decoder.cpp\<close>: starting, suspending and stopping the decoder and
  the playpump, and the commands of the client: state changes, flush, port enable and disable. A
  Nexus error code is reduced to success or failure, which is all that the callers test.
\<close>

section \<open>Starting and stopping\<close>

definition GetNexusCodec :: "OMX_AUDIO_CODINGTYPE \<Rightarrow> NEXUS_AudioCodec" where
  "GetNexusCodec omxType =
     (case omxType of
        OMX_AUDIO_CodingAndroidAC3 \<Rightarrow> NEXUS_AudioCodec_eAc3
      | OMX_AUDIO_CodingMP3 \<Rightarrow> NEXUS_AudioCodec_eMp3
      | OMX_AUDIO_CodingAAC \<Rightarrow> NEXUS_AudioCodec_eAacAdts
      | _ \<Rightarrow> NEXUS_AudioCodec_eUnknown)"

text \<open>A call with an error code: whether it succeeded.\<close>

definition nexus_ok :: "'b adec_env \<Rightarrow> nexus_call \<Rightarrow> adc \<Rightarrow> bool \<times> adc" where
  "nexus_ok env x c = (let c = nexus x c in (e_error env (nlog c) = 0, c))"

definition clear_eos :: "BOMX_AudioDecoder \<Rightarrow> BOMX_AudioDecoder" where
  "clear_eos s = s\<lparr>m_eosPending := False, m_eosDelivered := False, m_eosReceived := False, m_eosStandalone := False, m_eosReady := False\<rparr>"

definition StartDecoder :: "'b adec_env \<Rightarrow> adc \<Rightarrow> bool \<times> adc" where
  "StartDecoder env c =
     (if m_decoderState (m_sub c) = BOMX_AudioDecoderState_eStopped then
        let (ok, c) = nexus_ok env (Decoder_Start (GetNexusCodec (GetCodec env c))) c in
        if \<not> ok then (False, c)
        else
          let c = sub (\<lambda>s. s\<lparr>m_codecDelayAdjusted := 0, m_submittedDescriptors := 0\<rparr>) c;
              (ok, c) = nexus_ok env Playpump_Start c in
          if \<not> ok then (False, sub clear_eos (nexus Decoder_Stop c))
          else (True, sub (\<lambda>s. s\<lparr>m_decoderState := BOMX_AudioDecoderState_eStarted\<rparr>) c)
      else (False, c))"

definition StopDecoder :: "adc \<Rightarrow> (bool \<times> adc) option" where
  "StopDecoder c =
     (if m_decoderState (m_sub c) = BOMX_AudioDecoderState_eStarted then do {
        let c = nexus Decoder_Stop (nexus Playpump_Stop c);
        let c = sub (\<lambda>s. (clear_eos s)\<lparr>m_submittedDescriptors := 0, m_pBufferTracker := Tracker_Flush (m_pBufferTracker s)\<rparr>) c;
        let c = sub (\<lambda>s. s\<lparr>m_decoderState := BOMX_AudioDecoderState_eStopped\<rparr>) (InputBufferCounterReset c);
        (p, c) \<leftarrow> ReturnPortBuffers (in_port c) c;
        Some (True, set_in p c)}
      else Some (False, c))"

definition OpenPidChannel :: "'b adec_env \<Rightarrow> adc \<Rightarrow> (bool \<times> adc) option" where
  "OpenPidChannel env c =
     (if m_hPlaypump (m_sub c) = NULL then Some (False, c)
      else if m_hPidChannel (m_sub c) \<noteq> NULL then None
      else let c = nexus OpenPid c; h = e_handle env (nlog c)
           in Some (h \<noteq> NULL, sub (\<lambda>s. s\<lparr>m_hPidChannel := h\<rparr>) c))"

definition ClosePidChannel :: "adc \<Rightarrow> adc option" where
  "ClosePidChannel c =
     (if m_hPidChannel (m_sub c) = NULL then Some c
      else if m_hPlaypump (m_sub c) = NULL then None
      else Some (sub (\<lambda>s. s\<lparr>m_hPidChannel := NULL\<rparr>) (nexus ClosePid c)))"

definition Resume :: "adc \<Rightarrow> adc" where
  "Resume c = sub (\<lambda>s. s\<lparr>m_decoderState := BOMX_AudioDecoderState_eStarted\<rparr>) (nexus Decoder_Resume c)"

definition Suspend :: "'b adec_env \<Rightarrow> adc \<Rightarrow> bool \<times> adc" where
  "Suspend env c =
     (let (ok, c) = nexus_ok env Decoder_Suspend c
      in (ok, if ok then sub (\<lambda>s. s\<lparr>m_decoderState := BOMX_AudioDecoderState_eSuspended\<rparr>) c else c))"

section \<open>The input port\<close>

definition close_playpump :: "adc \<Rightarrow> adc" where
  "close_playpump c = sub (\<lambda>s. s\<lparr>m_hPlaypump := NULL\<rparr>) (nexus Playpump_Close c)"

text \<open>Loaded: stop and release all resources.\<close>

definition release_input :: "adc \<Rightarrow> adc option" where
  "release_input c =
     (if m_hPlaypump (m_sub c) = NULL then Some c
      else do {
        let c = (if m_decoderState (m_sub c) = BOMX_AudioDecoderState_eSuspended then Resume c else c);
        (_, c) \<leftarrow> (if m_decoderState (m_sub c) = BOMX_AudioDecoderState_eStarted then StopDecoder c else Some (True, c));
        c \<leftarrow> ClosePidChannel c;
        let c = nexus (Unregister (m_playpumpEventId (m_sub c))) (nexus Playpump_Close c);
        let c = sub (\<lambda>s. s\<lparr>m_playpumpEventId := NULL, m_hPlaypump := NULL\<rparr>) c;
        Some (CancelTimerId m_playpumpTimerId m_playpumpTimerId_update c)})"

text \<open>The playpump, opened when there is none; one descriptor more than the buffers need is for the end of the stream.\<close>

definition open_playpump :: "'b adec_env \<Rightarrow> adc \<Rightarrow> (bool \<times> adc) option" where
  "open_playpump env c =
     (if m_hPlaypump (m_sub c) \<noteq> NULL then Some (True, c)
      else
        let c = nexus (Playpump_Open (1 + of_nat B_MAX_DESCRIPTORS_PER_BUFFER * nBufferCountActual (m_definition (in_port c)))) c;
            c = sub (\<lambda>s. s\<lparr>m_hPlaypump := e_handle env (nlog c)\<rparr>) c in
        if m_hPlaypump (m_sub c) = NULL then Some (False, c)
        else
          let (ok, c) = nexus_ok env Playpump_SetSettings c in
          if \<not> ok then Some (False, close_playpump c)
          else do {
            (ok, c) \<leftarrow> OpenPidChannel env c;
            if \<not> ok then Some (False, close_playpump c)
            else
              let c = nexus Register c; c = sub (\<lambda>s. s\<lparr>m_playpumpEventId := e_handle env (nlog c)\<rparr>) c in
              if m_playpumpEventId (m_sub c) = NULL then do {c \<leftarrow> ClosePidChannel c; Some (False, close_playpump c)}
              else Some (True, sub (\<lambda>s. s\<lparr>m_AvailInputBuffers := nBufferCountActual (m_definition (in_port c))\<rparr>) c)})"

definition kick_output :: "'b adec_env \<Rightarrow> adc \<Rightarrow> (bool \<times> adc) option" where
  "kick_output env c = do {c \<leftarrow> AddOutputBuffers env c; c \<leftarrow> OutputFrameEvent env c; Some (True, c)}"

definition SetInputPortState :: "'b adec_env \<Rightarrow> OMX_STATETYPE \<Rightarrow> adc \<Rightarrow> (bool \<times> adc) option" where
  "SetInputPortState env newState c =
     (if newState = OMX_StateLoaded then do {c \<leftarrow> release_input c; Some (True, c)}
      else do {
        (ok, c) \<leftarrow> open_playpump env c;
        if \<not> ok then Some (False, c)
        else
          let c = nexus Decoder_GetStatus c in
          case newState of
            OMX_StateIdle \<Rightarrow>
              (if m_decoderState (m_sub c) = BOMX_AudioDecoderState_eStopped then Some (True, c)
               else do {
                 let c = (if m_decoderState (m_sub c) = BOMX_AudioDecoderState_eSuspended then Resume c else c);
                 (_, c) \<leftarrow> StopDecoder c;
                 c \<leftarrow> RemoveOutputBuffers env c;
                 Some (True, c)})
          | OMX_StateExecuting \<Rightarrow>
              (case m_decoderState (m_sub c) of
                 BOMX_AudioDecoderState_eStopped \<Rightarrow>
                   (let (ok, c) = StartDecoder env c in
                    if \<not> ok then Some (False, c)
                    else if IsEnabled (out_port c) then kick_output env c
                    else
                      let (ok, c) = Suspend env c in
                      if \<not> ok then do {(_, c) \<leftarrow> StopDecoder c; Some (False, c)} else Some (True, c))
               | BOMX_AudioDecoderState_eSuspended \<Rightarrow>
                   (if IsEnabled (out_port c) then kick_output env (nexus Decoder_Resume c) else Some (True, c))
               | BOMX_AudioDecoderState_eStarted \<Rightarrow> Some (False, c))
          | OMX_StatePause \<Rightarrow> Some (True, c)
          | _ \<Rightarrow> Some (False, c)})"

section \<open>The output port\<close>

text \<open>Loaded and idle end alike: the decoder is suspended and all buffers go back to the client.\<close>

definition quiet_output :: "'b adec_env \<Rightarrow> adc \<Rightarrow> (bool \<times> adc) option" where
  "quiet_output env c =
     (let (ok, c) = (if m_decoderState (m_sub c) = BOMX_AudioDecoderState_eStarted then Suspend env c else (True, c)) in
      if \<not> ok then Some (False, c)
      else do {
        c \<leftarrow> RemoveOutputBuffers env c;
        (p, c) \<leftarrow> ReturnPortBuffers (out_port c) c;
        Some (True, set_out p c)})"

definition SetOutputPortState :: "'b adec_env \<Rightarrow> OMX_STATETYPE \<Rightarrow> adc \<Rightarrow> (bool \<times> adc) option" where
  "SetOutputPortState env newState c =
     (if newState = OMX_StateLoaded then
        quiet_output env (sub (\<lambda>s. s\<lparr>m_formatChangePending := False\<rparr>) (CancelTimerId m_inputBuffersTimerId m_inputBuffersTimerId_update c))
      else if newState = OMX_StateIdle then quiet_output env c
      else
        case m_decoderState (m_sub c) of
          BOMX_AudioDecoderState_eStarted \<Rightarrow> Some (False, c)
        | BOMX_AudioDecoderState_eSuspended \<Rightarrow> do {c \<leftarrow> AddOutputBuffers env (Resume c); Some (True, c)}
        | BOMX_AudioDecoderState_eStopped \<Rightarrow> Some (True, c))"

section \<open>Waiting for the client\<close>

text \<open>
  What other threads do to the component in each wait that the port event ends, one function for
  each; when the list is used up the next wait times out.
\<close>

type_synonym client_steps = "(adc \<Rightarrow> adc) list"

fun port_wait :: "(adc \<Rightarrow> bool) \<Rightarrow> client_steps \<Rightarrow> adc \<Rightarrow> bool \<times> client_steps \<times> adc" where
  "port_wait ok [] c = (if ok c then (True, [], c) else (False, [], Lock (Unlock c)))"
| "port_wait ok (w # ws) c = (if ok c then (True, w # ws, c) else port_wait ok ws (Lock (w (Unlock c))))"

definition port_is :: "(BOMX_Port \<Rightarrow> bool) \<Rightarrow> u32 \<Rightarrow> adc \<Rightarrow> bool" where
  "port_is P i c = (case FindPortByIndex c i of None \<Rightarrow> False | Some p \<Rightarrow> P p)"

definition on_port :: "(BOMX_Port \<Rightarrow> OMX_ERRORTYPE \<times> BOMX_Port) \<Rightarrow> u32 \<Rightarrow> adc \<Rightarrow> adc" where
  "on_port f i c = (case FindPortByIndex c i of None \<Rightarrow> c | Some p \<Rightarrow> put_port i (snd (f p)) c)"

section \<open>Commands\<close>

definition return_all :: "u32 \<Rightarrow> adc \<Rightarrow> adc option" where
  "return_all i c =
     (case FindPortByIndex c i of None \<Rightarrow> None
      | Some p \<Rightarrow> do {(p, c) \<leftarrow> ReturnPortBuffers p c; Some (put_port i p c)})"

text \<open>
  One port, and both: the code calls itself for each of them, which is the first function as long as
  the number of a port is not \<open>OMX_ALL\<close>. The state is that of the base class.
\<close>

definition disable_port ::
  "'b adec_env \<Rightarrow> OMX_STATETYPE \<Rightarrow> u32 \<Rightarrow> client_steps \<Rightarrow> adc \<Rightarrow> (OMX_ERRORTYPE \<times> client_steps \<times> adc) option" where
  "disable_port env state i ws c =
     (case FindPortByIndex c i of
        None \<Rightarrow> Some (BOMX_ERR_TRACE OMX_ErrorBadPortIndex, ws, c)
      | Some pPort \<Rightarrow>
        if IsDisabled pPort then Some (BOMX_ERR_TRACE OMX_ErrorIncorrectStateOperation, ws, c)
        else
          let (err, p) = Disable pPort; c = put_port i p c in
          if err \<noteq> OMX_ErrorNone then Some (BOMX_ERR_TRACE err, ws, c)
          else if state = OMX_StateLoaded then Some (err, ws, c)
          else do {
            (ok, c) \<leftarrow> (if eDir (m_definition pPort) = OMX_DirInput then SetInputPortState env OMX_StateLoaded c
                        else SetOutputPortState env OMX_StateLoaded c);
            if \<not> ok \<and> \<not> e_ndebug env then None
            else do {
              c \<leftarrow> return_all i c;
              let (ok, ws, c) = port_wait (port_is IsEmpty i) ws c;
              if \<not> ok then Some (BOMX_ERR_TRACE OMX_ErrorTimeout, ws, on_port Enable i c)
              else Some (err, ws, c)}})"

definition Adec_CommandPortDisable ::
  "'b adec_env \<Rightarrow> OMX_STATETYPE \<Rightarrow> u32 \<Rightarrow> client_steps \<Rightarrow> adc \<Rightarrow> (OMX_ERRORTYPE \<times> client_steps \<times> adc) option" where
  "Adec_CommandPortDisable env state portIndex ws c =
     (if portIndex = OMX_ALL (e_abi env) then do {
        (err, ws, c) \<leftarrow> (if IsEnabled (in_port c) then disable_port env state (m_audioPortBase c) ws c else Some (OMX_ErrorNone, ws, c));
        if err \<noteq> OMX_ErrorNone then Some (BOMX_ERR_TRACE err, ws, c)
        else if IsEnabled (out_port c) then disable_port env state (m_audioPortBase c + 1) ws c else Some (OMX_ErrorNone, ws, c)}
      else disable_port env state portIndex ws c)"

definition enable_port ::
  "'b adec_env \<Rightarrow> OMX_STATETYPE \<Rightarrow> u32 \<Rightarrow> client_steps \<Rightarrow> adc \<Rightarrow> (OMX_ERRORTYPE \<times> client_steps \<times> adc) option" where
  "enable_port env state i ws c =
     (case FindPortByIndex c i of
        None \<Rightarrow> Some (BOMX_ERR_TRACE OMX_ErrorBadPortIndex, ws, c)
      | Some pPort \<Rightarrow>
        if IsEnabled pPort then Some (BOMX_ERR_TRACE OMX_ErrorIncorrectStateOperation, ws, c)
        else
          let (err, p) = Enable pPort; c = put_port i p c in
          if err \<noteq> OMX_ErrorNone then Some (BOMX_ERR_TRACE err, ws, c)
          else if state = OMX_StateLoaded then Some (err, ws, c)
          else
            let (ok, ws, c) = port_wait (port_is IsPopulated i) ws c in
            if \<not> ok then Some (BOMX_ERR_TRACE OMX_ErrorTimeout, ws, on_port Disable i c)
            else do {
              (ok, c) \<leftarrow> (if eDir (m_definition pPort) = OMX_DirInput then SetInputPortState env state c
                          else SetOutputPortState env state c);
              if \<not> ok then do {(_, ws, c) \<leftarrow> disable_port env state i ws c; Some (BOMX_ERR_TRACE OMX_ErrorUndefined, ws, c)}
              else Some (err, ws, c)})"

definition Adec_CommandPortEnable ::
  "'b adec_env \<Rightarrow> OMX_STATETYPE \<Rightarrow> u32 \<Rightarrow> client_steps \<Rightarrow> adc \<Rightarrow> (OMX_ERRORTYPE \<times> client_steps \<times> adc) option" where
  "Adec_CommandPortEnable env state portIndex ws c =
     (if portIndex = OMX_ALL (e_abi env) then do {
        (err, ws, c) \<leftarrow> (if \<not> IsEnabled (out_port c) then enable_port env state (m_audioPortBase c + 1) ws c else Some (OMX_ErrorNone, ws, c));
        if err \<noteq> OMX_ErrorNone then Some (BOMX_ERR_TRACE err, ws, c)
        else if \<not> IsEnabled (in_port c) then enable_port env state (m_audioPortBase c) ws c else Some (OMX_ErrorNone, ws, c)}
      else enable_port env state portIndex ws c)"

definition flush_port :: "'b adec_env \<Rightarrow> state_pair \<Rightarrow> u32 \<Rightarrow> adc \<Rightarrow> (OMX_ERRORTYPE \<times> adc) option" where
  "flush_port env st i c =
     (if fst st \<noteq> snd st then Some (BOMX_ERR_TRACE OMX_ErrorIncorrectStateOperation, c)
      else if FindPortByIndex c i = None then Some (BOMX_ERR_TRACE OMX_ErrorBadPortIndex, c)
      else do {
        c \<leftarrow> (if i = m_audioPortBase c then
                if m_hAudioDecoder (m_sub c) \<noteq> NULL then do {
                  (_, c) \<leftarrow> SetInputPortState env OMX_StateIdle c;
                  (_, c) \<leftarrow> SetInputPortState env (fst st) c;
                  Some (sub (\<lambda>s. s\<lparr>m_configBufferState := ConfigBufferState_eFlushed\<rparr>) c)}
                else Some c
              else if IsEnabled (out_port c) \<and> IsPopulated (out_port c) then do {
                (_, c) \<leftarrow> SetOutputPortState env OMX_StateIdle c;
                (_, c) \<leftarrow> SetOutputPortState env (fst st) c;
                Some c}
              else Some c);
        c \<leftarrow> return_all i c;
        Some (OMX_ErrorNone, c)})"

definition Adec_CommandFlush :: "'b adec_env \<Rightarrow> state_pair \<Rightarrow> u32 \<Rightarrow> adc \<Rightarrow> (OMX_ERRORTYPE \<times> adc) option" where
  "Adec_CommandFlush env st portIndex c =
     (if fst st \<noteq> snd st then Some (BOMX_ERR_TRACE OMX_ErrorIncorrectStateOperation, c)
      else if portIndex = OMX_ALL (e_abi env) then do {
        (err, c) \<leftarrow> flush_port env st (m_audioPortBase c) c;
        if err \<noteq> OMX_ErrorNone then Some (BOMX_ERR_TRACE err, c)
        else flush_port env st (m_audioPortBase c + 1) c}
      else flush_port env st portIndex c)"

text \<open>Back to loaded: all ports are disabled, then those that were enabled are enabled again.\<close>

definition reenable :: "bool \<Rightarrow> bool \<Rightarrow> adc \<Rightarrow> adc" where
  "reenable inputEnabled outputEnabled c =
     (let c = (if inputEnabled then set_in (snd (Enable (in_port c))) c else c)
      in if outputEnabled then set_out (snd (Enable (out_port c))) c else c)"

definition to_loaded :: "'b adec_env \<Rightarrow> state_pair \<Rightarrow> client_steps \<Rightarrow> adc \<Rightarrow> (OMX_ERRORTYPE \<times> client_steps \<times> adc) option" where
  "to_loaded env st ws c =
     do {
       let inputPortEnabled = IsEnabled (in_port c);
       let outputPortEnabled = IsEnabled (out_port c);
       (err, ws, c) \<leftarrow> Adec_CommandPortDisable env (fst st) (OMX_ALL (e_abi env)) ws c;
       if err \<noteq> OMX_ErrorNone then Some (BOMX_ERR_TRACE err, ws, c)
       else Some (OMX_ErrorNone, ws, reenable inputPortEnabled outputPortEnabled c)}"

text \<open>From loaded to idle, after the ports are populated; a failure releases everything again.\<close>

definition give_up :: "'b adec_env \<Rightarrow> state_pair \<Rightarrow> bool \<Rightarrow> bool \<Rightarrow> client_steps \<Rightarrow> adc \<Rightarrow> (OMX_ERRORTYPE \<times> client_steps \<times> adc) option" where
  "give_up env st inputEnabled outputEnabled ws c =
     do {
       (_, ws, c) \<leftarrow> Adec_CommandPortDisable env (fst st) (OMX_ALL (e_abi env)) ws c;
       Some (BOMX_ERR_TRACE OMX_ErrorUndefined, ws, reenable inputEnabled outputEnabled c)}"

definition loaded_to_idle :: "'b adec_env \<Rightarrow> state_pair \<Rightarrow> client_steps \<Rightarrow> adc \<Rightarrow> (OMX_ERRORTYPE \<times> client_steps \<times> adc) option" where
  "loaded_to_idle env st ws c =
     (let (ok, ws, c) = port_wait (\<lambda>c. (IsEnabled (in_port c) \<longrightarrow> IsPopulated (in_port c)) \<and> (IsEnabled (out_port c) \<longrightarrow> IsPopulated (out_port c))) ws c in
      if \<not> ok then Some (BOMX_ERR_TRACE OMX_ErrorTimeout, ws, c)
      else do {
        let inputEnabled = IsEnabled (in_port c);
        let outputEnabled = IsEnabled (out_port c);
        (ok, c) \<leftarrow> (if IsPopulated (out_port c) \<and> IsEnabled (out_port c) then SetOutputPortState env OMX_StateIdle c else Some (True, c));
        if \<not> ok then give_up env st inputEnabled outputEnabled ws c
        else do {
          (ok, c) \<leftarrow> (if IsPopulated (in_port c) \<and> IsEnabled (in_port c) then SetInputPortState env OMX_StateIdle c else Some (True, c));
          if \<not> ok then give_up env st inputEnabled outputEnabled ws c
          else Some (OMX_ErrorNone, ws, c)}})"

text \<open>To idle from any other state: stop.\<close>

definition stop_to_idle :: "'b adec_env \<Rightarrow> adc \<Rightarrow> adc option" where
  "stop_to_idle env c =
     do {
       (_, c) \<leftarrow> (if IsPopulated (in_port c) then SetInputPortState env OMX_StateIdle c else Some (True, c));
       (_, c) \<leftarrow> (if IsPopulated (out_port c) then SetOutputPortState env OMX_StateIdle c else Some (True, c));
       Some c}"

definition run_ports :: "'b adec_env \<Rightarrow> OMX_STATETYPE \<Rightarrow> adc \<Rightarrow> (OMX_ERRORTYPE \<times> adc) option" where
  "run_ports env newState c =
     do {
       (ok, c) \<leftarrow> (if IsPopulated (out_port c) \<and> IsEnabled (out_port c) then SetOutputPortState env newState c else Some (True, c));
       if \<not> ok then Some (BOMX_ERR_TRACE OMX_ErrorUndefined, c)
       else do {
         (ok, c) \<leftarrow> (if IsPopulated (in_port c) \<and> IsEnabled (in_port c) then SetInputPortState env newState c else Some (True, c));
         if \<not> ok then Some (BOMX_ERR_TRACE OMX_ErrorUndefined, c) else Some (OMX_ErrorNone, c)}}"

definition Adec_CommandStateSet ::
  "'b adec_env \<Rightarrow> state_pair \<Rightarrow> OMX_STATETYPE \<Rightarrow> OMX_STATETYPE \<Rightarrow> client_steps \<Rightarrow> adc \<Rightarrow> (OMX_ERRORTYPE \<times> client_steps \<times> adc) option" where
  "Adec_CommandStateSet env st newState oldState ws c =
     (case newState of
        OMX_StateLoaded \<Rightarrow> to_loaded env st ws c
      | OMX_StateIdle \<Rightarrow>
          (let (err, c) = ConfigBufferInit env c in
           if err \<noteq> OMX_ErrorNone then Some (BOMX_ERR_TRACE err, ws, c)
           else if oldState = OMX_StateLoaded then loaded_to_idle env st ws c
           else do {c \<leftarrow> stop_to_idle env c; Some (OMX_ErrorNone, ws, c)})
      | OMX_StateExecuting \<Rightarrow> do {(err, c) \<leftarrow> run_ports env newState c; Some (err, ws, c)}
      | OMX_StatePause \<Rightarrow> do {(err, c) \<leftarrow> run_ports env newState c; Some (err, ws, c)}
      | _ \<Rightarrow> Some (BOMX_ERR_TRACE OMX_ErrorIncorrectStateOperation, ws, c))"

end
