(* ===== verification/Adec_Tracking.thy ===== *)
theory Adec_Tracking
  imports Adec_Commands
begin

text \<open>
  The audio decoder and Nexus: after every command the component's idea of the decoder, the playpump
  and its channel is what the calls made so far have left in Nexus, and no call was made in a state in
  which it makes no sense.
\<close>

section \<open>What Nexus has been told\<close>

text \<open>
  The state of the decoder and the playpump as the calls in the log leave them, latest call first;
  \<open>None\<close> when a call was made in a state in which it makes no sense: starting what runs, stopping what
  does not, closing a playpump that still has a channel or runs, and so on.
\<close>

record nexus_view =
  nv_decoder :: BOMX_AudioDecoderState
  nv_open :: bool
  nv_pid :: bool
  nv_running :: bool

fun view_step :: "u32 \<Rightarrow> addr \<Rightarrow> nexus_call \<Rightarrow> nexus_view \<Rightarrow> nexus_view option" where
  "view_step err h (Decoder_Start k) v =
     (if nv_decoder v = BOMX_AudioDecoderState_eStopped \<and> nv_pid v
      then Some (if err = 0 then v\<lparr>nv_decoder := BOMX_AudioDecoderState_eStarted\<rparr> else v) else None)"
| "view_step err h Decoder_Stop v =
     (if nv_decoder v = BOMX_AudioDecoderState_eStarted \<and> \<not> nv_running v
      then Some (v\<lparr>nv_decoder := BOMX_AudioDecoderState_eStopped\<rparr>) else None)"
| "view_step err h Decoder_Suspend v =
     (if nv_decoder v = BOMX_AudioDecoderState_eStarted
      then Some (if err = 0 then v\<lparr>nv_decoder := BOMX_AudioDecoderState_eSuspended\<rparr> else v) else None)"
| "view_step err h Decoder_Resume v =
     (if nv_decoder v = BOMX_AudioDecoderState_eSuspended
      then Some (v\<lparr>nv_decoder := BOMX_AudioDecoderState_eStarted\<rparr>) else None)"
| "view_step err h (Playpump_Open n) v = (if nv_open v then None else Some (v\<lparr>nv_open := h \<noteq> NULL\<rparr>))"
| "view_step err h Playpump_Close v =
     (if nv_open v \<and> \<not> nv_pid v \<and> \<not> nv_running v then Some (v\<lparr>nv_open := False\<rparr>) else None)"
| "view_step err h OpenPid v = (if nv_open v \<and> \<not> nv_pid v then Some (v\<lparr>nv_pid := h \<noteq> NULL\<rparr>) else None)"
| "view_step err h ClosePid v =
     (if nv_pid v \<and> nv_decoder v = BOMX_AudioDecoderState_eStopped then Some (v\<lparr>nv_pid := False\<rparr>) else None)"
| "view_step err h Playpump_Start v =
     (if nv_open v \<and> \<not> nv_running v then Some (v\<lparr>nv_running := (err = 0)\<rparr>) else None)"
| "view_step err h Playpump_Stop v = (if nv_running v then Some (v\<lparr>nv_running := False\<rparr>) else None)"
| "view_step err h _ v = Some v"

fun view :: "'b adec_env \<Rightarrow> nexus_log \<Rightarrow> nexus_view option" where
  "view env [] = Some \<lparr>nv_decoder = BOMX_AudioDecoderState_eStopped, nv_open = False, nv_pid = False, nv_running = False\<rparr>"
| "view env (x # calls) = do {v \<leftarrow> view env calls; view_step (e_error env (rev (x # calls))) (e_handle env (rev (x # calls))) x v}"

text \<open>The component knows the state of Nexus, and the playpump and its channel are there exactly together.\<close>

definition view_of :: "BOMX_AudioDecoder \<Rightarrow> nexus_view" where
  "view_of s = \<lparr>nv_decoder = m_decoderState s, nv_open = (m_hPlaypump s \<noteq> NULL), nv_pid = (m_hPidChannel s \<noteq> NULL),
     nv_running = (m_decoderState s \<noteq> BOMX_AudioDecoderState_eStopped)\<rparr>"

definition tracks :: "'b adec_env \<Rightarrow> adc \<Rightarrow> bool" where
  "tracks env c \<longleftrightarrow> view env (rev (nlog c)) = Some (view_of (m_sub c))
     \<and> (m_hPidChannel (m_sub c) \<noteq> NULL \<longleftrightarrow> m_hPlaypump (m_sub c) \<noteq> NULL)
     \<and> (m_decoderState (m_sub c) \<noteq> BOMX_AudioDecoderState_eStopped \<longrightarrow> m_hPlaypump (m_sub c) \<noteq> NULL)"

section \<open>Operations that leave the decoder alone\<close>

fun idle_call :: "nexus_call \<Rightarrow> bool" where
  "idle_call (Decoder_Start k) = False"
| "idle_call Decoder_Stop = False"
| "idle_call Decoder_Suspend = False"
| "idle_call Decoder_Resume = False"
| "idle_call (Playpump_Open n) = False"
| "idle_call Playpump_Close = False"
| "idle_call OpenPid = False"
| "idle_call ClosePid = False"
| "idle_call Playpump_Start = False"
| "idle_call Playpump_Stop = False"
| "idle_call _ = True"

definition hw :: "BOMX_AudioDecoder \<Rightarrow> BOMX_AudioDecoderState \<times> addr \<times> addr" where
  "hw s = (m_decoderState s, m_hPlaypump s, m_hPidChannel s)"

definition quiet :: "adc \<Rightarrow> adc \<Rightarrow> bool" where
  "quiet c c' \<longleftrightarrow> hw (m_sub c') = hw (m_sub c) \<and> (\<exists>l. nlog c' = nlog c @ l \<and> list_all idle_call l)"

lemma view_step_idle: "idle_call x \<Longrightarrow> view_step e h x v = Some v"
  by (cases x) simp_all

lemma view_idle: "list_all idle_call l \<Longrightarrow> view env (l @ m) = view env m"
  by (induction l) (auto simp: view_step_idle split: bind_splits)

lemma quiet_tracks: "quiet c c' \<Longrightarrow> tracks env c' = tracks env c"
proof -
  assume q: "quiet c c'"
  then obtain l where l: "nlog c' = nlog c @ l" "list_all idle_call l" by (auto simp: quiet_def)
  have "view env (rev (nlog c')) = view env (rev (nlog c))" using l by (simp add: view_idle list_all_rev)
  with q show ?thesis by (simp add: tracks_def view_of_def quiet_def hw_def)
qed

lemma quiet_refl [simp, intro]: "quiet c c" by (auto simp: quiet_def)

lemma quiet_trans: "quiet a b \<Longrightarrow> quiet b c \<Longrightarrow> quiet a c"
proof -
  assume "quiet a b" "quiet b c"
  then obtain l m where "nlog b = nlog a @ l" "list_all idle_call l" "nlog c = nlog b @ m" "list_all idle_call m" "hw (m_sub b) = hw (m_sub a)" "hw (m_sub c) = hw (m_sub b)"
    by (auto simp: quiet_def)
  then show ?thesis unfolding quiet_def by (intro conjI exI [of _ "l @ m"]) simp_all
qed

text \<open>The steps out of which the operations are made: those that touch neither the log nor the decoder, and idle calls.\<close>

lemma quiet_cong:
  assumes "hw (m_sub c') = hw (m_sub c)" "nlog c' = nlog c"
  shows "quiet a c' = quiet a c" "quiet c' a = quiet c a"
  using assms by (simp_all add: quiet_def)

lemma quiet_steps [simp]:
  "quiet a (put_header b h c) = quiet a c" "quiet a (set_in p c) = quiet a c" "quiet a (set_out p c) = quiet a c"
  "quiet a (call x c) = quiet a c" "quiet a (put_in_info k i c) = quiet a c" "quiet a (put_out_info k j c) = quiet a c"
  "quiet a (put_mem k bs c) = quiet a c" "quiet a (PortFormatChanged p c) = quiet a c"
  "quiet (put_header b h c) a = quiet c a" "quiet (set_in p c) a = quiet c a" "quiet (set_out p c) a = quiet c a"
  "quiet (put_in_info k i c) a = quiet c a" "quiet (put_out_info k j c) a = quiet c a" "quiet (put_mem k bs c) a = quiet c a"
  by (simp_all add: quiet_def put_header_def call_def put_in_info_def put_out_info_def put_mem_def hw_def PortFormatChanged_def call_event_def)

lemma quiet_sub [simp]:
  "quiet a (sub (\<lambda>s. s\<lparr>m_submittedDescriptors := f s\<rparr>) c) = quiet a c" "quiet (sub (\<lambda>s. s\<lparr>m_submittedDescriptors := f s\<rparr>) c) a = quiet c a"
  "quiet a (sub (\<lambda>s. s\<lparr>m_AvailInputBuffers := f s\<rparr>) c) = quiet a c" "quiet a (sub (\<lambda>s. s\<lparr>m_playpumpTimerId := t\<rparr>) c) = quiet a c"
  "quiet a (sub (\<lambda>s. s\<lparr>m_inputBuffersTimerId := t\<rparr>) c) = quiet a c"
  by (rule quiet_cong, simp_all add: hw_def)+

lemma quiet_nexus [simp]: "idle_call x \<Longrightarrow> quiet a c \<Longrightarrow> quiet a (nexus x c)"
  by (rule quiet_trans [of a c]) (auto simp: quiet_def hw_def intro!: exI [of _ "[x]"])

lemma quiet_nexusD: "quiet (nexus x c) a \<Longrightarrow> idle_call x \<Longrightarrow> quiet c a"
  using quiet_trans [of c "nexus x c" a] by simp

lemma quiet_cancel: "quiet c (timer_off c)" "quiet c (CancelTimerId m_inputBuffersTimerId m_inputBuffersTimerId_update c)"
  unfolding CancelTimerId_def by simp_all

lemma drain_relates:
  assumes step: "\<And>s x s'. step s x = Some s' \<Longrightarrow> R s s'" and refl: "\<And>s. R s s" and trans: "\<And>a b c. R a b \<Longrightarrow> R b c \<Longrightarrow> R a c"
    and r: "drain first step s = Some s'"
  shows "R s s'"
proof -
  have "f = first \<longrightarrow> g = step \<longrightarrow> R s s'" if "drain f g s = Some s'" for f g
    using _ that
  proof (rule drain.raw_induct)
    fix d f g s s'
    assume IH: "\<And>f g s s'. d f g s = Some s' \<Longrightarrow> f = first \<longrightarrow> g = step \<longrightarrow> R s s'"
      and b: "(if f s = 0 then Some s else case g s (f s) of None \<Rightarrow> None | Some s' \<Rightarrow> d f g s') = Some s'"
    show "f = first \<longrightarrow> g = step \<longrightarrow> R s s'" using b
      by (auto split: if_splits option.splits dest!: IH dest: step intro: refl) (blast dest: step intro: trans)
  qed
  with r show ?thesis by blast
qed

section \<open>Which operations do\<close>

lemma quiet_ReturnPortBuffer: "ReturnPortBuffer p b c = Some (p', c') \<Longrightarrow> quiet c c'"
  using ReturnPortBuffer_frame(3) by (fastforce simp: quiet_def)

lemma quiet_ReturnPortBuffers: "ReturnPortBuffers p c = Some (p', c') \<Longrightarrow> quiet c c'"
  unfolding ReturnPortBuffers_def
  by (drule drain_relates [where R = "\<lambda>s s'. quiet (snd s) (snd s')", rotated 3])
    (auto dest: quiet_ReturnPortBuffer intro: quiet_trans)

lemma quiet_write_at: "write_at a n vs c = Some c' \<Longrightarrow> quiet c c'"
  by (auto simp: write_at_def split: bind_splits if_splits)

lemma quiet_InputBufferReturned: "InputBufferReturned c = Some c' \<Longrightarrow> quiet c c'"
  by (auto simp: InputBufferReturned_def Let_def quiet_cancel split: if_splits)

lemma quiet_ReturnInputPortBuffer: "ReturnInputPortBuffer b c = Some (n, c') \<Longrightarrow> quiet c c'"
  unfolding ReturnInputPortBuffer_def
  by (auto split: bind_splits dest!: quiet_ReturnPortBuffer quiet_InputBufferReturned) (blast intro: quiet_trans)+

lemma quiet_return_until: "return_until ret bs c = Some c' \<Longrightarrow> quiet c c'"
proof (induction bs arbitrary: c)
  case (Cons b bs)
  then show ?case by (auto split: bind_splits if_splits dest!: quiet_ReturnInputPortBuffer intro: quiet_trans)
qed simp

lemma quiet_complete_buffers: "complete_buffers n bs c = Some c' \<Longrightarrow> quiet c c'"
proof (induction bs arbitrary: n c)
  case (Cons b bs)
  then show ?case by (auto split: bind_splits if_splits dest!: Cons.IH)
qed simp

lemma quiet_fifo_head: "quiet c (snd (fifo_head env c))"
  by (simp add: fifo_head_def Let_def split: prod.splits)

lemma quiet_PlaypumpEvent: "PlaypumpEvent env c = Some c' \<Longrightarrow> quiet c c'"
proof -
  assume r: "PlaypumpEvent env c = Some c'"
  define c1 where "c1 = timer_off c"
  define c2 where "c2 = nexus Playpump_GetStatus c1"
  obtain h c3 where f: "fifo_head env c2 = (h, c3)" by fastforce
  have q: "quiet c c1" "quiet c c2" by (simp_all add: c2_def c1_def quiet_cancel)
  then have "quiet c c3" using quiet_fifo_head [of c2 env] f by (auto intro: quiet_trans)
  with r f q show ?thesis
    by (auto simp: PlaypumpEvent_def Let_def simp flip: c1_def c2_def split: prod.splits if_splits bind_splits
        dest!: quiet_complete_buffers intro: quiet_trans)
qed

lemma quiet_ReturnInputBuffers: "ReturnInputBuffers env ts to c = Some c' \<Longrightarrow> quiet c c'"
  unfolding ReturnInputBuffers_def
  by (auto split: bind_splits if_splits dest!: quiet_PlaypumpEvent quiet_return_until intro: quiet_trans)

lemma quiet_Decoder_queue: "Decoder_queue env a i n c = (ok, c') \<Longrightarrow> quiet c c'"
  by (auto simp: Decoder_queue_def Let_def split: if_splits)

lemma quiet_add_output: "add_output env bs c = Some c' \<Longrightarrow> quiet c c'"
proof (induction bs arbitrary: c)
  case (Cons b bs)
  then show ?case by (auto split: bind_splits if_splits prod.splits dest!: quiet_Decoder_queue intro: quiet_trans)
qed simp

lemma quiet_AddOutputBuffers: "AddOutputBuffers env c = Some c' \<Longrightarrow> quiet c c'"
  unfolding AddOutputBuffers_def by (rule quiet_add_output)

lemma quiet_release_frames: "release_frames frs c = Some c' \<Longrightarrow> quiet c c'"
proof (induction frs arbitrary: c)
  case (Cons fr frs)
  then show ?case by (auto simp: Let_def split: bind_splits if_splits dest!: Cons.IH)
qed simp

lemma quiet_GetDecodedFrames: "GetDecodedFrames_call env c = (r, c') \<Longrightarrow> quiet c c'"
  by (auto simp: GetDecodedFrames_call_def Let_def)

lemma quiet_RemoveOutputBuffers: "RemoveOutputBuffers env c = Some c' \<Longrightarrow> quiet c c'"
  unfolding RemoveOutputBuffers_def
  by (auto split: prod.splits bind_splits if_splits dest!: quiet_GetDecodedFrames quiet_release_frames intro: quiet_trans)

lemma quiet_eos_sub [simp]:
  "quiet a (sub (\<lambda>s. s\<lparr>m_pBufferTracker := t\<rparr>) c) = quiet a c" "quiet a (sub (\<lambda>s. s\<lparr>m_eosReceived := e\<rparr>) c) = quiet a c"
  "quiet a (sub (\<lambda>s. s\<lparr>m_pBufferTracker := t, m_eosReceived := e\<rparr>) c) = quiet a c"
  "quiet a (sub (\<lambda>s. s\<lparr>m_codecDelayAdjusted := f s\<rparr>) c) = quiet a c" "quiet a (sub (\<lambda>s. s\<lparr>m_eosReady := e\<rparr>) c) = quiet a c"
  "quiet a (sub (\<lambda>s. s\<lparr>m_eosTimeStamp := ts\<rparr>) c) = quiet a c"
  "quiet a (sub (\<lambda>s. s\<lparr>m_formatChangePending := e, m_sampleRate := r\<rparr>) c) = quiet a c"
  "quiet a (sub (\<lambda>s. s\<lparr>m_eosPending := e, m_eosStandalone := e, m_eosReady := e, m_eosDelivered := e', m_eosTimeStamp := ts\<rparr>) c) = quiet a c"
  by (rule quiet_cong, simp_all add: hw_def)+

lemma quiet_frame_steps:
  "frame_flags fr h c = (h', c') \<Longrightarrow> quiet c c'" "frame_copy fr i c = Some c' \<Longrightarrow> quiet c c'"
  "GetCodecDelay env c = (d, c') \<Longrightarrow> quiet c c'" "frame_eos h c = Some (g, c') \<Longrightarrow> quiet c c'" "frame_end_time fr h c = Some c' \<Longrightarrow> quiet c c'"
proof -
  show "quiet c c'" if "frame_flags fr h c = (h', c')" using frame_flags_result [of fr h c] that by auto
  show "quiet c c'" if "frame_copy fr i c = Some c'" using that by (auto simp: frame_copy_def quiet_write_at split: if_splits)
  show "quiet c c'" if "GetCodecDelay env c = (d, c')" using that by (auto simp: GetCodecDelay_def Let_def split: OMX_AUDIO_CODINGTYPE.splits)
  show "quiet c c'" if "frame_eos h c = Some (g, c')" using that by (auto simp: frame_eos_def split: if_splits)
  show "quiet c c'" if "frame_end_time fr h c = Some c'" using that by (auto simp: frame_end_time_def Let_def split: if_splits)
qed

lemma quiet_frame_trim: "frame_trim env fr h c = Some (h', c') \<Longrightarrow> quiet c c'"
  unfolding frame_trim_def by (auto simp: Let_def split: bind_splits if_splits prod.splits dest: quiet_frame_steps(3))

lemma quiet_deliver_frame:
  assumes "deliver_frame env fr b c = Some (go, c')"
  shows "quiet c c'"
proof -
  from assms obtain a info x where x: "out_info c b = Some (a, info)" "m_heap c b = Some x" by (auto simp: deliver_frame_def split: bind_splits)
  obtain h c1 where f: "frame_flags fr ((m_header x)\<lparr>nOffset := 0\<rparr>) (put_out_info a (info\<lparr>nexusOwned := False\<rparr>) c) = (h, c1)" by fastforce
  from assms x f obtain c2 h2 c3 h3 c4 where s: "frame_copy fr info c1 = Some c2" "frame_trim env fr h c2 = Some (h2, c3)" "frame_eos h2 c3 = Some (h3, c4)"
    by (auto simp: deliver_frame_def split: bind_splits)
  have q: "quiet c c4" using quiet_frame_steps(1) [OF f] quiet_frame_steps(2) [OF s(1)] quiet_frame_trim [OF s(2)] quiet_frame_steps(4) [OF s(3)]
    by (auto intro: quiet_trans)
  show ?thesis
  proof (cases h3)
    case None
    with assms x f s q show ?thesis by (auto simp: deliver_frame_def)
  next
    case (Some h4)
    with assms x f s obtain c5 p c6 c7 where "frame_end_time fr h4 c4 = Some c5"
      "ReturnPortBuffer (out_port (put_header b h4 c5)) b (put_header b h4 c5) = Some (p, c6)" "ReturnInputBuffers env (nTimeStamp h4) False (set_out p c6) = Some c7"
      "c' = nexus (ConsumeDecodedFrames 1) c7" by (auto simp: deliver_frame_def split: bind_splits)
    then have "quiet c4 c5" "quiet c5 c6" "quiet c6 c7" "c' = nexus (ConsumeDecodedFrames 1) c7"
      by (auto dest: quiet_frame_steps(5) quiet_ReturnPortBuffer quiet_ReturnInputBuffers)
    moreover from this q have "quiet c c7" by (blast intro: quiet_trans)
    ultimately show ?thesis by simp
  qed
qed

lemma quiet_poll_frames: "poll_frames env frs c = Some (go, c') \<Longrightarrow> quiet c c'"
proof (induction frs arbitrary: c)
  case (Cons fr frs)
  then show ?case by (auto simp: Let_def split: if_splits bind_splits dest!: quiet_deliver_frame) (blast intro: quiet_trans)+
qed simp

lemma quiet_return_again: "return_again env b c = Some c' \<Longrightarrow> quiet c c'"
  by (auto simp: return_again_def split: option.splits if_splits dest: quiet_ReturnPortBuffer)

lemma quiet_deliver_eos:
  assumes "deliver_eos env c = Some c'"
  shows "quiet c c'"
proof -
  have w: "quiet c d" if "(if P then write_at a n vs c else Some c) = Some d" for P a n vs d
    using that by (auto split: if_splits dest: quiet_write_at)
  from assms obtain x where x: "m_heap c (GetBuffer (out_port c)) = Some x" by (auto simp: deliver_eos_def Let_def split: bind_splits)
  let ?b = "GetBuffer (out_port c)" and ?d = "m_codecDelayAdjusted (m_sub c)"
  let ?l = "(if ?d > 0 then of_int ?d * (m_bitsPerSample (m_sub c) div 8) * m_numPcmChannels (m_sub c) else 0) :: u32"
  from assms [unfolded deliver_eos_def Let_def x Option.bind.bind_lunit, unfolded bind_eq_Some_conv] obtain c1 p c2 where
    s: "(if ?d > 0 then write_at (bh_pBuffer (m_header x)) 0 (replicate (unat ?l) 0) c else Some c) = Some c1"
      "return_again env ?b (sub (\<lambda>s. s\<lparr>m_eosPending := False, m_eosStandalone := False, m_eosReady := False, m_eosDelivered := True, m_eosTimeStamp := 0\<rparr>)
         (set_out p (put_header ?b ((m_header x)\<lparr>nFilledLen := ?l, nTimeStamp := m_eosTimeStamp (m_sub c1), nFlags := OMX_BUFFERFLAG_EOS\<rparr>) c1))) = Some c2"
      "ReturnInputBuffers env 0 True c2 = Some c'" by blast
  have "quiet c1 c2" using quiet_return_again [OF s(2)] quiet_cong(2) by (simp add: quiet_def hw_def put_header_def)
  with w [OF s(1)] quiet_ReturnInputBuffers [OF s(3)] show ?thesis by (blast intro: quiet_trans)
qed

lemma quiet_OutputFrameEvent: "OutputFrameEvent env c = Some c' \<Longrightarrow> quiet c c'"
  unfolding OutputFrameEvent_def PollDecodedFrames_def Let_def
  by (auto split: if_splits bind_splits prod.splits dest!: quiet_GetDecodedFrames quiet_poll_frames quiet_deliver_eos) (blast intro: quiet_trans)+

section \<open>Operations that control the decoder\<close>

abbreviation dec :: "adc \<Rightarrow> BOMX_AudioDecoderState" where "dec c \<equiv> m_decoderState (m_sub c)"
abbreviation pump :: "adc \<Rightarrow> addr" where "pump c \<equiv> m_hPlaypump (m_sub c)"

lemma quiet_dec: "quiet c c' \<Longrightarrow> dec c' = dec c \<and> pump c' = pump c" by (simp add: quiet_def hw_def)

lemma tracks_sub:
  "hw (f (m_sub c)) = hw (m_sub c) \<Longrightarrow> m_nexus (f (m_sub c)) = nlog c \<Longrightarrow> tracks env (sub f c) = tracks env c"
  by (rule quiet_tracks) (simp add: quiet_def)

lemma Resume_tracks: "tracks env c \<Longrightarrow> dec c = BOMX_AudioDecoderState_eSuspended \<Longrightarrow> tracks env (Resume c)"
  by (simp add: tracks_def Resume_def view_of_def)

lemma Resume_dec [simp]: "dec (Resume c) = BOMX_AudioDecoderState_eStarted" "pump (Resume c) = pump c"
  by (simp_all add: Resume_def)

lemma Suspend_tracks:
  assumes "tracks env c" "dec c = BOMX_AudioDecoderState_eStarted" "Suspend env c = (ok, c')"
  shows "tracks env c'" "dec c' = (if ok then BOMX_AudioDecoderState_eSuspended else BOMX_AudioDecoderState_eStarted)"
  using assms by (auto simp: tracks_def Suspend_def nexus_ok_def view_of_def Let_def)

lemma StartDecoder_tracks:
  assumes "tracks env c" "pump c \<noteq> NULL" "StartDecoder env c = (ok, c')"
  shows "tracks env c'" "ok \<Longrightarrow> dec c' = BOMX_AudioDecoderState_eStarted"
  using assms by (auto simp: tracks_def StartDecoder_def nexus_ok_def view_of_def Let_def clear_eos_def split: if_splits)

lemma StopDecoder_tracks:
  assumes t: "tracks env c" and r: "StopDecoder c = Some (ok, c')"
  shows "tracks env c'" "dec c = BOMX_AudioDecoderState_eStarted \<Longrightarrow> dec c' = BOMX_AudioDecoderState_eStopped" "pump c' = pump c"
proof -
  define c1 where "c1 = sub (\<lambda>s. (clear_eos s)\<lparr>m_submittedDescriptors := 0, m_pBufferTracker := Tracker_Flush (m_pBufferTracker s)\<rparr>)
    (nexus Decoder_Stop (nexus Playpump_Stop c))"
  define c2 where "c2 = InputBufferCounterReset c1"
  define c3 where "c3 = sub (\<lambda>s. s\<lparr>m_decoderState := BOMX_AudioDecoderState_eStopped\<rparr>) c2"
  have q: "quiet c1 c2" by (simp add: c2_def InputBufferCounterReset_def Let_def quiet_cancel)
  have "tracks env c' \<and> (dec c = BOMX_AudioDecoderState_eStarted \<longrightarrow> dec c' = BOMX_AudioDecoderState_eStopped) \<and> pump c' = pump c"
  proof (cases "dec c = BOMX_AudioDecoderState_eStarted")
    case True
    from q obtain l where l: "nlog c2 = nlog c1 @ l" "list_all idle_call l" "hw (m_sub c2) = hw (m_sub c1)" by (auto simp: quiet_def)
    have "view env (rev (nlog c2)) = view env (rev (nlog c1))" using l by (simp add: view_idle list_all_rev)
    moreover have "hw (m_sub c1) = hw (m_sub c)" "nlog c1 = nlog c @ [Playpump_Stop, Decoder_Stop]" by (simp_all add: c1_def hw_def clear_eos_def)
    ultimately have t3: "tracks env c3" "dec c3 = BOMX_AudioDecoderState_eStopped" "pump c3 = pump c"
      using t True l(3) by (simp_all add: tracks_def view_of_def c3_def hw_def)
    from r True obtain p d where "ReturnPortBuffers (in_port c3) c3 = Some (p, d)" "c' = set_in p d"
      by (auto simp: StopDecoder_def Let_def c3_def c2_def c1_def split: bind_splits)
    then have "quiet c3 c'" by (auto dest: quiet_ReturnPortBuffers)
    with t3 quiet_tracks quiet_dec show ?thesis by metis
  next
    case False
    with t r show ?thesis by (simp add: StopDecoder_def)
  qed
  then show "tracks env c'" "dec c = BOMX_AudioDecoderState_eStarted \<Longrightarrow> dec c' = BOMX_AudioDecoderState_eStopped" "pump c' = pump c" by auto
qed

text \<open>Stopping whatever the state is; both uses resume a suspended decoder first.\<close>

lemma stop_any_tracks:
  assumes "tracks env c" "dec c \<noteq> BOMX_AudioDecoderState_eStopped"
    and "StopDecoder (if dec c = BOMX_AudioDecoderState_eSuspended then Resume c else c) = Some (ok, c')"
  shows "tracks env c'" "dec c' = BOMX_AudioDecoderState_eStopped" "pump c' = pump c"
proof -
  let ?c = "if dec c = BOMX_AudioDecoderState_eSuspended then Resume c else c"
  have "tracks env ?c" "dec ?c = BOMX_AudioDecoderState_eStarted" "pump ?c = pump c"
    using assms(1,2) Resume_tracks by (auto intro: BOMX_AudioDecoderState.exhaust)
  with StopDecoder_tracks [OF _ assms(3)] show "tracks env c'" "dec c' = BOMX_AudioDecoderState_eStopped" "pump c' = pump c" by auto
qed

lemma release_input_tracks:
  assumes t: "tracks env c" and r: "release_input c = Some c'"
  shows "tracks env c'" "dec c' = BOMX_AudioDecoderState_eStopped" "pump c' = NULL"
proof -
  have "tracks env c' \<and> dec c' = BOMX_AudioDecoderState_eStopped \<and> pump c' = NULL"
  proof (cases "pump c = NULL")
    case True
    with t r show ?thesis by (auto simp: release_input_def tracks_def)
  next
    case False
    let ?c = "if dec c = BOMX_AudioDecoderState_eSuspended then Resume c else c"
    from r False obtain x d e where s: "(if dec ?c = BOMX_AudioDecoderState_eStarted then StopDecoder ?c else Some (True, ?c)) = Some (x, d)"
        "ClosePidChannel d = Some e"
        "c' = timer_off (sub (\<lambda>s. s\<lparr>m_playpumpEventId := NULL, m_hPlaypump := NULL\<rparr>) (nexus (Unregister (m_playpumpEventId (m_sub e))) (nexus Playpump_Close e)))"
      by (auto simp: release_input_def Let_def split: bind_splits)
    have d: "tracks env d" "dec d = BOMX_AudioDecoderState_eStopped" "pump d = pump c"
    proof -
      have "tracks env d \<and> dec d = BOMX_AudioDecoderState_eStopped \<and> pump d = pump c"
      proof (cases "dec c = BOMX_AudioDecoderState_eStopped")
        case True
        with s(1) t show ?thesis by auto
      next
        case F: False
        then have "dec ?c = BOMX_AudioDecoderState_eStarted" by (auto intro: BOMX_AudioDecoderState.exhaust)
        with s(1) have "StopDecoder ?c = Some (x, d)" by simp
        from stop_any_tracks [OF t F this] show ?thesis by simp
      qed
      then show "tracks env d" "dec d = BOMX_AudioDecoderState_eStopped" "pump d = pump c" by auto
    qed
    let ?e = "sub (\<lambda>s. s\<lparr>m_playpumpEventId := NULL, m_hPlaypump := NULL\<rparr>) (nexus (Unregister (m_playpumpEventId (m_sub e))) (nexus Playpump_Close e))"
    have "tracks env ?e \<and> dec ?e = BOMX_AudioDecoderState_eStopped \<and> pump ?e = NULL"
      using d s(2) False by (auto simp: ClosePidChannel_def tracks_def view_of_def split: if_splits)
    moreover have "quiet ?e c'" unfolding s(3) by (rule quiet_cancel)
    ultimately show ?thesis using quiet_tracks quiet_dec by metis
  qed
  then show "tracks env c'" "dec c' = BOMX_AudioDecoderState_eStopped" "pump c' = NULL" by auto
qed

lemma open_playpump_tracks:
  assumes "tracks env c" "open_playpump env c = Some (ok, c')"
  shows "tracks env c'" "ok \<Longrightarrow> pump c' \<noteq> NULL" "dec c' = dec c"
  using assms by (auto simp: open_playpump_def OpenPidChannel_def ClosePidChannel_def close_playpump_def nexus_ok_def tracks_def view_of_def
      Let_def split: if_splits bind_splits)

text \<open>
  The one case in which the component loses track: the input port goes to executing while the decoder
  is suspended and the output port enabled. The decoder is resumed, but the component still believes
  it suspended, and its next step is to resume it again.
\<close>

definition resume_lost :: "OMX_STATETYPE \<Rightarrow> adc \<Rightarrow> bool" where
  "resume_lost newState c \<longleftrightarrow> newState = OMX_StateExecuting \<and> dec c = BOMX_AudioDecoderState_eSuspended \<and> IsEnabled (out_port c)"

lemma kick_output_quiet: "kick_output env c = Some (ok, c') \<Longrightarrow> quiet c c'"
  unfolding kick_output_def by (auto split: bind_splits dest!: quiet_AddOutputBuffers quiet_OutputFrameEvent intro: quiet_trans)

lemma input_idle_tracks:
  assumes t: "tracks env c" and r: "do {(_, c) \<leftarrow> StopDecoder (if dec c = BOMX_AudioDecoderState_eSuspended then Resume c else c);
      c \<leftarrow> RemoveOutputBuffers env c; Some (True, c)} = Some (ok, c')" and d: "dec c \<noteq> BOMX_AudioDecoderState_eStopped"
  shows "tracks env c'" "dec c' = BOMX_AudioDecoderState_eStopped"
proof -
  from r obtain x c1 where s: "StopDecoder (if dec c = BOMX_AudioDecoderState_eSuspended then Resume c else c) = Some (x, c1)"
    "RemoveOutputBuffers env c1 = Some c'" by (auto split: bind_splits)
  note stop_any_tracks [OF t d s(1)]
  with quiet_RemoveOutputBuffers [OF s(2)] quiet_tracks quiet_dec show "tracks env c'" "dec c' = BOMX_AudioDecoderState_eStopped" by metis+
qed

lemma input_executing_tracks:
  assumes t: "tracks env c" "pump c \<noteq> NULL" "dec c = BOMX_AudioDecoderState_eStopped"
    and r: "(let (ok, c) = StartDecoder env c in
       if \<not> ok then Some (False, c)
       else if IsEnabled (out_port c) then kick_output env c
       else let (ok, c) = Suspend env c in
         if \<not> ok then do {(_, c) \<leftarrow> StopDecoder c; Some (False, c)} else Some (True, c)) = Some (ok, c')"
  shows "tracks env c'"
proof -
  obtain ok1 c1 where s: "StartDecoder env c = (ok1, c1)" by fastforce
  obtain ok2 c2 where u: "Suspend env c1 = (ok2, c2)" by fastforce
  note t1 = StartDecoder_tracks [OF t(1,2) s]
  show ?thesis
  proof (cases "ok1 \<and> \<not> IsEnabled (out_port c1)")
    case True
    note t2 = Suspend_tracks [OF t1(1) t1(2) u]
    with True r s u show ?thesis by (auto split: if_splits bind_splits dest: StopDecoder_tracks(1))
  next
    case False
    with r s t1 show ?thesis by (auto split: if_splits dest!: kick_output_quiet simp: quiet_tracks)
  qed
qed

lemma SetInputPortState_tracks:
  assumes t: "tracks env c" and n: "\<not> resume_lost newState c" and r: "SetInputPortState env newState c = Some (ok, c')"
  shows "tracks env c'" "newState = OMX_StateLoaded \<or> newState = OMX_StateIdle \<Longrightarrow> dec c' = BOMX_AudioDecoderState_eStopped"
proof -
  have "tracks env c' \<and> (newState = OMX_StateLoaded \<or> newState = OMX_StateIdle \<longrightarrow> dec c' = BOMX_AudioDecoderState_eStopped)"
  proof (cases "newState = OMX_StateLoaded")
    case True
    with r release_input_tracks [OF t] show ?thesis by (auto simp: SetInputPortState_def split: bind_splits)
  next
    case F: False
    with r obtain ok1 c1 where o: "open_playpump env c = Some (ok1, c1)" by (auto simp: SetInputPortState_def split: bind_splits)
    note t1 = open_playpump_tracks [OF t o]
    define d where "d = nexus Decoder_GetStatus c1"
    have "quiet c1 d" by (simp add: d_def)
    then have d: "tracks env d" "dec d = dec c" "pump d = pump c1" using t1 quiet_tracks quiet_dec by metis+
    have st: "dec c1 = BOMX_AudioDecoderState_eStopped" if "\<not> ok1"
      using that t1(1) o by (auto simp: open_playpump_def tracks_def Let_def nexus_ok_def close_playpump_def OpenPidChannel_def ClosePidChannel_def
          split: if_splits bind_splits)
    have susp: "c1 = c" if "dec c = BOMX_AudioDecoderState_eSuspended" using that t o by (auto simp: tracks_def open_playpump_def)
    show ?thesis
    proof (cases ok1)
      case False
      with F r o t1 st show ?thesis by (auto simp: SetInputPortState_def)
    next
      case True
      show ?thesis
      proof (cases newState)
        case OMX_StateIdle
        with r F o True d t1(3) input_idle_tracks [OF d(1), of ok c'] show ?thesis
          by (simp add: SetInputPortState_def Let_def flip: d_def split: if_splits)
      next
        case OMX_StateExecuting
        have "tracks env c'"
        proof (cases "dec d")
          case BOMX_AudioDecoderState_eStopped
          with OMX_StateExecuting r F o True d t1(2,3) show ?thesis
            by (intro input_executing_tracks [OF d(1), of ok]) (simp_all add: SetInputPortState_def flip: d_def)
        next
          case BOMX_AudioDecoderState_eSuspended
          then have "c1 = c" using susp d(2) by simp
          with n d(2) OMX_StateExecuting BOMX_AudioDecoderState_eSuspended have "\<not> IsEnabled (out_port d)" by (simp add: resume_lost_def d_def)
          with OMX_StateExecuting BOMX_AudioDecoderState_eSuspended r F o True d t1(3) show ?thesis
            by (auto simp: SetInputPortState_def simp flip: d_def)
        next
          case BOMX_AudioDecoderState_eStarted
          with OMX_StateExecuting r F o True d t1(3) show ?thesis by (auto simp: SetInputPortState_def simp flip: d_def)
        qed
        with OMX_StateExecuting show ?thesis by simp
      qed (use r F o True d in \<open>auto simp: SetInputPortState_def simp flip: d_def\<close>)
    qed
  qed
  then show "tracks env c'" "newState = OMX_StateLoaded \<or> newState = OMX_StateIdle \<Longrightarrow> dec c' = BOMX_AudioDecoderState_eStopped" by auto
qed

lemma quiet_output_tracks:
  assumes t: "tracks env c" and r: "quiet_output env c = Some (ok, c')"
  shows "tracks env c'" "dec c = BOMX_AudioDecoderState_eStopped \<Longrightarrow> dec c' = BOMX_AudioDecoderState_eStopped"
proof -
  obtain ok1 c1 where u: "(if dec c = BOMX_AudioDecoderState_eStarted then Suspend env c else (True, c)) = (ok1, c1)" by fastforce
  have t1: "tracks env c1 \<and> (dec c = BOMX_AudioDecoderState_eStopped \<longrightarrow> dec c1 = BOMX_AudioDecoderState_eStopped)"
    using u t Suspend_tracks(1) [OF t] by (auto split: if_splits)
  have "c' = c1 \<or> quiet c1 c'" using r u unfolding quiet_output_def
    by (auto split: if_splits bind_splits dest!: quiet_RemoveOutputBuffers quiet_ReturnPortBuffers) (blast intro: quiet_trans)+
  then show "tracks env c'" "dec c = BOMX_AudioDecoderState_eStopped \<Longrightarrow> dec c' = BOMX_AudioDecoderState_eStopped"
    using t1 quiet_tracks quiet_dec by metis+
qed

lemma SetOutputPortState_tracks:
  assumes t: "tracks env c" and r: "SetOutputPortState env newState c = Some (ok, c')"
  shows "tracks env c'" "newState = OMX_StateExecuting \<Longrightarrow> dec c' \<noteq> BOMX_AudioDecoderState_eSuspended"
    "dec c = BOMX_AudioDecoderState_eStopped \<Longrightarrow> dec c' = BOMX_AudioDecoderState_eStopped"
proof -
  let ?c = "sub (\<lambda>s. s\<lparr>m_formatChangePending := False\<rparr>) (CancelTimerId m_inputBuffersTimerId m_inputBuffersTimerId_update c)"
  have q: "quiet c ?c" using quiet_cancel(2) [of c] by (simp add: quiet_def hw_def)
  have l: "tracks env ?c" "dec ?c = dec c" using t q quiet_tracks quiet_dec by metis+
  have x: "tracks env c' \<and> dec c' = BOMX_AudioDecoderState_eStarted"
    if "dec c = BOMX_AudioDecoderState_eSuspended" "AddOutputBuffers env (Resume c) = Some c'"
    using quiet_AddOutputBuffers [OF that(2)] Resume_tracks [OF t that(1)] quiet_tracks quiet_dec Resume_dec by metis
  show "tracks env c'"
    using r t quiet_output_tracks(1) [OF l(1)] quiet_output_tracks(1) [OF t] x
    by (auto simp: SetOutputPortState_def split: if_splits BOMX_AudioDecoderState.splits bind_splits)
  show "dec c' \<noteq> BOMX_AudioDecoderState_eSuspended" if "newState = OMX_StateExecuting"
    using r that x by (auto simp: SetOutputPortState_def split: if_splits BOMX_AudioDecoderState.splits bind_splits)
  show "dec c' = BOMX_AudioDecoderState_eStopped" if "dec c = BOMX_AudioDecoderState_eStopped"
    using r that l quiet_output_tracks(2) [OF l(1)] quiet_output_tracks(2) [OF t]
    by (auto simp: SetOutputPortState_def split: if_splits)
qed

section \<open>Commands\<close>

datatype adec_command = CmdState OMX_STATETYPE OMX_STATETYPE | CmdFlush u32 | CmdEnable u32 | CmdDisable u32

fun run_command :: "'b adec_env \<Rightarrow> state_pair \<Rightarrow> adec_command \<Rightarrow> client_steps \<Rightarrow> adc \<Rightarrow> (OMX_ERRORTYPE \<times> client_steps \<times> adc) option" where
  "run_command env st (CmdState new old) ws c = Adec_CommandStateSet env st new old ws c"
| "run_command env st (CmdFlush i) ws c = map_option (\<lambda>(err, c). (err, ws, c)) (Adec_CommandFlush env st i c)"
| "run_command env st (CmdEnable i) ws c = Adec_CommandPortEnable env (fst st) i ws c"
| "run_command env st (CmdDisable i) ws c = Adec_CommandPortDisable env (fst st) i ws c"

text \<open>What the client may do while a command waits: it has no access to the decoder.\<close>

definition polite :: "'b adec_env \<Rightarrow> (adc \<Rightarrow> adc) \<Rightarrow> bool" where
  "polite env w \<longleftrightarrow> (\<forall>c. tracks env c \<longrightarrow> tracks env (w c) \<and> dec (w c) = dec c)"

lemma put_port_sub [simp]: "m_sub (put_port i p c) = m_sub c" by (simp add: put_port_def)

lemma quiet_ports [simp]: "quiet c (put_port i p c)" "quiet c (on_port f i c)" "quiet c (reenable a b c)" "quiet c (Lock c)" "quiet c (Unlock c)"
  by (simp_all add: quiet_def on_port_def reenable_def Lock_def Unlock_def Let_def split: option.splits)

lemma quiet_return_all: "return_all i c = Some c' \<Longrightarrow> quiet c c'"
  by (auto simp: return_all_def split: option.splits bind_splits dest!: quiet_ReturnPortBuffers intro: quiet_trans)

lemma port_wait_tracks:
  assumes "tracks env c" "\<forall>w \<in> set ws. polite env w" "port_wait P ws c = (ok, ws', c')"
  shows "tracks env c' \<and> dec c' = dec c \<and> (\<forall>w \<in> set ws'. polite env w)"
  using assms
proof (induction ws arbitrary: c)
  case Nil
  have "quiet c (Lock (Unlock c))" by (simp add: quiet_def Lock_def Unlock_def)
  with Nil show ?case using quiet_tracks [of c "Lock (Unlock c)"] quiet_dec [of c "Lock (Unlock c)"] by (auto split: if_splits)
next
  case (Cons w ws)
  let ?d = "Lock (w (Unlock c))"
  have "quiet c (Unlock c)" "quiet (w (Unlock c)) ?d" by simp_all
  then have "tracks env (Unlock c)" "tracks env ?d = tracks env (w (Unlock c))" "dec (Unlock c) = dec c" "dec ?d = dec (w (Unlock c))"
    using Cons.prems(1) quiet_tracks quiet_dec by metis+
  then have "tracks env ?d" "dec ?d = dec c"
    using Cons.prems(2) unfolding polite_def by (metis list.set_intros(1))+
  with Cons show ?case by (auto split: if_splits)
qed

abbreviation polites :: "'b adec_env \<Rightarrow> client_steps \<Rightarrow> bool" where "polites env ws \<equiv> \<forall>w \<in> set ws. polite env w"

text \<open>A step that keeps track, from any state that does.\<close>

lemma quiet_keeps: "quiet c c' \<Longrightarrow> tracks env c \<Longrightarrow> tracks env c' \<and> dec c' = dec c"
  using quiet_tracks quiet_dec by metis

lemma disable_port_tracks:
  assumes t: "tracks env c" and p: "polites env ws" and r: "disable_port env state i ws c = Some (err, ws', c')"
  shows "tracks env c' \<and> polites env ws'"
proof (cases "FindPortByIndex c i")
  case None
  with t p r show ?thesis by (simp add: disable_port_def)
next
  case (Some q)
  obtain e q' where d: "Disable q = (e, q')" by fastforce
  have t1: "tracks env (put_port i q' c)" using t quiet_keeps by (metis quiet_ports(1))
  show ?thesis
  proof (cases "IsDisabled q \<or> e \<noteq> OMX_ErrorNone \<or> state = OMX_StateLoaded")
    case True
    with Some d r t t1 p show ?thesis by (auto simp: disable_port_def Let_def split: if_splits)
  next
    case False
    with Some d r obtain ok c1 c2 where s: "(if eDir (m_definition q) = OMX_DirInput then SetInputPortState env OMX_StateLoaded (put_port i q' c)
        else SetOutputPortState env OMX_StateLoaded (put_port i q' c)) = Some (ok, c1)" "return_all i c1 = Some c2"
      by (auto simp: disable_port_def Let_def split: if_splits bind_splits)
    have "tracks env c1" using s(1) SetInputPortState_tracks(1) [OF t1] SetOutputPortState_tracks(1) [OF t1] by (auto simp: resume_lost_def split: if_splits)
    then have t2: "tracks env c2" using quiet_return_all [OF s(2)] quiet_keeps by blast
    obtain ok3 ws3 c3 where w: "port_wait (port_is IsEmpty i) ws c2 = (ok3, ws3, c3)" by (cases rule: prod_cases3)
    note t3 = port_wait_tracks [OF t2 p w]
    have "tracks env (on_port Enable i c3)" using t3 quiet_keeps quiet_ports(2) by blast
    with Some d r False s w t3 show ?thesis by (auto simp: disable_port_def Let_def split: if_splits bind_splits)
  qed
qed

abbreviation input_port :: "u32 \<Rightarrow> adc \<Rightarrow> bool" where "input_port \<equiv> port_is (\<lambda>q. eDir (m_definition q) = OMX_DirInput)"

lemma enable_port_tracks:
  assumes t: "tracks env c" and p: "polites env ws" and r: "enable_port env state i ws c = Some (err, ws', c')"
    and n: "input_port i c \<Longrightarrow> state = OMX_StateExecuting \<Longrightarrow> dec c \<noteq> BOMX_AudioDecoderState_eSuspended"
  shows "tracks env c' \<and> polites env ws'
    \<and> (err = OMX_ErrorNone \<longrightarrow> state = OMX_StateExecuting \<longrightarrow> \<not> input_port i c \<longrightarrow> dec c' \<noteq> BOMX_AudioDecoderState_eSuspended)"
proof (cases "FindPortByIndex c i")
  case None
  with t p r show ?thesis by (simp add: enable_port_def)
next
  case (Some q)
  obtain e q' where d: "Enable q = (e, q')" by fastforce
  define c0 where "c0 = put_port i q' c"
  have t0: "tracks env c0" "dec c0 = dec c" using t quiet_keeps [of c c0 env] by (simp_all add: c0_def)
  obtain ok1 ws1 c1 where w: "port_wait (port_is IsPopulated i) ws c0 = (ok1, ws1, c1)" by (cases rule: prod_cases3)
  note t1 = port_wait_tracks [OF t0(1) p w]
  have t1': "tracks env (on_port Disable i c1)" using t1 quiet_keeps quiet_ports(2) by blast
  show ?thesis
  proof (cases "IsEnabled q \<or> e \<noteq> OMX_ErrorNone \<or> state = OMX_StateLoaded \<or> \<not> ok1")
    case True
    with Some d r t p t0 t1 t1' w show ?thesis by (auto simp: enable_port_def Let_def simp flip: c0_def split: if_splits)
  next
    case False
    with Some d r w obtain ok2 c2 where s: "(if eDir (m_definition q) = OMX_DirInput then SetInputPortState env state c1
        else SetOutputPortState env state c1) = Some (ok2, c2)" by (auto simp: enable_port_def Let_def simp flip: c0_def split: if_splits bind_splits)
    have "\<not> resume_lost state c1" if "eDir (m_definition q) = OMX_DirInput"
      using n t1 t0(2) that Some by (auto simp: resume_lost_def port_is_def)
    then have t2: "tracks env c2" using s SetInputPortState_tracks(1) [of env c1] SetOutputPortState_tracks(1) [of env c1] t1 by (auto split: if_splits)
    have "dec c2 \<noteq> BOMX_AudioDecoderState_eSuspended" if "state = OMX_StateExecuting" "eDir (m_definition q) \<noteq> OMX_DirInput"
      using s that SetOutputPortState_tracks(2) [of env c1 state] t1 by auto
    with Some d r False w s t2 t1 show ?thesis
      by (auto simp: enable_port_def Let_def port_is_def simp flip: c0_def split: if_splits bind_splits dest: disable_port_tracks [OF t2])
  qed
qed

lemma CommandPortDisable_tracks:
  assumes t: "tracks env c" and p: "polites env ws" and r: "Adec_CommandPortDisable env state i ws c = Some (err, ws', c')"
  shows "tracks env c' \<and> polites env ws'"
proof (cases "i = OMX_ALL (e_abi env)")
  case False
  with r disable_port_tracks [OF t p] show ?thesis by (simp add: Adec_CommandPortDisable_def)
next
  case True
  with r obtain e ws1 c1 where
    s: "(if IsEnabled (in_port c) then disable_port env state (m_audioPortBase c) ws c else Some (OMX_ErrorNone, ws, c)) = Some (e, ws1, c1)"
    and s2: "(if e \<noteq> OMX_ErrorNone then Some (BOMX_ERR_TRACE e, ws1, c1)
      else if IsEnabled (out_port c1) then disable_port env state (m_audioPortBase c1 + 1) ws1 c1 else Some (OMX_ErrorNone, ws1, c1)) = Some (err, ws', c')"
    by (auto simp: Adec_CommandPortDisable_def split: bind_splits)
  have t1: "tracks env c1" "polites env ws1" using s t p disable_port_tracks [OF t p] by (auto split: if_splits)
  with s2 disable_port_tracks [OF t1] show ?thesis by (auto split: if_splits)
qed

text \<open>The ports that the constructor creates: input first, output second, numbered from 0.\<close>

definition layout :: "adc \<Rightarrow> bool" where
  "layout c \<longleftrightarrow> length (m_pAudioPorts c) = 2 \<and> eDir (m_definition (out_port c)) = OMX_DirOutput \<and> m_audioPortBase c = 0"

lemma output_port_index: "layout c \<Longrightarrow> \<not> input_port (m_audioPortBase c + 1) c"
  by (simp add: layout_def port_is_def FindPortByIndex_def)

text \<open>When the input port is enabled while executing, the decoder must not be suspended; it was stopped when the port was disabled.\<close>

definition enable_safe :: "'b adec_env \<Rightarrow> OMX_STATETYPE \<Rightarrow> u32 \<Rightarrow> adc \<Rightarrow> bool" where
  "enable_safe env state i c \<longleftrightarrow> state = OMX_StateExecuting \<and> dec c = BOMX_AudioDecoderState_eSuspended \<longrightarrow>
     (if i = OMX_ALL (e_abi env) then layout c \<and> (IsEnabled (out_port c) \<longrightarrow> IsEnabled (in_port c)) else \<not> input_port i c)"

lemma CommandPortEnable_tracks:
  assumes t: "tracks env c" and p: "polites env ws" and r: "Adec_CommandPortEnable env state i ws c = Some (err, ws', c')"
    and n: "enable_safe env state i c" and l: "i = OMX_ALL (e_abi env) \<Longrightarrow> layout c"
  shows "tracks env c' \<and> polites env ws'"
proof (cases "i = OMX_ALL (e_abi env)")
  case False
  with r have "enable_port env state i ws c = Some (err, ws', c')" by (simp add: Adec_CommandPortEnable_def)
  from enable_port_tracks [OF t p this] n False show ?thesis by (auto simp: enable_safe_def)
next
  case True
  with r obtain e ws1 c1 where
    s: "(if \<not> IsEnabled (out_port c) then enable_port env state (m_audioPortBase c + 1) ws c else Some (OMX_ErrorNone, ws, c)) = Some (e, ws1, c1)"
    and s2: "(if e \<noteq> OMX_ErrorNone then Some (BOMX_ERR_TRACE e, ws1, c1)
      else if \<not> IsEnabled (in_port c1) then enable_port env state (m_audioPortBase c1) ws1 c1 else Some (OMX_ErrorNone, ws1, c1)) = Some (err, ws', c')"
    by (auto simp: Adec_CommandPortEnable_def split: bind_splits)
  note o = output_port_index [OF l [OF True]]
  have t1: "tracks env c1" "polites env ws1"
    "e = OMX_ErrorNone \<Longrightarrow> state = OMX_StateExecuting \<Longrightarrow> \<not> IsEnabled (in_port c1) \<Longrightarrow> dec c1 \<noteq> BOMX_AudioDecoderState_eSuspended"
    using s t p n o True enable_port_tracks [OF t p, of state "m_audioPortBase c + 1" e ws1 c1] by (auto simp: enable_safe_def split: if_splits)
  show ?thesis
  proof (cases "e = OMX_ErrorNone \<and> \<not> IsEnabled (in_port c1)")
    case True
    with s2 have "enable_port env state (m_audioPortBase c1) ws1 c1 = Some (err, ws', c')" by simp
    from enable_port_tracks [OF t1(1,2) this] t1(3) True show ?thesis by blast
  next
    case False
    with s2 t1 show ?thesis by (auto split: if_splits)
  qed
qed

lemma flush_port_tracks:
  assumes t: "tracks env c" and r: "flush_port env st i c = Some (err, c')"
  shows "tracks env c'"
proof -
  have f: "tracks env (sub (\<lambda>s. s\<lparr>m_configBufferState := f\<rparr>) d) = tracks env d" for f d by (rule tracks_sub) (simp_all add: hw_def)
  have a: "tracks env d" if "do {(_, c) \<leftarrow> SetInputPortState env OMX_StateIdle c; (_, c) \<leftarrow> SetInputPortState env s c;
      Some (sub (\<lambda>s. s\<lparr>m_configBufferState := ConfigBufferState_eFlushed\<rparr>) c)} = Some d" for s d
  proof -
    from that obtain x c1 y c2 where u: "SetInputPortState env OMX_StateIdle c = Some (x, c1)" "SetInputPortState env s c1 = Some (y, c2)"
      "d = sub (\<lambda>s. s\<lparr>m_configBufferState := ConfigBufferState_eFlushed\<rparr>) c2" by (auto split: bind_splits)
    have "tracks env c1" "dec c1 = BOMX_AudioDecoderState_eStopped" using SetInputPortState_tracks [OF t _ u(1)] by (simp_all add: resume_lost_def)
    then have "tracks env c2" using SetInputPortState_tracks(1) [OF _ _ u(2)] by (simp add: resume_lost_def)
    then show ?thesis unfolding u(3) f .
  qed
  have b: "tracks env d" if "do {(_, c) \<leftarrow> SetOutputPortState env OMX_StateIdle c; (_, c) \<leftarrow> SetOutputPortState env s c; Some c} = Some d" for s d
  proof -
    from that obtain x c1 y where u: "SetOutputPortState env OMX_StateIdle c = Some (x, c1)" "SetOutputPortState env s c1 = Some (y, d)"
      by (auto split: bind_splits)
    show ?thesis by (rule SetOutputPortState_tracks(1) [OF SetOutputPortState_tracks(1) [OF t u(1)] u(2)])
  qed
  show ?thesis
  proof (cases "fst st \<noteq> snd st \<or> FindPortByIndex c i = None")
    case True
    with r t show ?thesis by (auto simp: flush_port_def split: if_splits)
  next
    case False
    with r obtain d where "(if i = m_audioPortBase c then
          if m_hAudioDecoder (m_sub c) \<noteq> NULL then do {(_, c) \<leftarrow> SetInputPortState env OMX_StateIdle c; (_, c) \<leftarrow> SetInputPortState env (fst st) c;
            Some (sub (\<lambda>s. s\<lparr>m_configBufferState := ConfigBufferState_eFlushed\<rparr>) c)} else Some c
        else if IsEnabled (out_port c) \<and> IsPopulated (out_port c)
        then do {(_, c) \<leftarrow> SetOutputPortState env OMX_StateIdle c; (_, c) \<leftarrow> SetOutputPortState env (fst st) c; Some c} else Some c) = Some d"
      and "return_all i d = Some c'" unfolding flush_port_def by (auto split: bind_splits)
    moreover from this(1) have "tracks env d" using t a b by (auto simp del: bind_eq_Some_conv split: if_splits)
    ultimately show ?thesis using quiet_keeps [OF quiet_return_all] by blast
  qed
qed

lemma CommandFlush_tracks:
  assumes t: "tracks env c" and r: "Adec_CommandFlush env st i c = Some (err, c')"
  shows "tracks env c'"
proof (cases "fst st = snd st \<and> i = OMX_ALL (e_abi env)")
  case False
  with r t flush_port_tracks [OF t] show ?thesis by (auto simp: Adec_CommandFlush_def split: if_splits)
next
  case True
  with r obtain e d where s: "flush_port env st (m_audioPortBase c) c = Some (e, d)"
    "(if e \<noteq> OMX_ErrorNone then Some (BOMX_ERR_TRACE e, d) else flush_port env st (m_audioPortBase d + 1) d) = Some (err, c')"
    by (auto simp: Adec_CommandFlush_def split: bind_splits)
  from s(2) flush_port_tracks [OF flush_port_tracks [OF t s(1)]] flush_port_tracks [OF t s(1)] show ?thesis by (auto split: if_splits)
qed

lemma ConfigBufferInit_quiet: "ConfigBufferInit env c = (err, c') \<Longrightarrow> quiet c c'"
proof -
  have [simp]: "quiet a (sub (\<lambda>s. s\<lparr>m_pConfigBuffer := x, m_configBufferState := y, m_configBufferSize := z\<rparr>) d) = quiet a d" for a x y z d
    by (rule quiet_cong) (simp_all add: hw_def)
  assume "ConfigBufferInit env c = (err, c')"
  then show ?thesis by (auto simp: ConfigBufferInit_def AllocateInputBuffer_def Let_def split: if_splits prod.splits)
qed

lemma run_ports_tracks:
  assumes t: "tracks env c" and r: "run_ports env new c = Some (err, c')"
    and n: "new = OMX_StateExecuting \<Longrightarrow> dec c = BOMX_AudioDecoderState_eSuspended \<Longrightarrow> IsEnabled (out_port c) \<Longrightarrow> IsPopulated (out_port c)"
  shows "tracks env c'"
proof -
  let ?P = "IsPopulated (out_port c) \<and> IsEnabled (out_port c)"
  let ?s = "if ?P then SetOutputPortState env new c else Some (True, c)"
  obtain z where "?s = Some z" using r by (cases ?s) (simp_all add: run_ports_def)
  then obtain ok1 c1 where s: "?s = Some (ok1, c1)" by (cases z) simp
  from r have s2: "(if \<not> ok1 then Some (BOMX_ERR_TRACE OMX_ErrorUndefined, c1)
      else do {(ok, c) \<leftarrow> (if IsPopulated (in_port c1) \<and> IsEnabled (in_port c1) then SetInputPortState env new c1 else Some (True, c1));
        if \<not> ok then Some (BOMX_ERR_TRACE OMX_ErrorUndefined, c) else Some (OMX_ErrorNone, c)}) = Some (err, c')"
    unfolding run_ports_def s by simp
  have t1: "tracks env c1" "\<not> resume_lost new c1"
  proof -
    have "tracks env c1 \<and> \<not> resume_lost new c1"
    proof (cases ?P)
      case True
      with s have o: "SetOutputPortState env new c = Some (ok1, c1)" by simp
      from SetOutputPortState_tracks(1,2) [OF t o] show ?thesis unfolding resume_lost_def by blast
    next
      case False
      have "c1 = c" using s unfolding if_not_P [OF False] by simp
      with t n False show ?thesis unfolding resume_lost_def by blast
    qed
    then show "tracks env c1" "\<not> resume_lost new c1" by simp_all
  qed
  with s2 show ?thesis by (auto split: if_splits bind_splits dest: SetInputPortState_tracks(1))
qed

lemma idle_tracks:
  assumes "tracks env c" "(if P then SetInputPortState env OMX_StateIdle c else Some (True, c)) = Some (ok, c')"
  shows "tracks env c'"
  using assms SetInputPortState_tracks(1) [OF assms(1)] by (auto simp: resume_lost_def split: if_splits)

lemma idle_out_tracks:
  assumes "tracks env c" "(if P then SetOutputPortState env OMX_StateIdle c else Some (True, c)) = Some (ok, c')"
  shows "tracks env c'"
  using assms SetOutputPortState_tracks(1) [OF assms(1)] by (auto split: if_splits)

lemma reenable_tracks: "tracks env (reenable a b c) = tracks env c"
  by (rule quiet_tracks) simp

lemma loaded_to_idle_tracks:
  assumes t: "tracks env c" and p: "polites env ws" and r: "loaded_to_idle env st ws c = Some (err, ws', c')"
  shows "tracks env c' \<and> polites env ws'"
proof -
  have g: "tracks env e \<and> polites env vs'" if "give_up env st a b vs d = Some (err, vs', e)" "tracks env d" "polites env vs" for a b vs vs' d e err
    using that CommandPortDisable_tracks [OF that(2,3)] by (auto simp: give_up_def reenable_tracks split: bind_splits)
  obtain ok1 ws1 c1 where w: "port_wait (\<lambda>c. (IsEnabled (in_port c) \<longrightarrow> IsPopulated (in_port c)) \<and> (IsEnabled (out_port c) \<longrightarrow> IsPopulated (out_port c))) ws c = (ok1, ws1, c1)"
    by (cases rule: prod_cases3)
  note t1 = port_wait_tracks [OF t p w]
  show ?thesis
  proof (cases ok1)
    case False
    with r w t1 show ?thesis by (auto simp: loaded_to_idle_def Let_def)
  next
    case True
    with r w obtain ok2 c2 where
      s: "(if IsPopulated (out_port c1) \<and> IsEnabled (out_port c1) then SetOutputPortState env OMX_StateIdle c1 else Some (True, c1)) = Some (ok2, c2)"
      by (auto simp: loaded_to_idle_def Let_def split: bind_splits)
    have t2: "tracks env c2" using idle_out_tracks [OF _ s] t1 by blast
    show ?thesis
    proof (cases ok2)
      case False
      with True r w s t2 t1 g show ?thesis by (auto simp: loaded_to_idle_def Let_def)
    next
      case T2: True
      with True r w s obtain ok3 c3 where
        s3: "(if IsPopulated (in_port c2) \<and> IsEnabled (in_port c2) then SetInputPortState env OMX_StateIdle c2 else Some (True, c2)) = Some (ok3, c3)"
        by (auto simp: loaded_to_idle_def Let_def split: bind_splits)
      have "tracks env c3" using idle_tracks [OF t2 s3] .
      with True T2 r w s s3 t1 g show ?thesis by (auto simp: loaded_to_idle_def Let_def split: if_splits)
    qed
  qed
qed

lemma CommandStateSet_tracks:
  assumes t: "tracks env c" and p: "polites env ws" and r: "Adec_CommandStateSet env st new old ws c = Some (err, ws', c')"
    and n: "new = OMX_StateExecuting \<Longrightarrow> dec c = BOMX_AudioDecoderState_eSuspended \<Longrightarrow> IsEnabled (out_port c) \<Longrightarrow> IsPopulated (out_port c)"
  shows "tracks env c' \<and> polites env ws'"
proof (cases new)
  case OMX_StateLoaded
  with r CommandPortDisable_tracks [OF t p] show ?thesis
    by (auto simp: Adec_CommandStateSet_def to_loaded_def reenable_tracks split: bind_splits if_splits)
next
  case OMX_StateIdle
  obtain e c1 where b: "ConfigBufferInit env c = (e, c1)" by fastforce
  have t1: "tracks env c1" using quiet_keeps [OF ConfigBufferInit_quiet [OF b] t] by simp
  have "tracks env d" if "stop_to_idle env c1 = Some d" for d
    using that unfolding stop_to_idle_def by (auto split: bind_splits dest!: idle_tracks [OF t1] dest: idle_out_tracks)
  with OMX_StateIdle r b t1 p loaded_to_idle_tracks [OF t1 p] show ?thesis
    by (auto simp: Adec_CommandStateSet_def split: if_splits bind_splits)
next
  case OMX_StateExecuting
  with r n p run_ports_tracks [OF t] show ?thesis by (auto simp: Adec_CommandStateSet_def split: bind_splits)
next
  case OMX_StatePause
  with r n p run_ports_tracks [OF t] show ?thesis by (auto simp: Adec_CommandStateSet_def split: bind_splits)
qed (use t p r in \<open>auto simp: Adec_CommandStateSet_def\<close>)

section \<open>All runs\<close>

text \<open>
  What happens to the component: commands of the client, each with what the client does while it
  waits, and the events of Nexus and of the timers. A command that enables the input port, or brings
  the component to executing, comes in a state in which the decoder is not suspended behind an
  enabled output port.
\<close>

fun command_safe :: "'b adec_env \<Rightarrow> state_pair \<Rightarrow> adec_command \<Rightarrow> adc \<Rightarrow> bool" where
  "command_safe env st (CmdState new old) c \<longleftrightarrow>
     (new = OMX_StateExecuting \<and> dec c = BOMX_AudioDecoderState_eSuspended \<and> IsEnabled (out_port c) \<longrightarrow> IsPopulated (out_port c))"
| "command_safe env st (CmdFlush i) c \<longleftrightarrow> True"
| "command_safe env st (CmdEnable i) c \<longleftrightarrow> enable_safe env (fst st) i c \<and> (i = OMX_ALL (e_abi env) \<longrightarrow> layout c)"
| "command_safe env st (CmdDisable i) c \<longleftrightarrow> True"

lemma run_command_tracks:
  assumes t: "tracks env c" and p: "polites env ws" and s: "command_safe env st cmd c" and r: "run_command env st cmd ws c = Some (err, ws', c')"
  shows "tracks env c'"
proof (cases cmd)
  case (CmdState new old)
  with s r CommandStateSet_tracks [OF t p, of st new old err ws' c'] show ?thesis by simp
next
  case (CmdFlush i)
  with r CommandFlush_tracks [OF t] show ?thesis by (cases st) auto
next
  case (CmdEnable i)
  with s r CommandPortEnable_tracks [OF t p, of "fst st" i err ws' c'] show ?thesis by simp
next
  case (CmdDisable i)
  with r CommandPortDisable_tracks [OF t p] show ?thesis by simp
qed

inductive adec_run :: "'b adec_env \<Rightarrow> adc \<Rightarrow> adc \<Rightarrow> bool" for env c where
  start: "adec_run env c c"
| command: "adec_run env c d \<Longrightarrow> command_safe env st cmd d \<Longrightarrow> polites env ws \<Longrightarrow> run_command env st cmd ws d = Some (err, ws', e) \<Longrightarrow> adec_run env c e"
| playpump: "adec_run env c d \<Longrightarrow> PlaypumpEvent env d = Some e \<Longrightarrow> adec_run env c e"
| frames: "adec_run env c d \<Longrightarrow> OutputFrameEvent env d = Some e \<Longrightarrow> adec_run env c e"
| timeout: "adec_run env c d \<Longrightarrow> InputBufferTimeoutCallback env d = Some e \<Longrightarrow> adec_run env c e"
| fill: "adec_run env c d \<Longrightarrow> Adec_FillThisBuffer env hdr d = Some (err', e) \<Longrightarrow> adec_run env c e"

lemma quiet_FillThisBuffer: "Adec_FillThisBuffer env hdr c = Some (err, c') \<Longrightarrow> quiet c c'"
  unfolding Adec_FillThisBuffer_def Let_def
  by (auto split: if_splits bind_splits prod.splits dest!: quiet_Decoder_queue)


section \<open>Stopping\<close>

lemma ReturnPortBuffers_frame:
  fixes c :: adc
  shows "ReturnPortBuffers p c = Some (p', c') \<Longrightarrow> m_heap c' = m_heap c \<and> m_pAudioPorts c' = m_pAudioPorts c \<and> m_sub c' = m_sub c"
  unfolding ReturnPortBuffers_def
  by (drule drain_relates [where R = "\<lambda>s s'. m_heap (snd s') = m_heap (snd s) \<and> m_pAudioPorts (snd s') = m_pAudioPorts (snd s) \<and> m_sub (snd s') = m_sub (snd s)", rotated 3])
    (auto dest: ReturnPortBuffer_frame)

text \<open>
  C20: Stopping the decoder gives every input buffer back to the client, once and in the order in which they
  came, consumed or not; all buffers count as free and no descriptor as submitted, the tracker is
  empty, and no end of stream is under way.
\<close>

theorem adec_stop_returns_all:
  assumes inv: "input_inv c" and d: "m_decoderState (m_sub c) = BOMX_AudioDecoderState_eStarted"
    and cl: "\<not> IsTunneled (in_port c)" "eDir (m_definition (in_port c)) = OMX_DirInput" "cb_EmptyBufferDone c"
  shows "\<exists>c'. StopDecoder c = Some (True, c') \<and> m_decoderState (m_sub c') = BOMX_AudioDecoderState_eStopped \<and> input_inv c' \<and> in_queue c' = []
    \<and> m_AvailInputBuffers (m_sub c') = nBufferCountActual (m_definition (in_port c)) \<and> m_submittedDescriptors (m_sub c') = 0
    \<and> m_allocList (m_pBufferTracker (m_sub c')) = [] \<and> \<not> m_eosPending (m_sub c') \<and> \<not> m_eosDelivered (m_sub c')
    \<and> m_log c' = m_log c @ map (\<lambda>b. (m_locked c, EmptyBufferDone b)) (in_queue c)"
proof -
  define c1 where "c1 = InputBufferCounterReset (sub (\<lambda>s. (clear_eos s)\<lparr>m_submittedDescriptors := 0, m_pBufferTracker := Tracker_Flush (m_pBufferTracker s)\<rparr>)
    (nexus Decoder_Stop (nexus Playpump_Stop c)))"
  define c2 where "c2 = sub (\<lambda>s. s\<lparr>m_decoderState := BOMX_AudioDecoderState_eStopped\<rparr>) c1"
  have s2: "m_heap c2 = m_heap c" "m_pAudioPorts c2 = m_pAudioPorts c" "m_log c2 = m_log c" "drain_ctx (in_port c, c2) = ctx c"
    "m_AvailInputBuffers (m_sub c2) = nBufferCountActual (m_definition (in_port c))" "m_submittedDescriptors (m_sub c2) = 0"
    "m_allocList (m_pBufferTracker (m_sub c2)) = []" "\<not> m_eosPending (m_sub c2)" "\<not> m_eosDelivered (m_sub c2)"
    "m_decoderState (m_sub c2) = BOMX_AudioDecoderState_eStopped"
    by (simp_all add: c2_def c1_def InputBufferCounterReset_def CancelTimerId_def clear_eos_def Tracker_Flush_def drain_ctx_def Let_def)
      (simp_all add: sub_def nexus_def)
  have port: "port_inv (m_heap c) (in_port c)" "length (m_pAudioPorts c) = 2" using inv by (simp_all add: input_inv_def)
  from ReturnPortBuffers_result [OF port(1), of c2] obtain p c3 where
    r: "ReturnPortBuffers (in_port c) c2 = Some (p, c3)" "port_inv (m_heap c) p" "p = (in_port c)\<lparr>m_bufferQueue := [], m_queueDepth := 0\<rparr>"
      "m_log c3 = m_log c @ concat (map (buffer_done (ctx c)) (in_queue c))" unfolding s2(3,4) by blast
  note f = ReturnPortBuffers_frame [OF r(1)]
  let ?c = "set_in p c3"
  have "StopDecoder c = Some (True, ?c)" using d r(1) s2(2) by (simp add: StopDecoder_def flip: c1_def c2_def) (simp add: c2_def)
  moreover have "in_port ?c = p" using f s2(2) port(2) by simp
  moreover have "input_inv ?c" using calculation(2) f s2 r(2,3) port(2) by (simp add: input_inv_def infos_ok_def)
  ultimately show ?thesis using f s2 r(3,4) input_done [OF cl] by (intro exI [of _ ?c]) simp
qed

section \<open>Pausing\<close>

text \<open>
  Executing to pause: the transition is one of the figure of the standard, but the component refuses
  it whenever the decoder runs with its output port enabled and populated.
\<close>

lemma adec_pause_refused:
  assumes "dec c = BOMX_AudioDecoderState_eStarted" "IsEnabled (out_port c)" "IsPopulated (out_port c)"
  shows "Adec_CommandStateSet env st OMX_StatePause OMX_StateExecuting ws c = Some (OMX_ErrorUndefined, ws, c)"
    "(OMX_StateExecuting, OMX_StatePause) \<in> set omx_figure"
  using assms by (simp_all add: Adec_CommandStateSet_def run_ports_def SetOutputPortState_def omx_figure_def)

text \<open>The call that loses track of the decoder: it is resumed, and the component believes it suspended.\<close>

lemma adec_resume_lost:
  assumes "tracks env c" "resume_lost newState c" "SetInputPortState env newState c = Some (ok, c')"
  shows "dec c' = BOMX_AudioDecoderState_eSuspended" "\<not> tracks env c'"
proof -
  let ?d = "nexus Decoder_Resume (nexus Decoder_GetStatus c)"
  have "open_playpump env c = Some (True, c)" using assms(1,2) by (auto simp: tracks_def resume_lost_def open_playpump_def)
  with assms(2,3) have "kick_output env ?d = Some (ok, c')" by (auto simp: SetInputPortState_def resume_lost_def)
  from kick_output_quiet [OF this] have q: "quiet ?d c'" .
  show "dec c' = BOMX_AudioDecoderState_eSuspended" using quiet_dec [OF q] assms(2) by (simp add: resume_lost_def)
  have "\<not> tracks env ?d" using assms(1,2) by (auto simp: tracks_def resume_lost_def view_of_def)
  then show "\<not> tracks env c'" using quiet_tracks [OF q, of env] by simp
qed

section \<open>Witness\<close>

text \<open>The members as constructed, with an input port that is populated.\<close>

definition demo_adec_fresh :: adc where
  "demo_adec_fresh =
     set_in (set_def (\<lambda>d. d\<lparr>bPopulated := True\<rparr>) (in_port demo_adec))
       (demo_adec\<lparr>m_sub := demo_members\<rparr>)"


theorem adec_stop_returns_all_witness:
  "\<exists>c'. StopDecoder (sub (\<lambda>s. s\<lparr>m_decoderState := BOMX_AudioDecoderState_eStarted\<rparr>) demo_adec_queued) = Some (True, c')
     \<and> in_queue c' = [] \<and> m_log c' = m_log demo_adec_queued @ [(False, EmptyBufferDone 8)]"
proof -
  let ?c = "sub (\<lambda>s. s\<lparr>m_decoderState := BOMX_AudioDecoderState_eStarted\<rparr>) demo_adec_queued"
  have "input_inv ?c" using demo_adec_queued_inv input_inv_side [of ?c demo_adec_queued] by (simp add: input_side_def)
  moreover have "cb_EmptyBufferDone ?c" "\<not> m_locked ?c" using demo_queued_parts by (simp_all add: sub_def)
  ultimately show ?thesis using adec_stop_returns_all [of ?c] demo_queued_parts by auto
qed

end
