(* ===== verification/Adec_Params.thy ===== *)
theory Adec_Params
  imports Adec_Commands
begin

text \<open>
  \<open>media/libstagefrighthw/bomx_audio_decoder.cpp\<close>: the parameters of the audio decoder. It answers
  those of the codecs and of the decoded samples itself, checks the port definitions and formats,
  and leaves everything else to the base class. Nexus keeps the settings of the decoder; that it
  returns those set last is a law of the locale \<open>settings_store\<close>. How the fields of the OMX
  structure for an audio port lie in memory is the locale \<open>format_layout\<close>.
\<close>

section \<open>Structures\<close>

record OMX_AUDIO_PARAM_ANDROID_AC3TYPE =
  ac3_struct :: omx_header
  ac3_nPortIndex :: u32
  ac3_nChannels :: u32
  ac3_nSampleRate :: u32

datatype OMX_AUDIO_MP3STREAMFORMATTYPE =
  OMX_AUDIO_MP3StreamFormatMP1Layer3 | OMX_AUDIO_MP3StreamFormatMP2Layer3 | OMX_AUDIO_MP3StreamFormatOther u32

record OMX_AUDIO_PARAM_MP3TYPE =
  mp3_struct :: omx_header
  mp3_nPortIndex :: u32
  mp3_nChannels :: u32
  mp3_nSampleRate :: u32
  mp3_nAudioBandWidth :: u32
  mp3_eChannelMode :: OMX_AUDIO_CHANNELMODETYPE
  mp3_eFormat :: OMX_AUDIO_MP3STREAMFORMATTYPE

datatype OMX_NUMERICALDATATYPE = OMX_NumericalDataSigned | OMX_NumericalDataOther u32
datatype OMX_ENDIANTYPE = OMX_EndianLittle | OMX_EndianOther u32
datatype OMX_AUDIO_PCMMODETYPE = OMX_AUDIO_PCMModeLinear | OMX_AUDIO_PCMModeOther u32

datatype OMX_AUDIO_CHANNELTYPE =
    OMX_AUDIO_ChannelNone | OMX_AUDIO_ChannelLF | OMX_AUDIO_ChannelRF | OMX_AUDIO_ChannelCF | OMX_AUDIO_ChannelLS
  | OMX_AUDIO_ChannelRS | OMX_AUDIO_ChannelLFE | OMX_AUDIO_ChannelLR | OMX_AUDIO_ChannelRR | OMX_AUDIO_ChannelOther u32

record OMX_AUDIO_PARAM_PCMMODETYPE =
  pcm_struct :: omx_header
  pcm_nPortIndex :: u32
  pcm_nChannels :: u32
  pcm_eNumData :: OMX_NUMERICALDATATYPE
  pcm_eEndian :: OMX_ENDIANTYPE
  pcm_bInterleaved :: bool
  pcm_nBitPerSample :: u32
  pcm_nSamplingRate :: u32
  pcm_ePCMMode :: OMX_AUDIO_PCMMODETYPE
  pcm_eChannelMapping :: "OMX_AUDIO_CHANNELTYPE list"

record OMX_AUDIO_PARAM_ANDROID_AACPRESENTATIONTYPE =
  pres_nDrcCut :: int
  pres_nDrcBoost :: int
  pres_nTargetReferenceLevel :: int
  pres_nEncodedTargetLevel :: int

datatype adec_param =
    OMX_IndexParamAudioAndroidAc3 "OMX_AUDIO_PARAM_ANDROID_AC3TYPE option"
  | OMX_IndexParamAudioMp3 "OMX_AUDIO_PARAM_MP3TYPE option"
  | OMX_IndexParamAudioAac "OMX_AUDIO_PARAM_AACPROFILETYPE option"
  | OMX_IndexParamAudioPcm "OMX_AUDIO_PARAM_PCMMODETYPE option"
  | OMX_IndexParamAudioAndroidAacPresentation "OMX_AUDIO_PARAM_ANDROID_AACPRESENTATIONTYPE option"
  | BaseParam omx_param

text \<open>The coding modes that Nexus reports, for AC3 and AAC, and the channel modes of MPEG.\<close>

datatype acmod =
    eTwoMono_1_ch1_ch2 | eOneCenter_1_0_C | eTwoChannel_2_0_L_R | eThreeChannel_3_0_L_C_R | eThreeChannel_2_1_L_R_S
  | eFourChannel_3_1_L_C_R_S | eFourChannel_2_2_L_R_SL_SR | eFiveChannel_3_2_L_C_R_SL_SR | acmod_other u32

datatype NEXUS_AudioMpegChannelMode =
    NEXUS_AudioMpegChannelMode_eStereo | NEXUS_AudioMpegChannelMode_eIntensityStereo | NEXUS_AudioMpegChannelMode_eDualChannel
  | NEXUS_AudioMpegChannelMode_eSingleChannel | NEXUS_AudioMpegChannelMode_other u32

record NEXUS_AudioDecoderStatus =
  st_started :: bool
  st_sampleRate :: u32
  st_ac3_acmod :: acmod
  st_ac3_lfe :: bool
  st_mpeg_channelMode :: NEXUS_AudioMpegChannelMode
  st_aac_acmod :: acmod
  st_aac_lfe :: bool
  st_aac_bitrate :: u32

text \<open>
  What the parameters need of Nexus and of the OMX headers: the answers about settings and status,
  two bounds, the codings behind their numbers, the addresses of the two MIME type arrays of the
  object, and the audio format of a port: its MIME type pointer, the structure with a coding and a
  MIME type and the rest zero, and the structure with another coding and no error concealment. Then
  the numbers of two codings, the AAC structure with every byte zero, and properties that are strings.
\<close>

record adec_nexus =
  n_settings :: "nexus_log \<Rightarrow> NEXUS_AudioDecoderDecodeToMemorySettings"
  n_status :: "nexus_log \<Rightarrow> NEXUS_AudioDecoderStatus"
  n_codec :: "nexus_log \<Rightarrow> NEXUS_AudioDecoderCodecSettings"
  OMX_AUDIO_MAXCHANNELS :: nat
  NEXUS_AudioChannel_count :: nat
  n_codingtype :: "u32 \<Rightarrow> OMX_AUDIO_CODINGTYPE"
  n_inputMime :: addr
  n_outputMime :: addr
  n_mime :: "port_format \<Rightarrow> addr"
  n_portdef :: "u32 \<Rightarrow> addr \<Rightarrow> bool \<Rightarrow> omx_opaque"
  n_recode :: "port_format \<Rightarrow> u32 \<Rightarrow> omx_opaque"
  n_pcmCoding :: u32
  n_unused :: u32
  n_zeroAac :: OMX_AUDIO_PARAM_AACPROFILETYPE
  n_string :: "nexus_log \<Rightarrow> string"

section \<open>Reading parameters\<close>

definition acmod_channels :: "acmod \<Rightarrow> u32" where
  "acmod_channels m =
     (case m of
        eOneCenter_1_0_C \<Rightarrow> 1
      | eTwoMono_1_ch1_ch2 \<Rightarrow> 2 | eTwoChannel_2_0_L_R \<Rightarrow> 2
      | eThreeChannel_3_0_L_C_R \<Rightarrow> 3 | eThreeChannel_2_1_L_R_S \<Rightarrow> 3
      | eFourChannel_3_1_L_C_R_S \<Rightarrow> 4 | eFourChannel_2_2_L_R_SL_SR \<Rightarrow> 4
      | eFiveChannel_3_2_L_C_R_SL_SR \<Rightarrow> 5
      | acmod_other _ \<Rightarrow> 0)"

definition get_ac3 :: "NEXUS_AudioDecoderStatus \<Rightarrow> OMX_AUDIO_PARAM_ANDROID_AC3TYPE \<Rightarrow> OMX_AUDIO_PARAM_ANDROID_AC3TYPE" where
  "get_ac3 st p =
     (let n = acmod_channels (st_ac3_acmod st)
      in p\<lparr>ac3_nChannels := (if st_ac3_lfe st then n + 1 else n), ac3_nSampleRate := st_sampleRate st\<rparr>)"

definition get_mp3 :: "NEXUS_AudioDecoderStatus \<Rightarrow> OMX_AUDIO_PARAM_MP3TYPE \<Rightarrow> OMX_AUDIO_PARAM_MP3TYPE" where
  "get_mp3 st p =
     (let (n, mode) =
        (case st_mpeg_channelMode st of
           NEXUS_AudioMpegChannelMode_eStereo \<Rightarrow> (2, OMX_AUDIO_ChannelModeStereo)
         | NEXUS_AudioMpegChannelMode_eIntensityStereo \<Rightarrow> (2, OMX_AUDIO_ChannelModeJointStereo)
         | NEXUS_AudioMpegChannelMode_eDualChannel \<Rightarrow> (2, OMX_AUDIO_ChannelModeDual)
         | NEXUS_AudioMpegChannelMode_eSingleChannel \<Rightarrow> (1, OMX_AUDIO_ChannelModeMono)
         | NEXUS_AudioMpegChannelMode_other _ \<Rightarrow> (0, OMX_AUDIO_ChannelModeMax))
      in p\<lparr>mp3_nChannels := n, mp3_eChannelMode := mode, mp3_nSampleRate := st_sampleRate st, mp3_nAudioBandWidth := 0,
           mp3_eFormat := (if st_sampleRate st \<ge> 32000 then OMX_AUDIO_MP3StreamFormatMP1Layer3 else OMX_AUDIO_MP3StreamFormatMP2Layer3)\<rparr>)"

text \<open>The AAC switch has no case for three channels with a surround channel: it counts none.\<close>

definition get_aac :: "NEXUS_AudioDecoderStatus \<Rightarrow> OMX_AUDIO_PARAM_AACPROFILETYPE \<Rightarrow> OMX_AUDIO_PARAM_AACPROFILETYPE" where
  "get_aac st p =
     (let (n, mode) =
        (case st_aac_acmod st of
           eOneCenter_1_0_C \<Rightarrow> (1, OMX_AUDIO_ChannelModeMono)
         | eTwoMono_1_ch1_ch2 \<Rightarrow> (2, OMX_AUDIO_ChannelModeDual)
         | eTwoChannel_2_0_L_R \<Rightarrow> (2, OMX_AUDIO_ChannelModeStereo)
         | eThreeChannel_3_0_L_C_R \<Rightarrow> (3, OMX_AUDIO_ChannelModeStereo)
         | eFourChannel_3_1_L_C_R_S \<Rightarrow> (4, OMX_AUDIO_ChannelModeStereo)
         | eFourChannel_2_2_L_R_SL_SR \<Rightarrow> (4, OMX_AUDIO_ChannelModeStereo)
         | eFiveChannel_3_2_L_C_R_SL_SR \<Rightarrow> (5, OMX_AUDIO_ChannelModeStereo)
         | _ \<Rightarrow> (0, OMX_AUDIO_ChannelModeStereo))
      in p\<lparr>aac_nChannels := (if st_aac_lfe st then n + 1 else n), aac_eChannelMode := mode, aac_nBitRate := st_aac_bitrate st,
           aac_nAudioBandWidth := 0, aac_nFrameLength := 0, aac_nAACtools := 0, aac_nAACERtools := 0,
           aac_nSampleRate := st_sampleRate st\<rparr>)"

fun omx_channel :: "NEXUS_AudioChannel \<Rightarrow> OMX_AUDIO_CHANNELTYPE" where
  "omx_channel NEXUS_AudioChannel_eLeft = OMX_AUDIO_ChannelLF"
| "omx_channel NEXUS_AudioChannel_eRight = OMX_AUDIO_ChannelRF"
| "omx_channel NEXUS_AudioChannel_eLeftSurround = OMX_AUDIO_ChannelLR"
| "omx_channel NEXUS_AudioChannel_eRightSurround = OMX_AUDIO_ChannelRR"
| "omx_channel NEXUS_AudioChannel_eLeftRear = OMX_AUDIO_ChannelLS"
| "omx_channel NEXUS_AudioChannel_eRightRear = OMX_AUDIO_ChannelRS"
| "omx_channel NEXUS_AudioChannel_eCenter = OMX_AUDIO_ChannelCF"
| "omx_channel NEXUS_AudioChannel_eLfe = OMX_AUDIO_ChannelLFE"
| "omx_channel _ = OMX_AUDIO_ChannelNone"

text \<open>The layout has an element for each channel of Nexus, so that the loop stays within it.\<close>

definition get_mapping :: "adec_nexus \<Rightarrow> NEXUS_AudioDecoderDecodeToMemorySettings \<Rightarrow> nat \<Rightarrow> OMX_AUDIO_CHANNELTYPE" where
  "get_mapping nx ds i =
     (if i \<ge> NEXUS_AudioChannel_count nx \<or> i \<ge> unat (ds_numPcmChannels ds) then OMX_AUDIO_ChannelNone
      else omx_channel (ds_channelLayout ds ! i))"

definition get_pcm :: "adec_nexus \<Rightarrow> NEXUS_AudioDecoderDecodeToMemorySettings \<Rightarrow> u32 \<Rightarrow> OMX_AUDIO_PARAM_PCMMODETYPE \<Rightarrow> OMX_AUDIO_PARAM_PCMMODETYPE" where
  "get_pcm nx ds hz p =
     p\<lparr>pcm_eNumData := OMX_NumericalDataSigned, pcm_eEndian := OMX_EndianLittle, pcm_bInterleaved := True,
       pcm_nBitPerSample := ds_bitsPerSample ds, pcm_nSamplingRate := hz, pcm_ePCMMode := OMX_AUDIO_PCMModeLinear,
       pcm_nChannels := ds_numPcmChannels ds, pcm_eChannelMapping := map (get_mapping nx ds) [0..<OMX_AUDIO_MAXCHANNELS nx]\<rparr>"

text \<open>\<open>checked\<close> is the validation of the structure and of its port, which every case begins with.\<close>

definition checked ::
  "omx_abi \<Rightarrow> omx_struct \<Rightarrow> ('p \<Rightarrow> omx_header) \<Rightarrow> ('p \<Rightarrow> u32) \<Rightarrow> u32 \<Rightarrow> 'p option \<Rightarrow> OMX_ERRORTYPE" where
  "checked abi ty hdr port expected ptr =
     (let v = BOMX_STRUCT_VALIDATE abi ty (map_option hdr ptr) in
      if v \<noteq> OMX_ErrorNone then v
      else case ptr of None \<Rightarrow> v
        | Some p \<Rightarrow> if port p \<noteq> expected then BOMX_ERR_TRACE OMX_ErrorBadPortIndex else OMX_ErrorNone)"

fun Adec_GetParameter :: "'b adec_env \<Rightarrow> adec_nexus \<Rightarrow> adec_param \<Rightarrow> adc \<Rightarrow> OMX_ERRORTYPE \<times> adec_param \<times> adc" where
  "Adec_GetParameter env nx (OMX_IndexParamAudioAndroidAc3 ptr) c =
     (let v = checked (e_abi env) AUDIO_AC3 ac3_struct ac3_nPortIndex (m_audioPortBase c) ptr in
      if v \<noteq> OMX_ErrorNone then (v, OMX_IndexParamAudioAndroidAc3 ptr, c)
      else let c = nexus Decoder_GetStatus c
           in (OMX_ErrorNone, OMX_IndexParamAudioAndroidAc3 (map_option (get_ac3 (n_status nx (nlog c))) ptr), c))"
| "Adec_GetParameter env nx (OMX_IndexParamAudioMp3 ptr) c =
     (let v = checked (e_abi env) AUDIO_MP3 mp3_struct mp3_nPortIndex (m_audioPortBase c) ptr in
      if v \<noteq> OMX_ErrorNone then (v, OMX_IndexParamAudioMp3 ptr, c)
      else let c = nexus Decoder_GetStatus c
           in (OMX_ErrorNone, OMX_IndexParamAudioMp3 (map_option (get_mp3 (n_status nx (nlog c))) ptr), c))"
| "Adec_GetParameter env nx (OMX_IndexParamAudioAac ptr) c =
     (let v = checked (e_abi env) AUDIO_AAC aac_struct aac_nPortIndex (m_audioPortBase c) ptr in
      if v \<noteq> OMX_ErrorNone then (v, OMX_IndexParamAudioAac ptr, c)
      else
        let p = m_aacParams (m_sub c); c = nexus Decoder_GetStatus c; st = n_status nx (nlog c) in
        if st_started st
        then (OMX_ErrorNone, OMX_IndexParamAudioAac (Some (get_aac st p)), sub (\<lambda>s. s\<lparr>m_aacParams := get_aac st p\<rparr>) c)
        else (OMX_ErrorNone, OMX_IndexParamAudioAac (Some p), c))"
| "Adec_GetParameter env nx (OMX_IndexParamAudioPcm ptr) c =
     (let v = checked (e_abi env) AUDIO_PCM pcm_struct pcm_nPortIndex (m_audioPortBase c + 1) ptr in
      if v \<noteq> OMX_ErrorNone then (v, OMX_IndexParamAudioPcm ptr, c)
      else
        let c = nexus GetDecodeToMemorySettings c; ds = n_settings nx (nlog c); c = nexus Decoder_GetStatus c
        in (OMX_ErrorNone, OMX_IndexParamAudioPcm (map_option (get_pcm nx ds (m_sampleRate (m_sub c))) ptr), c))"
| "Adec_GetParameter env nx (OMX_IndexParamAudioAndroidAacPresentation ptr) c =
     (BOMX_ERR_TRACE (BOMX_ERR_TRACE OMX_ErrorUnsupportedIndex), OMX_IndexParamAudioAndroidAacPresentation ptr, c)"
| "Adec_GetParameter env nx (BaseParam p) c =
     (let (err, p) = GetParameter (e_abi env) p c in (BOMX_ERR_TRACE err, BaseParam p, c))"

section \<open>Role and port format\<close>

fun mime_of :: "OMX_AUDIO_CODINGTYPE \<Rightarrow> string option" where
  "mime_of OMX_AUDIO_CodingAndroidAC3 = Some ''audio/ac3''"
| "mime_of OMX_AUDIO_CodingMP3 = Some ''audio/mp3''"
| "mime_of OMX_AUDIO_CodingAAC = Some ''audio/aac''"
| "mime_of OMX_AUDIO_CodingPCM = Some ''audio/x-raw''"
| "mime_of (OMX_AUDIO_CodingOther _) = None"

definition BOMX_AudioDecoder_InitMimeType :: "omx_abi \<Rightarrow> OMX_AUDIO_CODINGTYPE \<Rightarrow> OMX_ERRORTYPE \<times> string" where
  "BOMX_AudioDecoder_InitMimeType abi eCompressionFormat =
     (case mime_of eCompressionFormat of
        Some m \<Rightarrow> (OMX_ErrorNone, strncpy_str (OMX_MAX_STRINGNAME_SIZE abi) m)
      | None \<Rightarrow> (OMX_ErrorBadParameter, strncpy_str (OMX_MAX_STRINGNAME_SIZE abi) ''unknown''))"

definition set_port_format :: "'b adec_env \<Rightarrow> adec_nexus \<Rightarrow> OMX_AUDIO_PARAM_PORTFORMATTYPE option \<Rightarrow> adc \<Rightarrow> OMX_ERRORTYPE \<times> adc" where
  "set_port_format env nx ptr c =
     (let v = BOMX_STRUCT_VALIDATE (e_abi env) AUDIO_PORTFORMAT (map_option apf_struct ptr) in
      if v \<noteq> OMX_ErrorNone then (v, c)
      else case ptr of None \<Rightarrow> (v, c) | Some pFormat \<Rightarrow>
        (case FindPortByIndex c (apf_nPortIndex pFormat) of
           None \<Rightarrow> (BOMX_ERR_TRACE OMX_ErrorBadPortIndex, c)
         | Some pPort \<Rightarrow>
           if eDir (m_definition pPort) = OMX_DirInput then
             let (err, mime) = BOMX_AudioDecoder_InitMimeType (e_abi env) (n_codingtype nx (apf_eEncoding pFormat));
                 c = sub (\<lambda>s. s\<lparr>m_inputMimeType := mime\<rparr>) c in
             if err \<noteq> OMX_ErrorNone then (BOMX_ERR_TRACE err, c)
             else
               let portDefs = n_portdef nx (apf_eEncoding pFormat) (n_inputMime nx) False;
                   (err, p) = AudioPort_SetPortFormat (in_port c) (audio_formats (m_pPortFormats (in_port c))) pFormat portDefs in
               if err \<noteq> OMX_ErrorNone then (BOMX_ERR_TRACE err, c) else (OMX_ErrorNone, set_in p c)
           else
             if n_codingtype nx (apf_eEncoding pFormat) \<noteq> OMX_AUDIO_CodingPCM then (BOMX_ERR_TRACE OMX_ErrorBadParameter, c)
             else
               let portDefs = n_recode nx (pd_format (m_definition pPort)) (apf_eEncoding pFormat);
                   (err, p) = AudioPort_SetPortFormat (out_port c) (audio_formats (m_pPortFormats (out_port c))) pFormat portDefs in
               if err \<noteq> OMX_ErrorNone then (BOMX_ERR_TRACE err, c) else (OMX_ErrorNone, set_out p c)))"

definition set_role :: "'b adec_env \<Rightarrow> adec_nexus \<Rightarrow> OMX_PARAM_COMPONENTROLETYPE option \<Rightarrow> adc \<Rightarrow> OMX_ERRORTYPE \<times> adc" where
  "set_role env nx ptr c =
     (let v = BOMX_STRUCT_VALIDATE (e_abi env) COMPONENTROLE (map_option cr_struct ptr) in
      if v \<noteq> OMX_ErrorNone then (v, c)
      else case ptr of None \<Rightarrow> (v, c) | Some pRole \<Rightarrow>
        (case find (\<lambda>r. role_name r = cRole pRole) (m_roles (m_sub c)) of
           None \<Rightarrow> (BOMX_ERR_TRACE OMX_ErrorBadParameter, c)
         | Some r \<Rightarrow>
           let format = \<lparr>apf_struct = BOMX_STRUCT_INIT (e_abi env) AUDIO_PORTFORMAT, apf_nPortIndex = m_audioPortBase c, apf_nIndex = 0,
                         apf_eEncoding = role_omxCodec r\<rparr>;
               (err, c) = set_port_format env nx (Some format) c in
           if err \<noteq> OMX_ErrorNone then (BOMX_ERR_TRACE err, c) else (OMX_ErrorNone, SetRole (e_abi env) (cRole pRole) c)))"

section \<open>Port definition\<close>

text \<open>An array from \<open>new\<close>, and its release; the address is 0 when there is no memory.\<close>

definition new_array :: "'b adec_env \<Rightarrow> nat \<Rightarrow> adc \<Rightarrow> addr \<times> adc" where
  "new_array env n c =
     (let a = e_new env (nlog c); c = nexus (NewArray n) c
      in (a, if a = NULL then c else sub (\<lambda>s. s\<lparr>m_arrays := (m_arrays s)(a \<mapsto> n)\<rparr>) c))"

definition delete_array :: "addr \<Rightarrow> adc \<Rightarrow> adc" where
  "delete_array a c = sub (\<lambda>s. s\<lparr>m_arrays := (m_arrays s)(a := None)\<rparr>) (nexus (Delete a) c)"

definition resize_output :: "'b adec_env \<Rightarrow> adec_nexus \<Rightarrow> u32 \<Rightarrow> adc \<Rightarrow> OMX_ERRORTYPE \<times> adc" where
  "resize_output env nx n c =
     (let c = (if m_pFrameStatus (m_sub c) \<noteq> NULL
               then sub (\<lambda>s. s\<lparr>m_pFrameStatus := NULL\<rparr>) (delete_array (m_pFrameStatus (m_sub c)) c) else c);
          c = sub (\<lambda>s. s\<lparr>m_pMemoryBlocks := NULL\<rparr>) c;
          (a, c) = new_array env (unat n) c;
          c = sub (\<lambda>s. s\<lparr>m_pFrameStatus := a\<rparr>) c in
      if a = NULL then (BOMX_ERR_TRACE OMX_ErrorInsufficientResources, c)
      else
        let (a, c) = new_array env (unat n) c; c = sub (\<lambda>s. s\<lparr>m_pMemoryBlocks := a\<rparr>) c in
        if a = NULL then (BOMX_ERR_TRACE OMX_ErrorInsufficientResources, c)
        else
          let c = nexus GetDecodeToMemorySettings c; decSettings = (n_settings nx (nlog c))\<lparr>ds_maxBuffers := n\<rparr>;
              (ok, c) = nexus_ok env (SetDecodeToMemorySettings decSettings) c in
          if \<not> ok then (BOMX_ERR_TRACE OMX_ErrorUndefined, c) else (OMX_ErrorNone, c))"

definition set_port_definition :: "'b adec_env \<Rightarrow> adec_nexus \<Rightarrow> OMX_PARAM_PORTDEFINITIONTYPE option \<Rightarrow> adc \<Rightarrow> OMX_ERRORTYPE \<times> adc" where
  "set_port_definition env nx ptr c =
     (let v = BOMX_STRUCT_VALIDATE (e_abi env) PORTDEFINITION (map_option pd_struct ptr) in
      if v \<noteq> OMX_ErrorNone then (v, c)
      else case ptr of None \<Rightarrow> (v, c) | Some pDef \<Rightarrow>
        if nPortIndex pDef = m_audioPortBase c \<and> n_mime nx (pd_format pDef) \<noteq> n_inputMime nx
        then (BOMX_ERR_TRACE OMX_ErrorBadParameter, c)
        else if nPortIndex pDef = m_audioPortBase c + 1 \<and> n_mime nx (pd_format pDef) \<noteq> n_outputMime nx
        then (BOMX_ERR_TRACE OMX_ErrorBadParameter, c)
        else if FindPortByIndex c (nPortIndex pDef) = None then (BOMX_ERR_TRACE OMX_ErrorBadPortIndex, c)
        else if nPortIndex pDef = m_audioPortBase c \<and> e_coding env (pd_format pDef) \<noteq> GetCodec env c
        then (BOMX_ERR_TRACE OMX_ErrorBadParameter, c)
        else
          let (err, c) = (if nPortIndex pDef = m_audioPortBase c + 1 then resize_output env nx (nBufferCountActual pDef) c
                          else (OMX_ErrorNone, c)) in
          if err \<noteq> OMX_ErrorNone then (err, c)
          else
            let (err, c) = SetParameter (e_abi env) (OMX_IndexParamPortDefinition (Some pDef)) c in
            if err \<noteq> OMX_ErrorNone then (BOMX_ERR_TRACE err, c) else (OMX_ErrorNone, c))"

section \<open>Samples\<close>

fun nexus_channel :: "OMX_AUDIO_CHANNELTYPE \<Rightarrow> NEXUS_AudioChannel" where
  "nexus_channel OMX_AUDIO_ChannelLF = NEXUS_AudioChannel_eLeft"
| "nexus_channel OMX_AUDIO_ChannelRF = NEXUS_AudioChannel_eRight"
| "nexus_channel OMX_AUDIO_ChannelLR = NEXUS_AudioChannel_eLeftSurround"
| "nexus_channel OMX_AUDIO_ChannelRR = NEXUS_AudioChannel_eRightSurround"
| "nexus_channel OMX_AUDIO_ChannelLS = NEXUS_AudioChannel_eLeftRear"
| "nexus_channel OMX_AUDIO_ChannelRS = NEXUS_AudioChannel_eRightRear"
| "nexus_channel OMX_AUDIO_ChannelCF = NEXUS_AudioChannel_eCenter"
| "nexus_channel OMX_AUDIO_ChannelLFE = NEXUS_AudioChannel_eLfe"
| "nexus_channel _ = NEXUS_AudioChannel_eMax"

text \<open>The loop over the channels; it must stay within both arrays.\<close>

fun layout_loop :: "nat \<Rightarrow> nat \<Rightarrow> OMX_AUDIO_CHANNELTYPE list \<Rightarrow> NEXUS_AudioChannel list \<Rightarrow> NEXUS_AudioChannel list option" where
  "layout_loop i 0 mapping layout = Some layout"
| "layout_loop i (Suc n) mapping layout =
     (if i < length mapping \<and> i < length layout
      then layout_loop (i + 1) n mapping (layout[i := nexus_channel (mapping ! i)]) else None)"

definition pcm_supported :: "OMX_AUDIO_PARAM_PCMMODETYPE \<Rightarrow> bool" where
  "pcm_supported p \<longleftrightarrow>
     \<not> (pcm_eNumData p \<noteq> OMX_NumericalDataSigned) \<and> \<not> (pcm_eEndian p \<noteq> OMX_EndianLittle)
     \<and> \<not> (pcm_nChannels p = 0 \<or> pcm_nChannels p > 8) \<and> \<not> (\<not> pcm_bInterleaved p \<and> pcm_nChannels p > 1)
     \<and> \<not> (pcm_ePCMMode p \<noteq> OMX_AUDIO_PCMModeLinear)
     \<and> \<not> (pcm_nSamplingRate p mod 8000 \<noteq> 0 \<and> pcm_nSamplingRate p mod 11025 \<noteq> 0) \<and> \<not> (pcm_nSamplingRate p > 48000)"

definition set_pcm :: "'b adec_env \<Rightarrow> adec_nexus \<Rightarrow> OMX_AUDIO_PARAM_PCMMODETYPE option \<Rightarrow> adc \<Rightarrow> (OMX_ERRORTYPE \<times> adc) option" where
  "set_pcm env nx ptr c =
     (let v = checked (e_abi env) AUDIO_PCM pcm_struct pcm_nPortIndex (m_audioPortBase c + 1) ptr in
      if v \<noteq> OMX_ErrorNone then Some (v, c)
      else do {
        pPcm \<leftarrow> ptr;
        let c = nexus GetDecodeToMemorySettings c;
        let decSettings = n_settings nx (nlog c);
        if \<not> pcm_supported pPcm then Some (BOMX_ERR_TRACE OMX_ErrorBadParameter, c)
        else do {
          layout \<leftarrow> (if pcm_nChannels pPcm \<ge> 2
                     then layout_loop 0 (min (OMX_AUDIO_MAXCHANNELS nx) (unat (pcm_nChannels pPcm))) (pcm_eChannelMapping pPcm) (ds_channelLayout decSettings)
                     else if length (ds_channelLayout decSettings) < 2 then None
                     else Some ((ds_channelLayout decSettings)[0 := NEXUS_AudioChannel_eLeft, 1 := NEXUS_AudioChannel_eRight]));
          let decSettings = decSettings\<lparr>ds_numPcmChannels := (if pcm_nChannels pPcm \<ge> 2 then pcm_nChannels pPcm else 2),
                                        ds_channelLayout := layout, ds_bitsPerSample := pcm_nBitPerSample pPcm\<rparr>;
          let (ok, c) = nexus_ok env (SetDecodeToMemorySettings decSettings) c;
          if \<not> ok then Some (OMX_ErrorUndefined, c)
          else Some (OMX_ErrorNone, sub (\<lambda>s. s\<lparr>m_sampleRate := pcm_nSamplingRate pPcm, m_bitsPerSample := ds_bitsPerSample decSettings,
                                               m_numPcmChannels := ds_numPcmChannels decSettings\<rparr>) c)}})"

section \<open>Codecs\<close>

text \<open>The macro multiplies in 32 bits; an overflow of the signed product is undefined.\<close>

definition B_DRC_TO_NEXUS :: "int \<Rightarrow> u32 option" where
  "B_DRC_TO_NEXUS cutboost =
     (if - (2 ^ 31) \<le> cutboost * 100 \<and> cutboost * 100 < 2 ^ 31 then Some (of_int (c_div (cutboost * 100) 127)) else None)"

definition set_presentation :: "'b adec_env \<Rightarrow> adec_nexus \<Rightarrow> OMX_AUDIO_PARAM_ANDROID_AACPRESENTATIONTYPE option \<Rightarrow> adc \<Rightarrow> (OMX_ERRORTYPE \<times> adc) option" where
  "set_presentation env nx ptr c =
     do {
       let c = nexus GetCodecSettings c;
       let cs = n_codec nx (nlog c);
       pAac \<leftarrow> ptr;
       cs \<leftarrow> (if pres_nDrcCut pAac \<ge> 0 then do {x \<leftarrow> B_DRC_TO_NEXUS (pres_nDrcCut pAac); Some (cs\<lparr>cs_cut := x\<rparr>)} else Some cs);
       cs \<leftarrow> (if pres_nDrcBoost pAac \<ge> 0 then do {x \<leftarrow> B_DRC_TO_NEXUS (pres_nDrcBoost pAac); Some (cs\<lparr>cs_boost := x\<rparr>)} else Some cs);
       let cs = (if pres_nTargetReferenceLevel pAac \<ge> 0 then cs\<lparr>cs_drcTargetLevel := of_int (pres_nTargetReferenceLevel pAac)\<rparr> else cs);
       let cs = (if pres_nEncodedTargetLevel pAac \<ge> 0 then cs\<lparr>cs_drcDefaultLevel := of_int (pres_nEncodedTargetLevel pAac)\<rparr> else cs);
       Some (OMX_ErrorNone, snd (nexus_ok env (SetCodecSettings cs) c))}"

definition aac_format_supported :: "OMX_AUDIO_AACSTREAMFORMATTYPE \<Rightarrow> bool" where
  "aac_format_supported f =
     (case f of OMX_AUDIO_AACStreamFormatMP2ADTS \<Rightarrow> True | OMX_AUDIO_AACStreamFormatMP4ADTS \<Rightarrow> True
      | OMX_AUDIO_AACStreamFormatMP4FF \<Rightarrow> True | _ \<Rightarrow> False)"

definition set_aac :: "'b adec_env \<Rightarrow> OMX_AUDIO_PARAM_AACPROFILETYPE option \<Rightarrow> adc \<Rightarrow> OMX_ERRORTYPE \<times> adc" where
  "set_aac env ptr c =
     (let v = checked (e_abi env) AUDIO_AAC aac_struct aac_nPortIndex (m_audioPortBase c) ptr in
      if v \<noteq> OMX_ErrorNone then (v, c)
      else case ptr of None \<Rightarrow> (v, c)
        | Some pAac \<Rightarrow>
          if aac_format_supported (aac_eAACStreamFormat pAac) then (OMX_ErrorNone, sub (\<lambda>s. s\<lparr>m_aacParams := pAac\<rparr>) c)
          else (BOMX_ERR_TRACE OMX_ErrorBadParameter, c))"

fun Adec_SetParameter :: "'b adec_env \<Rightarrow> adec_nexus \<Rightarrow> adec_param \<Rightarrow> adc \<Rightarrow> (OMX_ERRORTYPE \<times> adc) option" where
  "Adec_SetParameter env nx (BaseParam (OMX_IndexParamStandardComponentRole ptr)) c = Some (set_role env nx ptr c)"
| "Adec_SetParameter env nx (BaseParam (OMX_IndexParamAudioPortFormat ptr)) c = Some (set_port_format env nx ptr c)"
| "Adec_SetParameter env nx (BaseParam (OMX_IndexParamPortDefinition ptr)) c = Some (set_port_definition env nx ptr c)"
| "Adec_SetParameter env nx (OMX_IndexParamAudioPcm ptr) c = set_pcm env nx ptr c"
| "Adec_SetParameter env nx (OMX_IndexParamAudioAndroidAc3 ptr) c =
     Some (checked (e_abi env) AUDIO_AC3 ac3_struct ac3_nPortIndex (m_audioPortBase c) ptr, c)"
| "Adec_SetParameter env nx (OMX_IndexParamAudioAac ptr) c = Some (set_aac env ptr c)"
| "Adec_SetParameter env nx (OMX_IndexParamAudioAndroidAacPresentation ptr) c = set_presentation env nx ptr c"
| "Adec_SetParameter env nx (OMX_IndexParamAudioMp3 ptr) c = Some (BOMX_ERR_TRACE (BOMX_ERR_TRACE OMX_ErrorUnsupportedIndex), c)"
| "Adec_SetParameter env nx (BaseParam p) c = Some (let (err, c) = SetParameter (e_abi env) p c in (BOMX_ERR_TRACE err, c))"

section \<open>What Nexus keeps\<close>

text \<open>The settings read are those last set without an error.\<close>

locale settings_store =
  fixes err :: "nexus_log \<Rightarrow> u32" and settings :: "nexus_log \<Rightarrow> NEXUS_AudioDecoderDecodeToMemorySettings"
  assumes stored: "err (l @ [SetDecodeToMemorySettings s]) = 0 \<Longrightarrow> settings (l @ [SetDecodeToMemorySettings s]) = s"
    and kept: "(\<And>s. x \<noteq> SetDecodeToMemorySettings s) \<Longrightarrow> settings (l @ [x]) = settings l"
begin

lemma read_back:
  assumes "err (l @ [SetDecodeToMemorySettings s]) = 0" "\<forall>x \<in> set xs. \<forall>s. x \<noteq> SetDecodeToMemorySettings s"
  shows "settings (l @ SetDecodeToMemorySettings s # xs) = s"
  using assms(2)
proof (induction xs rule: rev_induct)
  case Nil show ?case using stored [OF assms(1)] by simp
next
  case (snoc x xs)
  then have "settings ((l @ SetDecodeToMemorySettings s # xs) @ [x]) = settings (l @ SetDecodeToMemorySettings s # xs)"
    by (intro kept) simp
  with snoc show ?case by simp
qed

end

text \<open>Nexus as a replay of the calls, from the settings it starts with.\<close>

fun replay_settings ::
  "(nexus_log \<Rightarrow> u32) \<Rightarrow> NEXUS_AudioDecoderDecodeToMemorySettings \<Rightarrow> nexus_log \<Rightarrow> NEXUS_AudioDecoderDecodeToMemorySettings" where
  "replay_settings err d [] = d"
| "replay_settings err d (x # xs) =
     (case x of
        SetDecodeToMemorySettings s \<Rightarrow> if err (rev (x # xs)) = 0 then s else replay_settings err d xs
      | _ \<Rightarrow> replay_settings err d xs)"

interpretation replayed: settings_store err "\<lambda>l. replay_settings err d (rev l)" for err d
  by unfold_locales (auto split: nexus_call.splits)

text \<open>The fields of the audio format of a port.\<close>

locale format_layout =
  fixes codingtype :: "u32 \<Rightarrow> OMX_AUDIO_CODINGTYPE" and coding :: "port_format \<Rightarrow> OMX_AUDIO_CODINGTYPE" and mime :: "port_format \<Rightarrow> addr"
    and mimes :: "addr set" and portdef :: "u32 \<Rightarrow> addr \<Rightarrow> bool \<Rightarrow> omx_opaque" and recode :: "port_format \<Rightarrow> u32 \<Rightarrow> omx_opaque"
  assumes coding_portdef: "coding (FormatAudio (portdef e m b)) = codingtype e"
    and mime_portdef: "m \<in> mimes \<Longrightarrow> mime (FormatAudio (portdef e m b)) = m"
    and coding_recode: "coding (FormatAudio (recode f e)) = codingtype e"
    and mime_recode: "mime f \<in> mimes \<Longrightarrow> mime (FormatAudio (recode f e)) = mime f"

text \<open>The law for the records of a component.\<close>

definition layout_laws :: "'b adec_env \<Rightarrow> adec_nexus \<Rightarrow> bool" where
  "layout_laws env nx \<longleftrightarrow>
     format_layout (n_codingtype nx) (e_coding env) (n_mime nx) {n_inputMime nx, n_outputMime nx} (n_portdef nx) (n_recode nx)"

lemmas layout_law_facts =
  format_layout.coding_portdef format_layout.mime_portdef format_layout.coding_recode format_layout.mime_recode

text \<open>A layout of three words: coding, MIME type and concealment.\<close>

fun word_coding :: "port_format \<Rightarrow> u32" where
  "word_coding (FormatAudio (e # _)) = e" | "word_coding _ = 0"
fun word_mime :: "port_format \<Rightarrow> addr" where
  "word_mime (FormatAudio (_ # m # _)) = unat m" | "word_mime _ = 0"

definition omx_coding :: "u32 \<Rightarrow> OMX_AUDIO_CODINGTYPE" where
  "omx_coding e = (if e = 2 then OMX_AUDIO_CodingPCM else if e = 22 then OMX_AUDIO_CodingAAC else if e = 23 then OMX_AUDIO_CodingMP3
     else if e = 0x6F000001 then OMX_AUDIO_CodingAndroidAC3 else OMX_AUDIO_CodingOther e)"

interpretation words: format_layout omx_coding "omx_coding \<circ> word_coding" word_mime "{m. m < 2 ^ 32}"
    "\<lambda>e m b. [e, of_nat m, if b then 1 else 0]" "\<lambda>f e. [e, of_nat (word_mime f), 0]"
  by unfold_locales (auto simp: unat_of_nat take_bit_nat_eq_self)

section \<open>Well-formed components\<close>

text \<open>
  Two audio ports with their directions, each with the MIME type of the component, a codec that has
  a MIME type on the input, between two and eight channels, and two arrays that have an element for
  every buffer of the output port.
\<close>

definition array_ok :: "addr \<Rightarrow> adc \<Rightarrow> bool" where
  "array_ok a c \<longleftrightarrow> a \<noteq> NULL \<and> (\<exists>n. m_arrays (m_sub c) a = Some n \<and> unat (nBufferCountActual (m_definition (out_port c))) \<le> n)"

definition ports_ok :: "'b adec_env \<Rightarrow> adec_nexus \<Rightarrow> adc \<Rightarrow> bool" where
  "ports_ok env nx c \<longleftrightarrow>
     length (m_pAudioPorts c) = 2 \<and> m_audioPortBase c = 0 \<and> m_pVideoPorts c = [] \<and> m_pImagePorts c = [] \<and> m_pOtherPorts c = []
     \<and> eDir (m_definition (in_port c)) = OMX_DirInput \<and> eDir (m_definition (out_port c)) = OMX_DirOutput
     \<and> n_mime nx (pd_format (m_definition (in_port c))) = n_inputMime nx
     \<and> n_mime nx (pd_format (m_definition (out_port c))) = n_outputMime nx
     \<and> mime_of (GetCodec env c) \<noteq> None"

definition adec_wf :: "'b adec_env \<Rightarrow> adec_nexus \<Rightarrow> adc \<Rightarrow> bool" where
  "adec_wf env nx c \<longleftrightarrow>
     ports_ok env nx c \<and> 2 \<le> m_numPcmChannels (m_sub c) \<and> m_numPcmChannels (m_sub c) \<le> 8
     \<and> array_ok (m_pFrameStatus (m_sub c)) c \<and> array_ok (m_pMemoryBlocks (m_sub c)) c"

abbreviation other_ports :: "adc \<Rightarrow> BOMX_Port list" where
  "other_ports c \<equiv> m_pVideoPorts c @ m_pImagePorts c @ m_pOtherPorts c"

lemma other_ports_simps [simp]:
  "m_pVideoPorts (sub f c) = m_pVideoPorts c" "m_pVideoPorts (nexus x c) = m_pVideoPorts c"
  "m_pVideoPorts (set_in p c) = m_pVideoPorts c" "m_pVideoPorts (set_out p c) = m_pVideoPorts c"
  "m_pImagePorts (sub f c) = m_pImagePorts c" "m_pImagePorts (nexus x c) = m_pImagePorts c"
  "m_pImagePorts (set_in p c) = m_pImagePorts c" "m_pImagePorts (set_out p c) = m_pImagePorts c"
  "m_pOtherPorts (sub f c) = m_pOtherPorts c" "m_pOtherPorts (nexus x c) = m_pOtherPorts c"
  "m_pOtherPorts (set_in p c) = m_pOtherPorts c" "m_pOtherPorts (set_out p c) = m_pOtherPorts c"
  by (simp_all add: sub_def nexus_def set_in_def set_out_def)

lemma small_index: "i = 0 \<or> i = 1 \<or> \<not> i < 2" for i :: u32
  by (auto simp: word_less_nat_alt word_unat_eq_iff less_2_cases_iff)

lemma ports_ok_list: "ports_ok env nx c \<Longrightarrow> m_pAudioPorts c = [in_port c, out_port c]"
  by (auto simp: ports_ok_def numeral_2_eq_2 length_Suc_conv)

lemma find_audio_port:
  assumes "ports_ok env nx c"
  shows "FindPortByIndex c i = (if i = 0 then Some (in_port c) else if i = 1 then Some (out_port c) else None)"
  using assms small_index [of i] by (auto simp: FindPortByIndex_def ports_ok_def)

text \<open>A port written back in place.\<close>

lemma put_audio_port:
  assumes "ports_ok env nx c" "i = 0 \<or> i = 1"
  shows "put_port i p c = (if i = 0 then set_in p c else set_out p c)"
  using assms by (auto simp: put_port_def ports_ok_def set_in_def set_out_def)

text \<open>What the parts of a well-formed component need of a changed one.\<close>

lemma adec_wf_same:
  assumes "adec_wf env nx c" "m_pAudioPorts c' = m_pAudioPorts c" "m_audioPortBase c' = m_audioPortBase c" "other_ports c' = other_ports c"
    and "m_arrays (m_sub c') = m_arrays (m_sub c)" "m_pFrameStatus (m_sub c') = m_pFrameStatus (m_sub c)"
    and "m_pMemoryBlocks (m_sub c') = m_pMemoryBlocks (m_sub c)" "2 \<le> m_numPcmChannels (m_sub c') \<and> m_numPcmChannels (m_sub c') \<le> 8"
  shows "adec_wf env nx c'"
  using assms unfolding adec_wf_def array_ok_def ports_ok_def GetCodec_def by auto

text \<open>Another definition for the input or the output port.\<close>

lemma adec_wf_set_in:
  assumes "adec_wf env nx c" "eDir (m_definition p) = OMX_DirInput" "n_mime nx (pd_format (m_definition p)) = n_inputMime nx"
    and "mime_of (e_coding env (pd_format (m_definition p))) \<noteq> None"
  shows "adec_wf env nx (set_in p c)"
  using assms by (auto simp: adec_wf_def array_ok_def ports_ok_def GetCodec_def)

lemma adec_wf_set_out:
  assumes "adec_wf env nx c" "eDir (m_definition p) = OMX_DirOutput" "n_mime nx (pd_format (m_definition p)) = n_outputMime nx"
    and "nBufferCountActual (m_definition p) = nBufferCountActual (m_definition (out_port c))"
  shows "adec_wf env nx (set_out p c)"
  using assms by (auto simp: adec_wf_def array_ok_def ports_ok_def GetCodec_def)

lemma set_port_format_wf:
  assumes wf: "adec_wf env nx c" and laws: "layout_laws env nx" and r: "set_port_format env nx ptr c = (err, c')"
  shows "adec_wf env nx c'"
proof -
  note l = layout_law_facts [OF laws [unfolded layout_laws_def]]
  have ok: "ports_ok env nx c" using wf by (simp add: adec_wf_def)
  have m: "adec_wf env nx (sub (\<lambda>s. s\<lparr>m_inputMimeType := x\<rparr>) c)" for x by (rule adec_wf_same [OF wf]) (use wf in \<open>auto simp: adec_wf_def\<close>)
  have o: "n_mime nx (pd_format (m_definition (out_port c))) = n_outputMime nx" using ok by (simp add: ports_ok_def)
  show ?thesis
    using wf r m l o ok
    by (auto simp: set_port_format_def find_audio_port [OF ok] BOMX_AudioDecoder_InitMimeType_def AudioPort_SetPortFormat_def Let_def set_def_def
        ports_ok_def intro!: adec_wf_set_in adec_wf_set_out split: if_splits option.splits)
qed

lemma SetRole_wf: "adec_wf env nx c \<Longrightarrow> adec_wf env nx (SetRole abi r c)"
  by (simp add: adec_wf_def array_ok_def ports_ok_def GetCodec_def SetRole_def)

lemma set_role_wf:
  assumes "adec_wf env nx c" "layout_laws env nx" "set_role env nx ptr c = (err, c')"
  shows "adec_wf env nx c'"
  using assms set_port_format_wf [OF assms(1,2)]
  by (auto simp: set_role_def Let_def SetRole_wf split: if_splits option.splits prod.splits)

text \<open>Both arrays have their new length when the decoder has accepted it, and nothing else has changed.\<close>

lemma resize_output_ok:
  assumes "resize_output env nx n c = (OMX_ErrorNone, c')"
  shows "m_pFrameStatus (m_sub c') \<noteq> NULL" "m_arrays (m_sub c') (m_pFrameStatus (m_sub c')) = Some (unat n)"
    "m_pMemoryBlocks (m_sub c') \<noteq> NULL" "m_arrays (m_sub c') (m_pMemoryBlocks (m_sub c')) = Some (unat n)"
    "m_numPcmChannels (m_sub c') = m_numPcmChannels (m_sub c)"
  using assms by (auto simp: resize_output_def new_array_def delete_array_def nexus_ok_def Let_def split: if_splits)

lemma resize_output_ports:
  assumes "resize_output env nx n c = (err, c')"
  shows "m_pAudioPorts c' = m_pAudioPorts c" "m_audioPortBase c' = m_audioPortBase c" "other_ports c' = other_ports c"
  using assms by (auto simp: resize_output_def new_array_def delete_array_def nexus_ok_def Let_def split: if_splits)

lemma resize_output_succeeds:
  assumes "\<forall>l. e_error env l = 0" "\<forall>l. e_new env l \<noteq> NULL"
  shows "fst (resize_output env nx n c) = OMX_ErrorNone"
  using assms by (auto simp: resize_output_def new_array_def delete_array_def nexus_ok_def Let_def split: if_splits)

text \<open>The definition that the base class keeps: what the client may not change is that of the port.\<close>

definition kept_definition :: "BOMX_Port \<Rightarrow> OMX_PARAM_PORTDEFINITIONTYPE \<Rightarrow> OMX_PARAM_PORTDEFINITIONTYPE" where
  "kept_definition p d =
     (let old = m_definition p
      in d\<lparr>nPortIndex := nPortIndex old, eDir := eDir old, bEnabled := bEnabled old, bPopulated := bPopulated old, eDomain := eDomain old,
           bBuffersContiguous := bBuffersContiguous old, nBufferAlignment := nBufferAlignment old\<rparr>)"

lemma base_definition:
  assumes ok: "ports_ok env nx c" and v: "BOMX_STRUCT_VALIDATE abi PORTDEFINITION (Some (pd_struct d)) = OMX_ErrorNone"
    and i: "nPortIndex d = 0 \<or> nPortIndex d = 1"
  shows "SetParameter abi (OMX_IndexParamPortDefinition (Some d)) c =
    (OMX_ErrorNone,
     if nPortIndex d = 0 then set_in ((in_port c)\<lparr>m_definition := kept_definition (in_port c) d\<rparr>) c
     else set_out ((out_port c)\<lparr>m_definition := kept_definition (out_port c) d\<rparr>) c)"
  using i by (auto simp: v find_audio_port [OF ok] put_audio_port [OF ok] SetDefinition_def kept_definition_def Let_def)

text \<open>The call up to the base class: refused without a change, or a definition for one of the two ports that keeps MIME type and codec.\<close>

lemma set_port_definition_cases:
  assumes ok: "ports_ok env nx c" and r: "set_port_definition env nx ptr c = (err, c')"
  obtains (refused) "err \<noteq> OMX_ErrorNone" "c' = c"
  | (input_port) d where "ptr = Some d" "nPortIndex d = 0" "n_mime nx (pd_format d) = n_inputMime nx"
      "e_coding env (pd_format d) = GetCodec env c" "err = OMX_ErrorNone"
      "c' = set_in ((in_port c)\<lparr>m_definition := kept_definition (in_port c) d\<rparr>) c"
  | (output_failed) d where "ptr = Some d" "nPortIndex d = 1" "err \<noteq> OMX_ErrorNone" "resize_output env nx (nBufferCountActual d) c = (err, c')"
  | (output_port) d c1 where "ptr = Some d" "nPortIndex d = 1" "n_mime nx (pd_format d) = n_outputMime nx" "err = OMX_ErrorNone"
      "resize_output env nx (nBufferCountActual d) c = (OMX_ErrorNone, c1)"
      "c' = set_out ((out_port c)\<lparr>m_definition := kept_definition (out_port c) d\<rparr>) c1"
proof (cases ptr)
  case None
  then have "err \<noteq> OMX_ErrorNone" "c' = c" using r by (auto simp: set_port_definition_def BOMX_STRUCT_VALIDATE_def)
  with refused show thesis .
next
  case (Some d)
  let ?v = "BOMX_STRUCT_VALIDATE (e_abi env) PORTDEFINITION (Some (pd_struct d))"
  have b: "m_audioPortBase c = 0" using ok by (simp add: ports_ok_def)
  note r' = r [unfolded set_port_definition_def Some, simplified Let_def option.map option.case b find_audio_port [OF ok] BOMX_ERR_TRACE_id add_0]
  show thesis
  proof (cases "?v = OMX_ErrorNone \<and> (nPortIndex d = 0 \<or> nPortIndex d = 1)")
    case False
    with r' have "err \<noteq> OMX_ErrorNone \<and> c' = c" by (auto split: if_splits)
    with refused show thesis by blast
  next
    case True
    show thesis
    proof (cases "nPortIndex d = 0")
      case t: True
      show thesis
      proof (cases "n_mime nx (pd_format d) = n_inputMime nx \<and> e_coding env (pd_format d) = GetCodec env c")
        case False
        with r' True t have "err \<noteq> OMX_ErrorNone \<and> c' = c" by (auto split: if_splits)
        with refused show thesis by blast
      next
        case m: True
        from r' True t m base_definition [OF ok conjunct1 [OF True]] show thesis by (intro input_port [OF Some]) (simp_all split: if_splits)
      qed
    next
      case f: False
      then have i: "nPortIndex d = 1" using True by simp
      show thesis
      proof (cases "n_mime nx (pd_format d) = n_outputMime nx")
        case False
        with r' True i have "err \<noteq> OMX_ErrorNone \<and> c' = c" by (auto split: if_splits)
        with refused show thesis by blast
      next
        case m: True
        obtain e c1 where e: "resize_output env nx (nBufferCountActual d) c = (e, c1)" by fastforce
        have ok1: "ports_ok env nx c1" using ok resize_output_ports [OF e] by (auto simp: ports_ok_def GetCodec_def)
        show thesis
        proof (cases "e = OMX_ErrorNone")
          case False
          with r' True i m e show thesis by (intro output_failed [OF Some i]) (simp_all split: if_splits)
        next
          case t: True
          from r' True i m e t base_definition [OF ok1 conjunct1 [OF True]] resize_output_ports [OF e]
          show thesis by (intro output_port [OF Some i, of c1]) (simp_all split: if_splits)
        qed
      qed
    qed
  qed
qed

lemma set_port_definition_wf:
  assumes wf: "adec_wf env nx c" and nexus: "\<forall>l. e_error env l = 0" "\<forall>l. e_new env l \<noteq> NULL"
    and r: "set_port_definition env nx ptr c = (err, c')"
  shows "adec_wf env nx c'"
proof -
  have ok: "ports_ok env nx c" using wf by (simp add: adec_wf_def)
  from ok r show ?thesis
  proof (cases rule: set_port_definition_cases)
    case refused then show ?thesis using wf by simp
  next
    case (input_port d)
    then show ?thesis using wf ok by (auto simp: kept_definition_def Let_def ports_ok_def intro!: adec_wf_set_in)
  next
    case (output_failed d)
    then show ?thesis using resize_output_succeeds [OF nexus, of nx "nBufferCountActual d" c] by simp
  next
    case (output_port d c1)
    then show ?thesis
      using wf ok resize_output_ok [OF output_port(5)] resize_output_ports [OF output_port(5)]
      by (auto simp: adec_wf_def array_ok_def ports_ok_def GetCodec_def kept_definition_def Let_def)
  qed
qed

section \<open>The format of the samples\<close>

lemma layout_loop_fits:
  "layout_loop i n mapping layout \<noteq> None \<longleftrightarrow> n = 0 \<or> i + n \<le> length mapping \<and> i + n \<le> length layout"
  by (induction i n mapping layout rule: layout_loop.induct) auto

lemma layout_loop_nth:
  "layout_loop i n mapping layout = Some layout' \<Longrightarrow>
   length layout' = length layout \<and> (\<forall>j < length layout. layout' ! j = (if i \<le> j \<and> j < i + n then nexus_channel (mapping ! j) else layout ! j))"
proof (induction i n mapping layout arbitrary: layout' rule: layout_loop.induct)
  case (2 i n mapping layout)
  then have fits: "i < length mapping" "i < length layout" and l: "layout_loop (i + 1) n mapping (layout[i := nexus_channel (mapping ! i)]) = Some layout'"
    by (auto split: if_splits)
  from "2.IH" [OF conjI [OF fits] l] fits show ?case by (auto simp: nth_list_update)
qed auto

text \<open>The channel that comes back for a channel of the client: itself when Nexus knows it.\<close>

definition channel_back :: "OMX_AUDIO_CHANNELTYPE \<Rightarrow> OMX_AUDIO_CHANNELTYPE" where
  "channel_back ch = (case ch of OMX_AUDIO_ChannelOther _ \<Rightarrow> OMX_AUDIO_ChannelNone | _ \<Rightarrow> ch)"

lemma channel_back: "omx_channel (nexus_channel ch) = channel_back ch"
  by (cases ch) (simp_all add: channel_back_def)

text \<open>The settings that the client's format makes of those in effect, as far as the arrays allow it.\<close>

definition pcm_settings :: "adec_nexus \<Rightarrow> OMX_AUDIO_PARAM_PCMMODETYPE \<Rightarrow> NEXUS_AudioDecoderDecodeToMemorySettings \<Rightarrow> NEXUS_AudioDecoderDecodeToMemorySettings \<Rightarrow> bool" where
  "pcm_settings nx p old ds \<longleftrightarrow>
     ds_numPcmChannels ds = (if pcm_nChannels p \<ge> 2 then pcm_nChannels p else 2) \<and> ds_bitsPerSample ds = pcm_nBitPerSample p
     \<and> ds_maxBuffers ds = ds_maxBuffers old \<and> ds_complete ds = ds_complete old \<and> length (ds_channelLayout ds) = length (ds_channelLayout old)
     \<and> (if pcm_nChannels p \<ge> 2
        then \<forall>j < min (OMX_AUDIO_MAXCHANNELS nx) (unat (pcm_nChannels p)). ds_channelLayout ds ! j = nexus_channel (pcm_eChannelMapping p ! j)
        else ds_channelLayout ds ! 0 = NEXUS_AudioChannel_eLeft \<and> ds_channelLayout ds ! 1 = NEXUS_AudioChannel_eRight)"

definition pcm_fits :: "adec_nexus \<Rightarrow> OMX_AUDIO_PARAM_PCMMODETYPE \<Rightarrow> NEXUS_AudioDecoderDecodeToMemorySettings \<Rightarrow> bool" where
  "pcm_fits nx p old \<longleftrightarrow>
     8 \<le> length (ds_channelLayout old) \<and> 8 \<le> OMX_AUDIO_MAXCHANNELS nx \<and> length (pcm_eChannelMapping p) = OMX_AUDIO_MAXCHANNELS nx"

lemma pcm_channels: "pcm_supported p \<Longrightarrow> unat (pcm_nChannels p) \<le> 8 \<and> pcm_nChannels p \<noteq> 0"
  by (auto simp: pcm_supported_def word_less_nat_alt)

definition pcm_applied :: "OMX_AUDIO_PARAM_PCMMODETYPE \<Rightarrow> NEXUS_AudioDecoderDecodeToMemorySettings \<Rightarrow> adc \<Rightarrow> adc" where
  "pcm_applied p ds c =
     sub (\<lambda>s. s\<lparr>m_sampleRate := pcm_nSamplingRate p, m_bitsPerSample := pcm_nBitPerSample p,
                m_numPcmChannels := (if pcm_nChannels p \<ge> 2 then pcm_nChannels p else 2)\<rparr>)
       (nexus (SetDecodeToMemorySettings ds) (nexus GetDecodeToMemorySettings c))"

lemma set_pcm_supported:
  assumes v: "checked (e_abi env) AUDIO_PCM pcm_struct pcm_nPortIndex (m_audioPortBase c + 1) (Some p) = OMX_ErrorNone" and s: "pcm_supported p"
    and fits: "pcm_fits nx p (n_settings nx (nlog c @ [GetDecodeToMemorySettings]))"
  obtains ds where "pcm_settings nx p (n_settings nx (nlog c @ [GetDecodeToMemorySettings])) ds"
    "set_pcm env nx (Some p) c =
       Some (if e_error env (nlog c @ [GetDecodeToMemorySettings, SetDecodeToMemorySettings ds]) = 0
         then (OMX_ErrorNone, pcm_applied p ds c)
         else (OMX_ErrorUndefined, nexus (SetDecodeToMemorySettings ds) (nexus GetDecodeToMemorySettings c)))"
proof -
  define old where "old = n_settings nx (nlog c @ [GetDecodeToMemorySettings])"
  define n where "n = min (OMX_AUDIO_MAXCHANNELS nx) (unat (pcm_nChannels p))"
  define mono where "mono = (ds_channelLayout old)[0 := NEXUS_AudioChannel_eLeft, 1 := NEXUS_AudioChannel_eRight]"
  have len: "8 \<le> length (ds_channelLayout old)" "n \<le> length (pcm_eChannelMapping p)" "n \<le> 8"
    using fits pcm_channels [OF s] by (auto simp: pcm_fits_def old_def n_def)
  then have "layout_loop 0 n (pcm_eChannelMapping p) (ds_channelLayout old) \<noteq> None" by (subst layout_loop_fits) simp
  then obtain l where l: "layout_loop 0 n (pcm_eChannelMapping p) (ds_channelLayout old) = Some l" by blast
  define layout where "layout = (if pcm_nChannels p \<ge> 2 then l else mono)"
  define ds where "ds = old\<lparr>ds_numPcmChannels := (if pcm_nChannels p \<ge> 2 then pcm_nChannels p else 2), ds_channelLayout := layout, ds_bitsPerSample := pcm_nBitPerSample p\<rparr>"
  have "0 < length (ds_channelLayout old)" "1 < length (ds_channelLayout old)" using len by linarith+
  then have "pcm_settings nx p old ds"
    using layout_loop_nth [OF l] len by (auto simp: pcm_settings_def ds_def layout_def mono_def n_def nth_list_update)
  moreover have "(if pcm_nChannels p \<ge> 2 then layout_loop 0 n (pcm_eChannelMapping p) (ds_channelLayout old)
      else if length (ds_channelLayout old) < 2 then None else Some mono) = Some layout"
    using l len by (simp add: layout_def)
  ultimately show thesis
    using v s that [of ds] by (simp add: set_pcm_def Let_def old_def n_def mono_def ds_def nexus_ok_def pcm_applied_def cong: if_cong)
qed

lemma multiples: "0 < a \<Longrightarrow> m mod a = 0 \<and> m \<le> b \<longleftrightarrow> m \<in> set (map ((*) a) [0..<Suc (b div a)])" for a m b :: nat
proof -
  assume a: "0 < a"
  have "k \<le> b div a \<longleftrightarrow> a * k \<le> b" for k using less_eq_div_iff_mult_less_eq [OF a, of k b] by (simp add: mult.commute)
  then have "m \<in> set (map ((*) a) [0..<Suc (b div a)]) \<longleftrightarrow> (\<exists>k. a * k \<le> b \<and> m = a * k)"
    by (auto simp: image_iff less_Suc_eq_le simp del: upt_Suc)
  also have "\<dots> \<longleftrightarrow> m mod a = 0 \<and> m \<le> b" by (auto simp flip: dvd_eq_mod_eq_0 elim!: dvdE)
  finally show ?thesis by (rule sym)
qed

lemma pcm_rates:
  "(r mod 8000 = 0 \<or> r mod 11025 = 0) \<and> r \<le> 48000 \<longleftrightarrow>
   unat r \<in> {0, 8000, 16000, 24000, 32000, 40000, 48000, 11025, 22050, 33075, 44100}" for r :: u32
proof -
  have "(r mod 8000 = 0 \<or> r mod 11025 = 0) \<and> r \<le> 48000 \<longleftrightarrow> (unat r mod 8000 = 0 \<or> unat r mod 11025 = 0) \<and> unat r \<le> 48000"
    by (simp add: word_le_nat_alt unat_mod_distrib word_unat_eq_iff)
  also have "\<dots> \<longleftrightarrow> unat r \<in> {0, 8000, 16000, 24000, 32000, 40000, 48000, 11025, 22050, 33075, 44100}"
    using multiples [of 8000 "unat r" 48000] multiples [of 11025 "unat r" 48000] by (auto simp: upt_rec)
  finally show ?thesis .
qed

lemma set_pcm_members:
  assumes "set_pcm env nx ptr c = Some (err, c')" "adec_wf env nx c"
  shows "adec_wf env nx c'"
proof (rule adec_wf_same [OF assms(2)])
  show "2 \<le> m_numPcmChannels (m_sub c') \<and> m_numPcmChannels (m_sub c') \<le> 8"
    using assms by (auto simp: set_pcm_def nexus_ok_def adec_wf_def pcm_supported_def not_less Let_def split: if_splits Option.bind_splits)
qed (use assms(1) in \<open>auto simp: set_pcm_def nexus_ok_def Let_def split: if_splits Option.bind_splits\<close>)

section \<open>Properties\<close>

text \<open>
  C24: The format of the samples comes back: when the decoder has accepted a format on its output port
  and Nexus keeps the settings, reading the format yields the same number of bits, sampling rate and
  channels, a mono format as stereo, with the client's channel for every position (none, where the
  decoder does not know it, and beyond the channels), always signed, little endian, interleaved and
  linear; and the members by which frames are cut agree with it.
\<close>

theorem adec_pcm_roundtrip:
  assumes store: "settings_store (e_error env) (n_settings nx)" and dims: "pcm_fits nx p (n_settings nx (nlog c @ [GetDecodeToMemorySettings]))" "8 \<le> NEXUS_AudioChannel_count nx"
    and set_it: "Adec_SetParameter env nx (OMX_IndexParamAudioPcm (Some p)) c = Some (OMX_ErrorNone, c')"
    and valid: "pcm_struct q = pcm_struct p" "pcm_nPortIndex q = pcm_nPortIndex p"
  defines "n \<equiv> if pcm_nChannels p = 1 then 2 else pcm_nChannels p"
  shows "(\<exists>c''. Adec_GetParameter env nx (OMX_IndexParamAudioPcm (Some q)) c' =
      (OMX_ErrorNone,
       OMX_IndexParamAudioPcm (Some (q\<lparr>pcm_nChannels := n, pcm_eNumData := OMX_NumericalDataSigned, pcm_eEndian := OMX_EndianLittle,
         pcm_bInterleaved := True, pcm_nBitPerSample := pcm_nBitPerSample p, pcm_nSamplingRate := pcm_nSamplingRate p,
         pcm_ePCMMode := OMX_AUDIO_PCMModeLinear,
         pcm_eChannelMapping := map (\<lambda>i. if i \<ge> unat n then OMX_AUDIO_ChannelNone
             else if pcm_nChannels p = 1 then [OMX_AUDIO_ChannelLF, OMX_AUDIO_ChannelRF] ! i
             else channel_back (pcm_eChannelMapping p ! i)) [0..<OMX_AUDIO_MAXCHANNELS nx]\<rparr>)), c''))
    \<and> m_numPcmChannels (m_sub c') = n \<and> m_bitsPerSample (m_sub c') = pcm_nBitPerSample p \<and> m_sampleRate (m_sub c') = pcm_nSamplingRate p"
proof -
  let ?v = "checked (e_abi env) AUDIO_PCM pcm_struct pcm_nPortIndex (m_audioPortBase c + 1) (Some p)"
  have v: "?v = OMX_ErrorNone" and s: "pcm_supported p" using set_it by (auto simp: set_pcm_def Let_def split: if_splits)
  have two: "2 \<le> pcm_nChannels p \<longleftrightarrow> pcm_nChannels p \<noteq> 1"
    using pcm_channels [OF s] small_index [of "pcm_nChannels p"] by (auto simp: not_less word_le_nat_alt)
  from set_pcm_supported [OF v s dims(1)] obtain ds where ds: "pcm_settings nx p (n_settings nx (nlog c @ [GetDecodeToMemorySettings])) ds"
    and r: "set_pcm env nx (Some p) c = Some (if e_error env (nlog c @ [GetDecodeToMemorySettings, SetDecodeToMemorySettings ds]) = 0
         then (OMX_ErrorNone, pcm_applied p ds c)
         else (OMX_ErrorUndefined, nexus (SetDecodeToMemorySettings ds) (nexus GetDecodeToMemorySettings c)))" .
  from set_it r have e: "e_error env ((nlog c @ [GetDecodeToMemorySettings]) @ [SetDecodeToMemorySettings ds]) = 0"
    and c': "c' = sub (\<lambda>s. s\<lparr>m_sampleRate := pcm_nSamplingRate p, m_bitsPerSample := pcm_nBitPerSample p, m_numPcmChannels := n\<rparr>)
        (nexus (SetDecodeToMemorySettings ds) (nexus GetDecodeToMemorySettings c))"
    by (auto simp: n_def two pcm_applied_def split: if_splits)
  from settings_store.read_back [OF store e, of "[GetDecodeToMemorySettings]"]
  have rd: "n_settings nx (nlog c' @ [GetDecodeToMemorySettings]) = ds" by (simp add: c')
  have n: "ds_numPcmChannels ds = n" "ds_bitsPerSample ds = pcm_nBitPerSample p" using ds by (simp_all add: pcm_settings_def n_def two)
  have le: "unat n \<le> 8" "8 \<le> OMX_AUDIO_MAXCHANNELS nx" using pcm_channels [OF s] dims(1) by (auto simp: n_def pcm_fits_def)
  have map_at: "get_mapping nx ds i = (if i \<ge> unat n then OMX_AUDIO_ChannelNone
      else if pcm_nChannels p = 1 then [OMX_AUDIO_ChannelLF, OMX_AUDIO_ChannelRF] ! i else channel_back (pcm_eChannelMapping p ! i))" for i
  proof (cases "i \<ge> unat n")
    case False
    then have i: "i < unat n" "i < NEXUS_AudioChannel_count nx" using le dims(2) by auto
    show ?thesis
    proof (cases "pcm_nChannels p = 1")
      case True
      then have "i = 0 \<or> i = 1" using i by (auto simp: n_def)
      then show ?thesis using True i ds two n by (auto simp: get_mapping_def pcm_settings_def)
    next
      case False
      then have "ds_channelLayout ds ! i = nexus_channel (pcm_eChannelMapping p ! i)" using ds two i le by (auto simp: pcm_settings_def n_def)
      then show ?thesis using False i n by (simp add: get_mapping_def channel_back)
    qed
  qed (simp add: get_mapping_def n)
  have vq: "checked (e_abi env) AUDIO_PCM pcm_struct pcm_nPortIndex (m_audioPortBase c' + 1) (Some q) = OMX_ErrorNone"
    using v valid by (simp add: checked_def c' cong: if_cong)
  show ?thesis using vq rd n map_at by (simp add: get_pcm_def Let_def c' cong: map_cong)
qed

text \<open>
  A format for the samples is refused exactly when the structure or its port is wrong, when the
  samples are not signed, little endian and linear, when there are no or more than eight channels,
  when several channels are not interleaved, when the rate is not one of eleven multiples of 8000 or
  11025 up to 48000 (0 among them), or when Nexus refuses the settings; a refusal changes no member.
\<close>

theorem adec_pcm_accepted:
  assumes dims: "pcm_fits nx p (n_settings nx (nlog c @ [GetDecodeToMemorySettings]))"
    and nexus: "\<forall>l s. (e_error env (l @ [SetDecodeToMemorySettings s]) = 0) = good"
  shows "\<exists>err c'. Adec_SetParameter env nx (OMX_IndexParamAudioPcm (Some p)) c = Some (err, c')
    \<and> (err = OMX_ErrorNone \<longleftrightarrow>
         pcm_struct p = BOMX_STRUCT_INIT (e_abi env) AUDIO_PCM \<and> pcm_nPortIndex p = m_audioPortBase c + 1
         \<and> pcm_eNumData p = OMX_NumericalDataSigned \<and> pcm_eEndian p = OMX_EndianLittle \<and> pcm_ePCMMode p = OMX_AUDIO_PCMModeLinear
         \<and> 1 \<le> unat (pcm_nChannels p) \<and> unat (pcm_nChannels p) \<le> 8 \<and> (pcm_bInterleaved p \<or> pcm_nChannels p = 1)
         \<and> unat (pcm_nSamplingRate p) \<in> {0, 8000, 16000, 24000, 32000, 40000, 48000, 11025, 22050, 33075, 44100} \<and> good)
    \<and> (err \<noteq> OMX_ErrorNone \<longrightarrow> (\<exists>l. c' = sub (\<lambda>s. s\<lparr>m_nexus := l\<rparr>) c))"
proof -
  let ?v = "checked (e_abi env) AUDIO_PCM pcm_struct pcm_nPortIndex (m_audioPortBase c + 1) (Some p)"
  have v: "?v = OMX_ErrorNone \<longleftrightarrow> pcm_struct p = BOMX_STRUCT_INIT (e_abi env) AUDIO_PCM \<and> pcm_nPortIndex p = m_audioPortBase c + 1"
    by (auto simp: checked_def Let_def BOMX_STRUCT_VALIDATE_None_iff)
  have "pcm_nChannels p = 0 \<longleftrightarrow> \<not> 1 \<le> unat (pcm_nChannels p)" "pcm_nChannels p > 8 \<longleftrightarrow> \<not> unat (pcm_nChannels p) \<le> 8"
    "pcm_nChannels p > 1 \<longleftrightarrow> pcm_nChannels p \<noteq> 1 \<and> pcm_nChannels p \<noteq> 0"
    by (auto simp: word_less_nat_alt word_unat_eq_iff not_le)
  then have s: "pcm_supported p \<longleftrightarrow> pcm_eNumData p = OMX_NumericalDataSigned \<and> pcm_eEndian p = OMX_EndianLittle \<and> pcm_ePCMMode p = OMX_AUDIO_PCMModeLinear
      \<and> 1 \<le> unat (pcm_nChannels p) \<and> unat (pcm_nChannels p) \<le> 8 \<and> (pcm_bInterleaved p \<or> pcm_nChannels p = 1)
      \<and> unat (pcm_nSamplingRate p) \<in> {0, 8000, 16000, 24000, 32000, 40000, 48000, 11025, 22050, 33075, 44100}"
    unfolding pcm_rates [symmetric] pcm_supported_def not_less by blast
  have same: "c = sub (\<lambda>s. s\<lparr>m_nexus := nlog c\<rparr>) c" "nexus x c = sub (\<lambda>s. s\<lparr>m_nexus := nlog c @ [x]\<rparr>) c"
    "nexus y (nexus x c) = sub (\<lambda>s. s\<lparr>m_nexus := nlog c @ [x, y]\<rparr>) c" for x y
    by (simp_all add: nexus_def sub_def)
  show ?thesis
  proof (cases "?v = OMX_ErrorNone \<and> pcm_supported p")
    case True
    from set_pcm_supported [OF _ _ dims, of env] True obtain ds where
      "set_pcm env nx (Some p) c = Some (if e_error env (nlog c @ [GetDecodeToMemorySettings, SetDecodeToMemorySettings ds]) = 0
         then (OMX_ErrorNone, pcm_applied p ds c)
         else (OMX_ErrorUndefined, nexus (SetDecodeToMemorySettings ds) (nexus GetDecodeToMemorySettings c)))" by blast
    moreover have "(e_error env (nlog c @ [GetDecodeToMemorySettings, SetDecodeToMemorySettings ds]) = 0) = good"
      using nexus [rule_format, of "nlog c @ [GetDecodeToMemorySettings]" ds] by simp
    ultimately show ?thesis using True v s same(3) by (cases good) auto
  next
    case False
    then show ?thesis using v s same(1,2) by (cases "?v = OMX_ErrorNone") (auto simp: set_pcm_def Let_def)
  qed
qed

text \<open>
  C25: Well-formedness is kept by every parameter call, refused or not, as long as memory is there and
  Nexus accepts settings: two audio ports with their directions and the component's MIME types, a
  codec on the input that has a MIME type, two to eight channels, and the two arrays for decoded
  frames no shorter than the number of output buffers, which is what Nexus is told they hold.
\<close>

theorem adec_parameters_typed:
  assumes wf: "adec_wf env nx c" and laws: "layout_laws env nx" and nexus: "\<forall>l. e_error env l = 0" "\<forall>l. e_new env l \<noteq> NULL"
  shows "(\<forall>err c'. Adec_SetParameter env nx p c = Some (err, c') \<longrightarrow> adec_wf env nx c')
    \<and> adec_wf env nx (snd (snd (Adec_GetParameter env nx p c)))"
proof (intro conjI allI impI)
  have ok: "ports_ok env nx c" and n: "2 \<le> m_numPcmChannels (m_sub c) \<and> m_numPcmChannels (m_sub c) \<le> 8" using wf by (simp_all add: adec_wf_def)
  note same = adec_wf_same [OF wf]
  have base: "adec_wf env nx c'" if "SetParameter (e_abi env) p c = (err, c')" "\<And>d. p \<noteq> OMX_IndexParamPortDefinition d" for p err c'
    using that wf ok
    by (cases p) (auto simp: Let_def find_audio_port [OF ok] put_audio_port [OF ok] ports_ok_def GetCodec_def
        split: if_splits option.splits intro!: adec_wf_set_in adec_wf_set_out)
  have log: "adec_wf env nx (nexus x c)" for x by (rule same) (use n in simp_all)
  show "adec_wf env nx c'" if r: "Adec_SetParameter env nx p c = Some (err, c')" for err c'
  proof (cases p)
    case (BaseParam q)
    then show ?thesis
      using r wf set_role_wf [OF wf laws] set_port_format_wf [OF wf laws] set_port_definition_wf [OF wf nexus] base
      by (cases q) (auto simp del: SetParameter.simps split: prod.splits)
  next
    case (OMX_IndexParamAudioAac q)
    then show ?thesis using r wf n same [of c'] by (auto simp: set_aac_def Let_def split: if_splits option.splits)
  next
    case (OMX_IndexParamAudioAndroidAacPresentation q)
    then show ?thesis using r n same [of c'] by (auto simp: set_presentation_def Let_def nexus_ok_def split: Option.bind_splits if_splits)
  qed (use r wf set_pcm_members in auto)
  show "adec_wf env nx (snd (snd (Adec_GetParameter env nx p c)))"
    using wf n log same [of "snd (snd (Adec_GetParameter env nx p c))"] by (cases p) (auto simp: Let_def split: if_splits prod.splits)
qed

lemma StartDecoder_codec:
  "m_decoderState (m_sub c) = BOMX_AudioDecoderState_eStopped \<Longrightarrow>
   \<exists>l. nlog (snd (StartDecoder env c)) = nlog c @ Decoder_Start (GetNexusCodec (GetCodec env c)) # l"
  by (simp add: StartDecoder_def nexus_ok_def clear_eos_def Let_def)

text \<open>
  C26: The role decides the codec: a role that the component does not have is refused without a
  change. One that it has, with a coding from the table of the input port, is accepted: the
  component has the role, the coding of the input port and its MIME type are those of the role, and
  the decoder, when it is started next, is started for that coding.
\<close>

theorem adec_role_selects_codec:
  assumes ok: "ports_ok env nx c" and laws: "layout_laws env nx" and valid: "cr_struct r = BOMX_STRUCT_INIT (e_abi env) COMPONENTROLE"
    and table: "\<forall>x \<in> set (m_roles (m_sub c)). (\<exists>f \<in> set (audio_formats (m_pPortFormats (in_port c))). apf_eEncoding f = role_omxCodec x)
        \<and> mime_of (n_codingtype nx (role_omxCodec x)) \<noteq> None"
  shows "case find (\<lambda>x. role_name x = cRole r) (m_roles (m_sub c)) of
      None \<Rightarrow> Adec_SetParameter env nx (BaseParam (OMX_IndexParamStandardComponentRole (Some r))) c = Some (OMX_ErrorBadParameter, c)
    | Some x \<Rightarrow> \<exists>c' m. Adec_SetParameter env nx (BaseParam (OMX_IndexParamStandardComponentRole (Some r))) c = Some (OMX_ErrorNone, c')
        \<and> GetCodec env c' = n_codingtype nx (role_omxCodec x) \<and> mime_of (GetCodec env c') = Some m
        \<and> m_inputMimeType (m_sub c') = strncpy_str (OMX_MAX_STRINGNAME_SIZE (e_abi env)) m
        \<and> m_componentRole c' = strncpy_str (OMX_MAX_STRINGNAME_SIZE (e_abi env) - 1) (cRole r) \<and> ports_ok env nx c'
        \<and> (m_decoderState (m_sub c) = BOMX_AudioDecoderState_eStopped \<longrightarrow>
           (\<exists>l. nlog (snd (StartDecoder env c')) = nlog c @ Decoder_Start (GetNexusCodec (n_codingtype nx (role_omxCodec x))) # l))"
proof (cases "find (\<lambda>x. role_name x = cRole r) (m_roles (m_sub c))")
  case None
  then show ?thesis by (simp add: set_role_def valid)
next
  case (Some x)
  then have "x \<in> set (m_roles (m_sub c))" by (auto simp: find_Some_iff)
  with table obtain f m where f: "f \<in> set (audio_formats (m_pPortFormats (in_port c)))" "apf_eEncoding f = role_omxCodec x"
    and m: "mime_of (n_codingtype nx (role_omxCodec x)) = Some m" by blast
  from f obtain g where g: "find (\<lambda>f. apf_eEncoding f = role_omxCodec x) (audio_formats (m_pPortFormats (in_port c))) = Some g"
    by (metis (mono_tags, lifting) find_None_iff2 not_Some_eq)
  note l = layout_law_facts [OF laws [unfolded layout_laws_def]]
  define p where "p = set_def (\<lambda>d. d\<lparr>pd_format := FormatAudio (n_portdef nx (role_omxCodec x) (n_inputMime nx) False)\<rparr>) (in_port c)"
  define c' where "c' = SetRole (e_abi env) (cRole r) (set_in p (sub (\<lambda>s. s\<lparr>m_inputMimeType := strncpy_str (OMX_MAX_STRINGNAME_SIZE (e_abi env)) m\<rparr>) c))"
  have b: "m_audioPortBase c = 0" "eDir (m_definition (in_port c)) = OMX_DirInput" using ok by (simp_all add: ports_ok_def)
  have r: "Adec_SetParameter env nx (BaseParam (OMX_IndexParamStandardComponentRole (Some r))) c = Some (OMX_ErrorNone, c')"
    by (simp add: set_role_def valid Some set_port_format_def Let_def b find_audio_port [OF ok] BOMX_AudioDecoder_InitMimeType_def m
        AudioPort_SetPortFormat_def g c'_def p_def)
  have parts: "m_pAudioPorts c' = [p, out_port c]" "m_sub c' = (m_sub c)\<lparr>m_inputMimeType := strncpy_str (OMX_MAX_STRINGNAME_SIZE (e_abi env)) m\<rparr>"
    "m_componentRole c' = strncpy_str (OMX_MAX_STRINGNAME_SIZE (e_abi env) - 1) (cRole r)" "m_audioPortBase c' = 0" "other_ports c' = other_ports c"
    using ok b by (auto simp: c'_def SetRole_def ports_ok_def numeral_2_eq_2 length_Suc_conv)
  have codec: "GetCodec env c' = n_codingtype nx (role_omxCodec x)" using l(1) by (simp add: GetCodec_def parts p_def set_def_def)
  have "ports_ok env nx c'" using ok parts codec m l(2) by (simp add: ports_ok_def p_def set_def_def)
  then show ?thesis using Some r codec m parts StartDecoder_codec [of c' env] by auto
qed

section \<open>What the checks let through\<close>

text \<open>The table of the output port, as the constructor fills it, has only the number for no coding: a coding is never accepted there.\<close>

theorem adec_output_format_refused:
  assumes "ports_ok env nx c" "audio_formats (m_pPortFormats (out_port c)) = [f]"
    and "n_codingtype nx (apf_eEncoding f) \<noteq> OMX_AUDIO_CodingPCM" "apf_nPortIndex s = 1"
  shows "\<exists>err c'. Adec_SetParameter env nx (BaseParam (OMX_IndexParamAudioPortFormat (Some s))) c = Some (err, c') \<and> err \<noteq> OMX_ErrorNone"
  using assms by (auto simp: set_port_format_def Let_def find_audio_port [OF assms(1)] AudioPort_SetPortFormat_def ports_ok_def)

text \<open>The MIME type is overwritten before the format is looked up: a format that is refused leaves its MIME type behind.\<close>

theorem adec_mime_stale:
  assumes ok: "ports_ok env nx c" and m: "mime_of (n_codingtype nx (apf_eEncoding s)) = Some m" and "apf_nPortIndex s = 0"
    and "apf_struct s = BOMX_STRUCT_INIT (e_abi env) AUDIO_PORTFORMAT"
    and "\<forall>f \<in> set (audio_formats (m_pPortFormats (in_port c))). apf_eEncoding f \<noteq> apf_eEncoding s"
  shows "\<exists>c'. Adec_SetParameter env nx (BaseParam (OMX_IndexParamAudioPortFormat (Some s))) c = Some (OMX_ErrorUnsupportedSetting, c')
    \<and> m_inputMimeType (m_sub c') = strncpy_str (OMX_MAX_STRINGNAME_SIZE (e_abi env)) m \<and> GetCodec env c' = GetCodec env c"
proof -
  have "find (\<lambda>f. apf_eEncoding f = apf_eEncoding s) (audio_formats (m_pPortFormats (in_port c))) = None"
    using assms(5) by (auto simp: find_None_iff)
  then show ?thesis
    using assms by (simp add: set_port_format_def Let_def find_audio_port [OF ok] ports_ok_def BOMX_AudioDecoder_InitMimeType_def AudioPort_SetPortFormat_def GetCodec_def)
qed

text \<open>
  When Nexus refuses the number of output buffers, the arrays have already been replaced by shorter
  ones, while the port keeps its number, which is the length that Nexus is given for them; and the
  array of memory blocks is not released.
\<close>

theorem adec_arrays_short:
  assumes ok: "ports_ok env nx c" and d: "nPortIndex d = 1" "n_mime nx (pd_format d) = n_outputMime nx"
      "pd_struct d = BOMX_STRUCT_INIT (e_abi env) PORTDEFINITION" "nBufferCountActual d < nBufferCountActual (m_definition (out_port c))"
    and nexus: "\<forall>l. e_new env l \<noteq> NULL" "\<forall>l s. e_error env (l @ [SetDecodeToMemorySettings s]) \<noteq> 0"
    and a: "m_pMemoryBlocks (m_sub c) = a" "m_arrays (m_sub c) a = Some n" "a \<noteq> m_pFrameStatus (m_sub c)" "\<forall>l. e_new env l \<noteq> a"
  shows "\<exists>c' k. Adec_SetParameter env nx (BaseParam (OMX_IndexParamPortDefinition (Some d))) c = Some (OMX_ErrorUndefined, c')
    \<and> m_arrays (m_sub c') (m_pMemoryBlocks (m_sub c')) = Some k \<and> k < unat (nBufferCountActual (m_definition (out_port c')))
    \<and> a \<noteq> m_pMemoryBlocks (m_sub c') \<and> m_arrays (m_sub c') a = Some n"
proof -
  have z: "e_new env l \<noteq> NULL" "e_new env l \<noteq> a" "a \<noteq> e_new env l" for l using nexus(1) a(4) by metis+
  have r: "\<exists>c'. resize_output env nx m c = (OMX_ErrorUndefined, c') \<and> m_pAudioPorts c' = m_pAudioPorts c
      \<and> m_arrays (m_sub c') (m_pMemoryBlocks (m_sub c')) = Some (unat m) \<and> a \<noteq> m_pMemoryBlocks (m_sub c') \<and> m_arrays (m_sub c') a = Some n" for m
    using nexus(2) a(1-3) by (simp add: z resize_output_def new_array_def delete_array_def nexus_ok_def Let_def)
  from r [of "nBufferCountActual d"] obtain c' where c': "resize_output env nx (nBufferCountActual d) c = (OMX_ErrorUndefined, c')" "m_pAudioPorts c' = m_pAudioPorts c"
    "m_arrays (m_sub c') (m_pMemoryBlocks (m_sub c')) = Some (unat (nBufferCountActual d))" "a \<noteq> m_pMemoryBlocks (m_sub c')" "m_arrays (m_sub c') a = Some n" by blast
  have "Adec_SetParameter env nx (BaseParam (OMX_IndexParamPortDefinition (Some d))) c = Some (OMX_ErrorUndefined, c')"
    using ok d c'(1) by (simp add: set_port_definition_def Let_def find_audio_port [OF ok] ports_ok_def)
  with c' d(4) show ?thesis by (auto simp: word_less_nat_alt)
qed

text \<open>A sample of no bits is accepted; the first frame to be cut then divides by zero.\<close>

theorem adec_no_bits_accepted:
  assumes dims: "pcm_fits nx p (n_settings nx (nlog c @ [GetDecodeToMemorySettings]))" and nexus: "\<forall>l. e_error env l = 0"
    and p: "pcm_supported p" "pcm_nBitPerSample p = 0" "pcm_struct p = BOMX_STRUCT_INIT (e_abi env) AUDIO_PCM" "pcm_nPortIndex p = m_audioPortBase c + 1"
  shows "\<exists>c'. Adec_SetParameter env nx (OMX_IndexParamAudioPcm (Some p)) c = Some (OMX_ErrorNone, c') \<and> sample_size c' = 0"
proof -
  have v: "checked (e_abi env) AUDIO_PCM pcm_struct pcm_nPortIndex (m_audioPortBase c + 1) (Some p) = OMX_ErrorNone"
    using p by (simp add: checked_def)
  obtain ds where "set_pcm env nx (Some p) c = Some (OMX_ErrorNone, pcm_applied p ds c)"
    by (rule set_pcm_supported [OF v p(1) dims]) (rule that, simp add: nexus)
  then show ?thesis using p by (simp add: sample_size_def pcm_applied_def)
qed

section \<open>Witnesses\<close>

text \<open>A Nexus that replays its settings, the three word layout, and a component for MP3 with both arrays.\<close>

definition demo_settings :: NEXUS_AudioDecoderDecodeToMemorySettings where
  "demo_settings = \<lparr>ds_bitsPerSample = 16, ds_numPcmChannels = 2, ds_maxBuffers = 6, ds_channelLayout = replicate 8 NEXUS_AudioChannel_eMax, ds_complete = 0\<rparr>"

definition demo_status :: NEXUS_AudioDecoderStatus where
  "demo_status =
     \<lparr>st_started = True, st_sampleRate = 48000, st_ac3_acmod = eTwoChannel_2_0_L_R, st_ac3_lfe = True,
      st_mpeg_channelMode = NEXUS_AudioMpegChannelMode_eStereo, st_aac_acmod = eThreeChannel_2_1_L_R_S, st_aac_lfe = False, st_aac_bitrate = 0\<rparr>"

definition demo_nexus :: adec_nexus where
  "demo_nexus =
     \<lparr>n_settings = (\<lambda>l. replay_settings (\<lambda>_. 0) demo_settings (rev l)),
      n_status = (\<lambda>l. demo_status), n_codec = (\<lambda>l. \<lparr>cs_drcLine = False, cs_cut = 0, cs_boost = 0, cs_drcTargetLevel = 0, cs_drcDefaultLevel = 0\<rparr>),
      OMX_AUDIO_MAXCHANNELS = 16, NEXUS_AudioChannel_count = 8, n_codingtype = omx_coding, n_inputMime = 500, n_outputMime = 600,
      n_mime = word_mime, n_portdef = (\<lambda>e m b. [e, of_nat m, if b then 1 else 0]), n_recode = (\<lambda>f e. [e, of_nat (word_mime f), 0]),
      n_pcmCoding = 2, n_unused = 0, n_zeroAac = demo_aac, n_string = (\<lambda>l. ''rf'')\<rparr>"

definition demo_param_env :: "bool list adec_env" where
  "demo_param_env = demo_adec_env\<lparr>e_coding := omx_coding \<circ> word_coding\<rparr>"

definition demo_format :: "u32 \<Rightarrow> OMX_AUDIO_PARAM_PORTFORMATTYPE" where
  "demo_format e = \<lparr>apf_struct = BOMX_STRUCT_INIT omx_il_abi AUDIO_PORTFORMAT, apf_nPortIndex = 0, apf_nIndex = 0, apf_eEncoding = e\<rparr>"

definition demo_param_adec :: adc where
  "demo_param_adec =
     (prot (new_BOMX_Component omx_il_abi ''adec'' 0 None ''uuid'' demo_members))
       \<lparr>m_pAudioPorts :=
          [new_BOMX_AudioPort omx_il_abi False 0 OMX_DirInput 6 8192 False 0 [23, 500, 1] [demo_format 23],
           new_BOMX_AudioPort omx_il_abi False 1 OMX_DirOutput 6 32768 False 0 [2, 600, 0] [demo_format 0]],
        m_sub := demo_members\<lparr>m_numPcmChannels := 2, m_roles := [\<lparr>role_name = ''audio_decoder.mp3'', role_omxCodec = 23\<rparr>],
          m_pFrameStatus := 700, m_pMemoryBlocks := 800, m_arrays := [700 \<mapsto> 6, 800 \<mapsto> 6]\<rparr>\<rparr>"

definition demo_pcm :: OMX_AUDIO_PARAM_PCMMODETYPE where
  "demo_pcm =
     \<lparr>pcm_struct = BOMX_STRUCT_INIT omx_il_abi AUDIO_PCM, pcm_nPortIndex = 1, pcm_nChannels = 1, pcm_eNumData = OMX_NumericalDataSigned,
      pcm_eEndian = OMX_EndianLittle, pcm_bInterleaved = True, pcm_nBitPerSample = 16, pcm_nSamplingRate = 44100,
      pcm_ePCMMode = OMX_AUDIO_PCMModeLinear, pcm_eChannelMapping = replicate 16 OMX_AUDIO_ChannelNone\<rparr>"

lemmas demo_param_simps =
  demo_param_adec_def demo_members_def initial_members_def new_BOMX_Component_def new_BOMX_AudioPort_def new_BOMX_Port_def SetRole_def

lemma demo_store: "settings_store (e_error demo_param_env) (n_settings demo_nexus)"
proof -
  have "e_error demo_param_env = (\<lambda>l. 0)" by (simp add: demo_param_env_def demo_adec_env_def)
  then show ?thesis using replayed.settings_store_axioms [of "\<lambda>l. 0" demo_settings] by (simp add: demo_nexus_def)
qed

lemma demo_layout: "layout_laws demo_param_env demo_nexus"
  unfolding layout_laws_def by unfold_locales (auto simp: demo_param_env_def demo_nexus_def)

lemma demo_param_ports: "ports_ok demo_param_env demo_nexus demo_param_adec"
  by (simp add: ports_ok_def demo_param_simps demo_nexus_def demo_param_env_def GetCodec_def omx_coding_def)

lemma demo_param_wf: "adec_wf demo_param_env demo_nexus demo_param_adec"
  unfolding adec_wf_def using demo_param_ports by (simp add: array_ok_def demo_param_simps word_le_nat_alt)

lemma demo_pcm_fits: "pcm_fits demo_nexus demo_pcm (n_settings demo_nexus (nlog demo_param_adec @ [GetDecodeToMemorySettings]))"
  by (simp add: pcm_fits_def demo_nexus_def demo_pcm_def demo_settings_def demo_param_simps)

theorem adec_pcm_accepted_witness:
  "\<exists>c'. Adec_SetParameter demo_param_env demo_nexus (OMX_IndexParamAudioPcm (Some demo_pcm)) demo_param_adec = Some (OMX_ErrorNone, c')"
proof -
  have "\<forall>l s. (e_error demo_param_env (l @ [SetDecodeToMemorySettings s]) = 0) = True" by (simp add: demo_param_env_def demo_adec_env_def)
  from adec_pcm_accepted [OF demo_pcm_fits this] show ?thesis
    by (auto simp: demo_pcm_def demo_param_env_def demo_adec_env_def demo_param_simps)
qed

theorem adec_pcm_roundtrip_witness:
  "\<exists>c' c'' q. Adec_SetParameter demo_param_env demo_nexus (OMX_IndexParamAudioPcm (Some demo_pcm)) demo_param_adec = Some (OMX_ErrorNone, c')
     \<and> Adec_GetParameter demo_param_env demo_nexus (OMX_IndexParamAudioPcm (Some demo_pcm)) c' = (OMX_ErrorNone, OMX_IndexParamAudioPcm (Some q), c'')
     \<and> pcm_nChannels q = 2 \<and> pcm_nSamplingRate q = 44100 \<and> take 3 (pcm_eChannelMapping q) = [OMX_AUDIO_ChannelLF, OMX_AUDIO_ChannelRF, OMX_AUDIO_ChannelNone]"
proof -
  have v: "checked omx_il_abi AUDIO_PCM pcm_struct pcm_nPortIndex 1 (Some demo_pcm) = OMX_ErrorNone" by (simp add: checked_def demo_pcm_def)
  have s: "pcm_supported demo_pcm" by (simp add: pcm_supported_def demo_pcm_def)
  have env: "e_abi demo_param_env = omx_il_abi" "e_error demo_param_env l = 0" for l by (simp_all add: demo_param_env_def demo_adec_env_def)
  have b: "m_audioPortBase demo_param_adec = 0" by (simp add: demo_param_simps)
  obtain c' where c': "Adec_SetParameter demo_param_env demo_nexus (OMX_IndexParamAudioPcm (Some demo_pcm)) demo_param_adec = Some (OMX_ErrorNone, c')"
    by (rule set_pcm_supported [of demo_param_env demo_param_adec, unfolded env(1) b, simplified, OF v s demo_pcm_fits]) (rule that, simp add: env)
  have "8 \<le> NEXUS_AudioChannel_count demo_nexus" by (simp add: demo_nexus_def)
  from adec_pcm_roundtrip [OF demo_store demo_pcm_fits this c' refl refl] c' show ?thesis
    by (auto simp: demo_pcm_def demo_nexus_def upt_rec)
qed

theorem adec_parameters_typed_witness:
  "\<exists>c'. Adec_SetParameter demo_param_env demo_nexus (BaseParam (OMX_IndexParamStandardComponentRole
      (Some \<lparr>cr_struct = BOMX_STRUCT_INIT omx_il_abi COMPONENTROLE, cRole = ''x''\<rparr>))) demo_param_adec = Some (OMX_ErrorBadParameter, c')
    \<and> adec_wf demo_param_env demo_nexus c'"
proof -
  let ?p = "BaseParam (OMX_IndexParamStandardComponentRole (Some \<lparr>cr_struct = BOMX_STRUCT_INIT omx_il_abi COMPONENTROLE, cRole = ''x''\<rparr>))"
  have "\<forall>l. e_error demo_param_env l = 0" "\<forall>l. e_new demo_param_env l \<noteq> NULL" by (simp_all add: demo_param_env_def demo_adec_env_def)
  from adec_parameters_typed [OF demo_param_wf demo_layout this, of ?p]
  show ?thesis by (simp add: set_role_def demo_param_simps demo_param_env_def demo_adec_env_def)
qed

theorem adec_role_selects_codec_witness:
  "\<exists>c'. Adec_SetParameter demo_param_env demo_nexus (BaseParam (OMX_IndexParamStandardComponentRole
      (Some \<lparr>cr_struct = BOMX_STRUCT_INIT omx_il_abi COMPONENTROLE, cRole = ''audio_decoder.mp3''\<rparr>))) demo_param_adec = Some (OMX_ErrorNone, c')
    \<and> GetCodec demo_param_env c' = OMX_AUDIO_CodingMP3"
proof -
  let ?r = "\<lparr>cr_struct = BOMX_STRUCT_INIT omx_il_abi COMPONENTROLE, cRole = ''audio_decoder.mp3''\<rparr>"
  have "\<forall>x \<in> set (m_roles (m_sub demo_param_adec)).
      (\<exists>f \<in> set (audio_formats (m_pPortFormats (in_port demo_param_adec))). apf_eEncoding f = role_omxCodec x)
      \<and> mime_of (n_codingtype demo_nexus (role_omxCodec x)) \<noteq> None"
    by (simp add: demo_param_simps demo_format_def demo_nexus_def omx_coding_def)
  from adec_role_selects_codec [OF demo_param_ports demo_layout _ this, of ?r] show ?thesis
    by (auto simp: demo_param_simps demo_param_env_def demo_adec_env_def demo_nexus_def omx_coding_def)
qed

end
