(* ===== verification/Adec_Life.thy ===== *)
theory Adec_Life
  imports Adec_Params "HOL-Library.Multiset"
begin

text \<open>
  \<open>media/libstagefrighthw/bomx_audio_decoder.cpp\<close>: how an audio decoder is created and destroyed. The
  constructor acquires one resource after the other and gives up at the first that it does not
  get; the object is then deleted, and the destructor releases what its members name. At most two
  decoders may exist. The constructor of the base class is taken to succeed.
\<close>

section \<open>Construction\<close>

text \<open>The two counters that all decoders share, read as signed; the number of an instance only goes to its traces.\<close>

record adec_globals =
  g_instanceNum :: u32
  g_activeInstancesNum :: u32

definition B_MAX_AUDIO_DECODERS :: int where "B_MAX_AUDIO_DECODERS = 2"
definition B_NUM_BUFFERS :: nat where "B_NUM_BUFFERS = 6"
definition B_OUTPUT_BUFFER_SIZE :: nat where "B_OUTPUT_BUFFER_SIZE = 2048 * 2 * 8"
definition MAX_PORT_FORMATS :: nat where "MAX_PORT_FORMATS = 2"

text \<open>
  A part of the constructor: an error code when it invalidates the object and returns. \<open>None\<close> is a
  failed assertion or an access outside an array.
\<close>

type_synonym ctor_step = "adc \<Rightarrow> (OMX_ERRORTYPE \<times> adc) option"

fun run_steps :: "ctor_step list \<Rightarrow> ctor_step" where
  "run_steps [] c = Some (OMX_ErrorNone, c)"
| "run_steps (f # fs) c = do {(err, c) \<leftarrow> f c; if err \<noteq> OMX_ErrorNone then Some (err, c) else run_steps fs c}"

definition demand :: "bool \<Rightarrow> OMX_ERRORTYPE \<Rightarrow> adc \<Rightarrow> (OMX_ERRORTYPE \<times> adc) option" where
  "demand got err c = Some (if got then OMX_ErrorNone else err, c)"

definition new_object :: "'b adec_env \<Rightarrow> adc \<Rightarrow> addr \<times> adc" where
  "new_object env c = (e_new env (nlog c), nexus New c)"

definition acquire :: "'b adec_env \<Rightarrow> nexus_call \<Rightarrow> adc \<Rightarrow> addr \<times> adc" where
  "acquire env x c = (let c = nexus x c in (e_handle env (nlog c), c))"

definition adec_enabled :: "'b adec_env \<Rightarrow> ctor_step" where
  "adec_enabled env c = (let c = nexus Property c in demand (e_property env (nlog c) \<noteq> 0) OMX_ErrorUndefined c)"

definition new_roles :: "'b adec_env \<Rightarrow> BOMX_AudioDecoderRole list \<Rightarrow> ctor_step" where
  "new_roles env pRoles c =
     (if pRoles = [] then demand False OMX_ErrorUndefined c
      else
        let roles = take MAX_PORT_FORMATS pRoles; (a, c) = new_object env c
        in demand (a \<noteq> NULL) OMX_ErrorUndefined (sub (\<lambda>s. s\<lparr>m_pRoles := a, m_roles := roles\<rparr>) c))"

definition port_format_of :: "'b adec_env \<Rightarrow> u32 \<Rightarrow> nat \<Rightarrow> u32 \<Rightarrow> OMX_AUDIO_PARAM_PORTFORMATTYPE" where
  "port_format_of env port i enc =
     \<lparr>apf_struct = BOMX_STRUCT_INIT (e_abi env) AUDIO_PORTFORMAT, apf_nPortIndex = port, apf_nIndex = of_nat i, apf_eEncoding = enc\<rparr>"

definition new_input_port :: "'b adec_env \<Rightarrow> adec_nexus \<Rightarrow> bool \<Rightarrow> ctor_step" where
  "new_input_port env nx uninit c =
     (let roles = m_roles (m_sub c); enc = role_omxCodec (roles ! 0);
          portDefs = n_portdef nx enc (n_inputMime nx) True;
          (_, mime) = BOMX_AudioDecoder_InitMimeType (e_abi env) (n_codingtype nx enc);
          c = sub (\<lambda>s. s\<lparr>m_inputMimeType := mime\<rparr>) c;
          portFormats = map (\<lambda>(i, r). port_format_of env (m_audioPortBase c) i (role_omxCodec r)) (enumerate 0 roles);
          c = SetRole (e_abi env) (role_name (roles ! 0)) c;
          (a, c) = new_object env c;
          p = new_BOMX_AudioPort (e_abi env) uninit (m_audioPortBase c) OMX_DirInput (of_nat B_NUM_BUFFERS) (of_nat B_DATA_BUFFER_SIZE) False 0 portDefs portFormats
      in demand (a \<noteq> NULL) OMX_ErrorUndefined
           (if a = NULL then c\<lparr>m_pAudioPorts := []\<rparr> else sub (\<lambda>s. s\<lparr>m_portObjects := [a]\<rparr>) (c\<lparr>m_pAudioPorts := [p]\<rparr>)))"

definition new_output_port :: "'b adec_env \<Rightarrow> adec_nexus \<Rightarrow> bool \<Rightarrow> ctor_step" where
  "new_output_port env nx uninit c =
     (let portDefs = n_portdef nx (n_pcmCoding nx) (n_outputMime nx) False;
          (_, mime) = BOMX_AudioDecoder_InitMimeType (e_abi env) OMX_AUDIO_CodingPCM;
          c = sub (\<lambda>s. s\<lparr>m_outputMimeType := mime\<rparr>) c;
          portFormats = [port_format_of env (m_audioPortBase c + 1) 0 (n_unused nx)];
          (a, c) = new_object env c;
          p = new_BOMX_AudioPort (e_abi env) uninit (m_audioPortBase c + 1) OMX_DirOutput (of_nat B_NUM_BUFFERS) (of_nat B_OUTPUT_BUFFER_SIZE) False 0 portDefs portFormats
      in demand (a \<noteq> NULL) OMX_ErrorUndefined
           (if a = NULL then c
            else sub (\<lambda>s. s\<lparr>m_portObjects := m_portObjects s @ [a]\<rparr>) (c\<lparr>m_pAudioPorts := m_pAudioPorts c @ [p]\<rparr>)))"

definition init_aac :: "'b adec_env \<Rightarrow> adec_nexus \<Rightarrow> ctor_step" where
  "init_aac env nx c =
     demand True OMX_ErrorNone
       (sub (\<lambda>s. s\<lparr>m_aacParams := (n_zeroAac nx)\<lparr>aac_struct := BOMX_STRUCT_INIT (e_abi env) AUDIO_AAC, aac_nChannels := 2\<rparr>\<rparr>) c)"

definition new_frame_status :: "'b adec_env \<Rightarrow> ctor_step" where
  "new_frame_status env c =
     (let (a, c) = new_array env B_NUM_BUFFERS c in demand (a \<noteq> NULL) OMX_ErrorUndefined (sub (\<lambda>s. s\<lparr>m_pFrameStatus := a\<rparr>) c))"

definition new_memory_blocks :: "'b adec_env \<Rightarrow> ctor_step" where
  "new_memory_blocks env c =
     (let (a, c) = new_array env B_NUM_BUFFERS c in demand (a \<noteq> NULL) OMX_ErrorUndefined (sub (\<lambda>s. s\<lparr>m_pMemoryBlocks := a\<rparr>) c))"

definition new_playpump_event :: "'b adec_env \<Rightarrow> ctor_step" where
  "new_playpump_event env c =
     (let (h, c) = acquire env Event_Create c in demand (h \<noteq> NULL) OMX_ErrorUndefined (sub (\<lambda>s. s\<lparr>m_hPlaypumpEvent := h\<rparr>) c))"

definition new_output_event :: "'b adec_env \<Rightarrow> ctor_step" where
  "new_output_event env c =
     (let (h, c) = acquire env Event_Create c in demand (h \<noteq> NULL) OMX_ErrorUndefined (sub (\<lambda>s. s\<lparr>m_hOutputFrameEvent := h\<rparr>) c))"

definition register_output_event :: "'b adec_env \<Rightarrow> ctor_step" where
  "register_output_event env c =
     (let (h, c) = acquire env Register c in demand (h \<noteq> NULL) OMX_ErrorUndefined (sub (\<lambda>s. s\<lparr>m_outputFrameEventId := h\<rparr>) c))"

definition new_tracker :: "'b adec_env \<Rightarrow> ctor_step" where
  "new_tracker env c =
     (let t = new_BOMX_BufferTracker (\<lambda>_. e_node env (nlog c)) 1024; (a, c) = new_object env c
      in demand (a \<noteq> NULL \<and> m_valid t) OMX_ErrorUndefined
           (if a = NULL then c else sub (\<lambda>s. s\<lparr>m_trackerObject := a, m_pBufferTracker := t\<rparr>) c))"

definition open_ipc :: "'b adec_env \<Rightarrow> ctor_step" where
  "open_ipc env c =
     (let (h, c) = acquire env GetClient c in demand (h \<noteq> NULL) OMX_ErrorUndefined (sub (\<lambda>s. s\<lparr>m_pIpcClient := h\<rparr>) c))"

definition open_context :: "'b adec_env \<Rightarrow> ctor_step" where
  "open_context env c =
     (let (h, c) = acquire env CreateClientContext c in demand (h \<noteq> NULL) OMX_ErrorUndefined (sub (\<lambda>s. s\<lparr>m_pNexusClient := h\<rparr>) c))"

text \<open>An allocation that fails leaves the pointer as it was.\<close>

definition new_eos_buffer :: "'b adec_env \<Rightarrow> ctor_step" where
  "new_eos_buffer env c =
     (let (a, c) = AllocateInputBuffer env BOMX_AUDIO_EOS_LEN c
      in demand (a \<noteq> NULL) OMX_ErrorUndefined (if a = NULL then c else sub (\<lambda>s. s\<lparr>m_pEosBuffer := a\<rparr>) c))"

definition new_pes :: "'b adec_env \<Rightarrow> ctor_step" where
  "new_pes env c =
     (let (a, c) = new_object env c in demand (a \<noteq> NULL) OMX_ErrorUndefined (sub (\<lambda>s. s\<lparr>m_pPes := a\<rparr>) c))"

definition form_eos :: ctor_step where
  "form_eos c =
     do {bs \<leftarrow> mem c (m_pEosBuffer (m_sub c)); bs \<leftarrow> FormBppPacket B_STREAM_ID bs 0x82;
         demand True OMX_ErrorNone (put_mem (m_pEosBuffer (m_sub c)) bs c)}"

definition open_decoder :: "'b adec_env \<Rightarrow> ctor_step" where
  "open_decoder env c =
     (let (h, c) = acquire env Decoder_Open c in demand (h \<noteq> NULL) OMX_ErrorInsufficientResources (sub (\<lambda>s. s\<lparr>m_hAudioDecoder := h\<rparr>) c))"

definition default_layout :: "NEXUS_AudioChannel list" where
  "default_layout =
     [NEXUS_AudioChannel_eLeft, NEXUS_AudioChannel_eRight, NEXUS_AudioChannel_eCenter, NEXUS_AudioChannel_eLfe,
      NEXUS_AudioChannel_eLeftSurround, NEXUS_AudioChannel_eRightSurround, NEXUS_AudioChannel_eLeftRear, NEXUS_AudioChannel_eRightRear]"

definition configure_decoder :: "'b adec_env \<Rightarrow> adec_nexus \<Rightarrow> ctor_step" where
  "configure_decoder env nx c =
     (let c = nexus GetDecodeToMemorySettings c; ds = n_settings nx (nlog c) in
      if length (ds_channelLayout ds) < 8 then None
      else
        let ds = ds\<lparr>ds_bitsPerSample := 16, ds_numPcmChannels := 2, ds_maxBuffers := of_nat B_NUM_BUFFERS,
                    ds_channelLayout := default_layout @ drop 8 (ds_channelLayout ds), ds_complete := m_hOutputFrameEvent (m_sub c)\<rparr>;
            (ok, c) = nexus_ok env (SetDecodeToMemorySettings ds) c
        in demand ok OMX_ErrorUndefined
             (if ok then sub (\<lambda>s. s\<lparr>m_bitsPerSample := ds_bitsPerSample ds, m_numPcmChannels := ds_numPcmChannels ds\<rparr>) c else c))"

text \<open>Four properties for the dynamic range of AAC; a property that is not set has its default, so that the answer is never empty.\<close>

definition B_DRC_DEFAULT_REF_LEVEL :: int where "B_DRC_DEFAULT_REF_LEVEL = 92"

definition int_property :: "'b adec_env \<Rightarrow> adc \<Rightarrow> int \<times> adc" where
  "int_property env c = (let c = nexus Property c in (e_property env (nlog c), c))"

definition drc_defaults :: "'b adec_env \<Rightarrow> adec_nexus \<Rightarrow> ctor_step" where
  "drc_defaults env nx c =
     do {
       let c = nexus GetCodecSettings c;
       let cs = n_codec nx (nlog c);
       let c = nexus Property c;
       let mode = n_string nx (nlog c);
       let cs = (if mode \<noteq> [] then cs\<lparr>cs_drcLine := (mode = ''line'')\<rparr> else cs);
       let (v, c) = int_property env c;
       cut \<leftarrow> B_DRC_TO_NEXUS v;
       let (v, c) = int_property env c;
       boost \<leftarrow> B_DRC_TO_NEXUS v;
       let (level, c) = int_property env c;
       let (temp, c) = int_property env c;
       let cs = cs\<lparr>cs_cut := cut, cs_boost := boost, cs_drcTargetLevel := of_int level,
                   cs_drcDefaultLevel := of_int (if temp \<ge> 0 then temp else B_DRC_DEFAULT_REF_LEVEL)\<rparr>;
       demand True OMX_ErrorNone (snd (nexus_ok env (SetCodecSettings cs) c))}"

definition BOMX_BCMA_HEADER_SIZE :: nat where "BOMX_BCMA_HEADER_SIZE = 26"

definition init_bcma :: ctor_step where
  "init_bcma c =
     demand True OMX_ErrorNone (sub (\<lambda>s. s\<lparr>m_pBcmaHeader := [0x42, 0x43, 0x4d, 0x41] @ replicate (BOMX_BCMA_HEADER_SIZE - 4) 0\<rparr>) c)"

definition open_file :: "'b adec_env \<Rightarrow> int \<Rightarrow> ((addr \<Rightarrow> addr) \<Rightarrow> BOMX_AudioDecoder \<Rightarrow> BOMX_AudioDecoder) \<Rightarrow> adc \<Rightarrow> adc" where
  "open_file env debug upd c =
     (if debug \<noteq> 0 then let (h, c) = acquire env OpenFile c in sub (upd (\<lambda>_. h)) c else c)"

definition debug_files :: "'b adec_env \<Rightarrow> ctor_step" where
  "debug_files env c =
     (let (pesDebug, c) = int_property env c; (inputDebug, c) = int_property env c; (outputDebug, c) = int_property env c;
          c = open_file env pesDebug m_pPesFile_update c; c = open_file env inputDebug m_pInputFile_update c;
          c = open_file env outputDebug m_pOutputFile_update c
      in demand True OMX_ErrorNone c)"

definition ctor_steps :: "'b adec_env \<Rightarrow> adec_nexus \<Rightarrow> bool \<Rightarrow> BOMX_AudioDecoderRole list \<Rightarrow> ctor_step list" where
  "ctor_steps env nx uninit pRoles =
     [adec_enabled env, new_roles env pRoles, new_input_port env nx uninit, new_output_port env nx uninit, init_aac env nx,
      new_frame_status env, new_memory_blocks env, new_playpump_event env, new_output_event env, register_output_event env,
      new_tracker env, open_ipc env, open_context env, new_eos_buffer env, new_pes env, form_eos, open_decoder env,
      configure_decoder env nx, drc_defaults env nx, init_bcma, debug_files env]"

definition new_BOMX_AudioDecoder ::
  "'b adec_env \<Rightarrow> adec_nexus \<Rightarrow> bool \<Rightarrow> BOMX_AudioDecoderRole list \<Rightarrow> adec_globals \<Rightarrow> adc \<Rightarrow> (OMX_ERRORTYPE \<times> adec_globals \<times> adc) option" where
  "new_BOMX_AudioDecoder env nx uninit pRoles g c =
     (let active = g_activeInstancesNum g;
          g = g\<lparr>g_instanceNum := g_instanceNum g + 1, g_activeInstancesNum := active + 1\<rparr>;
          c = c\<lparr>m_audioPortBase := 0\<rparr> in
      if sint active \<ge> B_MAX_AUDIO_DECODERS then Some (OMX_ErrorInsufficientResources, g, c)
      else do {(err, c) \<leftarrow> run_steps (ctor_steps env nx uninit pRoles) c; Some (err, g, c)})"

section \<open>Destruction\<close>

definition release :: "(addr \<Rightarrow> nexus_call) \<Rightarrow> (BOMX_AudioDecoder \<Rightarrow> addr) \<Rightarrow> adc \<Rightarrow> adc" where
  "release how member c = (if member (m_sub c) \<noteq> NULL then nexus (how (member (m_sub c))) c else c)"

text \<open>The loop that frees the buffers a port still has, and then the port; a buffer that stays makes it turn for ever.\<close>

definition free_step :: "nat \<Rightarrow> adc \<Rightarrow> adc option" where
  "free_step i c =
     (let p = m_pAudioPorts c ! i; pBuffer = GetPortBuffer p in
      if pBuffer = NULL then None
      else map_option snd (Adec_FreeBuffer (if eDir (m_definition p) = OMX_DirInput then m_audioPortBase c else m_audioPortBase c + 1) pBuffer c))"

definition free_port :: "nat \<Rightarrow> adc \<Rightarrow> adc option" where
  "free_port i c =
     (if i < length (m_pAudioPorts c) then do {
        c \<leftarrow> drain (\<lambda>c. if IsEmpty (m_pAudioPorts c ! i) then 0 else 1) (\<lambda>c _. free_step i c) c;
        Some (nexus (Delete (m_portObjects (m_sub c) ! i)) c)}
      else Some c)"

definition delete_BOMX_AudioDecoder :: "adec_globals \<Rightarrow> adc \<Rightarrow> (adec_globals \<times> adc) option" where
  "delete_BOMX_AudioDecoder g c =
     do {
       let c = Lock (nexus ShutdownScheduler c);
       let c = release CloseFile m_pPesFile c;
       let c = release CloseFile m_pInputFile c;
       let c = release CloseFile m_pOutputFile c;
       let c = release Delete m_pPes c;
       let c = release (\<lambda>_. Decoder_Close) m_hAudioDecoder c;
       c \<leftarrow> (if m_hPlaypump (m_sub c) \<noteq> NULL then do {c \<leftarrow> ClosePidChannel c; Some (nexus Playpump_Close c)} else Some c);
       let c = release Unregister m_playpumpEventId c;
       let c = release Event_Destroy m_hPlaypumpEvent c;
       let c = release Unregister m_outputFrameEventId c;
       let c = release CancelTimer m_inputBuffersTimerId c;
       let c = release Event_Destroy m_hOutputFrameEvent c;
       c \<leftarrow> free_port 0 c;
       c \<leftarrow> free_port 1 c;
       let c = (if m_pEosBuffer (m_sub c) \<noteq> NULL then FreeInputBuffer (m_pEosBuffer (m_sub c)) c else c);
       let c = (if m_pConfigBuffer (m_sub c) \<noteq> NULL then FreeInputBuffer (m_pConfigBuffer (m_sub c)) c else c);
       let c = (if m_pIpcClient (m_sub c) \<noteq> NULL then release Delete m_pIpcClient (release DestroyClientContext m_pNexusClient c) else c);
       let c = release Delete m_trackerObject c;
       let c = release Delete m_pRoles c;
       let c = release Delete m_pFrameStatus c;
       let c = release Delete m_pMemoryBlocks c;
       Some (g\<lparr>g_activeInstancesNum := g_activeInstancesNum g - 1\<rparr>, Unlock c)}"

section \<open>Creation\<close>

text \<open>\<open>caps\<close> tells which codecs the audio processor has; \<open>c\<close> is the object with its members as \<open>initial_members\<close>.\<close>

definition create_decoder ::
  "(nexus_log \<Rightarrow> bool) \<Rightarrow> 'b adec_env \<Rightarrow> adec_nexus \<Rightarrow> bool \<Rightarrow> BOMX_AudioDecoderRole list \<Rightarrow> adec_globals \<Rightarrow> adc
   \<Rightarrow> (OMX_ERRORTYPE \<times> adec_globals \<times> adc) option" where
  "create_decoder caps env nx uninit pRoles g c =
     (let c = nexus GetAudioCapabilities c in
      if \<not> caps (nlog c) then Some (BOMX_ERR_TRACE OMX_ErrorNotImplemented, g, c)
      else
        let (a, c) = new_object env c in
        if a = NULL then Some (BOMX_ERR_TRACE OMX_ErrorUndefined, g, c)
        else do {
          (err, g, c) \<leftarrow> new_BOMX_AudioDecoder env nx uninit pRoles g c;
          if err = OMX_ErrorNone then Some (OMX_ErrorNone, g, c)
          else do {(g, c) \<leftarrow> delete_BOMX_AudioDecoder g c; Some (BOMX_ERR_TRACE err, g, nexus (Delete a) c)}})"

text \<open>The role tables; the number of a coding comes from the OMX headers.\<close>

definition role_table :: "string \<Rightarrow> u32 \<Rightarrow> BOMX_AudioDecoderRole list" where
  "role_table name coding = [\<lparr>role_name = name, role_omxCodec = coding\<rparr>]"

definition BOMX_AUDIO_GET_ROLE_NAME :: "BOMX_AudioDecoderRole list \<Rightarrow> u32 \<Rightarrow> string option" where
  "BOMX_AUDIO_GET_ROLE_NAME roles i = (if i \<ge> of_nat (length roles) then None else Some (role_name (roles ! unat i)))"

text \<open>For each of the three, \<open>has\<close> tells which of the two codecs the hardware decodes.\<close>

definition BOMX_AudioDecoder_CreateAc3 where
  "BOMX_AudioDecoder_CreateAc3 has_ac3 has_ac3plus env nx uninit coding g c =
     create_decoder (\<lambda>l. \<not> (\<not> has_ac3 l \<and> \<not> has_ac3plus l)) env nx uninit (role_table ''audio_decoder.ac3'' coding) g c"
definition BOMX_AudioDecoder_CreateMp3 where
  "BOMX_AudioDecoder_CreateMp3 has_mp3 has_mpeg env nx uninit coding g c =
     create_decoder (\<lambda>l. \<not> (\<not> has_mp3 l \<and> \<not> has_mpeg l)) env nx uninit (role_table ''audio_decoder.mp3'' coding) g c"
definition BOMX_AudioDecoder_CreateAac where
  "BOMX_AudioDecoder_CreateAac has_adts has_plus env nx uninit coding g c =
     create_decoder (\<lambda>l. \<not> (\<not> has_adts l \<and> \<not> has_plus l)) env nx uninit (role_table ''audio_decoder.aac'' coding) g c"

definition BOMX_AudioDecoder_GetRoleAc3 where
  "BOMX_AudioDecoder_GetRoleAc3 coding = BOMX_AUDIO_GET_ROLE_NAME (role_table ''audio_decoder.ac3'' coding)"
definition BOMX_AudioDecoder_GetRoleMp3 where
  "BOMX_AudioDecoder_GetRoleMp3 coding = BOMX_AUDIO_GET_ROLE_NAME (role_table ''audio_decoder.mp3'' coding)"
definition BOMX_AudioDecoder_GetRoleAac where
  "BOMX_AudioDecoder_GetRoleAac coding = BOMX_AUDIO_GET_ROLE_NAME (role_table ''audio_decoder.aac'' coding)"

text \<open>The decoder has no extensions (the table ends at the name that is null) and no configurations.\<close>

definition g_extensions :: "(string option \<times> int) list" where "g_extensions = [(None, 0)]"

definition Adec_GetExtensionIndex :: "string option \<Rightarrow> int option \<Rightarrow> OMX_ERRORTYPE \<times> int option" where
  "Adec_GetExtensionIndex cParameterName pIndexType =
     (if cParameterName = None \<or> pIndexType = None then (BOMX_ERR_TRACE OMX_ErrorBadParameter, pIndexType)
      else case find (\<lambda>(pName, _). pName = cParameterName) (takeWhile (\<lambda>(pName, _). pName \<noteq> None) g_extensions) of
        Some (_, index) \<Rightarrow> (OMX_ErrorNone, Some index)
      | None \<Rightarrow> (OMX_ErrorUnsupportedIndex, pIndexType))"

definition Adec_GetConfig :: "u32 \<Rightarrow> OMX_ERRORTYPE" where
  "Adec_GetConfig nIndex = BOMX_ERR_TRACE OMX_ErrorUnsupportedIndex"

definition Adec_SetConfig :: "u32 \<Rightarrow> OMX_ERRORTYPE" where
  "Adec_SetConfig nIndex = BOMX_ERR_TRACE OMX_ErrorUnsupportedIndex"

section \<open>Resources\<close>

text \<open>
  What the calls made so far have acquired and not given back, from a log with the last call first.
  What an acquisition returns is the answer of Nexus or of the allocator to that call; a null
  answer acquires nothing. The client of the Nexus service is an object on the heap.
\<close>

datatype resource =
  Heap addr | Event addr | Registration addr | Context addr | Memory addr | Decoder | File addr

definition got :: "(addr \<Rightarrow> resource) \<Rightarrow> addr \<Rightarrow> resource multiset" where
  "got kind a = (if a = NULL then {#} else {#kind a#})"

fun live :: "'b adec_env \<Rightarrow> nexus_log \<Rightarrow> resource multiset" where
  "live env [] = {#}"
| "live env (x # l) =
     (case x of
        New \<Rightarrow> live env l + got Heap (e_new env (rev l))
      | NewArray n \<Rightarrow> live env l + got Heap (e_new env (rev l))
      | Event_Create \<Rightarrow> live env l + got Event (e_handle env (rev (x # l)))
      | Register \<Rightarrow> live env l + got Registration (e_handle env (rev (x # l)))
      | GetClient \<Rightarrow> live env l + got Heap (e_handle env (rev (x # l)))
      | CreateClientContext \<Rightarrow> live env l + got Context (e_handle env (rev (x # l)))
      | Memory_Allocate n \<Rightarrow> live env l + got Memory (fst (e_alloc env (rev l) n))
      | Decoder_Open \<Rightarrow> live env l + got (\<lambda>_. Decoder) (e_handle env (rev (x # l)))
      | OpenFile \<Rightarrow> live env l + got File (e_handle env (rev (x # l)))
      | Delete a \<Rightarrow> live env l - {#Heap a#}
      | Event_Destroy a \<Rightarrow> live env l - {#Event a#}
      | Unregister a \<Rightarrow> live env l - {#Registration a#}
      | DestroyClientContext a \<Rightarrow> live env l - {#Context a#}
      | Memory_Free a \<Rightarrow> live env l - {#Memory a#}
      | Decoder_Close \<Rightarrow> live env l - {#Decoder#}
      | CloseFile a \<Rightarrow> live env l - {#File a#}
      | _ \<Rightarrow> live env l)"

text \<open>What the members of a decoder name.\<close>

definition held :: "BOMX_AudioDecoder \<Rightarrow> resource multiset" where
  "held s =
     got File (m_pPesFile s) + got File (m_pInputFile s) + got File (m_pOutputFile s) + got Heap (m_pPes s) + got (\<lambda>_. Decoder) (m_hAudioDecoder s)
     + got Registration (m_playpumpEventId s) + got Event (m_hPlaypumpEvent s) + got Registration (m_outputFrameEventId s) + got Event (m_hOutputFrameEvent s)
     + mset (map Heap (m_portObjects s)) + got Memory (m_pEosBuffer s) + got Memory (m_pConfigBuffer s)
     + got Context (m_pNexusClient s) + got Heap (m_pIpcClient s) + got Heap (m_trackerObject s) + got Heap (m_pRoles s)
     + got Heap (m_pFrameStatus s) + got Heap (m_pMemoryBlocks s)"

text \<open>
  An object between two steps of its constructor: what was acquired beyond \<open>base\<close> is what the members
  name. It has no buffers, no playpump and no timer.
\<close>

definition accounted :: "'b adec_env \<Rightarrow> resource multiset \<Rightarrow> adc \<Rightarrow> bool" where
  "accounted env base c \<longleftrightarrow>
     live env (rev (nlog c)) = base + held (m_sub c) \<and> length (m_portObjects (m_sub c)) = length (m_pAudioPorts c)
     \<and> length (m_pAudioPorts c) \<le> 2 \<and> list_all IsEmpty (m_pAudioPorts c)
     \<and> m_hPlaypump (m_sub c) = NULL \<and> m_inputBuffersTimerId (m_sub c) = NULL \<and> (m_pIpcClient (m_sub c) = NULL \<longrightarrow> m_pNexusClient (m_sub c) = NULL)"

section \<open>The destructor gives everything back\<close>

definition calls :: "nexus_call list \<Rightarrow> adc \<Rightarrow> adc" where
  "calls xs = sub (\<lambda>s. s\<lparr>m_nexus := m_nexus s @ xs\<rparr>)"

lemma calls_simps [simp]:
  "m_sub (calls xs c) = (m_sub c)\<lparr>m_nexus := nlog c @ xs\<rparr>" "m_pAudioPorts (calls xs c) = m_pAudioPorts c" "calls ys (calls xs c) = calls (xs @ ys) c"
  by (simp_all add: calls_def sub_def)

lemma nexus_calls: "nexus x c = calls [x] c"
  by (simp add: nexus_def calls_def)

definition rel :: "(addr \<Rightarrow> nexus_call) \<Rightarrow> addr \<Rightarrow> nexus_call list" where
  "rel how a = (if a = NULL then [] else [how a])"

lemma release_calls: "release how member c = calls (rel how (member (m_sub c))) c"
  by (simp add: release_def rel_def nexus_calls calls_def sub_def)

text \<open>The same on reversed logs.\<close>

lemma live_rel:
  "live env (rev (rel Delete a) @ l) = live env l - got Heap a" "live env (rev (rel Event_Destroy a) @ l) = live env l - got Event a"
  "live env (rev (rel Unregister a) @ l) = live env l - got Registration a" "live env (rev (rel DestroyClientContext a) @ l) = live env l - got Context a"
  "live env (rev (rel Memory_Free a) @ l) = live env l - got Memory a" "live env (rev (rel (\<lambda>_. Decoder_Close) a) @ l) = live env l - got (\<lambda>_. Decoder) a"
  "live env (rev (rel CloseFile a) @ l) = live env l - got File a" "live env (rev (rel CancelTimer a) @ l) = live env l"
  by (simp_all add: rel_def got_def)

definition dtor_calls :: "BOMX_AudioDecoder \<Rightarrow> nexus_call list" where
  "dtor_calls s =
     ShutdownScheduler # rel CloseFile (m_pPesFile s) @ rel CloseFile (m_pInputFile s) @ rel CloseFile (m_pOutputFile s) @ rel Delete (m_pPes s)
     @ rel (\<lambda>_. Decoder_Close) (m_hAudioDecoder s) @ rel Unregister (m_playpumpEventId s) @ rel Event_Destroy (m_hPlaypumpEvent s)
     @ rel Unregister (m_outputFrameEventId s) @ rel CancelTimer (m_inputBuffersTimerId s) @ rel Event_Destroy (m_hOutputFrameEvent s)
     @ map Delete (m_portObjects s) @ rel Memory_Free (m_pEosBuffer s) @ rel Memory_Free (m_pConfigBuffer s)
     @ rel DestroyClientContext (m_pNexusClient s) @ rel Delete (m_pIpcClient s) @ rel Delete (m_trackerObject s) @ rel Delete (m_pRoles s)
     @ rel Delete (m_pFrameStatus s) @ rel Delete (m_pMemoryBlocks s)"

lemma live_delete_all: "live env (rev (map Delete as) @ l) = live env l - mset (map Heap as)"
  by (induction as arbitrary: l) (auto simp: diff_diff_add_mset)

lemma live_dtor: "live env (rev (nlog c @ dtor_calls (m_sub c))) = live env (rev (nlog c)) - held (m_sub c)"
  by (simp add: dtor_calls_def held_def live_rel live_delete_all diff_diff_add_mset ac_simps)

definition port_delete :: "nat \<Rightarrow> addr list \<Rightarrow> nexus_call list" where
  "port_delete i as = (if i < length as then [Delete (as ! i)] else [])"

lemma free_empty:
  assumes "list_all IsEmpty (m_pAudioPorts c)" "length (m_portObjects (m_sub c)) = length (m_pAudioPorts c)"
  shows "free_port i c = Some (calls (port_delete i (m_portObjects (m_sub c))) c)"
  using assms by (simp add: free_port_def list_all_length drain.simps nexus_calls port_delete_def) (simp add: calls_def sub_def)

lemma delete_objects: "length as \<le> 2 \<Longrightarrow> port_delete 0 as @ port_delete 1 as @ xs = map Delete as @ xs"
  by (cases as; cases "tl as") (auto simp: port_delete_def)

definition drop_memory :: "addr \<Rightarrow> adc \<Rightarrow> adc" where
  "drop_memory a = sub (\<lambda>s. s\<lparr>m_mem := (m_mem s)(a := if a = NULL then m_mem s a else None)\<rparr>)"

lemma free_memory: "(if 0 < a then FreeInputBuffer a c else c) = drop_memory a (calls (rel Memory_Free a) c)"
  by (simp add: drop_memory_def FreeInputBuffer_def Memory_free_def nexus_calls rel_def calls_def sub_def)

lemma free_client:
  assumes "p = m_pIpcClient (m_sub c)" "p = NULL \<longrightarrow> m_pNexusClient (m_sub c) = NULL"
  shows "(if 0 < p then release Delete m_pIpcClient (release DestroyClientContext m_pNexusClient c) else c) =
    calls (rel DestroyClientContext (m_pNexusClient (m_sub c)) @ rel Delete p) c"
  using assms by (simp add: release_calls) (simp add: rel_def calls_def sub_def)

lemma calls_commute [simp]:
  "calls xs (Lock c) = Lock (calls xs c)" "calls xs (drop_memory a c) = drop_memory a (calls xs c)" "drop_memory a (Lock c) = Lock (drop_memory a c)"
  "m_sub (Lock c) = m_sub c" "m_sub (Unlock c) = m_sub c" "m_pAudioPorts (Lock c) = m_pAudioPorts c" "m_pAudioPorts (drop_memory a c) = m_pAudioPorts c"
  "m_sub (drop_memory a c) = (m_sub c)\<lparr>m_mem := (mem c)(a := if a = NULL then mem c a else None)\<rparr>"
  by (simp_all add: calls_def sub_def Lock_def Unlock_def drop_memory_def comp_def)

text \<open>Without buffers, playpump and timer the destructor makes exactly these calls.\<close>

lemma dtor_runs:
  assumes a: "accounted env base c"
  obtains c' where "delete_BOMX_AudioDecoder g c = Some (g\<lparr>g_activeInstancesNum := g_activeInstancesNum g - 1\<rparr>, c')"
    "nlog c' = nlog c @ dtor_calls (m_sub c)"
proof -
  let ?s = "m_sub c"
  have e: "list_all IsEmpty (m_pAudioPorts c)" "m_hPlaypump ?s = NULL" "m_pIpcClient ?s = NULL \<longrightarrow> m_pNexusClient ?s = NULL"
    "length (m_portObjects ?s) = length (m_pAudioPorts c)" "length (m_portObjects ?s) \<le> 2"
    using a by (simp_all add: accounted_def)
  have "\<exists>c'. delete_BOMX_AudioDecoder g c = Some (g\<lparr>g_activeInstancesNum := g_activeInstancesNum g - 1\<rparr>, c') \<and> nlog c' = nlog c @ dtor_calls ?s"
    using e by (simp add: delete_BOMX_AudioDecoder_def Let_def release_calls nexus_calls free_empty free_memory free_client dtor_calls_def
        delete_objects [simplified] split del: if_split)
  then show thesis using that by blast
qed

section \<open>The steps of the constructor\<close>

definition first_input_port :: "'b adec_env \<Rightarrow> adec_nexus \<Rightarrow> bool \<Rightarrow> BOMX_AudioDecoderRole list \<Rightarrow> BOMX_Port" where
  "first_input_port env nx uninit roles =
     new_BOMX_AudioPort (e_abi env) uninit 0 OMX_DirInput (of_nat B_NUM_BUFFERS) (of_nat B_DATA_BUFFER_SIZE) False 0
       (n_portdef nx (role_omxCodec (roles ! 0)) (n_inputMime nx) True)
       (map (\<lambda>(i, r). port_format_of env 0 i (role_omxCodec r)) (enumerate 0 roles))"

definition first_output_port :: "'b adec_env \<Rightarrow> adec_nexus \<Rightarrow> bool \<Rightarrow> BOMX_Port" where
  "first_output_port env nx uninit =
     new_BOMX_AudioPort (e_abi env) uninit 1 OMX_DirOutput (of_nat B_NUM_BUFFERS) (of_nat B_OUTPUT_BUFFER_SIZE) False 0
       (n_portdef nx (n_pcmCoding nx) (n_outputMime nx) False) [port_format_of env 1 0 (n_unused nx)]"

text \<open>
  What holds before step \<open>k\<close>: the members that later steps set are still null, and what the earlier
  ones have set up is there.
\<close>

definition ready :: "'b adec_env \<Rightarrow> adec_nexus \<Rightarrow> bool \<Rightarrow> BOMX_AudioDecoderRole list \<Rightarrow> resource multiset \<Rightarrow> nat \<Rightarrow> adc \<Rightarrow> bool" where
  "ready env nx uninit pRoles base k c \<longleftrightarrow>
     accounted env base c \<and> m_audioPortBase c = 0 \<and> other_ports c = [] \<and> m_decoderState (m_sub c) = BOMX_AudioDecoderState_eStopped
     \<and> (let s = m_sub c in
       (if k \<le> 1 then m_pRoles s = NULL else m_roles s = take MAX_PORT_FORMATS pRoles \<and> pRoles \<noteq> [])
     \<and> m_pAudioPorts c = (if k \<le> 2 then [] else if k \<le> 3 then [first_input_port env nx uninit (take MAX_PORT_FORMATS pRoles)]
          else [first_input_port env nx uninit (take MAX_PORT_FORMATS pRoles), first_output_port env nx uninit])
     \<and> (if k \<le> 5 then m_pFrameStatus s = NULL else m_pFrameStatus s \<noteq> NULL \<and> m_arrays s (m_pFrameStatus s) = Some B_NUM_BUFFERS)
     \<and> (if k \<le> 6 then m_pMemoryBlocks s = NULL else m_pMemoryBlocks s \<noteq> NULL \<and> m_arrays s (m_pMemoryBlocks s) = Some B_NUM_BUFFERS)
     \<and> (k \<le> 7 \<longrightarrow> m_hPlaypumpEvent s = NULL) \<and> (k \<le> 8 \<longrightarrow> m_hOutputFrameEvent s = NULL) \<and> (k \<le> 9 \<longrightarrow> m_outputFrameEventId s = NULL)
     \<and> (k \<le> 10 \<longrightarrow> m_trackerObject s = NULL) \<and> (k > 10 \<longrightarrow> m_valid (m_pBufferTracker s))
     \<and> (if k \<le> 11 then m_pIpcClient s = NULL else m_pIpcClient s \<noteq> NULL) \<and> (k \<le> 12 \<longrightarrow> m_pNexusClient s = NULL)
     \<and> (k \<le> 13 \<longrightarrow> m_pEosBuffer s = NULL) \<and> (k \<le> 14 \<longrightarrow> m_pPes s = NULL)
     \<and> (13 < k \<and> k \<le> 15 \<longrightarrow> (\<exists>l. mem c (m_pEosBuffer s) = Some (snd (e_alloc env l B_BPP_PACKET_LEN))))
     \<and> (k > 15 \<longrightarrow> (\<exists>bs. mem c (m_pEosBuffer s) = FormBppPacket B_STREAM_ID bs 0x82 \<and> B_BPP_PACKET_LEN \<le> length bs))
     \<and> (if k \<le> 16 then m_hAudioDecoder s = NULL else m_hAudioDecoder s \<noteq> NULL)
     \<and> (k \<le> 17 \<longrightarrow> (\<forall>ds. SetDecodeToMemorySettings ds \<notin> set (nlog c)))
     \<and> (k > 17 \<longrightarrow> m_bitsPerSample s = 16 \<and> m_numPcmChannels s = 2)
     \<and> (k \<le> 20 \<longrightarrow> m_pPesFile s = NULL \<and> m_pInputFile s = NULL \<and> m_pOutputFile s = NULL))"

definition sound :: "'b adec_env \<Rightarrow> adec_nexus \<Rightarrow> bool \<Rightarrow> BOMX_AudioDecoderRole list \<Rightarrow> resource multiset \<Rightarrow> nat \<Rightarrow> ctor_step \<Rightarrow> bool" where
  "sound env nx uninit pRoles base k f \<longleftrightarrow>
     (\<forall>c err c'. ready env nx uninit pRoles base k c \<longrightarrow> f c = Some (err, c') \<longrightarrow>
        (if err = OMX_ErrorNone then ready env nx uninit pRoles base (Suc k) c' else accounted env base c'))"

lemma got_simps [simp]: "got kind 0 = {#}" "0 < a \<Longrightarrow> got kind a = {#kind a#}" by (simp_all add: got_def)

lemma run_steps_sound:
  assumes "list_all2 (sound env nx uninit pRoles base) [k..<k + length fs] fs" "ready env nx uninit pRoles base k c" "run_steps fs c = Some (err, c')"
  shows "if err = OMX_ErrorNone then ready env nx uninit pRoles base (k + length fs) c' else accounted env base c'"
  using assms
proof (induction fs arbitrary: k c rule: list.induct)
  case (Cons f fs)
  have u: "[k..<k + length (f # fs)] = k # [Suc k..<Suc k + length fs]" by (simp add: upt_conv_Cons del: upt_Suc)
  from Cons.prems(1) have f: "sound env nx uninit pRoles base k f" "list_all2 (sound env nx uninit pRoles base) [Suc k..<Suc k + length fs] fs" unfolding u by simp_all
  from Cons.prems(3) obtain e d where d: "f c = Some (e, d)" "if e \<noteq> OMX_ErrorNone then (err, c') = (e, d) else run_steps fs d = Some (err, c')"
    by (auto split: Option.bind_splits if_splits)
  show ?case
  proof (cases "e = OMX_ErrorNone")
    case True
    with f(1) d Cons.prems(2) have "ready env nx uninit pRoles base (Suc k) d" unfolding sound_def by fastforce
    with Cons.IH [OF f(2) this] d(2) True show ?thesis by (auto split: if_splits)
  next
    case False
    with f(1) d Cons.prems(2) show ?thesis unfolding sound_def by fastforce
  qed
qed simp

lemmas step_simps = sound_def ready_def accounted_def held_def demand_def new_object_def acquire_def Let_def

lemma sound_roles:
  "sound env nx uninit pRoles base 0 (adec_enabled env)" "sound env nx uninit pRoles base 1 (new_roles env pRoles)"
  by (auto simp: adec_enabled_def new_roles_def step_simps split: if_splits)

lemma first_ports_empty [simp]: "IsEmpty (first_input_port env nx uninit roles)" "IsEmpty (first_output_port env nx uninit)"
  by (simp_all add: first_input_port_def first_output_port_def new_BOMX_AudioPort_def new_BOMX_Port_def IsEmpty_def)

lemma new_input_port_eq:
  assumes "m_audioPortBase c = 0" "new_input_port env nx uninit c = Some (err, c')"
  obtains (none) "e_new env (nlog c) = NULL" "err = OMX_ErrorUndefined"
      "c' = (nexus New (SetRole (e_abi env) (role_name (m_roles (m_sub c) ! 0)) (sub (\<lambda>s. s\<lparr>m_inputMimeType := snd (BOMX_AudioDecoder_InitMimeType (e_abi env)
         (n_codingtype nx (role_omxCodec (m_roles (m_sub c) ! 0))))\<rparr>) c)))\<lparr>m_pAudioPorts := []\<rparr>"
  | (some) "e_new env (nlog c) \<noteq> NULL" "err = OMX_ErrorNone"
      "c' = sub (\<lambda>s. s\<lparr>m_portObjects := [e_new env (nlog c)]\<rparr>)
         ((nexus New (SetRole (e_abi env) (role_name (m_roles (m_sub c) ! 0)) (sub (\<lambda>s. s\<lparr>m_inputMimeType := snd (BOMX_AudioDecoder_InitMimeType (e_abi env)
         (n_codingtype nx (role_omxCodec (m_roles (m_sub c) ! 0))))\<rparr>) c)))\<lparr>m_pAudioPorts := [first_input_port env nx uninit (m_roles (m_sub c))]\<rparr>)"
  using assms by (cases "e_new env (nlog c) = NULL")
    (auto simp: new_input_port_def Let_def demand_def new_object_def first_input_port_def SetRole_def split: prod.splits)

lemma sound_input_port: "sound env nx uninit pRoles base 2 (new_input_port env nx uninit)"
  unfolding sound_def
proof (intro allI impI)
  fix c err c' assume r: "ready env nx uninit pRoles base 2 c" and f: "new_input_port env nx uninit c = Some (err, c')"
  then have "m_audioPortBase c = 0" by (simp add: ready_def)
  from this f show "if err = OMX_ErrorNone then ready env nx uninit pRoles base (Suc 2) c' else accounted env base c'"
    by (cases rule: new_input_port_eq) (use r in \<open>auto simp: ready_def accounted_def held_def Let_def SetRole_def\<close>)
qed

lemma sound_output_port: "sound env nx uninit pRoles base 3 (new_output_port env nx uninit)"
  by (auto simp: new_output_port_def step_simps first_output_port_def [symmetric] split: if_splits prod.splits)

lemma sound_init_aac: "sound env nx uninit pRoles base 4 (init_aac env nx)"
  by (auto simp: init_aac_def step_simps)

lemma sound_arrays:
  "sound env nx uninit pRoles base 5 (new_frame_status env)" "sound env nx uninit pRoles base 6 (new_memory_blocks env)"
  by (auto simp: new_frame_status_def new_memory_blocks_def new_array_def step_simps split: if_splits)

lemma sound_events:
  "sound env nx uninit pRoles base 7 (new_playpump_event env)" "sound env nx uninit pRoles base 8 (new_output_event env)"
  "sound env nx uninit pRoles base 9 (register_output_event env)"
  by (auto simp: new_playpump_event_def new_output_event_def register_output_event_def step_simps split: if_splits)

lemma sound_services:
  "sound env nx uninit pRoles base 10 (new_tracker env)" "sound env nx uninit pRoles base 11 (open_ipc env)"
  "sound env nx uninit pRoles base 12 (open_context env)"
  by (auto simp: new_tracker_def open_ipc_def open_context_def step_simps split: if_splits)

lemma sound_eos:
  "sound env nx uninit pRoles base 13 (new_eos_buffer env)" "sound env nx uninit pRoles base 14 (new_pes env)"
  by (auto simp: new_eos_buffer_def BOMX_AUDIO_EOS_LEN_def new_pes_def AllocateInputBuffer_def step_simps put_mem_def split: if_splits prod.splits) (metis snd_conv)+

lemma sound_form_eos: "sound env nx uninit pRoles base 15 form_eos"
proof -
  have len: "FormBppPacket sid bs x = Some b \<Longrightarrow> B_BPP_PACKET_LEN \<le> length bs" for sid bs x b
    by (auto simp: FormBppPacket_def split: if_splits)
  show ?thesis by (auto simp: form_eos_def step_simps put_mem_def split: Option.bind_splits) (metis len)+
qed

lemma sound_decoder:
  "sound env nx uninit pRoles base 16 (open_decoder env)" "sound env nx uninit pRoles base 17 (configure_decoder env nx)"
  by (auto simp: open_decoder_def configure_decoder_def nexus_ok_def step_simps split: if_splits)

lemma sound_defaults:
  "sound env nx uninit pRoles base 18 (drc_defaults env nx)" "sound env nx uninit pRoles base 19 init_bcma"
  by (auto simp: drc_defaults_def init_bcma_def int_property_def nexus_ok_def step_simps split: Option.bind_splits)

lemma sound_debug_files: "sound env nx uninit pRoles base 20 (debug_files env)"
  by (auto simp: debug_files_def open_file_def int_property_def step_simps)

lemma ctor_sound: "list_all2 (sound env nx uninit pRoles base) [0..<0 + length (ctor_steps env nx uninit pRoles)] (ctor_steps env nx uninit pRoles)"
  using sound_roles [of env nx uninit pRoles base] sound_input_port [of env nx uninit pRoles base] sound_output_port [of env nx uninit pRoles base]
    sound_init_aac [of env nx uninit pRoles base] sound_arrays [of env nx uninit pRoles base] sound_events [of env nx uninit pRoles base]
    sound_services [of env nx uninit pRoles base] sound_eos [of env nx uninit pRoles base] sound_form_eos [of env nx uninit pRoles base]
    sound_decoder [of env nx uninit pRoles base] sound_defaults [of env nx uninit pRoles base] sound_debug_files [of env nx uninit pRoles base]
  by (simp add: ctor_steps_def upt_rec eval_nat_numeral)

text \<open>
  No step fails an assertion when the allocator returns blocks of their size, the layout of Nexus has
  eight channels at first and the properties are not absurd.
\<close>

definition benign :: "'b adec_env \<Rightarrow> adec_nexus \<Rightarrow> bool" where
  "benign env nx \<longleftrightarrow>
     (\<forall>l n. length (snd (e_alloc env l n)) = n) \<and> (\<forall>l. (\<forall>ds. SetDecodeToMemorySettings ds \<notin> set l) \<longrightarrow> 8 \<le> length (ds_channelLayout (n_settings nx l))) \<and> (\<forall>l. \<bar>e_property env l\<bar> < 10 ^ 7)"

definition returns :: "'b adec_env \<Rightarrow> adec_nexus \<Rightarrow> bool \<Rightarrow> BOMX_AudioDecoderRole list \<Rightarrow> resource multiset \<Rightarrow> nat \<Rightarrow> ctor_step \<Rightarrow> bool" where
  "returns env nx uninit pRoles base k f \<longleftrightarrow> (\<forall>c. ready env nx uninit pRoles base k c \<longrightarrow> f c \<noteq> None)"

lemma run_steps_returns:
  assumes "list_all2 (sound env nx uninit pRoles base) [k..<k + length fs] fs" "list_all2 (returns env nx uninit pRoles base) [k..<k + length fs] fs"
    and "ready env nx uninit pRoles base k c"
  shows "run_steps fs c \<noteq> None"
  using assms
proof (induction fs arbitrary: k c rule: list.induct)
  case (Cons f fs)
  have u: "[k..<k + length (f # fs)] = k # [Suc k..<Suc k + length fs]" by (simp add: upt_conv_Cons del: upt_Suc)
  note p = Cons.prems [unfolded u, simplified]
  from p have "f c \<noteq> None" by (simp add: returns_def)
  then obtain e d where d: "f c = Some (e, d)" by auto
  show ?case
  proof (cases "e = OMX_ErrorNone")
    case True
    with p(1,3) d have "ready env nx uninit pRoles base (Suc k) d" unfolding sound_def by fastforce
    with Cons.IH [of "Suc k" d] p True d show ?thesis by simp
  qed (simp add: d)
qed simp

lemma drc_in_range: "\<bar>v\<bar> < 10 ^ 7 \<Longrightarrow> B_DRC_TO_NEXUS v \<noteq> None" by (simp add: B_DRC_TO_NEXUS_def abs_less_iff)

lemma ctor_returns:
  assumes b: "benign env nx"
  shows "list_all2 (returns env nx uninit pRoles base) [0..<0 + length (ctor_steps env nx uninit pRoles)] (ctor_steps env nx uninit pRoles)"
proof -
  have plain: "returns env nx uninit pRoles base k f" if "\<And>c. f c \<noteq> None" for k f using that by (simp add: returns_def)
  have eos: "returns env nx uninit pRoles base 15 form_eos"
  proof -
    have pk: "FormBppPacket B_STREAM_ID (snd (e_alloc env l B_BPP_PACKET_LEN)) 130 \<noteq> None" for l
      using b bpp_packet_carries_opcode [of B_STREAM_ID "snd (e_alloc env l B_BPP_PACKET_LEN)" 130]
      by (simp add: benign_def B_BPP_PACKET_LEN_def)
    have "form_eos c \<noteq> None" if "mem c (m_pEosBuffer (m_sub c)) = Some (snd (e_alloc env l B_BPP_PACKET_LEN))" for c l
      using that pk [of l] by (auto simp: form_eos_def demand_def)
    moreover have "\<exists>l. mem c (m_pEosBuffer (m_sub c)) = Some (snd (e_alloc env l B_BPP_PACKET_LEN))" if "ready env nx uninit pRoles base 15 c" for c
      using that by (simp add: ready_def Let_def)
    ultimately show ?thesis unfolding returns_def by blast
  qed
  have conf: "returns env nx uninit pRoles base 17 (configure_decoder env nx)"
  proof -
    have "8 \<le> length (ds_channelLayout (n_settings nx (nlog c @ [GetDecodeToMemorySettings])))" if "ready env nx uninit pRoles base 17 c" for c
      using b that by (simp add: benign_def ready_def Let_def)
    then have "\<not> length (ds_channelLayout (n_settings nx (nlog c @ [GetDecodeToMemorySettings]))) < 8" if "ready env nx uninit pRoles base 17 c" for c
      using that linorder_not_less by blast
    then show ?thesis by (simp add: returns_def configure_decoder_def Let_def demand_def split: prod.splits)
  qed
  have drc: "drc_defaults env nx c \<noteq> None" for c
  proof -
    have "\<exists>y. B_DRC_TO_NEXUS (e_property env l) = Some y" for l using b drc_in_range [of "e_property env l"] by (auto simp: benign_def)
    then obtain f where "\<And>l. B_DRC_TO_NEXUS (e_property env l) = Some (f l)" by metis
    then show ?thesis by (simp add: drc_defaults_def int_property_def Let_def demand_def)
  qed
  note d = adec_enabled_def new_roles_def new_input_port_def new_output_port_def init_aac_def new_frame_status_def new_memory_blocks_def
    new_playpump_event_def new_output_event_def register_output_event_def new_tracker_def open_ipc_def open_context_def new_eos_buffer_def
    new_pes_def open_decoder_def init_bcma_def debug_files_def
  have rest: "adec_enabled env c \<noteq> None" "new_roles env pRoles c \<noteq> None" "new_input_port env nx uninit c \<noteq> None" "new_output_port env nx uninit c \<noteq> None"
    "init_aac env nx c \<noteq> None" "new_frame_status env c \<noteq> None" "new_memory_blocks env c \<noteq> None" "new_playpump_event env c \<noteq> None"
    "new_output_event env c \<noteq> None" "register_output_event env c \<noteq> None" "new_tracker env c \<noteq> None" "open_ipc env c \<noteq> None"
    "open_context env c \<noteq> None" "new_eos_buffer env c \<noteq> None" "new_pes env c \<noteq> None" "open_decoder env c \<noteq> None" "init_bcma c \<noteq> None" "debug_files env c \<noteq> None" for c
    by (simp_all add: d demand_def Let_def split: prod.splits)
  show ?thesis
    using eos conf by (simp add: ctor_steps_def upt_rec eval_nat_numeral plain [OF rest(1)] plain [OF rest(2)] plain [OF rest(3)] plain [OF rest(4)]
        plain [OF rest(5)] plain [OF rest(6)] plain [OF rest(7)] plain [OF rest(8)] plain [OF rest(9)] plain [OF rest(10)] plain [OF rest(11)]
        plain [OF rest(12)] plain [OF rest(13)] plain [OF rest(14)] plain [OF rest(15)] plain [OF rest(16)] plain [OF rest(17)] plain [OF rest(18)]
        plain [OF drc])
qed

section \<open>Buffers left at destruction\<close>

text \<open>
  A port whose buffers the loop can free: none is queued, and each has its private data, on the input
  with a payload block. \<open>K\<close> are private data that are in use by one of them or gone.
\<close>

definition io_ports :: "adc \<Rightarrow> bool" where
  "io_ports c \<longleftrightarrow> length (m_pAudioPorts c) = 2 \<and> m_audioPortBase c = 0
     \<and> eDir (m_definition (m_pAudioPorts c ! 0)) = OMX_DirInput \<and> eDir (m_definition (m_pAudioPorts c ! Suc 0)) = OMX_DirOutput"

definition private_of :: "adc \<Rightarrow> addr \<Rightarrow> addr" where
  "private_of c b = (case m_heap c b of None \<Rightarrow> NULL | Some x \<Rightarrow> GetComponentPrivate x)"

definition has_info :: "nat \<Rightarrow> adc \<Rightarrow> addr \<Rightarrow> bool" where
  "has_info i c k \<longleftrightarrow>
     (if i = 0 then \<exists>info. m_inInfo (m_sub c) k = Some info \<and> pPayload info \<noteq> NULL else \<exists>info. m_outInfo (m_sub c) k = Some info)"

definition gone :: "nat \<Rightarrow> adc \<Rightarrow> addr \<Rightarrow> bool" where
  "gone i c k \<longleftrightarrow> (if i = 0 then m_inInfo (m_sub c) k = None else m_outInfo (m_sub c) k = None)"

definition freeable :: "nat \<Rightarrow> addr set \<Rightarrow> adc \<Rightarrow> bool" where
  "freeable i K c \<longleftrightarrow>
     io_ports c \<and> i < 2 \<and> port_inv (m_heap c) (m_pAudioPorts c ! i) \<and> m_bufferQueue (m_pAudioPorts c ! i) = []
     \<and> (\<forall>b \<in> set (m_bufferList (m_pAudioPorts c ! i)). private_of c b \<noteq> NULL \<and> has_info i c (private_of c b))
     \<and> distinct (map (private_of c) (m_bufferList (m_pAudioPorts c ! i)))
     \<and> K \<subseteq> private_of c ` set (m_bufferList (m_pAudioPorts c ! i)) \<union> Collect (gone i c)"

definition without :: "addr \<Rightarrow> BOMX_Port \<Rightarrow> BOMX_Port" where
  "without b p = set_def (\<lambda>d. d\<lparr>bPopulated := False\<rparr>) (p\<lparr>m_bufferList := remove1 b (m_bufferList p), m_numBuffers := m_numBuffers p - 1\<rparr>)"

lemma io_port_found:
  assumes "io_ports c" "i < 2"
  shows "FindPortByIndex c (of_nat i) = Some (m_pAudioPorts c ! i)" "put_port (of_nat i) p c = c\<lparr>m_pAudioPorts := (m_pAudioPorts c)[i := p]\<rparr>"
    "(if eDir (m_definition (m_pAudioPorts c ! i)) = OMX_DirInput then m_audioPortBase c else m_audioPortBase c + 1) = of_nat i"
  using assms by (auto simp: io_ports_def FindPortByIndex_def put_port_def less_2_cases_iff)

lemma free_step_ok:
  assumes f: "freeable i K c" and l: "m_bufferList (m_pAudioPorts c ! i) = b # bs"
  obtains c' where "free_step i c = Some c'" "m_pAudioPorts c' = (m_pAudioPorts c)[i := without b (m_pAudioPorts c ! i)]"
    "m_audioPortBase c' = m_audioPortBase c" "m_heap c' = (m_heap c)(b := None)"
    "m_inInfo (m_sub c') = (if i = 0 then (m_inInfo (m_sub c))(private_of c b := None) else m_inInfo (m_sub c))"
    "m_outInfo (m_sub c') = (if i = 0 then m_outInfo (m_sub c) else (m_outInfo (m_sub c))(private_of c b := None))"
proof -
  let ?p = "m_pAudioPorts c ! i"
  have io: "io_ports c" "i < 2" and inv: "port_inv (m_heap c) ?p" and q: "m_bufferQueue ?p = []" using f by (simp_all add: freeable_def)
  have "buffer_ok (m_heap c) b" using inv l by (simp add: port_inv_def)
  then obtain x where x: "b \<noteq> NULL" "m_heap c b = Some x" "pPlatformPrivate (m_header x) = b" by (auto simp: buffer_ok_def split: option.splits)
  have e: "private_of c b = GetComponentPrivate x" by (simp add: private_of_def x(2))
  have "private_of c b \<noteq> NULL \<and> has_info i c (private_of c b)" using f l by (simp add: freeable_def)
  then have pr: "private_of c b = GetComponentPrivate x" "GetComponentPrivate x \<noteq> NULL" "has_info i c (GetComponentPrivate x)" using e by simp_all
  have rem: "RemoveBuffer (m_heap c) ?p (m_header x) = Some (OMX_ErrorNone, (m_heap c)(b := None), without b ?p)"
    using RemoveBuffer_result [OF inv x(3,1)] l q by (simp add: without_def)
  have io': "put_port (of_nat i) q (c\<lparr>m_heap := h\<rparr>) = c\<lparr>m_heap := h, m_pAudioPorts := (m_pAudioPorts c)[i := q]\<rparr>" for q h
    using io_port_found(2) [of "c\<lparr>m_heap := h\<rparr>" i q] io by (simp add: io_ports_def)
  have r: "free_step i c = map_option snd (Adec_FreeBuffer (of_nat i) b c)"
    using io_port_found(3) [OF io] l x(1) by (simp add: free_step_def GetPortBuffer_def Let_def)
  have dir: "(eDir (m_definition ?p) = OMX_DirInput) = (i = 0)" using io by (auto simp: io_ports_def less_2_cases_iff)
  have "\<exists>c'. free_step i c = Some c' \<and> m_pAudioPorts c' = (m_pAudioPorts c)[i := without b ?p] \<and> m_audioPortBase c' = m_audioPortBase c
      \<and> m_heap c' = (m_heap c)(b := None)
      \<and> m_inInfo (m_sub c') = (if i = 0 then (m_inInfo (m_sub c))(private_of c b := None) else m_inInfo (m_sub c))
      \<and> m_outInfo (m_sub c') = (if i = 0 then m_outInfo (m_sub c) else (m_outInfo (m_sub c))(private_of c b := None))"
  proof (cases "i = 0")
    case True
    then obtain info where "m_inInfo (m_sub c) (GetComponentPrivate x) = Some info" "pPayload info \<noteq> NULL" using pr(3) by (auto simp: has_info_def)
    then show ?thesis
      using r io_port_found(1) [OF io] x pr rem io' dir True by (simp add: Adec_FreeBuffer_def Let_def Memory_free_def FreeInputBuffer_def delete_in_info_def)
  next
    case False
    then obtain info where "m_outInfo (m_sub c) (GetComponentPrivate x) = Some info" using pr(3) by (auto simp: has_info_def)
    then show ?thesis
      using r io_port_found(1) [OF io] x pr rem io' dir False by (simp add: Adec_FreeBuffer_def Let_def delete_out_info_def)
  qed
  then show thesis using that by blast
qed

lemma free_step_keeps:
  assumes f: "freeable i K c" and l: "m_bufferList (m_pAudioPorts c ! i) = b # bs"
  shows "\<exists>c'. free_step i c = Some c' \<and> freeable i K c' \<and> m_bufferList (m_pAudioPorts c' ! i) = bs"
proof -
  let ?p = "m_pAudioPorts c ! i"
  obtain c' where c': "free_step i c = Some c'" "m_pAudioPorts c' = (m_pAudioPorts c)[i := without b ?p]"
    "m_audioPortBase c' = m_audioPortBase c" "m_heap c' = (m_heap c)(b := None)"
    "m_inInfo (m_sub c') = (if i = 0 then (m_inInfo (m_sub c))(private_of c b := None) else m_inInfo (m_sub c))"
    "m_outInfo (m_sub c') = (if i = 0 then m_outInfo (m_sub c) else (m_outInfo (m_sub c))(private_of c b := None))"
    by (rule free_step_ok [OF f l])
  have io: "io_ports c" "i < 2" and inv: "port_inv (m_heap c) ?p" and q: "m_bufferQueue ?p = []" using f by (simp_all add: freeable_def)
  have p': "m_pAudioPorts c' ! i = without b ?p" "m_bufferList (without b ?p) = bs" "m_bufferQueue (without b ?p) = []"
    using io c'(2) l q by (simp_all add: io_ports_def without_def set_def_def)
  obtain x where x: "b \<noteq> NULL" "m_heap c b = Some x" "pPlatformPrivate (m_header x) = b"
    using inv l by (auto simp: port_inv_def buffer_ok_def split: option.splits)
  have "RemoveBuffer (m_heap c) ?p (m_header x) = Some (OMX_ErrorNone, (m_heap c)(b := None), without b ?p)"
    using RemoveBuffer_result [OF inv x(3,1)] l q by (simp add: without_def)
  then have inv': "port_inv (m_heap c') (without b ?p)" using RemoveBuffer_inv [OF inv] c'(4) by simp
  have nb: "b \<notin> set bs" using inv l by (simp add: port_inv_def)
  have same: "private_of c' k = private_of c k" if "k \<noteq> b" for k using that c'(4) by (simp add: private_of_def)
  have d: "distinct (private_of c b # map (private_of c) bs)" using f l by (simp add: freeable_def)
  have m: "map (private_of c') bs = map (private_of c) bs" using nb same by (metis map_eq_conv)
  have info: "has_info i c' k = has_info i c k" if "k \<noteq> private_of c b" for k using that c'(5,6) by (simp add: has_info_def)
  have g: "gone i c' (private_of c b)" "gone i c k \<Longrightarrow> gone i c' k" for k using c'(5,6) by (auto simp: gone_def)
  have io2: "io_ports c'" using io c'(2,3) by (auto simp: io_ports_def nth_list_update without_def set_def_def less_2_cases_iff)
  have all: "private_of c' k \<noteq> NULL \<and> has_info i c' (private_of c' k)" if "k \<in> set bs" for k
  proof -
    have "private_of c k \<noteq> private_of c b" using d that by (metis distinct.simps(2) imageI set_map)
    moreover have "private_of c' k = private_of c k" using that nb same by metis
    ultimately show ?thesis using f l that info [of "private_of c k"] by (simp add: freeable_def)
  qed
  have K: "K \<subseteq> private_of c' ` set bs \<union> Collect (gone i c')"
  proof
    fix k assume "k \<in> K"
    then consider "k = private_of c b" | "k \<in> private_of c ` set bs" | "gone i c k" using f l by (auto simp: freeable_def)
    then show "k \<in> private_of c' ` set bs \<union> Collect (gone i c')" using g m by cases (auto simp flip: set_map)
  qed
  have "distinct (map (private_of c') bs)" unfolding m using d by simp
  then show ?thesis using c'(1) p' io2 io inv' all K by (simp add: freeable_def)
qed

text \<open>The loop as an instance of the loops that empty a queue.\<close>

interpretation free_drain: drainable "\<lambda>c. if IsEmpty (m_pAudioPorts c ! i) then 0 else 1" "\<lambda>c _. free_step i c"
    "\<lambda>c. map (\<lambda>_. 1) (m_bufferList (m_pAudioPorts c ! i))" "\<lambda>_. []" "\<lambda>_ _. []" "\<lambda>_. ()" "freeable i K" for i K
proof
  fix c assume f: "freeable i K c"
  then show "(if IsEmpty (m_pAudioPorts c ! i) then 0 else 1) = (case map (\<lambda>_. 1) (m_bufferList (m_pAudioPorts c ! i)) of [] \<Rightarrow> 0 | x # _ \<Rightarrow> x)"
    using port_inv_IsEmpty [of "m_heap c" "m_pAudioPorts c ! i"] by (auto simp: freeable_def split: list.splits)
  fix x xs assume "map (\<lambda>_. 1) (m_bufferList (m_pAudioPorts c ! i)) = x # xs"
  then obtain b bs where l: "m_bufferList (m_pAudioPorts c ! i) = b # bs" "xs = map (\<lambda>_. 1) bs" by auto
  from free_step_keeps [OF f l(1)] l(2)
  show "\<exists>s'. free_step i c = Some s' \<and> freeable i K s' \<and> map (\<lambda>_. 1) (m_bufferList (m_pAudioPorts s' ! i)) = xs \<and> [] = [] @ [] \<and> () = ()" by auto
qed auto

text \<open>A step that changes nothing is repeated for ever.\<close>

lemma drain_stuck:
  assumes "first s \<noteq> 0" "step s (first s) = Some s"
  shows "drain first step s = None"
proof -
  have "f s = 0 \<or> g s (f s) \<noteq> Some s" if "drain f g s = Some r" for f g and s r :: 'a
    using _ that
  proof (rule drain.raw_induct)
    fix d f g and s r :: 'a
    assume IH: "\<And>f g s r. d f g s = Some r \<Longrightarrow> f s = 0 \<or> g s (f s) \<noteq> Some s"
      and b: "(if f s = 0 then Some s else case g s (f s) of None \<Rightarrow> None | Some s' \<Rightarrow> d f g s') = Some r"
    show "f s = 0 \<or> g s (f s) \<noteq> Some s" using b IH [of f g s r] by (auto split: if_splits option.splits)
  qed
  with assms show ?thesis by (metis not_None_eq)
qed

section \<open>Properties\<close>

text \<open>The object as the initialiser list leaves it, with no garbage where the end of stream buffer will be.\<close>

definition new_members :: "adc \<Rightarrow> bool" where
  "new_members c \<longleftrightarrow>
     (\<exists>aac asc bcma inMime outMime. m_sub c = initial_members NULL aac asc bcma inMime outMime) \<and> m_pAudioPorts c = [] \<and> other_ports c = []"

lemma new_members_ready:
  assumes "new_members c"
  shows "ready env nx uninit pRoles (got Heap (e_new env [GetAudioCapabilities])) 0 ((calls [GetAudioCapabilities, New] c)\<lparr>m_audioPortBase := 0\<rparr>)"
proof -
  from assms obtain aac asc bcma inMime outMime where c: "m_sub c = initial_members NULL aac asc bcma inMime outMime" "m_pAudioPorts c = []" "other_ports c = []"
    unfolding new_members_def by blast
  have "other_ports (calls xs c) = other_ports c" for xs by (simp add: calls_def)
  with c show ?thesis by (simp add: ready_def accounted_def held_def Let_def initial_members_def)
qed

text \<open>
  C21: Creating a decoder gives it or leaves nothing behind. As long as the assertions of the
  constructor cannot fail and the pointer for the end of stream buffer happens to be null at
  first, creation returns. Either it succeeds: there are fewer than two decoders before and one more
  after, and what was acquired since is the object and what its members name. Or it fails, at
  whichever of its steps: the number of decoders is as before, and every allocation, event,
  registration, client, context, buffer, decoder handle and file has been given back.
\<close>

theorem adec_create_clean:
  assumes new: "new_members c" and b: "benign env nx"
  shows "\<exists>err g' c'. create_decoder caps env nx uninit pRoles g c = Some (err, g', c')
    \<and> (if err = OMX_ErrorNone
       then sint (g_activeInstancesNum g) < 2 \<and> g_activeInstancesNum g' = g_activeInstancesNum g + 1
         \<and> live env (rev (nlog c')) = {#Heap (e_new env [GetAudioCapabilities])#} + held (m_sub c')
       else g_activeInstancesNum g' = g_activeInstancesNum g \<and> live env (rev (nlog c')) = {#})"
proof -
  let ?a = "e_new env [GetAudioCapabilities]"
  let ?c = "(calls [GetAudioCapabilities, New] c)\<lparr>m_audioPortBase := 0\<rparr>" and ?b = "got Heap ?a"
  have l: "nlog c = []" using new by (auto simp: new_members_def initial_members_def)
  note ready = new_members_ready [OF new, of env nx uninit pRoles]
  have acc: "accounted env ?b ?c" using ready by (simp add: ready_def)
  have n: "nexus New (nexus GetAudioCapabilities c) = calls [GetAudioCapabilities, New] c" by (simp add: nexus_calls)
  show ?thesis
  proof (cases "\<not> caps [GetAudioCapabilities] \<or> ?a = NULL")
    case True
    then show ?thesis using l by (auto simp: create_decoder_def new_object_def Let_def)
  next
    case False
    define g1 where "g1 = g\<lparr>g_instanceNum := g_instanceNum g + 1, g_activeInstancesNum := g_activeInstancesNum g + 1\<rparr>"
    have gone: "\<exists>c'. (do {(g, c) \<leftarrow> delete_BOMX_AudioDecoder g1 d; Some (BOMX_ERR_TRACE e, g, nexus (Delete ?a) c)}) =
        Some (e, g1\<lparr>g_activeInstancesNum := g_activeInstancesNum g\<rparr>, c') \<and> live env (rev (nlog c')) = {#}" if d: "accounted env ?b d" for d e
    proof -
      obtain c' where c': "delete_BOMX_AudioDecoder g1 d = Some (g1\<lparr>g_activeInstancesNum := g_activeInstancesNum g1 - 1\<rparr>, c')"
        "nlog c' = nlog d @ dtor_calls (m_sub d)" using dtor_runs [OF d] by metis
      have "live env (rev (nlog c')) = ?b" using live_dtor [of env d] d by (simp add: c'(2) accounted_def)
      then show ?thesis using False c'(1) by (simp add: g1_def)
    qed
    have r: "create_decoder caps env nx uninit pRoles g c =
        (if 2 \<le> sint (g_activeInstancesNum g)
         then do {(g, c) \<leftarrow> delete_BOMX_AudioDecoder g1 ?c; Some (BOMX_ERR_TRACE OMX_ErrorInsufficientResources, g, nexus (Delete ?a) c)}
         else do {(err, d) \<leftarrow> run_steps (ctor_steps env nx uninit pRoles) ?c;
                  if err = OMX_ErrorNone then Some (OMX_ErrorNone, g1, d)
                  else do {(g, c) \<leftarrow> delete_BOMX_AudioDecoder g1 d; Some (BOMX_ERR_TRACE err, g, nexus (Delete ?a) c)}})"
      using False l n by (cases "run_steps (ctor_steps env nx uninit pRoles) ?c")
        (auto simp: create_decoder_def new_object_def new_BOMX_AudioDecoder_def B_MAX_AUDIO_DECODERS_def Let_def g1_def)
    show ?thesis
    proof (cases "2 \<le> sint (g_activeInstancesNum g)")
      case True
      with r gone [OF acc, of OMX_ErrorInsufficientResources] show ?thesis by (auto simp: g1_def)
    next
      case few: False
      from run_steps_returns [OF ctor_sound ctor_returns [OF b] ready] obtain err d where d: "run_steps (ctor_steps env nx uninit pRoles) ?c = Some (err, d)" by auto
      note s = run_steps_sound [OF ctor_sound ready d]
      show ?thesis
      proof (cases "err = OMX_ErrorNone")
        case True
        with s have "accounted env ?b d" by (simp add: ready_def)
        with True few d r False show ?thesis by (auto simp: accounted_def g1_def)
      next
        case f: False
        with s have "accounted env ?b d" by simp
        from gone [OF this, of err] f few d r show ?thesis by (auto simp: g1_def)
      qed
    qed
  qed
qed

lemma create_success:
  assumes new: "new_members c" and r: "create_decoder caps env nx uninit pRoles g c = Some (OMX_ErrorNone, g', c')"
  shows "ready env nx uninit pRoles (got Heap (e_new env [GetAudioCapabilities])) 21 c'"
proof -
  let ?c = "(calls [GetAudioCapabilities, New] c)\<lparr>m_audioPortBase := 0\<rparr>"
  have n: "nexus New (nexus GetAudioCapabilities c) = calls [GetAudioCapabilities, New] c" by (simp add: nexus_calls)
  have "run_steps (ctor_steps env nx uninit pRoles) ?c = Some (OMX_ErrorNone, c')"
    using r by (auto simp: create_decoder_def new_object_def new_BOMX_AudioDecoder_def n Let_def split: if_splits Option.bind_splits)
  from run_steps_sound [OF ctor_sound new_members_ready [OF new] this] show ?thesis by (simp add: ctor_steps_def eval_nat_numeral)
qed


text \<open>
  C23: The destructor's loop over a port frees every buffer that the client has left, and ends: as long
  as none of them is queued and each has its private data (and on the input port a payload block of
  its own), the port is empty afterwards and the private data of all of them are released.
\<close>

theorem adec_destructor_frees:
  assumes f: "freeable i (private_of c ` set (m_bufferList (m_pAudioPorts c ! i))) c"
  shows "\<exists>c'. free_port i c = Some c' \<and> m_bufferList (m_pAudioPorts c' ! i) = []
    \<and> (\<forall>b \<in> set (m_bufferList (m_pAudioPorts c ! i)). gone i c' (private_of c b))"
proof -
  from free_drain.drain_all [OF f] obtain d where
    d: "drain (\<lambda>c. if IsEmpty (m_pAudioPorts c ! i) then 0 else 1) (\<lambda>c _. free_step i c) c = Some d"
    "freeable i (private_of c ` set (m_bufferList (m_pAudioPorts c ! i))) d" "m_bufferList (m_pAudioPorts d ! i) = []" by auto
  have "i < length (m_pAudioPorts c)" using f by (auto simp: freeable_def io_ports_def)
  then have "free_port i c = Some (nexus (Delete (m_portObjects (m_sub d) ! i)) d)" using d(1) by (simp add: free_port_def)
  moreover have "gone i (nexus x d) k = gone i d k" for x k by (simp add: gone_def)
  ultimately show ?thesis using d(2,3) by (auto simp: freeable_def)
qed

section \<open>What destruction does not survive\<close>

text \<open>A buffer that is still queued is refused by \<open>FreeBuffer\<close>, and the loop asks for it again: the destructor does not end.\<close>

theorem adec_destructor_hangs:
  assumes io: "io_ports c" "i < 2" and inv: "port_inv (m_heap c) (m_pAudioPorts c ! i)"
    and b: "m_bufferList (m_pAudioPorts c ! i) = b # bs" "b \<in> set (m_bufferQueue (m_pAudioPorts c ! i))" "private_of c b \<noteq> NULL"
  shows "free_port i c = None"
proof -
  let ?p = "m_pAudioPorts c ! i"
  obtain x where x: "b \<noteq> NULL" "m_heap c b = Some x" "pPlatformPrivate (m_header x) = b"
    using inv b(1) by (auto simp: port_inv_def buffer_ok_def split: option.splits)
  have rem: "RemoveBuffer (m_heap c) ?p (m_header x) = Some (OMX_ErrorBadParameter, m_heap c, ?p)" using RemoveBuffer_result [OF inv x(3,1)] b(2) by simp
  have "Adec_FreeBuffer (of_nat i) b c = Some (OMX_ErrorBadParameter, c)"
    using io_port_found(1) [OF io] x b(3) rem by (simp add: Adec_FreeBuffer_def Let_def private_of_def)
  then have "free_step i c = Some c"
    using io_port_found(3) [OF io] b(1) x(1) by (simp add: free_step_def GetPortBuffer_def Let_def)
  moreover have "\<not> IsEmpty ?p" using port_inv_IsEmpty [OF inv] b(1) by simp
  ultimately have "drain (\<lambda>c. if IsEmpty (m_pAudioPorts c ! i) then 0 else 1) (\<lambda>c _. free_step i c) c = None" by (intro drain_stuck) simp_all
  then show ?thesis using io by (simp add: free_port_def io_ports_def)
qed

text \<open>
  When there are two decoders already, a third is refused; its destructor frees the end of stream
  pointer, which nothing has set: the garbage in it is passed to Nexus.
\<close>

theorem adec_third_frees_garbage:
  assumes m: "m_sub c = initial_members eos aac asc bcma inMime outMime" "m_pAudioPorts c = []" and "eos \<noteq> NULL"
    and g: "2 \<le> sint (g_activeInstancesNum g)" and "caps [GetAudioCapabilities]" "e_new env [GetAudioCapabilities] \<noteq> NULL"
  shows "\<exists>g' c'. create_decoder caps env nx uninit pRoles g c = Some (OMX_ErrorInsufficientResources, g', c')
    \<and> nlog c' = [GetAudioCapabilities, New, ShutdownScheduler, Memory_Free eos, Delete (e_new env [GetAudioCapabilities])]"
  using assms
  by (simp add: create_decoder_def new_object_def new_BOMX_AudioDecoder_def delete_BOMX_AudioDecoder_def B_MAX_AUDIO_DECODERS_def Let_def
      release_def free_port_def FreeInputBuffer_def Memory_free_def initial_members_def)

section \<open>Witnesses\<close>

definition demo_object :: adc where
  "demo_object = prot (new_BOMX_Component omx_il_abi ''adec'' 0 None ''uuid'' (demo_members\<lparr>m_pEosBuffer := NULL\<rparr>))"

definition demo_life_env :: "bool list adec_env" where
  "demo_life_env = demo_param_env\<lparr>e_property := \<lambda>l. 1\<rparr>"

lemma demo_object_new: "new_members demo_object"
  unfolding new_members_def
  by (intro conjI exI [of _ demo_aac] exI [of _ "\<lparr>samplingFrequencyIndex = 0, channelConfiguration = 0, profile = 0, sbrPresent = False\<rparr>"]
      exI [of _ "replicate 10 0"] exI [of _ "[]"])
    (simp_all add: demo_object_def demo_members_def initial_members_def new_BOMX_Component_def SetRole_def)

lemma demo_benign: "benign demo_life_env demo_nexus"
proof -
  have "(\<forall>ds. SetDecodeToMemorySettings ds \<notin> set l) \<Longrightarrow> replay_settings e d l = d" for e d l
    by (induction l) (auto split: nexus_call.splits)
  then have "(\<forall>ds. SetDecodeToMemorySettings ds \<notin> set l) \<Longrightarrow> replay_settings e d (rev l) = d" for e d l by simp
  then show ?thesis by (simp add: benign_def demo_life_env_def demo_param_env_def demo_adec_env_def demo_nexus_def demo_settings_def)
qed

theorem adec_create_clean_witness:
  "\<exists>g' c'. create_decoder (\<lambda>_. True) demo_life_env demo_nexus False [] \<lparr>g_instanceNum = 0, g_activeInstancesNum = 1\<rparr> demo_object =
      Some (OMX_ErrorUndefined, g', c') \<and> g_activeInstancesNum g' = 1 \<and> live demo_life_env (rev (nlog c')) = {#}"
proof -
  let ?g = "\<lparr>g_instanceNum = 0, g_activeInstancesNum = 1\<rparr>"
  have "\<exists>r. create_decoder (\<lambda>_. True) demo_life_env demo_nexus False [] ?g demo_object = Some (OMX_ErrorUndefined, r)"
    using adec_create_clean [OF demo_object_new demo_benign, of "\<lambda>_. True" False "[]" ?g]
    by (auto simp: create_decoder_def new_object_def new_BOMX_AudioDecoder_def B_MAX_AUDIO_DECODERS_def Let_def ctor_steps_def adec_enabled_def demand_def
        new_roles_def demo_life_env_def split: if_splits Option.bind_splits)
  then show ?thesis using adec_create_clean [OF demo_object_new demo_benign, of "\<lambda>_. True" False "[]" ?g] by auto
qed

text \<open>Every step is granted when the allocator and Nexus refuse nothing.\<close>

lemma alloc_nodes_granted: "snd (alloc_nodes (\<lambda>_. Some n) i k ns)"
  by (induction k arbitrary: i ns) simp_all

lemma steps_granted:
  assumes "list_all (\<lambda>f. \<forall>c err c'. f c = Some (err, c') \<longrightarrow> err = OMX_ErrorNone) fs" "run_steps fs c = Some (err, c')"
  shows "err = OMX_ErrorNone"
  using assms by (induction fs arbitrary: c) (simp, fastforce split: if_splits Option.bind_splits)

lemma demo_granted: "run_steps (ctor_steps demo_life_env demo_nexus False [r]) c = Some (err, c') \<Longrightarrow> err = OMX_ErrorNone"
proof (rule steps_granted)
  have e: "e_new demo_life_env l \<noteq> 0" "e_handle demo_life_env l \<noteq> 0" "e_alloc demo_life_env l n = (length l + 2000, replicate n 0)" "e_error demo_life_env l = 0" "e_property demo_life_env l \<noteq> 0"
    "e_node demo_life_env l = Some \<lparr>ticks = 0, tflags = 0, pts = 0\<rparr>" for l n
    by (simp_all add: demo_life_env_def demo_param_env_def demo_adec_env_def)
  have t: "m_valid (new_BOMX_BufferTracker (\<lambda>_. Some n) k)" for n k
    using alloc_nodes_granted [of n 0 "unat k" "[]"] by (auto simp: new_BOMX_BufferTracker_def split: prod.splits)
  show "list_all (\<lambda>f. \<forall>c err c'. f c = Some (err, c') \<longrightarrow> err = OMX_ErrorNone) (ctor_steps demo_life_env demo_nexus False [r])"
    by (auto simp: ctor_steps_def adec_enabled_def new_roles_def new_input_port_def new_output_port_def init_aac_def new_frame_status_def new_memory_blocks_def
      new_playpump_event_def new_output_event_def register_output_event_def new_tracker_def open_ipc_def open_context_def new_eos_buffer_def AllocateInputBuffer_def
      new_pes_def form_eos_def open_decoder_def configure_decoder_def drc_defaults_def init_bcma_def debug_files_def new_object_def acquire_def new_array_def
      nexus_ok_def demand_def Let_def e t split: if_splits prod.splits Option.bind_splits)
qed

text \<open>A decoder for MP3, the first to be created.\<close>

lemma demo_created:
  obtains g' c' where "create_decoder (\<lambda>_. True) demo_life_env demo_nexus False [\<lparr>role_name = ''audio_decoder.mp3'', role_omxCodec = 23\<rparr>]
      \<lparr>g_instanceNum = 0, g_activeInstancesNum = 0\<rparr> demo_object = Some (OMX_ErrorNone, g', c')"
proof -
  let ?r = "\<lparr>role_name = ''audio_decoder.mp3'', role_omxCodec = 23 :: u32\<rparr>"
  let ?c = "(calls [GetAudioCapabilities, New] demo_object)\<lparr>m_audioPortBase := 0\<rparr>"
  note ready = new_members_ready [OF demo_object_new, of demo_life_env demo_nexus False "[?r]"]
  from run_steps_returns [OF ctor_sound ctor_returns [OF demo_benign] ready] obtain err d where
    d: "run_steps (ctor_steps demo_life_env demo_nexus False [?r]) ?c = Some (err, d)" by auto
  then have e: "err = OMX_ErrorNone" by (rule demo_granted)
  have n: "nexus New (nexus GetAudioCapabilities demo_object) = calls [GetAudioCapabilities, New] demo_object" by (simp add: nexus_calls)
  have "e_new demo_life_env l \<noteq> NULL" for l by (simp add: demo_life_env_def demo_param_env_def demo_adec_env_def)
  then show ?thesis using d e that
    by (simp add: create_decoder_def new_object_def new_BOMX_AudioDecoder_def B_MAX_AUDIO_DECODERS_def n Let_def)
qed


theorem adec_destructor_frees_witness:
  "\<exists>c'. free_port 0 demo_adec = Some c' \<and> m_bufferList (m_pAudioPorts c' ! 0) = [] \<and> m_inInfo (m_sub c') 50 = None"
proof -
  have l: "m_bufferList (m_pAudioPorts demo_adec ! 0) = [8]" "private_of demo_adec 8 = 50" by (simp_all add: private_of_def demo_adec_simps)
  have "freeable 0 (private_of demo_adec ` set (m_bufferList (m_pAudioPorts demo_adec ! 0))) demo_adec"
    by (simp add: freeable_def io_ports_def has_info_def port_inv_def buffer_ok_def private_of_def demo_adec_simps)
  from adec_destructor_frees [OF this] l show ?thesis by (auto simp: gone_def)
qed

end
