(* ===== verification/Nexus_Cec.thy ===== *)
theory Nexus_Cec
  imports Power_Hal
begin

text \<open>
  \<open>nxif/libnexusservice/nexuscecservice.cpp\<close>: the HDMI-CEC service. Messages from the TV are
  answered from a table of opcodes, messages to the TV are sent with retries until they are
  acknowledged. The Nexus CEC driver, the message loopers and the waits on conditions are the
  record \<open>cec_env\<close> of answers, which may depend on the log of calls so far. \<open>None\<close> as a result
  means that memory outside a buffer was accessed.
\<close>

section \<open>Data\<close>

definition NEXUS_CEC_MESSAGE_DATA_SIZE :: nat where "NEXUS_CEC_MESSAGE_DATA_SIZE = 16"
definition HDMI_CEC_MESSAGE_BODY_MAX_LENGTH :: nat where "HDMI_CEC_MESSAGE_BODY_MAX_LENGTH = 16"
definition DEFAULT_MAX_CEC_RETRIES :: u8 where "DEFAULT_MAX_CEC_RETRIES = 5"

definition NEXUS_CEC_OpImageViewOn :: u8 where "NEXUS_CEC_OpImageViewOn = 0x04"
definition NEXUS_CEC_OpStandby :: u8 where "NEXUS_CEC_OpStandby = 0x36"
definition NEXUS_CEC_OpGiveOSDName :: u8 where "NEXUS_CEC_OpGiveOSDName = 0x46"
definition NEXUS_CEC_OpSetOSDName :: u8 where "NEXUS_CEC_OpSetOSDName = 0x47"
definition NEXUS_CEC_OpActiveSource :: u8 where "NEXUS_CEC_OpActiveSource = 0x82"
definition NEXUS_CEC_OpGivePhysicalAddress :: u8 where "NEXUS_CEC_OpGivePhysicalAddress = 0x83"
definition NEXUS_CEC_OpReportPhysicalAddress :: u8 where "NEXUS_CEC_OpReportPhysicalAddress = 0x84"
definition NEXUS_CEC_OpRequestActiveSource :: u8 where "NEXUS_CEC_OpRequestActiveSource = 0x85"
definition NEXUS_CEC_OpSetStreamPath :: u8 where "NEXUS_CEC_OpSetStreamPath = 0x86"
definition NEXUS_CEC_OpDeviceVendorID :: u8 where "NEXUS_CEC_OpDeviceVendorID = 0x87"
definition NEXUS_CEC_OpGiveDeviceVendorID :: u8 where "NEXUS_CEC_OpGiveDeviceVendorID = 0x8C"
definition NEXUS_CEC_OpGiveDevicePowerStatus :: u8 where "NEXUS_CEC_OpGiveDevicePowerStatus = 0x8F"
definition NEXUS_CEC_OpReportPowerStatus :: u8 where "NEXUS_CEC_OpReportPowerStatus = 0x90"
definition NEXUS_CEC_OpCECVersion :: u8 where "NEXUS_CEC_OpCECVersion = 0x9E"
definition NEXUS_CEC_OpGetCECVersion :: u8 where "NEXUS_CEC_OpGetCECVersion = 0x9F"

lemmas cec_ops = NEXUS_CEC_OpImageViewOn_def NEXUS_CEC_OpStandby_def NEXUS_CEC_OpGiveOSDName_def
  NEXUS_CEC_OpSetOSDName_def NEXUS_CEC_OpActiveSource_def NEXUS_CEC_OpGivePhysicalAddress_def
  NEXUS_CEC_OpReportPhysicalAddress_def NEXUS_CEC_OpRequestActiveSource_def NEXUS_CEC_OpSetStreamPath_def
  NEXUS_CEC_OpDeviceVendorID_def NEXUS_CEC_OpGiveDeviceVendorID_def NEXUS_CEC_OpGiveDevicePowerStatus_def
  NEXUS_CEC_OpReportPowerStatus_def NEXUS_CEC_OpCECVersion_def NEXUS_CEC_OpGetCECVersion_def

text \<open>The values of the enumeration; \<open>NEXUS_CecDeviceType_eMax\<close> is their number.\<close>

datatype NEXUS_CecDeviceType =
    NEXUS_CecDeviceType_eTv | NEXUS_CecDeviceType_eRecordingDevice | NEXUS_CecDeviceType_eReserved
  | NEXUS_CecDeviceType_eTuner | NEXUS_CecDeviceType_ePlaybackDevice | NEXUS_CecDeviceType_eAudioSystem
  | NEXUS_CecDeviceType_ePureCecSwitch | NEXUS_CecDeviceType_eVideoProcessor

datatype b_cecDeviceType =
    eCecDeviceType_eInactive | eCecDeviceType_eTv | eCecDeviceType_eRecordingDevice | eCecDeviceType_eReserved
  | eCecDeviceType_eTuner | eCecDeviceType_ePlaybackDevice | eCecDeviceType_eAudioSystem
  | eCecDeviceType_ePureCecSwitch | eCecDeviceType_eVideoProcessor | eCecDeviceType_eInvalid

fun fromNexusCecDeviceType :: "NEXUS_CecDeviceType \<Rightarrow> b_cecDeviceType" where
  "fromNexusCecDeviceType NEXUS_CecDeviceType_eTv = eCecDeviceType_eTv"
| "fromNexusCecDeviceType NEXUS_CecDeviceType_eRecordingDevice = eCecDeviceType_eRecordingDevice"
| "fromNexusCecDeviceType NEXUS_CecDeviceType_eReserved = eCecDeviceType_eReserved"
| "fromNexusCecDeviceType NEXUS_CecDeviceType_eTuner = eCecDeviceType_eTuner"
| "fromNexusCecDeviceType NEXUS_CecDeviceType_ePlaybackDevice = eCecDeviceType_ePlaybackDevice"
| "fromNexusCecDeviceType NEXUS_CecDeviceType_eAudioSystem = eCecDeviceType_eAudioSystem"
| "fromNexusCecDeviceType NEXUS_CecDeviceType_ePureCecSwitch = eCecDeviceType_ePureCecSwitch"
| "fromNexusCecDeviceType NEXUS_CecDeviceType_eVideoProcessor = eCecDeviceType_eVideoProcessor"

record NEXUS_CecStatus =
  n_ready :: bool
  n_physicalAddress :: "u8 \<times> u8"
  n_logicalAddress :: u8
  n_deviceType :: NEXUS_CecDeviceType
  n_messageReceived :: bool
  n_messageTransmitPending :: bool
  n_transmitMessageAcknowledged :: bool
  n_cecVersion :: u32

record b_cecStatus =
  ready :: bool
  messageRx :: bool
  messageTxPending :: bool
  txMessageAck :: bool
  physicalAddress :: "u8 \<times> u8"
  logicalAddress :: u8
  deviceType :: b_cecDeviceType
  cecVersion :: u32

record NEXUS_CecMessage =
  initiatorAddr :: u8
  destinationAddr :: u8
  msg_buffer :: "u8 list"
  msg_length :: nat

text \<open>The fields of the settings that the service sets; the callbacks are always its own.\<close>

record NEXUS_CecSettings =
  set_enabled :: bool
  set_callbacks :: bool
  set_noPolling :: bool
  set_logicalAddress :: u8
  set_physicalAddress :: "u8 \<times> u8"

text \<open>An \<open>AMessage\<close> with the values that can be found in it.\<close>

record tx_message =
  tx_srcaddr :: "int option"
  tx_destaddr :: "int option"
  tx_opcode :: "int option"
  tx_length :: "nat option"
  tx_maxRetries :: "int option"
  tx_params :: "u8 list option"

record rx_message =
  rx_opcode :: u8
  rx_length :: nat
  rx_params :: "u8 list option"

record hdmiCecMessage_t =
  initiator :: u8
  destination :: u8
  body_length :: nat
  body :: "u8 list"

datatype cec_call =
    GetStatus | Transmit NEXUS_CecMessage | USleep nat | WaitTransmitted | WaitPowerStatus | WaitReady | PostTx
  | SystemKeyPower | BroadcastPowerStatus | BroadcastTransmitted | BroadcastReady
  | SetSettings NEXUS_CecSettings | CecOpen | CecClose | ReceiveMessage | GetVendorId | ListenerCalled hdmiCecMessage_t

record cec_env =
  Cec_GetStatus :: "cec_call list \<Rightarrow> NEXUS_CecStatus option"
  Cec_TransmitMessage :: "cec_call list \<Rightarrow> bool"
  Cec_ReceiveMessage :: "cec_call list \<Rightarrow> NEXUS_CecMessage option"
  Cec_GetSettings :: "cec_call list \<Rightarrow> NEXUS_CecSettings"
  Cec_SetSettings :: "cec_call list \<Rightarrow> bool"
  Cec_Open :: "cec_call list \<Rightarrow> nat"
  default_message :: NEXUS_CecMessage
  wait_transmitted :: "cec_call list \<Rightarrow> bool"
  wait_ready :: "cec_call list \<Rightarrow> status_t"
  wait_power_status :: "cec_call list \<Rightarrow> bool \<times> u8 option"
  post_and_await :: "cec_call list \<Rightarrow> status_t"
  vendor_property :: "cec_call list \<Rightarrow> u32"

text \<open>
  The service object. \<open>mEventListener\<close>: none, its own or a client's; \<open>rx_queue\<close>: the messages posted
  to the receiving looper.
\<close>

datatype listener = OwnListener | ClientListener nat

record CecServiceManager =
  cecHandle :: nat
  mLogicalAddress :: u8
  mCecDeviceType :: b_cecDeviceType
  mCecPowerStatus :: u8
  mCecRxMessageLooper :: bool
  mCecRxMessageHandler :: bool
  mCecTxMessageLooper :: bool
  mCecTxMessageHandler :: bool
  mEventListener :: "listener option"
  rx_queue :: "rx_message list"
  cec_log :: "cec_call list"

definition cec_emit :: "cec_call \<Rightarrow> CecServiceManager \<Rightarrow> CecServiceManager" where
  "cec_emit c s = s\<lparr>cec_log := cec_log s @ [c]\<rparr>"

section \<open>Status and settings\<close>

definition getCecStatus :: "cec_env \<Rightarrow> CecServiceManager \<Rightarrow> b_cecStatus option \<times> CecServiceManager" where
  "getCecStatus env s =
     (case Cec_GetStatus env (cec_log s) of
        None \<Rightarrow> (None, cec_emit GetStatus s)
      | Some status \<Rightarrow>
          (Some \<lparr>ready = n_ready status, messageRx = n_messageReceived status, messageTxPending = n_messageTransmitPending status,
             txMessageAck = n_transmitMessageAcknowledged status, physicalAddress = n_physicalAddress status,
             logicalAddress = n_logicalAddress status, deviceType = fromNexusCecDeviceType (n_deviceType status),
             cecVersion = n_cecVersion status\<rparr>,
           (cec_emit GetStatus s)\<lparr>mLogicalAddress := n_logicalAddress status\<rparr>))"

definition setEventListener :: "listener option \<Rightarrow> CecServiceManager \<Rightarrow> status_t \<times> CecServiceManager" where
  "setEventListener l s = (NO_ERROR, s\<lparr>mEventListener := l\<rparr>)"

definition setLogicalAddress :: "cec_env \<Rightarrow> u8 \<Rightarrow> CecServiceManager \<Rightarrow> bool \<times> CecServiceManager" where
  "setLogicalAddress env a s =
     (let cecSettings = (Cec_GetSettings env (cec_log s))\<lparr>set_logicalAddress := a\<rparr>
      in (Cec_SetSettings env (cec_log s), cec_emit (SetSettings cecSettings) s))"

definition setPhysicalAddress :: "cec_env \<Rightarrow> u16 \<Rightarrow> CecServiceManager \<Rightarrow> bool \<times> CecServiceManager" where
  "setPhysicalAddress env a s =
     (let cecSettings = (Cec_GetSettings env (cec_log s))
            \<lparr>set_physicalAddress := (ucast (drop_bit 8 a AND 0xFF), ucast (drop_bit 0 a AND 0xFF))\<rparr>
      in (Cec_SetSettings env (cec_log s), cec_emit (SetSettings cecSettings) s))"

section \<open>Sending\<close>

text \<open>
  The copy loop of \<open>outputCecMessage\<close> is also bounded by the 51 bytes of the text buffer, three for
  each byte, so it runs at most 17 times; the message buffer has 16 bytes.
\<close>

definition fill_message :: "u8 list \<Rightarrow> u8 list \<Rightarrow> nat \<Rightarrow> u8 list option" where
  "fill_message buf pBuffer len =
     (let n = min (len - 1) 17 in
      if n > length pBuffer \<or> n + 1 > length buf then None
      else Some (take 1 buf @ take n pBuffer @ drop (n + 1) buf))"

text \<open>
  The retry loop: \<open>n\<close> attempts are left, the result tells whether one was acknowledged. The delay is
  a variable of the loop body, so it is 0 at the start of every attempt.
\<close>

fun attempts :: "cec_env \<Rightarrow> NEXUS_CecMessage \<Rightarrow> nat \<Rightarrow> CecServiceManager \<Rightarrow> bool \<times> CecServiceManager" where
  "attempts env m 0 s = (False, s)"
| "attempts env m (Suc n) s =
     (let timeoutInMs = 0;
          s = cec_emit (USleep (timeoutInMs * 1000)) s;
          rc = Cec_TransmitMessage env (cec_log s);
          s = cec_emit (Transmit m) s in
      if rc then
        let status = wait_transmitted env (cec_log s); s = cec_emit WaitTransmitted s in
        if status then
          let (st, s) = getCecStatus env s in
          (case st of
             Some cecStatus \<Rightarrow> if txMessageAck cecStatus then (True, s) else attempts env m n s
           | None \<Rightarrow> attempts env m n s)
        else attempts env m n s
      else attempts env m n s)"

definition outputCecMessage :: "cec_env \<Rightarrow> tx_message \<Rightarrow> CecServiceManager \<Rightarrow> (status_t \<times> CecServiceManager) option" where
  "outputCecMessage env msg s =
     (case tx_srcaddr msg of None \<Rightarrow> Some (FAILED_TRANSACTION, s) | Some srcaddr \<Rightarrow>
     (case tx_destaddr msg of None \<Rightarrow> Some (FAILED_TRANSACTION, s) | Some destaddr \<Rightarrow>
     (case tx_opcode msg of None \<Rightarrow> Some (FAILED_TRANSACTION, s) | Some opcode \<Rightarrow>
     (case tx_length msg of None \<Rightarrow> Some (FAILED_TRANSACTION, s) | Some len \<Rightarrow>
     (case tx_maxRetries msg of None \<Rightarrow> Some (FAILED_TRANSACTION, s) | Some maxRetries \<Rightarrow>
      if cecHandle s = 0 then Some (DEAD_OBJECT, s)
      else if len > 1 \<and> tx_params msg = None then Some (FAILED_TRANSACTION, s)
      else
        let m = (default_message env)\<lparr>initiatorAddr := word_of_int srcaddr, destinationAddr := word_of_int destaddr,
                  msg_length := len, msg_buffer := (msg_buffer (default_message env))[0 := word_of_int opcode]\<rparr> in
        (case (if len > 1 then fill_message (msg_buffer m) (the (tx_params msg)) len else Some (msg_buffer m)) of
           None \<Rightarrow> None
         | Some buf \<Rightarrow>
             let (acked, s) = attempts env (m\<lparr>msg_buffer := buf\<rparr>) (nat (maxRetries + 1)) s
             in Some (if acked then NO_ERROR else UNKNOWN_ERROR, s)))))))"

text \<open>
  The message goes through the sending looper and the caller waits for the reply; \<open>post_and_await\<close> is
  the result of the looper itself. \<open>pBuffer\<close> is the caller's memory.
\<close>

definition sendCecMessage ::
  "cec_env \<Rightarrow> u8 \<Rightarrow> u8 \<Rightarrow> nat \<Rightarrow> u8 list \<Rightarrow> u8 \<Rightarrow> CecServiceManager \<Rightarrow> (status_t \<times> CecServiceManager) option" where
  "sendCecMessage env srcAddr destAddr len pBuffer maxRetries s =
     (case getCecStatus env s of
        (None, s) \<Rightarrow> Some (UNKNOWN_ERROR, s)
      | (Some status, s) \<Rightarrow>
          let (err, maxRetries) =
                (if srcAddr = destAddr
                 then (NO_ERROR, if mCecDeviceType s = eCecDeviceType_eInvalid then 1 else 0)
                 else if logicalAddress status = 0xFF then (NO_INIT, maxRetries)
                 else (NO_ERROR, maxRetries)) in
          if pBuffer = [] then None
          else if err \<noteq> NO_ERROR then Some (err, s)
          else if len > 1 \<and> len > length pBuffer then None
          else
            let msg = \<lparr>tx_srcaddr = Some (uint srcAddr), tx_destaddr = Some (uint destAddr), tx_opcode = Some (uint (hd pBuffer)),
                       tx_length = Some len, tx_maxRetries = Some (uint maxRetries),
                       tx_params = (if len > 1 then Some (take (len - 1) (tl pBuffer)) else None)\<rparr>;
                err = post_and_await env (cec_log s);
                s = cec_emit PostTx s in
            if err \<noteq> NO_ERROR then Some (err, s)
            else outputCecMessage env msg s)"

section \<open>Answering\<close>

text \<open>The functions that supply a parameter of a reply: they fill \<open>content\<close> and set \<open>outLength\<close>.\<close>

datatype param_fn =
    Fn_getPhysicalAddress | Fn_getDeviceType | Fn_getOsdName | Fn_getDeviceVendorID | Fn_enterStandby
  | Fn_getCecVersion | Fn_reportPowerStatus

definition opCodeList :: "(u8 \<times> u8 \<times> param_fn option list) list" where
  "opCodeList =
     [(NEXUS_CEC_OpGivePhysicalAddress, NEXUS_CEC_OpReportPhysicalAddress, [Some Fn_getPhysicalAddress, Some Fn_getDeviceType, None]),
      (NEXUS_CEC_OpGiveOSDName, NEXUS_CEC_OpSetOSDName, [Some Fn_getOsdName, None, None]),
      (NEXUS_CEC_OpGiveDeviceVendorID, NEXUS_CEC_OpDeviceVendorID, [Some Fn_getDeviceVendorID, None, None]),
      (NEXUS_CEC_OpRequestActiveSource, NEXUS_CEC_OpActiveSource, [Some Fn_getPhysicalAddress, None, None]),
      (NEXUS_CEC_OpSetStreamPath, NEXUS_CEC_OpActiveSource, [Some Fn_getPhysicalAddress, None, None]),
      (NEXUS_CEC_OpStandby, 0, [Some Fn_enterStandby, None, None]),
      (NEXUS_CEC_OpGetCECVersion, NEXUS_CEC_OpCECVersion, [Some Fn_getCecVersion, None, None]),
      (NEXUS_CEC_OpReportPowerStatus, 0, [Some Fn_reportPowerStatus, None, None])]"

text \<open>\<open>content\<close> has 16 bytes; storing at its front.\<close>

definition put_front :: "u8 list \<Rightarrow> u8 list \<Rightarrow> u8 list" where
  "put_front bs content = bs @ drop (length bs) content"

type_synonym param_result = "u8 list \<times> nat \<times> CecServiceManager"

definition getPhysicalAddress :: "cec_env \<Rightarrow> u8 list \<Rightarrow> nat \<Rightarrow> CecServiceManager \<Rightarrow> param_result" where
  "getPhysicalAddress env content outLength s =
     (case getCecStatus env s of
        (Some status, s) \<Rightarrow> (put_front [fst (physicalAddress status), snd (physicalAddress status)] content, 2, s)
      | (None, s) \<Rightarrow> (content, outLength, s))"

definition getDeviceType :: "cec_env \<Rightarrow> u8 list \<Rightarrow> nat \<Rightarrow> CecServiceManager \<Rightarrow> param_result" where
  "getDeviceType env content outLength s =
     (case getCecStatus env s of
        (Some status, s) \<Rightarrow>
          ((case deviceType status of
              eCecDeviceType_eTv \<Rightarrow> put_front [0] content
            | eCecDeviceType_eRecordingDevice \<Rightarrow> put_front [1] content
            | eCecDeviceType_eReserved \<Rightarrow> put_front [2] content
            | eCecDeviceType_eTuner \<Rightarrow> put_front [3] content
            | eCecDeviceType_ePlaybackDevice \<Rightarrow> put_front [4] content
            | eCecDeviceType_eAudioSystem \<Rightarrow> put_front [5] content
            | eCecDeviceType_ePureCecSwitch \<Rightarrow> put_front [6] content
            | eCecDeviceType_eVideoProcessor \<Rightarrow> put_front [7] content
            | _ \<Rightarrow> content), 1, s)
      | (None, s) \<Rightarrow> (content, outLength, s))"

definition getCecVersion :: "cec_env \<Rightarrow> u8 list \<Rightarrow> nat \<Rightarrow> CecServiceManager \<Rightarrow> param_result" where
  "getCecVersion env content outLength s =
     (case getCecStatus env s of
        (Some status, s) \<Rightarrow> (put_front [ucast (cecVersion status)] content, 1, s)
      | (None, s) \<Rightarrow> (content, outLength, s))"

definition getOsdName :: "u8 list \<Rightarrow> nat \<Rightarrow> CecServiceManager \<Rightarrow> param_result" where
  "getOsdName content outLength s = (put_front (map of_char ''BRCMSTB'') content, 7, s)"

definition getDeviceVendorID :: "cec_env \<Rightarrow> u8 list \<Rightarrow> nat \<Rightarrow> CecServiceManager \<Rightarrow> param_result" where
  "getDeviceVendorID env content outLength s =
     (let vendorId = vendor_property env (cec_log s) in
      (put_front (map (\<lambda>j. ucast (drop_bit ((3 - 1 - j) * 8) vendorId AND 0xFF)) [0..<3]) content, 3, cec_emit GetVendorId s))"

definition enterStandby :: "u8 list \<Rightarrow> nat \<Rightarrow> CecServiceManager \<Rightarrow> param_result" where
  "enterStandby content outLength s = (content, outLength, cec_emit SystemKeyPower s)"

definition reportPowerStatus :: "nat \<Rightarrow> u8 list \<Rightarrow> nat \<Rightarrow> CecServiceManager \<Rightarrow> param_result" where
  "reportPowerStatus inLength content outLength s =
     (content, 0, if inLength > 1 then cec_emit BroadcastPowerStatus (s\<lparr>mCecPowerStatus := hd content\<rparr>) else s)"

fun run_param :: "cec_env \<Rightarrow> param_fn \<Rightarrow> nat \<Rightarrow> u8 list \<Rightarrow> nat \<Rightarrow> CecServiceManager \<Rightarrow> param_result" where
  "run_param env Fn_getPhysicalAddress inLength content outLength s = getPhysicalAddress env content outLength s"
| "run_param env Fn_getDeviceType inLength content outLength s = getDeviceType env content outLength s"
| "run_param env Fn_getOsdName inLength content outLength s = getOsdName content outLength s"
| "run_param env Fn_getDeviceVendorID inLength content outLength s = getDeviceVendorID env content outLength s"
| "run_param env Fn_enterStandby inLength content outLength s = enterStandby content outLength s"
| "run_param env Fn_getCecVersion inLength content outLength s = getCecVersion env content outLength s"
| "run_param env Fn_reportPowerStatus inLength content outLength s = reportPowerStatus inLength content outLength s"

text \<open>
  The local variables of \<open>responseLookUp\<close> that live across its loops. The two buffers have 16 bytes.
\<close>

record rx_locals =
  rindex :: nat
  outLength :: nat
  param_index :: nat
  responseLength :: nat
  responseBuffer :: "u8 list"
  tmp :: "u8 list"

text \<open>The received parameters are copied to \<open>tmp\<close> before each function, its output to the reply behind.\<close>

definition load_params :: "nat \<Rightarrow> u8 list option \<Rightarrow> rx_locals \<Rightarrow> rx_locals option" where
  "load_params inLength pBuffer v =
     (if inLength > 1 then
        (case pBuffer of
           None \<Rightarrow> None
         | Some p \<Rightarrow> if inLength - 1 > length p \<or> inLength - 1 > length (tmp v) then None
                     else Some (v\<lparr>tmp := put_front (take (inLength - 1) p) (tmp v)\<rparr>))
      else Some v)"

definition add_param :: "rx_locals \<Rightarrow> rx_locals option" where
  "add_param v =
     (let out = outLength v in
      if out > length (tmp v) \<or> rindex v + out \<ge> length (responseBuffer v) then None
      else Some (v\<lparr>responseLength := responseLength v + out,
               responseBuffer := take (rindex v + 1) (responseBuffer v) @ take out (tmp v) @ drop (rindex v + 1 + out) (responseBuffer v),
               rindex := rindex v + out, param_index := param_index v + 1\<rparr>))"

text \<open>
  The loop over the parameter functions from \<open>param_index\<close> on. The first result tells whether the
  function goes on: it returns when the reply would be too long.
\<close>

fun param_loop ::
  "cec_env \<Rightarrow> nat \<Rightarrow> u8 list option \<Rightarrow> param_fn option list \<Rightarrow> rx_locals \<Rightarrow> CecServiceManager
   \<Rightarrow> (bool \<times> rx_locals \<times> CecServiceManager) option" where
  "param_loop env inLength pBuffer (Some f # fs) v s =
     (case load_params inLength pBuffer v of
        None \<Rightarrow> None
      | Some v \<Rightarrow>
          let (content, out, s) = run_param env f inLength (tmp v) (outLength v) s;
              v = v\<lparr>tmp := content, outLength := out\<rparr> in
          if responseLength v + outLength v > NEXUS_CEC_MESSAGE_DATA_SIZE then Some (False, v, s)
          else case add_param v of None \<Rightarrow> None | Some v \<Rightarrow> param_loop env inLength pBuffer fs v s)"
| "param_loop env inLength pBuffer _ v s = Some (True, v, s)"

fun response_scan ::
  "cec_env \<Rightarrow> u8 \<Rightarrow> nat \<Rightarrow> u8 list option \<Rightarrow> (u8 \<times> u8 \<times> param_fn option list) list \<Rightarrow> rx_locals \<Rightarrow> CecServiceManager
   \<Rightarrow> CecServiceManager option" where
  "response_scan env opCode inLength pBuffer [] v s = Some s"
| "response_scan env opCode inLength pBuffer ((cmd, resp, fs) # es) v s =
     (if opCode = cmd then
        case param_loop env inLength pBuffer (drop (param_index v) fs)
               (v\<lparr>responseBuffer := (responseBuffer v)[0 := resp], responseLength := 1\<rparr>) s of
          None \<Rightarrow> None
        | Some (False, v, s) \<Rightarrow> Some s
        | Some (True, v, s) \<Rightarrow>
            if resp \<noteq> 0 then
              (case sendCecMessage env (mLogicalAddress s) 0 (responseLength v) (responseBuffer v) DEFAULT_MAX_CEC_RETRIES s of
                 None \<Rightarrow> None
               | Some (_, s) \<Rightarrow> response_scan env opCode inLength pBuffer es v s)
            else response_scan env opCode inLength pBuffer es v s
      else response_scan env opCode inLength pBuffer es v s)"

text \<open>\<open>rbuf\<close> and \<open>tbuf\<close> are the uninitialised contents of the two buffers.\<close>

definition responseLookUp ::
  "cec_env \<Rightarrow> u8 list \<Rightarrow> u8 list \<Rightarrow> u8 \<Rightarrow> nat \<Rightarrow> u8 list option \<Rightarrow> CecServiceManager \<Rightarrow> CecServiceManager option" where
  "responseLookUp env rbuf tbuf opCode inLength pBuffer s =
     response_scan env opCode inLength pBuffer opCodeList
       \<lparr>rindex = 0, outLength = 0, param_index = 0, responseLength = 0, responseBuffer = rbuf, tmp = tbuf\<rparr> s"

definition parseCecMessage :: "cec_env \<Rightarrow> u8 list \<Rightarrow> u8 list \<Rightarrow> rx_message \<Rightarrow> CecServiceManager \<Rightarrow> CecServiceManager option" where
  "parseCecMessage env rbuf tbuf msg s =
     responseLookUp env rbuf tbuf (rx_opcode msg) (rx_length msg) (if rx_length msg > 1 then rx_params msg else None) s"

text \<open>The receiving looper takes the messages in order.\<close>

definition rx_onMessageReceived :: "cec_env \<Rightarrow> u8 list \<Rightarrow> u8 list \<Rightarrow> CecServiceManager \<Rightarrow> CecServiceManager option" where
  "rx_onMessageReceived env rbuf tbuf s =
     (case rx_queue s of [] \<Rightarrow> Some s | m # ms \<Rightarrow> parseCecMessage env rbuf tbuf m (s\<lparr>rx_queue := ms\<rparr>))"

definition onHdmiCecMessageReceived :: "hdmiCecMessage_t \<Rightarrow> CecServiceManager \<Rightarrow> CecServiceManager" where
  "onHdmiCecMessageReceived m s =
     s\<lparr>rx_queue := rx_queue s @
        [\<lparr>rx_opcode = hd (body m), rx_length = body_length m,
          rx_params = (if body_length m > 1 then Some (take (body_length m - 1) (tl (body m))) else None)\<rparr>]\<rparr>"

section \<open>Callbacks of the driver\<close>

definition isPlatformInitialised :: "CecServiceManager \<Rightarrow> bool" where
  "isPlatformInitialised s = (mCecTxMessageHandler s \<and> mCecRxMessageHandler s)"

definition deviceReady_callback :: "cec_env \<Rightarrow> CecServiceManager \<Rightarrow> CecServiceManager" where
  "deviceReady_callback env s =
     (if cecHandle s \<noteq> 0 then
        case Cec_GetStatus env (cec_log s) of
          None \<Rightarrow> cec_emit GetStatus s
        | Some status \<Rightarrow>
            let s = (cec_emit GetStatus s)\<lparr>mLogicalAddress := n_logicalAddress status\<rparr> in
            if fst (n_physicalAddress status) \<noteq> 0xFF \<and> snd (n_physicalAddress status) \<noteq> 0xFF
            then cec_emit BroadcastReady s else s
      else s)"

definition msgReceived_callback :: "cec_env \<Rightarrow> CecServiceManager \<Rightarrow> CecServiceManager" where
  "msgReceived_callback env s =
     (if cecHandle s \<noteq> 0 then
        case Cec_GetStatus env (cec_log s) of
          None \<Rightarrow> cec_emit GetStatus s
        | Some status \<Rightarrow>
            let s = cec_emit GetStatus s in
            if n_messageReceived status then
              let s = s\<lparr>mLogicalAddress := n_logicalAddress status\<rparr>;
                  r = Cec_ReceiveMessage env (cec_log s);
                  s = cec_emit ReceiveMessage s in
              (case r of
                 None \<Rightarrow> s
               | Some received \<Rightarrow>
                   if isPlatformInitialised s \<and> msg_length received > 0 then
                     let len = (if msg_length received \<le> HDMI_CEC_MESSAGE_BODY_MAX_LENGTH then msg_length received
                                else HDMI_CEC_MESSAGE_BODY_MAX_LENGTH);
                         hdmiMessage = \<lparr>initiator = initiatorAddr received, destination = destinationAddr received,
                           body_length = len,
                           body = take len (msg_buffer received) @ replicate (HDMI_CEC_MESSAGE_BODY_MAX_LENGTH - len) 0\<rparr> in
                     (case mEventListener s of
                        None \<Rightarrow> s
                      | Some OwnListener \<Rightarrow> onHdmiCecMessageReceived hdmiMessage s
                      | Some (ClientListener _) \<Rightarrow> cec_emit (ListenerCalled hdmiMessage) s)
                   else s)
            else s
      else s)"

definition msgTransmitted_callback :: "cec_env \<Rightarrow> CecServiceManager \<Rightarrow> CecServiceManager" where
  "msgTransmitted_callback env s =
     (if cecHandle s \<noteq> 0 then
        case Cec_GetStatus env (cec_log s) of
          None \<Rightarrow> cec_emit GetStatus s
        | Some status \<Rightarrow> cec_emit BroadcastTransmitted (cec_emit GetStatus s)
      else s)"

section \<open>Power\<close>

definition cec_setPowerState :: "cec_env \<Rightarrow> u8 list \<Rightarrow> b_powerState \<Rightarrow> CecServiceManager \<Rightarrow> (bool \<times> CecServiceManager) option" where
  "cec_setPowerState env buf pmState s =
     (case getCecStatus env s of
        (None, s) \<Rightarrow> Some (False, s)
      | (Some status, s) \<Rightarrow>
          if logicalAddress status = 0xFF then Some (False, s)
          else if pmState = ePowerState_S0 then
            let buf = buf[0 := NEXUS_CEC_OpImageViewOn] in
            (case sendCecMessage env (mLogicalAddress s) 0 1 buf DEFAULT_MAX_CEC_RETRIES s of
               None \<Rightarrow> None
             | Some (err, s) \<Rightarrow>
                 if err = NO_ERROR then
                   let buf = buf[0 := NEXUS_CEC_OpActiveSource, 1 := fst (physicalAddress status), 2 := snd (physicalAddress status)] in
                   map_option (\<lambda>(err, s). (err = NO_ERROR, s))
                     (sendCecMessage env (mLogicalAddress s) 0xF 3 buf DEFAULT_MAX_CEC_RETRIES s)
                 else Some (False, s))
          else
            map_option (\<lambda>(err, s). (err = NO_ERROR, s))
              (sendCecMessage env (mLogicalAddress s) 0 1 (buf[0 := NEXUS_CEC_OpStandby]) DEFAULT_MAX_CEC_RETRIES s))"

text \<open>The result is the power status read, if any; the wait may see one stored by the receiving thread.\<close>

definition cec_getPowerStatus :: "cec_env \<Rightarrow> u8 list \<Rightarrow> CecServiceManager \<Rightarrow> (u8 option \<times> CecServiceManager) option" where
  "cec_getPowerStatus env buf s =
     (case getCecStatus env s of
        (None, s) \<Rightarrow> Some (None, s)
      | (Some status, s) \<Rightarrow>
          if logicalAddress status = 0xFF then Some (None, s)
          else
            (case sendCecMessage env (mLogicalAddress s) 0 1 (buf[0 := NEXUS_CEC_OpGiveDevicePowerStatus]) DEFAULT_MAX_CEC_RETRIES s of
               None \<Rightarrow> None
             | Some (err, s) \<Rightarrow>
                 if err = NO_ERROR then
                   let (woken, stored) = wait_power_status env (cec_log s);
                       s = cec_emit WaitPowerStatus s;
                       s = (case stored of None \<Rightarrow> s | Some v \<Rightarrow> s\<lparr>mCecPowerStatus := v\<rparr>) in
                   Some (if woken \<and> mCecPowerStatus s < 4 then Some (mCecPowerStatus s) else None, s)
                 else Some (None, s)))"

section \<open>Initialisation\<close>

text \<open>
  \<open>alloc\<close>: the configuration could be allocated; \<open>platform_cec\<close>: the handle the platform has opened;
  \<open>hdmi\<close>: the physical address of the HDMI output, if its status could be read.
\<close>

fun wait_loop :: "cec_env \<Rightarrow> nat \<Rightarrow> status_t \<Rightarrow> CecServiceManager \<Rightarrow> status_t \<times> CecServiceManager" where
  "wait_loop env 0 status s = (status, s)"
| "wait_loop env (Suc n) status s =
     (let status = wait_ready env (cec_log s); s = cec_emit WaitReady s in
      if status = NO_ERROR then (status, s) else wait_loop env n status s)"

definition init_handlers :: "cec_env \<Rightarrow> status_t \<Rightarrow> CecServiceManager \<Rightarrow> status_t \<times> CecServiceManager" where
  "init_handlers env status s =
     (case getCecStatus env s of
        (Some cecStatus, s) \<Rightarrow>
          if mCecDeviceType s = eCecDeviceType_eInvalid \<and> logicalAddress cecStatus = 0xFF then (NO_INIT, s)
          else
            let s = s\<lparr>mCecRxMessageLooper := True, mCecRxMessageHandler := True,
                      mCecTxMessageLooper := True, mCecTxMessageHandler := True\<rparr> in
            if mCecDeviceType s = eCecDeviceType_eInvalid then setEventListener (Some OwnListener) s
            else (status, s)
      | (None, s) \<Rightarrow> (NO_INIT, s))"

definition init_wait :: "cec_env \<Rightarrow> CecServiceManager \<Rightarrow> status_t \<times> CecServiceManager" where
  "init_wait env s =
     (let (status, s) = (if mCecDeviceType s = eCecDeviceType_eInvalid then wait_loop env 5 NO_ERROR s else (NO_ERROR, s))
      in init_handlers env status s)"

definition init_configure :: "cec_env \<Rightarrow> u8 \<times> u8 \<Rightarrow> CecServiceManager \<Rightarrow> status_t \<times> CecServiceManager" where
  "init_configure env pa s =
     (let settings = (Cec_GetSettings env (cec_log s))\<lparr>set_enabled := False, set_callbacks := True, set_physicalAddress := pa\<rparr>;
          settings = (if mCecDeviceType s \<noteq> eCecDeviceType_eInvalid
                      then settings\<lparr>set_noPolling := True, set_logicalAddress := 0xff\<rparr> else settings);
          rc = Cec_SetSettings env (cec_log s);
          s = cec_emit (SetSettings settings) s in
      if \<not> rc then (UNKNOWN_ERROR, s)
      else
        let settings = (Cec_GetSettings env (cec_log s))\<lparr>set_enabled := True\<rparr>;
            rc = Cec_SetSettings env (cec_log s);
            s = cec_emit (SetSettings settings) s in
        if \<not> rc then (UNKNOWN_ERROR, s) else init_wait env s)"

definition platformInit ::
  "cec_env \<Rightarrow> bool \<Rightarrow> nat \<Rightarrow> (u8 \<times> u8) option \<Rightarrow> CecServiceManager \<Rightarrow> status_t \<times> CecServiceManager" where
  "platformInit env alloc platform_cec hdmi s =
     (if \<not> alloc then (NO_MEMORY, s)
      else
        let s = s\<lparr>cecHandle := platform_cec\<rparr>;
            s = (if cecHandle s = 0 then (cec_emit CecOpen s)\<lparr>cecHandle := Cec_Open env (cec_log s)\<rparr> else s);
            status = (if cecHandle s = 0 then NO_INIT else NO_ERROR) in
        if status = NO_ERROR \<and> hdmi \<noteq> None then init_configure env (the hdmi) s
        else (NO_INIT, s))"

definition platformUninit :: "bool \<Rightarrow> nat \<Rightarrow> CecServiceManager \<Rightarrow> CecServiceManager" where
  "platformUninit alloc platform_cec s =
     (let s = (if mCecDeviceType s = eCecDeviceType_eInvalid \<and> mEventListener s \<noteq> None then snd (setEventListener None s) else s);
          s = (if mCecTxMessageLooper s then s\<lparr>mCecTxMessageHandler := False, mCecTxMessageLooper := False\<rparr> else s);
          s = (if mCecRxMessageLooper s then s\<lparr>mCecRxMessageHandler := False, mCecRxMessageLooper := False\<rparr> else s) in
      if alloc \<and> cecHandle s \<noteq> 0 \<and> platform_cec = 0 then (cec_emit CecClose s)\<lparr>cecHandle := 0\<rparr> else s)"

section \<open>What the attempts do\<close>

definition transmits :: "cec_call list \<Rightarrow> NEXUS_CecMessage list" where
  "transmits cs = List.map_filter (\<lambda>c. case c of Transmit m \<Rightarrow> Some m | _ \<Rightarrow> None) cs"

definition sleeps :: "cec_call list \<Rightarrow> nat list" where
  "sleeps cs = List.map_filter (\<lambda>c. case c of USleep n \<Rightarrow> Some n | _ \<Rightarrow> None) cs"

lemma transmits_simps [simp]:
  "transmits [] = []" "transmits (xs @ ys) = transmits xs @ transmits ys"
  "transmits (c # cs) = (case c of Transmit m \<Rightarrow> [m] | _ \<Rightarrow> []) @ transmits cs"
  by (simp_all add: transmits_def map_filter_simps List.map_filter_def split: cec_call.splits)

lemma sleeps_simps [simp]:
  "sleeps [] = []" "sleeps (xs @ ys) = sleeps xs @ sleeps ys"
  "sleeps (c # cs) = (case c of USleep m \<Rightarrow> [m] | _ \<Rightarrow> []) @ sleeps cs"
  by (simp_all add: sleeps_def map_filter_simps List.map_filter_def split: cec_call.splits)

text \<open>The calls between two states, and what the sending operations leave alone.\<close>

definition cec_grows :: "CecServiceManager \<Rightarrow> cec_call list \<Rightarrow> CecServiceManager \<Rightarrow> bool" where
  "cec_grows s cs s' = (cec_log s' = cec_log s @ cs \<and> cecHandle s' = cecHandle s \<and> mCecDeviceType s' = mCecDeviceType s
     \<and> mCecPowerStatus s' = mCecPowerStatus s \<and> mCecTxMessageHandler s' = mCecTxMessageHandler s
     \<and> mCecRxMessageHandler s' = mCecRxMessageHandler s \<and> rx_queue s' = rx_queue s \<and> mEventListener s' = mEventListener s)"

lemma cec_grows_refl [simp]: "cec_grows s [] s"
  by (simp add: cec_grows_def)

lemma cec_grows_emit [simp]: "cec_grows s [c] (cec_emit c s)"
  by (simp add: cec_grows_def cec_emit_def)

lemma cec_grows_trans: "cec_grows s cs s' \<Longrightarrow> cec_grows s' ds s'' \<Longrightarrow> cec_grows s (cs @ ds) s''"
  by (simp add: cec_grows_def)

lemma getCecStatus_grows: "cec_grows s [GetStatus] (snd (getCecStatus env s))"
  by (simp add: getCecStatus_def cec_grows_def cec_emit_def split: option.splits)

text \<open>Acknowledged means: the last call read a status of the driver with the acknowledge bit set.\<close>

definition acked_by :: "cec_env \<Rightarrow> cec_call list \<Rightarrow> bool" where
  "acked_by env cs = (\<exists>st. cs \<noteq> [] \<and> last cs = GetStatus \<and> Cec_GetStatus env (butlast cs) = Some st \<and> n_transmitMessageAcknowledged st)"

lemma getCecStatus_ack:
  "getCecStatus env s = (Some st, s') \<Longrightarrow> txMessageAck st \<Longrightarrow> acked_by env (cec_log s')"
  by (auto simp: getCecStatus_def acked_by_def cec_emit_def split: option.splits)

lemma attempts_calls:
  "attempts env m n s = (ok, s') \<Longrightarrow>
   \<exists>cs k. cec_grows s cs s' \<and> k \<le> n \<and> transmits cs = replicate k m \<and> sleeps cs = replicate k 0
     \<and> (if ok then k > 0 \<and> acked_by env (cec_log s') else k = n)"
proof (induction n arbitrary: s)
  case (Suc n)
  let ?s1 = "cec_emit (Transmit m) (cec_emit (USleep 0) s)"
  let ?s2 = "cec_emit WaitTransmitted ?s1"
  obtain st s3 where g: "getCecStatus env ?s2 = (st, s3)" by fastforce
  have 1: "cec_grows s [USleep 0, Transmit m] ?s1" by (simp add: cec_grows_def cec_emit_def)
  have 2: "cec_grows s [USleep 0, Transmit m, WaitTransmitted] ?s2" by (simp add: cec_grows_def cec_emit_def)
  have 3: "cec_grows s [USleep 0, Transmit m, WaitTransmitted, GetStatus] s3"
    using cec_grows_trans [OF 2 getCecStatus_grows [of ?s2 env]] g by simp
  have again: ?case if "attempts env m n t = (ok, s')" "cec_grows s cs0 t" "transmits cs0 = [m]" "sleeps cs0 = [0]" for t cs0
  proof -
    from Suc.IH [OF that(1)] obtain cs k where "cec_grows t cs s'" "k \<le> n" "transmits cs = replicate k m" "sleeps cs = replicate k 0"
      "if ok then k > 0 \<and> acked_by env (cec_log s') else k = n" by blast
    with that cec_grows_trans [OF that(2)] show ?thesis
      by (intro exI [of _ "cs0 @ cs"] exI [of _ "Suc k"]) (auto split: if_splits)
  qed
  show ?case
  proof (cases "Cec_TransmitMessage env (cec_log (cec_emit (USleep 0) s)) \<and> wait_transmitted env (cec_log ?s1) \<and> st \<noteq> None \<and> txMessageAck (the st)")
    case True
    with Suc.prems g have "ok" "s' = s3" by (auto simp: Let_def)
    moreover from True g have "acked_by env (cec_log s3)" using getCecStatus_ack by fastforce
    ultimately show ?thesis using 3
      by (intro exI [of _ "[USleep 0, Transmit m, WaitTransmitted, GetStatus]"] exI [of _ 1]) simp
  next
    case False
    with Suc.prems g consider "attempts env m n ?s1 = (ok, s')" | "attempts env m n ?s2 = (ok, s')" | "attempts env m n s3 = (ok, s')"
      by (auto simp: Let_def split: if_splits option.splits)
    then show ?thesis
    proof cases
      case 1 show ?thesis by (rule again [OF 1 \<open>cec_grows s [USleep 0, Transmit m] ?s1\<close>]) simp_all
    next
      case 2 show ?thesis by (rule again [OF 2 \<open>cec_grows s [USleep 0, Transmit m, WaitTransmitted] ?s2\<close>]) simp_all
    next
      case 3 show ?thesis by (rule again [OF 3 \<open>cec_grows s [USleep 0, Transmit m, WaitTransmitted, GetStatus] s3\<close>]) simp_all
    qed
  qed
qed (auto intro: exI [of _ "[]"])

declare attempts.simps(2) [simp del]

section \<open>Properties of sending\<close>

text \<open>What the driver promises: a default message has a buffer of 16 bytes.\<close>

definition sane_env :: "cec_env \<Rightarrow> bool" where
  "sane_env env = (length (msg_buffer (default_message env)) = NEXUS_CEC_MESSAGE_DATA_SIZE)"

definition cec_frame :: "cec_env \<Rightarrow> u8 \<Rightarrow> u8 \<Rightarrow> nat \<Rightarrow> u8 list \<Rightarrow> NEXUS_CecMessage" where
  "cec_frame env src dest len bytes = (default_message env)\<lparr>initiatorAddr := src, destinationAddr := dest, msg_length := len,
     msg_buffer := bytes @ drop (length bytes) (msg_buffer (default_message env))\<rparr>"

lemma fill_message_ok:
  assumes "length buf = NEXUS_CEC_MESSAGE_DATA_SIZE" "1 < len" "len \<le> NEXUS_CEC_MESSAGE_DATA_SIZE" "length ps \<ge> len - 1"
  shows "fill_message (buf[0 := op]) ps len = Some (op # take (len - 1) ps @ drop len buf)"
  using assms by (cases buf) (auto simp: fill_message_def NEXUS_CEC_MESSAGE_DATA_SIZE_def Let_def min_def drop_Cons')

lemma output_frame:
  assumes env: "sane_env env" and h: "cecHandle s \<noteq> 0" and p: "pBuffer \<noteq> []" and len: "0 < len" "len \<le> 16" "len \<le> length pBuffer"
  shows "outputCecMessage env \<lparr>tx_srcaddr = Some (uint src), tx_destaddr = Some (uint dest), tx_opcode = Some (uint (hd pBuffer)),
       tx_length = Some len, tx_maxRetries = Some (uint r), tx_params = (if len > 1 then Some (take (len - 1) (tl pBuffer)) else None)\<rparr> s
     = (let (ok, s') = attempts env (cec_frame env src dest len (take len pBuffer)) (unat r + 1) s
        in Some (if ok then NO_ERROR else UNKNOWN_ERROR, s'))"
proof -
  obtain c cs where pc: "pBuffer = c # cs" using p by (cases pBuffer) auto
  obtain d ds where b: "msg_buffer (default_message env) = d # ds" "length ds = 15"
    using env by (cases "msg_buffer (default_message env)") (auto simp: sane_env_def NEXUS_CEC_MESSAGE_DATA_SIZE_def)
  have r: "nat (uint r + 1) = unat r + 1" using nat_add_distrib [of "uint r" 1] by simp
  have 1: "len = 1 \<Longrightarrow> take len pBuffer = [c]" by (simp add: pc)
  show ?thesis
  proof (cases "len > 1")
    case True
    then have "fill_message (word_of_int (uint c) # ds) (take (len - 1) cs) len = Some (c # take (len - 1) cs @ drop len (d # ds))"
      using fill_message_ok [of "d # ds" len "take (len - 1) cs" c] b(2) len pc
      by (simp add: NEXUS_CEC_MESSAGE_DATA_SIZE_def)
    moreover have "take len pBuffer = c # take (len - 1) cs" using True by (cases len) (simp_all add: pc)
    moreover have "length (take len pBuffer) = len" using len by simp
    ultimately show ?thesis using True h b
      by (simp add: outputCecMessage_def pc r cec_frame_def)
  next
    case False
    with len have "len = 1" by simp
    with 1 show ?thesis using h b by (simp add: outputCecMessage_def pc r cec_frame_def Let_def)
  qed
qed

definition max_attempts :: "CecServiceManager \<Rightarrow> u8 \<Rightarrow> u8 \<Rightarrow> u8 \<Rightarrow> nat" where
  "max_attempts s src dest r =
     (if src = dest then (if mCecDeviceType s = eCecDeviceType_eInvalid then 2 else 1) else unat r + 1)"

lemma getCecStatus_cases:
  obtains s1 where "getCecStatus env s = (None, s1)" "cec_grows s [GetStatus] s1" "Cec_GetStatus env (cec_log s) = None"
  | st s1 where "getCecStatus env s = (Some st, s1)" "cec_grows s [GetStatus] s1" "mLogicalAddress s1 = logicalAddress st"
    "Cec_GetStatus env (cec_log s) \<noteq> None" "logicalAddress st = n_logicalAddress (the (Cec_GetStatus env (cec_log s)))"
    "physicalAddress st = n_physicalAddress (the (Cec_GetStatus env (cec_log s)))"
  using getCecStatus_grows [of s env] by (cases "Cec_GetStatus env (cec_log s)") (auto simp: getCecStatus_def)

text \<open>When a message reaches the driver at all: the status is readable, the device has a logical address or polls, the looper works.\<close>

definition accepts :: "cec_env \<Rightarrow> CecServiceManager \<Rightarrow> u8 \<Rightarrow> u8 \<Rightarrow> bool" where
  "accepts env s src dest =
     (case Cec_GetStatus env (cec_log s) of
        None \<Rightarrow> False
      | Some st \<Rightarrow> (src = dest \<or> n_logicalAddress st \<noteq> 0xFF) \<and> post_and_await env (cec_log s @ [GetStatus]) = NO_ERROR)"

lemma send_calls:
  assumes env: "sane_env env" and h: "cecHandle s \<noteq> 0" and len: "0 < len" "len \<le> 16" "len \<le> length pBuffer"
  shows "\<exists>err s' cs k. sendCecMessage env src dest len pBuffer r s = Some (err, s') \<and> cec_grows s cs s'
    \<and> transmits cs = replicate k (cec_frame env src dest len (take len pBuffer)) \<and> sleeps cs = replicate k 0
    \<and> k \<le> max_attempts s src dest r \<and> (k > 0 \<longleftrightarrow> accepts env s src dest)
    \<and> (if err = NO_ERROR then k > 0 \<and> acked_by env (cec_log s') else k > 0 \<longrightarrow> k = max_attempts s src dest r)"
proof (cases rule: getCecStatus_cases [of env s])
  case (1 s1)
  then show ?thesis
    by (intro exI [of _ UNKNOWN_ERROR] exI [of _ s1] exI [of _ "[GetStatus]"] exI [of _ 0]) (simp add: sendCecMessage_def accepts_def)
next
  case (2 st s1)
  from len have p: "pBuffer \<noteq> []" by auto
  show ?thesis
  proof (cases "src \<noteq> dest \<and> logicalAddress st = 0xFF")
    case True
    with 2 p show ?thesis
      by (intro exI [of _ NO_INIT] exI [of _ s1] exI [of _ "[GetStatus]"] exI [of _ 0]) (auto simp: sendCecMessage_def accepts_def)
  next
    case False
    let ?r = "if src = dest then if mCecDeviceType s1 = eCecDeviceType_eInvalid then 1 else 0 else r"
    let ?s2 = "cec_emit PostTx s1"
    have acc: "accepts env s src dest \<longleftrightarrow> post_and_await env (cec_log s1) = NO_ERROR"
      using False 2 by (auto simp: accepts_def cec_grows_def)
    have m0: "max_attempts s src dest r > 0" by (simp add: max_attempts_def)
    have t: "mCecDeviceType s1 = mCecDeviceType s" using 2(2) by (simp add: cec_grows_def)
    then have n: "unat ?r + 1 = max_attempts s src dest r" by (simp add: max_attempts_def)
    have g2: "cec_grows s [GetStatus, PostTx] ?s2" using cec_grows_trans [OF 2(2) cec_grows_emit [of s1 PostTx]] by simp
    then have h2: "cecHandle ?s2 \<noteq> 0" using h by (simp add: cec_grows_def)
    let ?out = "outputCecMessage env \<lparr>tx_srcaddr = Some (uint src), tx_destaddr = Some (uint dest), tx_opcode = Some (uint (hd pBuffer)),
       tx_length = Some len, tx_maxRetries = Some (uint ?r), tx_params = (if len > 1 then Some (take (len - 1) (tl pBuffer)) else None)\<rparr> ?s2"
    have send: "sendCecMessage env src dest len pBuffer r s =
      (if post_and_await env (cec_log s1) \<noteq> NO_ERROR then Some (post_and_await env (cec_log s1), ?s2) else ?out)"
      using False 2(1) len p by (auto simp: sendCecMessage_def Let_def)
    show ?thesis
    proof (cases "post_and_await env (cec_log s1) = NO_ERROR")
      case True
      obtain ok s' where a: "attempts env (cec_frame env src dest len (take len pBuffer)) (unat ?r + 1) ?s2 = (ok, s')" by fastforce
      from output_frame [OF env h2 p len, of src dest ?r] a send True
      have *: "sendCecMessage env src dest len pBuffer r s = Some (if ok then NO_ERROR else UNKNOWN_ERROR, s')" by simp
      from attempts_calls [OF a] obtain cs k where c: "cec_grows ?s2 cs s'" "k \<le> max_attempts s src dest r"
        "transmits cs = replicate k (cec_frame env src dest len (take len pBuffer))" "sleeps cs = replicate k 0"
        "if ok then k > 0 \<and> acked_by env (cec_log s') else k = max_attempts s src dest r" unfolding n by blast
      with * cec_grows_trans [OF g2 c(1)] show ?thesis
        by (intro exI [of _ "if ok then NO_ERROR else UNKNOWN_ERROR"] exI [of _ s'] exI [of _ "[GetStatus, PostTx] @ cs"] exI [of _ k])
          (use acc m0 True in \<open>auto split: if_splits\<close>)
    next
      case False
      with send g2 acc show ?thesis
        by (intro exI [of _ "post_and_await env (cec_log s1)"] exI [of _ ?s2] exI [of _ "[GetStatus, PostTx]"] exI [of _ 0]) simp
    qed
  qed
qed

text \<open>
  C13: Sending a message of 1 to 16 bytes returns: the driver is given the same frame each time, with
  the two addresses and exactly the caller's bytes, at most once more than the retries allowed (two
  or one times for a polling message) and at least once when the message is accepted; success is
  reported only when the driver has acknowledged the frame, and after a failed transmission all
  retries were used.
\<close>

theorem cec_send_delivers:
  assumes "sane_env env" "cecHandle s \<noteq> 0" "0 < len" "len \<le> 16" "len \<le> length pBuffer"
  shows "\<exists>err s' cs k. sendCecMessage env src dest len pBuffer r s = Some (err, s') \<and> cec_log s' = cec_log s @ cs
    \<and> transmits cs = replicate k (cec_frame env src dest len (take len pBuffer)) \<and> k \<le> max_attempts s src dest r \<and> (k > 0 \<longleftrightarrow> accepts env s src dest)
    \<and> (if err = NO_ERROR then k > 0 \<and> acked_by env (cec_log s') else k > 0 \<longrightarrow> k = max_attempts s src dest r)"
  using send_calls [OF assms, of src dest r] unfolding cec_grows_def by blast

text \<open>
  The comment in the retry loop asks for a pause of at least 60 ms between two transmissions, but every pause
  before an attempt is 0: the computed delay is lost with the variable of the loop body.
\<close>

theorem cec_retries_without_pause:
  assumes "sane_env env" "cecHandle s \<noteq> 0" "0 < len" "len \<le> 16" "len \<le> length pBuffer"
  shows "\<exists>err s' cs k. sendCecMessage env src dest len pBuffer r s = Some (err, s') \<and> cec_log s' = cec_log s @ cs
    \<and> length (transmits cs) = k \<and> sleeps cs = replicate k 0"
  using send_calls [OF assms, of src dest r] unfolding cec_grows_def by force

text \<open>
  A length above 16, which the IPC interface passes on unchecked, makes the service write
  behind the message buffer or read behind the caller's.
\<close>

theorem cec_send_overrun:
  assumes "sane_env env" "cecHandle s \<noteq> 0" "len > 16" "pBuffer \<noteq> []" "src \<noteq> dest"
    "Cec_GetStatus env (cec_log s) = Some st" "n_logicalAddress st \<noteq> 0xFF" "post_and_await env (cec_log s @ [GetStatus]) = NO_ERROR"
  shows "sendCecMessage env src dest len pBuffer r s = None"
proof (cases rule: getCecStatus_cases [of env s])
  case (2 st' s1)
  have "fill_message buf ps len = None" if "length buf = 16" for buf ps
    using assms(3) that by (auto simp: fill_message_def min_def Let_def)
  moreover have "length (msg_buffer (default_message env)) = 16" using assms(1) by (simp add: sane_env_def NEXUS_CEC_MESSAGE_DATA_SIZE_def)
  moreover have "cec_log s1 = cec_log s @ [GetStatus]" "cecHandle (cec_emit PostTx s1) \<noteq> 0"
    using 2(2) assms(2) by (simp_all add: cec_grows_def cec_emit_def)
  ultimately show ?thesis using 2 assms by (simp add: sendCecMessage_def outputCecMessage_def Let_def)
qed (use assms in simp)

section \<open>Receiving\<close>

text \<open>A received message as the listener posts it.\<close>

definition rx_wf :: "rx_message \<Rightarrow> bool" where
  "rx_wf m = (rx_length m \<le> 16 \<and> (rx_length m > 1 \<longrightarrow> (\<exists>ps. rx_params m = Some ps \<and> length ps = rx_length m - 1)))"

definition locals_wf :: "rx_locals \<Rightarrow> bool" where
  "locals_wf v = (length (tmp v) = 16 \<and> length (responseBuffer v) = 16 \<and> outLength v \<le> 16
     \<and> rindex v + 1 = responseLength v \<and> responseLength v \<le> 16)"

lemma length_put_front [simp]: "length bs \<le> length c \<Longrightarrow> length (put_front bs c) = length c"
  by (simp add: put_front_def)

lemmas param_defs = getPhysicalAddress_def getDeviceType_def getCecVersion_def getOsdName_def getDeviceVendorID_def
  enterStandby_def reportPowerStatus_def

lemma run_param_lengths:
  assumes "run_param env f inLength content out s = (content', out', s')" "length content = 16" "out \<le> 16"
  shows "length content' = 16 \<and> out' \<le> 16"
  using assms by (cases f) (auto simp: param_defs Let_def split: prod.splits option.splits b_cecDeviceType.splits)

text \<open>What a parameter function may change: it keeps the handle and only adds calls that do not transmit.\<close>

lemma run_param_log:
  assumes "run_param env f inLength content out s = (content', out', s')"
  shows "\<exists>cs. cec_log s' = cec_log s @ cs \<and> transmits cs = [] \<and> cecHandle s' = cecHandle s \<and> mCecDeviceType s' = mCecDeviceType s
    \<and> rx_queue s' = rx_queue s"
  using assms by (cases f) (auto simp: param_defs Let_def cec_emit_def getCecStatus_def split: prod.splits option.splits b_cecDeviceType.splits)

definition params_ok :: "nat \<Rightarrow> u8 list option \<Rightarrow> bool" where
  "params_ok inLength pBuffer = (inLength \<le> 16 \<and> (inLength > 1 \<longrightarrow> (\<exists>ps. pBuffer = Some ps \<and> length ps = inLength - 1)))"

lemma load_params_ok:
  assumes "params_ok inLength pBuffer" "locals_wf v"
  shows "\<exists>t. load_params inLength pBuffer v = Some (v\<lparr>tmp := t\<rparr>) \<and> length t = 16"
proof (cases "inLength > 1")
  case True
  with assms obtain ps where "pBuffer = Some ps" "length ps = inLength - 1" "inLength \<le> 16" by (auto simp: params_ok_def)
  with True assms show ?thesis
    by (intro exI [of _ "put_front (take (inLength - 1) ps) (tmp v)"]) (simp add: load_params_def locals_wf_def)
next
  case False
  with assms show ?thesis by (intro exI [of _ "tmp v"]) (simp add: load_params_def locals_wf_def)
qed

lemma add_param_ok:
  assumes "locals_wf v" "responseLength v + outLength v \<le> 16"
  obtains v' where "add_param v = Some v'" "locals_wf v'" "responseBuffer v' ! 0 = responseBuffer v ! 0"
    "take (responseLength v') (responseBuffer v') = take (responseLength v) (responseBuffer v) @ take (outLength v) (tmp v)"
    "responseLength v' = responseLength v + outLength v" "tmp v' = tmp v" "outLength v' = outLength v"
proof (rule that)
  let ?v = "v\<lparr>responseLength := responseLength v + outLength v,
    responseBuffer := take (rindex v + 1) (responseBuffer v) @ take (outLength v) (tmp v) @ drop (rindex v + 1 + outLength v) (responseBuffer v),
    rindex := rindex v + outLength v, param_index := param_index v + 1\<rparr>"
  show "add_param v = Some ?v" using assms by (auto simp: add_param_def locals_wf_def Let_def)
  show "locals_wf ?v" using assms by (auto simp: locals_wf_def)
  have r: "rindex v + 1 = responseLength v" "length (responseBuffer v) = 16" "length (tmp v) = 16" "outLength v \<le> 16"
    using assms by (auto simp: locals_wf_def)
  show "responseBuffer ?v ! 0 = responseBuffer v ! 0" using r by (auto simp: nth_append)
  show "take (responseLength ?v) (responseBuffer ?v) = take (responseLength v) (responseBuffer v) @ take (outLength v) (tmp v)"
    using assms(2) r by (simp add: min_def)
qed simp_all

lemma param_loop_safe:
  assumes "params_ok inLength pBuffer" "locals_wf v"
  shows "\<exists>go v' s' cs. param_loop env inLength pBuffer fs v s = Some (go, v', s') \<and> locals_wf v'
    \<and> cec_log s' = cec_log s @ cs \<and> transmits cs = [] \<and> cecHandle s' = cecHandle s \<and> mCecDeviceType s' = mCecDeviceType s
    \<and> rx_queue s' = rx_queue s \<and> responseBuffer v' ! 0 = responseBuffer v ! 0"
  using assms(2)
proof (induction fs arbitrary: v s)
  case (Cons g fs)
  show ?case
  proof (cases g)
    case None
    with Cons.prems show ?thesis by (intro exI [of _ True] exI [of _ v] exI [of _ s] exI [of _ "[]"]) simp
  next
    case (Some f)
    obtain tm where v1: "load_params inLength pBuffer v = Some (v\<lparr>tmp := tm\<rparr>)" "length tm = 16"
      using load_params_ok [OF assms(1) Cons.prems] by blast
    obtain content out s1 where r: "run_param env f inLength tm (outLength v) s = (content, out, s1)" by (metis prod_cases3)
    let ?v2 = "v\<lparr>tmp := content, outLength := out\<rparr>"
    have wf2: "locals_wf ?v2" using run_param_lengths [OF r] v1(2) Cons.prems by (simp add: locals_wf_def)
    obtain cs where s1: "cec_log s1 = cec_log s @ cs" "transmits cs = []" "cecHandle s1 = cecHandle s" "mCecDeviceType s1 = mCecDeviceType s"
      "rx_queue s1 = rx_queue s" using run_param_log [OF r] by blast
    show ?thesis
    proof (cases "responseLength ?v2 + outLength ?v2 > 16")
      case True
      with v1 r Some have "param_loop env inLength pBuffer (g # fs) v s = Some (False, ?v2, s1)"
        by (simp add: NEXUS_CEC_MESSAGE_DATA_SIZE_def)
      with wf2 s1 show ?thesis by (intro exI [of _ False] exI [of _ ?v2] exI [of _ s1] exI [of _ cs]) simp
    next
      case False
      then obtain v3 where v3: "add_param ?v2 = Some v3" "locals_wf v3" "responseBuffer v3 ! 0 = responseBuffer v ! 0"
        using add_param_ok [OF wf2] by auto
      with v1 r Some False have go: "param_loop env inLength pBuffer (g # fs) v s = param_loop env inLength pBuffer fs v3 s1"
        by (simp add: NEXUS_CEC_MESSAGE_DATA_SIZE_def)
      from Cons.IH [OF v3(2), of s1] obtain b v' s' ds where "param_loop env inLength pBuffer fs v3 s1 = Some (b, v', s')" "locals_wf v'"
        "cec_log s' = cec_log s1 @ ds" "transmits ds = []" "cecHandle s' = cecHandle s1" "mCecDeviceType s' = mCecDeviceType s1"
        "rx_queue s' = rx_queue s1" "responseBuffer v' ! 0 = responseBuffer v3 ! 0" by blast
      with go s1 v3 show ?thesis by (intro exI [of _ b] exI [of _ v'] exI [of _ s'] exI [of _ "cs @ ds"]) simp
    qed
  qed
qed auto

lemma send_returns:
  assumes env: "sane_env env" and len: "0 < len" "len \<le> 16" "len \<le> length pBuffer"
  shows "\<exists>err s'. sendCecMessage env src dest len pBuffer r s = Some (err, s') \<and> rx_queue s' = rx_queue s"
proof (cases "cecHandle s = 0")
  case True
  show ?thesis
  proof (cases rule: getCecStatus_cases [of env s])
    case (2 st s1)
    then have "cecHandle (cec_emit PostTx s1) = 0" "rx_queue (cec_emit PostTx s1) = rx_queue s" "rx_queue s1 = rx_queue s"
      using True by (simp_all add: cec_grows_def cec_emit_def)
    with 2 len show ?thesis by (auto simp: sendCecMessage_def outputCecMessage_def Let_def)
  qed (auto simp: sendCecMessage_def cec_grows_def)
next
  case False
  from send_calls [OF env this len, of src dest r] show ?thesis by (auto simp: cec_grows_def)
qed

lemma response_scan_other: "opCode \<notin> fst ` set es \<Longrightarrow> response_scan env opCode inLength pBuffer es v s = Some s"
  by (induction es) auto

lemma response_scan_safe:
  assumes env: "sane_env env" and p: "params_ok inLength pBuffer"
    and v: "length (tmp v) = 16" "length (responseBuffer v) = 16" "outLength v = 0" "rindex v = 0"
  shows "distinct (map fst es) \<Longrightarrow> \<exists>s'. response_scan env opCode inLength pBuffer es v s = Some s' \<and> rx_queue s' = rx_queue s"
proof (induction es)
  case (Cons e es)
  obtain cmd resp fs where e: "e = (cmd, resp, fs)" by (metis prod_cases3)
  show ?case
  proof (cases "opCode = cmd")
    case True
    let ?v = "v\<lparr>responseBuffer := (responseBuffer v)[0 := resp], responseLength := 1\<rparr>"
    have "locals_wf ?v" using v by (simp add: locals_wf_def)
    from param_loop_safe [OF p this, of env "drop (param_index v) fs" s] obtain go v' s1
      where l: "param_loop env inLength pBuffer (drop (param_index v) fs) ?v s = Some (go, v', s1)" "locals_wf v'" "rx_queue s1 = rx_queue s"
      by blast
    from l(2) have "0 < responseLength v'" "responseLength v' \<le> 16" "responseLength v' \<le> length (responseBuffer v')"
      by (auto simp: locals_wf_def)
    from send_returns [OF env this, of "mLogicalAddress s1" 0 DEFAULT_MAX_CEC_RETRIES s1] obtain err s2
      where "sendCecMessage env (mLogicalAddress s1) 0 (responseLength v') (responseBuffer v') DEFAULT_MAX_CEC_RETRIES s1 = Some (err, s2)"
        "rx_queue s2 = rx_queue s1" by blast
    moreover have "opCode \<notin> fst ` set es" using Cons.prems True e by simp
    ultimately show ?thesis using True l e by (cases go) (auto simp: response_scan_other)
  qed (use Cons e in auto)
qed simp

lemma opCodeList_distinct: "distinct (map fst opCodeList)"
  by (simp add: opCodeList_def cec_ops)

lemma parse_safe:
  assumes "sane_env env" "length rbuf = 16" "length tbuf = 16" "rx_wf m"
  shows "\<exists>s'. parseCecMessage env rbuf tbuf m s = Some s' \<and> rx_queue s' = rx_queue s"
  unfolding parseCecMessage_def responseLookUp_def
  by (rule response_scan_safe [OF assms(1)]) (use assms in \<open>auto simp: params_ok_def rx_wf_def opCodeList_distinct\<close>)

text \<open>The events of the service: the three driver callbacks and the receiving looper's turn.\<close>

datatype cec_event = EvDeviceReady | EvMessageReceived | EvMessageTransmitted | EvHandleMessage

fun cec_step :: "cec_env \<Rightarrow> u8 list \<Rightarrow> u8 list \<Rightarrow> cec_event \<Rightarrow> CecServiceManager \<Rightarrow> CecServiceManager option" where
  "cec_step env rbuf tbuf EvDeviceReady s = Some (deviceReady_callback env s)"
| "cec_step env rbuf tbuf EvMessageReceived s = Some (msgReceived_callback env s)"
| "cec_step env rbuf tbuf EvMessageTransmitted s = Some (msgTransmitted_callback env s)"
| "cec_step env rbuf tbuf EvHandleMessage s = rx_onMessageReceived env rbuf tbuf s"

fun cec_run :: "cec_env \<Rightarrow> u8 list \<Rightarrow> u8 list \<Rightarrow> cec_event list \<Rightarrow> CecServiceManager \<Rightarrow> CecServiceManager option" where
  "cec_run env rbuf tbuf [] s = Some s"
| "cec_run env rbuf tbuf (e # es) s = Option.bind (cec_step env rbuf tbuf e s) (cec_run env rbuf tbuf es)"

definition queue_wf :: "CecServiceManager \<Rightarrow> bool" where
  "queue_wf s = list_all rx_wf (rx_queue s)"

lemma listener_wf:
  "queue_wf s \<Longrightarrow> 0 < body_length m \<Longrightarrow> body_length m \<le> 16 \<Longrightarrow> length (body m) = 16 \<Longrightarrow> queue_wf (onHdmiCecMessageReceived m s)"
  by (auto simp: queue_wf_def onHdmiCecMessageReceived_def rx_wf_def)

lemma received_wf:
  assumes "queue_wf s" and "\<And>cs r. Cec_ReceiveMessage env cs = Some r \<Longrightarrow> length (msg_buffer r) = 16"
  shows "queue_wf (msgReceived_callback env s)"
proof -
  have q: "queue_wf (cec_emit c t) = queue_wf t" "queue_wf (t\<lparr>mLogicalAddress := a\<rparr>) = queue_wf t" for c t a
    by (simp_all add: queue_wf_def cec_emit_def)
  have l: "queue_wf (onHdmiCecMessageReceived \<lparr>initiator = i, destination = d, body_length = len,
      body = take len (msg_buffer r) @ replicate (16 - len) 0\<rparr> t)"
    if "queue_wf t" "Cec_ReceiveMessage env cs = Some r" "0 < len" "len \<le> 16" for i d len r t cs
    using that assms(2) [OF that(2)] by (intro listener_wf) simp_all
  have l16: "queue_wf (onHdmiCecMessageReceived \<lparr>initiator = i, destination = d, body_length = 16, body = take 16 (msg_buffer r)\<rparr> t)"
    if "queue_wf t" "Cec_ReceiveMessage env cs = Some r" for i d r t cs using l [OF that, of 16] by simp
  show ?thesis
    using assms(1) unfolding msgReceived_callback_def HDMI_CEC_MESSAGE_BODY_MAX_LENGTH_def
    by (auto simp: q Let_def split: option.splits listener.splits intro!: l l16)
qed

text \<open>
  C14: Whatever messages arrive, of whatever length, and whatever the driver, the looper and the TV answer
  (failing status reads included), no sequence of callbacks and message handling accesses memory
  outside the message buffers: parameters are copied, replies built and sent within their 16
  bytes.
\<close>

theorem cec_receive_safe:
  assumes "sane_env env" "\<And>cs r. Cec_ReceiveMessage env cs = Some r \<Longrightarrow> length (msg_buffer r) = 16"
    and "length rbuf = 16" "length tbuf = 16" "rx_queue s = []"
  shows "\<exists>s'. cec_run env rbuf tbuf es s = Some s'"
proof -
  have "\<exists>s'. cec_step env rbuf tbuf e s = Some s' \<and> queue_wf s'" if "queue_wf s" for e s
  proof (cases e)
    case EvHandleMessage
    show ?thesis
    proof (cases "rx_queue s")
      case (Cons m ms)
      with that have "rx_wf m" "list_all rx_wf ms" by (simp_all add: queue_wf_def)
      with parse_safe [OF assms(1,3,4), of m "s\<lparr>rx_queue := ms\<rparr>"] show ?thesis
        by (auto simp: EvHandleMessage rx_onMessageReceived_def Cons queue_wf_def)
    qed (use that in \<open>simp add: EvHandleMessage rx_onMessageReceived_def\<close>)
  next
    case EvMessageReceived
    then show ?thesis using received_wf [OF that assms(2)] by simp
  qed (use that in \<open>auto simp: deviceReady_callback_def msgTransmitted_callback_def queue_wf_def cec_emit_def Let_def split: option.splits\<close>)
  note step = this
  have "\<exists>s'. cec_run env rbuf tbuf es s = Some s'" if "queue_wf s" for s
    using that
  proof (induction es arbitrary: s)
    case (Cons e es)
    from step [OF Cons.prems, of e] obtain s1 where "cec_step env rbuf tbuf e s = Some s1" "queue_wf s1" by blast
    with Cons.IH show ?case by simp
  qed simp
  with assms(5) show ?thesis by (simp add: queue_wf_def)
qed

section \<open>The replies\<close>

text \<open>What the CEC specification asks the device to answer, from a status and the vendor number.\<close>

fun device_code :: "NEXUS_CecDeviceType \<Rightarrow> u8" where
  "device_code NEXUS_CecDeviceType_eTv = 0"
| "device_code NEXUS_CecDeviceType_eRecordingDevice = 1"
| "device_code NEXUS_CecDeviceType_eReserved = 2"
| "device_code NEXUS_CecDeviceType_eTuner = 3"
| "device_code NEXUS_CecDeviceType_ePlaybackDevice = 4"
| "device_code NEXUS_CecDeviceType_eAudioSystem = 5"
| "device_code NEXUS_CecDeviceType_ePureCecSwitch = 6"
| "device_code NEXUS_CecDeviceType_eVideoProcessor = 7"

definition cec_reply :: "NEXUS_CecStatus \<Rightarrow> u32 \<Rightarrow> u8 \<Rightarrow> u8 list option" where
  "cec_reply st vendor op =
     (let pa = [fst (n_physicalAddress st), snd (n_physicalAddress st)] in
      if op = 0x83 then Some (0x84 # pa @ [device_code (n_deviceType st)])
      else if op = 0x46 then Some (0x47 # map of_char ''BRCMSTB'')
      else if op = 0x8C then Some [0x87, ucast (drop_bit 16 vendor), ucast (drop_bit 8 vendor), ucast vendor]
      else if op = 0x85 \<or> op = 0x86 then Some (0x82 # pa)
      else if op = 0x9F then Some [0x9E, ucast (n_cecVersion st)]
      else None)"

lemma getCecStatus_Some:
  "Cec_GetStatus env (cec_log s) = Some st \<Longrightarrow> getCecStatus env s =
     (Some \<lparr>ready = n_ready st, messageRx = n_messageReceived st, messageTxPending = n_messageTransmitPending st,
        txMessageAck = n_transmitMessageAcknowledged st, physicalAddress = n_physicalAddress st,
        logicalAddress = n_logicalAddress st, deviceType = fromNexusCecDeviceType (n_deviceType st), cecVersion = n_cecVersion st\<rparr>,
      (cec_emit GetStatus s)\<lparr>mLogicalAddress := n_logicalAddress st\<rparr>)"
  by (simp add: getCecStatus_def)

text \<open>The parameters that one entry of the table produces when the status can be read.\<close>

definition fn_bytes :: "NEXUS_CecStatus \<Rightarrow> u32 \<Rightarrow> param_fn \<Rightarrow> u8 list" where
  "fn_bytes st vendor f =
     (case f of
        Fn_getPhysicalAddress \<Rightarrow> [fst (n_physicalAddress st), snd (n_physicalAddress st)]
      | Fn_getDeviceType \<Rightarrow> [device_code (n_deviceType st)]
      | Fn_getOsdName \<Rightarrow> map of_char ''BRCMSTB''
      | Fn_getDeviceVendorID \<Rightarrow> [ucast (drop_bit 16 vendor), ucast (drop_bit 8 vendor), ucast vendor]
      | Fn_getCecVersion \<Rightarrow> [ucast (n_cecVersion st)]
      | _ \<Rightarrow> [])"

lemma upt3: "[0..<3] = [0, Suc 0, 2]"
  by (simp add: upt_rec numeral_2_eq_2 numeral_3_eq_3)

lemma byte_mask: "ucast (w AND 0xFF :: u32) = (ucast w :: u8)"
proof -
  have m: "(0xFF :: u32) = mask 8" by (simp add: mask_eq_exp_minus_1)
  show ?thesis unfolding m by (rule bit_word_eqI) (auto simp: bit_simps)
qed

lemma run_param_bytes:
  assumes "\<And>cs. Cec_GetStatus env cs = Some st" "\<And>cs. vendor_property env cs = vendor" "length content = 16"
    "f \<notin> {Fn_enterStandby, Fn_reportPowerStatus}" "run_param env f n content out s = (content', out', s')"
  shows "out' = length (fn_bytes st vendor f) \<and> take out' content' = fn_bytes st vendor f"
proof (cases f)
  case Fn_getDeviceType
  with assms show ?thesis
    by (cases "n_deviceType st") (auto simp: getDeviceType_def getCecStatus_Some fn_bytes_def put_front_def)
qed (use assms in \<open>auto simp: param_defs getCecStatus_Some fn_bytes_def put_front_def upt3 byte_mask Let_def\<close>)

definition silent :: "param_fn \<Rightarrow> bool" where
  "silent f = (f \<notin> {Fn_enterStandby, Fn_reportPowerStatus})"

lemma param_loop_bytes:
  assumes const: "\<And>cs. Cec_GetStatus env cs = Some st" "\<And>cs. vendor_property env cs = vendor" and p: "params_ok inLength pBuffer"
  shows "locals_wf v \<Longrightarrow> list_all silent fs \<Longrightarrow> responseLength v + length (concat (map (fn_bytes st vendor) fs)) \<le> 16 \<Longrightarrow>
    param_loop env inLength pBuffer (map Some fs @ None # rest) v s = Some (go, v', s') \<Longrightarrow>
    go \<and> locals_wf v' \<and> take (responseLength v') (responseBuffer v') =
      take (responseLength v) (responseBuffer v) @ concat (map (fn_bytes st vendor) fs)"
proof (induction fs arbitrary: v s)
  case (Cons f fs)
  obtain tm where v1: "load_params inLength pBuffer v = Some (v\<lparr>tmp := tm\<rparr>)" "length tm = 16"
    using load_params_ok [OF p Cons.prems(1)] by blast
  obtain content out s1 where r: "run_param env f inLength tm (outLength v) s = (content, out, s1)" by (metis prod_cases3)
  have f: "f \<notin> {Fn_enterStandby, Fn_reportPowerStatus}" using Cons.prems(2) by (simp add: silent_def)
  note b = run_param_bytes [OF const v1(2) f r]
  let ?v2 = "v\<lparr>tmp := content, outLength := out\<rparr>"
  have wf2: "locals_wf ?v2" using run_param_lengths [OF r] v1(2) Cons.prems(1) by (simp add: locals_wf_def)
  have le: "responseLength ?v2 + outLength ?v2 \<le> 16" using Cons.prems(3) b by simp
  then obtain v3 where v3: "add_param ?v2 = Some v3" "locals_wf v3" "responseLength v3 = responseLength v + out"
    "take (responseLength v3) (responseBuffer v3) = take (responseLength v) (responseBuffer v) @ take out content"
    using add_param_ok [OF wf2] by auto
  have rest_run: "param_loop env inLength pBuffer (map Some fs @ None # rest) v3 s1 = Some (go, v', s')"
    using Cons.prems(4) v1 r v3(1) le by (simp add: NEXUS_CEC_MESSAGE_DATA_SIZE_def)
  have "take (length (fn_bytes st vendor f)) content = fn_bytes st vendor f" using b by auto
  with Cons.IH [OF v3(2) _ _ rest_run] Cons.prems(2,3) v3 b show ?case by simp
qed simp

definition rx_message_of :: "u8 \<Rightarrow> u8 list \<Rightarrow> rx_message" where
  "rx_message_of op ps = \<lparr>rx_opcode = op, rx_length = length ps + 1, rx_params = (if ps = [] then None else Some ps)\<rparr>"

lemma scan_split:
  assumes "(op, resp, fs) \<in> set opCodeList"
  obtains es where "response_scan env op n p opCodeList v s = response_scan env op n p ((op, resp, fs) # es) v s" "op \<notin> fst ` set es"
proof -
  from split_list [OF assms] obtain es1 es2 where l: "opCodeList = es1 @ (op, resp, fs) # es2" by blast
  from opCodeList_distinct [unfolded l] have d: "op \<notin> fst ` set es1" "op \<notin> fst ` set es2" by auto
  from d(1) have "response_scan env op n p (es1 @ es) v s = response_scan env op n p es v s" for es
    by (induction es1) auto
  with l d(2) that show thesis by metis
qed

lemma param_loop_address:
  assumes "\<And>cs. Cec_GetStatus env cs = Some st" "mLogicalAddress s = n_logicalAddress st"
    "param_loop env n p fs v s = Some (go, v', s')"
  shows "mLogicalAddress s' = n_logicalAddress st"
proof -
  have "mLogicalAddress s' = n_logicalAddress st"
    if "mLogicalAddress s = n_logicalAddress st" "run_param env f m c out s = (c', out', s')" for f m c out s c' out' s'
    using that assms(1) by (cases f) (auto simp: param_defs getCecStatus_Some cec_emit_def Let_def split: b_cecDeviceType.splits)
  with assms(2,3) show ?thesis
    by (induction env n p fs v s rule: param_loop.induct) (auto simp: Let_def split: option.splits prod.splits if_splits)
qed

lemma lookup_reply:
  assumes env: "sane_env env" "cecHandle s \<noteq> 0" "length rbuf = 16" "length tbuf = 16" and p: "params_ok n p"
    and const: "\<And>cs. Cec_GetStatus env cs = Some st" "\<And>cs. vendor_property env cs = vendor"
    and la: "n_logicalAddress st \<noteq> 0" "mLogicalAddress s = n_logicalAddress st"
    and e: "(op, resp, map Some fs @ None # rest) \<in> set opCodeList" "list_all silent fs" "resp \<noteq> 0"
    and bytes: "bytes = resp # concat (map (fn_bytes st vendor) fs)" "length bytes \<le> 16"
  shows "\<exists>s' cs k. responseLookUp env rbuf tbuf op n p s = Some s' \<and> cec_log s' = cec_log s @ cs \<and> k \<le> 6
    \<and> (n_logicalAddress st \<noteq> 0xFF \<and> (\<forall>cs. post_and_await env cs = NO_ERROR) \<longrightarrow> k > 0)
    \<and> transmits cs = replicate k (cec_frame env (n_logicalAddress st) 0 (length bytes) bytes)"
proof -
  let ?init = "\<lparr>rindex = 0, outLength = 0, param_index = 0, responseLength = 0, responseBuffer = rbuf, tmp = tbuf\<rparr>"
  let ?v = "?init\<lparr>responseBuffer := rbuf[0 := resp], responseLength := 1\<rparr>"
  obtain es where look: "responseLookUp env rbuf tbuf op n p s = response_scan env op n p ((op, resp, map Some fs @ None # rest) # es) ?init s"
    "op \<notin> fst ` set es" unfolding responseLookUp_def by (rule scan_split [OF e(1)])
  have wf: "locals_wf ?v" using env by (simp add: locals_wf_def)
  from param_loop_safe [OF p wf, of env "map Some fs @ None # rest" s] obtain go v' s1 cs1
    where l: "param_loop env n p (map Some fs @ None # rest) ?v s = Some (go, v', s1)" "cec_log s1 = cec_log s @ cs1" "transmits cs1 = []"
      "cecHandle s1 = cecHandle s" by blast
  have "responseLength ?v + length (concat (map (fn_bytes st vendor) fs)) \<le> 16" using bytes by simp
  from param_loop_bytes [OF const p wf e(2) this l(1)] have b: "go" "locals_wf v'"
    "take (responseLength v') (responseBuffer v') = bytes" using env(3) bytes(1) by (cases rbuf; simp)+
  have len: "responseLength v' = length bytes" "length (responseBuffer v') = 16" using b(2,3) by (auto simp: locals_wf_def)
  have addr: "mLogicalAddress s1 = n_logicalAddress st" by (rule param_loop_address [OF const(1) la(2) l(1)])
  have "max_attempts s1 (n_logicalAddress st) 0 DEFAULT_MAX_CEC_RETRIES = 6" using la(1) by (simp add: max_attempts_def DEFAULT_MAX_CEC_RETRIES_def)
  with send_calls [OF env(1), of s1 "length bytes" "responseBuffer v'" "n_logicalAddress st" 0 DEFAULT_MAX_CEC_RETRIES] l(4) env(2) bytes len b(3)
  obtain err s2 cs k where s2: "sendCecMessage env (n_logicalAddress st) 0 (length bytes) (responseBuffer v') DEFAULT_MAX_CEC_RETRIES s1 = Some (err, s2)"
    "cec_grows s1 cs s2" "transmits cs = replicate k (cec_frame env (n_logicalAddress st) 0 (length bytes) bytes)" "k \<le> 6"
    "k > 0 \<longleftrightarrow> accepts env s1 (n_logicalAddress st) 0" by auto
  have kpos: "k > 0" if "n_logicalAddress st \<noteq> 0xFF" "\<forall>cs. post_and_await env cs = NO_ERROR"
    using s2(5) that const(1) by (simp add: accepts_def)
  have "responseLookUp env rbuf tbuf op n p s = Some s2"
    using look l(1) b(1) addr s2(1) e(3) len by (simp add: response_scan_other)
  moreover have "cec_log s2 = cec_log s @ cs1 @ cs" using s2(2) l(2) by (simp add: cec_grows_def)
  ultimately show ?thesis using s2(3,4) l(3) kpos by (intro exI [of _ s2] exI [of _ "cs1 @ cs"] exI [of _ k]) simp
qed

lemma lookup_silent:
  assumes "(op, 0, fs) \<in> set opCodeList" and env: "length rbuf = 16" "length tbuf = 16" and p: "params_ok n p"
  shows "\<exists>s' cs. responseLookUp env rbuf tbuf op n p s = Some s' \<and> cec_log s' = cec_log s @ cs \<and> transmits cs = []"
proof -
  let ?init = "\<lparr>rindex = 0, outLength = 0, param_index = 0, responseLength = 0, responseBuffer = rbuf, tmp = tbuf\<rparr>"
  let ?v = "?init\<lparr>responseBuffer := rbuf[0 := 0], responseLength := 1\<rparr>"
  obtain es where look: "responseLookUp env rbuf tbuf op n p s = response_scan env op n p ((op, 0, fs) # es) ?init s" "op \<notin> fst ` set es"
    unfolding responseLookUp_def by (rule scan_split [OF assms(1)])
  have wf: "locals_wf ?v" using env by (simp add: locals_wf_def)
  from param_loop_safe [OF p wf, of env fs s] obtain go v' s1 cs1
    where l: "param_loop env n p fs ?v s = Some (go, v', s1)" "cec_log s1 = cec_log s @ cs1" "transmits cs1 = []" by blast
  with look show ?thesis by (cases go) (auto simp: response_scan_other)
qed

lemmas reply_simps = opCodeList_def cec_ops silent_def fn_bytes_def cec_reply_def

text \<open>Every opcode with a reply is an entry of the table, whose functions supply the bytes of the reply.\<close>

lemma cec_reply_entry:
  assumes "cec_reply st vendor op = Some bytes"
  obtains resp fs rest where "(op, resp, map Some fs @ None # rest) \<in> set opCodeList" "list_all silent fs" "resp \<noteq> 0"
    "bytes = resp # concat (map (fn_bytes st vendor) fs)" "length bytes \<le> 16"
proof -
  from assms consider "op = 0x83" | "op = 0x46" | "op = 0x8C" | "op = 0x85 \<or> op = 0x86" | "op = 0x9F"
    by (auto simp: cec_reply_def Let_def split: if_splits)
  then show thesis
  proof cases
    case 1 with assms show thesis
      by (intro that [of "0x84" "[Fn_getPhysicalAddress, Fn_getDeviceType]" "[]"]) (auto simp: reply_simps)
  next
    case 2 with assms show thesis by (intro that [of "0x47" "[Fn_getOsdName]" "[None]"]) (auto simp: reply_simps)
  next
    case 3 with assms show thesis by (intro that [of "0x87" "[Fn_getDeviceVendorID]" "[None]"]) (auto simp: reply_simps)
  next
    case 4 with assms show thesis by (intro that [of "0x82" "[Fn_getPhysicalAddress]" "[None]"]) (auto simp: reply_simps)
  next
    case 5 with assms show thesis by (intro that [of "0x9E" "[Fn_getCecVersion]" "[None]"]) (auto simp: reply_simps)
  qed
qed

lemma cec_reply_none:
  assumes "cec_reply st vendor op = None"
  shows "op \<notin> fst ` set opCodeList \<or> (\<exists>fs. (op, 0, fs) \<in> set opCodeList)"
  using assms by (auto simp: opCodeList_def cec_ops cec_reply_def)


section \<open>Powering the TV\<close>

text \<open>The three messages that \<open>setPowerState\<close> sends, of \<open>length bytes\<close> bytes at the front of its buffer.\<close>

lemma send_bytes:
  assumes "sane_env env" "cecHandle s \<noteq> 0" "length buf = 16" "take len buf = bytes" "0 < len" "len \<le> 16"
  shows "\<exists>err s' cs k. sendCecMessage env src dest len buf DEFAULT_MAX_CEC_RETRIES s = Some (err, s')
    \<and> cec_log s' = cec_log s @ cs \<and> cecHandle s' \<noteq> 0 \<and> transmits cs = replicate k (cec_frame env src dest len bytes)
    \<and> (err = NO_ERROR \<longrightarrow> k > 0 \<and> acked_by env (cec_log s'))"
  using send_calls [OF assms(1,2,5,6), of buf src dest DEFAULT_MAX_CEC_RETRIES] assms unfolding cec_grows_def
  by (metis (no_types, lifting))

lemma power_down:
  assumes env: "sane_env env" "cecHandle s \<noteq> 0" "length buf = 16"
    and st: "Cec_GetStatus env (cec_log s) = Some st" and la: "n_logicalAddress st \<noteq> 0xFF" and state: "state \<noteq> ePowerState_S0"
  shows "\<exists>ok s' cs k. cec_setPowerState env buf state s = Some (ok, s') \<and> cec_log s' = cec_log s @ cs
    \<and> transmits cs = replicate k (cec_frame env (n_logicalAddress st) 0 1 [0x36]) \<and> (ok \<longrightarrow> k > 0 \<and> acked_by env (cec_log s'))"
proof -
  let ?s1 = "(cec_emit GetStatus s)\<lparr>mLogicalAddress := n_logicalAddress st\<rparr>"
  have s1: "cecHandle ?s1 \<noteq> 0" "cec_log ?s1 = cec_log s @ [GetStatus]" using env(2) by (simp_all add: cec_emit_def)
  have t: "take 1 (buf[0 := 0x36]) = [0x36]" using env(3) by (cases buf) auto
  from send_bytes [OF env(1) s1(1) _ t, of "n_logicalAddress st" 0] env(3)
  obtain err s2 cs k where s2: "sendCecMessage env (n_logicalAddress st) 0 1 (buf[0 := 0x36]) DEFAULT_MAX_CEC_RETRIES ?s1 = Some (err, s2)"
    "cec_log s2 = cec_log ?s1 @ cs" "transmits cs = replicate k (cec_frame env (n_logicalAddress st) 0 1 [0x36])"
    "err = NO_ERROR \<longrightarrow> k > 0 \<and> acked_by env (cec_log s2)" by fastforce
  have "cec_setPowerState env buf state s = Some (err = NO_ERROR, s2)"
    using s2(1) la state by (simp add: cec_setPowerState_def getCecStatus_Some [OF st] cec_ops)
  with s2 s1(2) show ?thesis by (intro exI [of _ "[GetStatus] @ cs"] exI) auto
qed

lemma power_up:
  assumes env: "sane_env env" "cecHandle s \<noteq> 0" "length buf = 16"
    and st: "Cec_GetStatus env (cec_log s) = Some st" and la: "n_logicalAddress st \<noteq> 0xFF"
  defines "active \<equiv> [0x82, fst (n_physicalAddress st), snd (n_physicalAddress st)]"
  shows "\<exists>ok s' cs k l src. cec_setPowerState env buf ePowerState_S0 s = Some (ok, s') \<and> cec_log s' = cec_log s @ cs
    \<and> transmits cs = replicate k (cec_frame env (n_logicalAddress st) 0 1 [0x04]) @ replicate l (cec_frame env src 0xF 3 active)
    \<and> (ok \<longrightarrow> k > 0 \<and> l > 0 \<and> acked_by env (cec_log s')) \<and> (l > 0 \<longrightarrow> k > 0)"
proof -
  let ?s1 = "(cec_emit GetStatus s)\<lparr>mLogicalAddress := n_logicalAddress st\<rparr>"
  let ?buf = "buf[0 := 0x04]"
  let ?buf3 = "?buf[0 := 0x82, 1 := fst (n_physicalAddress st), 2 := snd (n_physicalAddress st)]"
  have s1: "cecHandle ?s1 \<noteq> 0" "cec_log ?s1 = cec_log s @ [GetStatus]" using env(2) by (simp_all add: cec_emit_def)
  have t: "take 1 ?buf = [0x04]" using env(3) by (cases buf) auto
  from send_bytes [OF env(1) s1(1) _ t, of "n_logicalAddress st" 0] env(3)
  obtain err s2 cs k where s2: "sendCecMessage env (n_logicalAddress st) 0 1 ?buf DEFAULT_MAX_CEC_RETRIES ?s1 = Some (err, s2)"
    "cec_log s2 = cec_log ?s1 @ cs" "cecHandle s2 \<noteq> 0" "transmits cs = replicate k (cec_frame env (n_logicalAddress st) 0 1 [0x04])"
    "err = NO_ERROR \<longrightarrow> k > 0 \<and> acked_by env (cec_log s2)" by fastforce
  show ?thesis
  proof (cases "err = NO_ERROR")
    case False
    then have "cec_setPowerState env buf ePowerState_S0 s = Some (False, s2)"
      using s2(1) la by (simp add: cec_setPowerState_def getCecStatus_Some [OF st] cec_ops)
    with s2(2,4) s1(2) show ?thesis by (intro exI [of _ "[GetStatus] @ cs"] exI [of _ k] exI [of _ 0] exI) auto
  next
    case True
    obtain b0 b1 b2 bs where "buf = b0 # b1 # b2 # bs" using env(3) by (auto simp: numeral_eq_Suc length_Suc_conv)
    then have t3: "take 3 ?buf3 = active" by (simp add: active_def numeral_2_eq_2 numeral_3_eq_3)
    from send_bytes [OF env(1) s2(3) _ t3, of "mLogicalAddress s2" "0xF"] env(3)
    obtain err3 s3 ds l where s3: "sendCecMessage env (mLogicalAddress s2) 0xF 3 ?buf3 DEFAULT_MAX_CEC_RETRIES s2 = Some (err3, s3)"
      "cec_log s3 = cec_log s2 @ ds" "transmits ds = replicate l (cec_frame env (mLogicalAddress s2) 0xF 3 active)"
      "err3 = NO_ERROR \<longrightarrow> l > 0 \<and> acked_by env (cec_log s3)" by fastforce
    have "cec_setPowerState env buf ePowerState_S0 s = Some (err3 = NO_ERROR, s3)"
      using s2(1) s3(1) la True by (simp add: cec_setPowerState_def getCecStatus_Some [OF st] cec_ops)
    with s2 s3 s1(2) True show ?thesis
      by (intro exI [of _ "err3 = NO_ERROR"] exI [of _ s3] exI [of _ "[GetStatus] @ cs @ ds"] exI [of _ k] exI [of _ l]
          exI [of _ "mLogicalAddress s2"]) simp
  qed
qed

text \<open>
  Powering up sends Image View On to the TV and, only when that was acknowledged, broadcasts
  Active Source with the physical address; any other state sends Standby. Nothing is sent while
  the device has no logical address, and success means the last frame was acknowledged.
\<close>

theorem cec_power_sequence:
  assumes env: "sane_env env" "cecHandle s \<noteq> 0" "length buf = 16" and st: "Cec_GetStatus env (cec_log s) = Some st"
  shows "\<exists>ok s' cs k l src. cec_setPowerState env buf state s = Some (ok, s') \<and> cec_log s' = cec_log s @ cs
    \<and> transmits cs =
        (if n_logicalAddress st = 0xFF then []
         else if state = ePowerState_S0
         then replicate k (cec_frame env (n_logicalAddress st) 0 1 [0x04])
              @ replicate l (cec_frame env src 0xF 3 [0x82, fst (n_physicalAddress st), snd (n_physicalAddress st)])
         else replicate k (cec_frame env (n_logicalAddress st) 0 1 [0x36]))
    \<and> (ok \<longrightarrow> n_logicalAddress st \<noteq> 0xFF \<and> k > 0 \<and> (state = ePowerState_S0 \<longrightarrow> l > 0) \<and> acked_by env (cec_log s'))
    \<and> (state = ePowerState_S0 \<and> l > 0 \<longrightarrow> k > 0)"
proof -
  consider "n_logicalAddress st = 0xFF" | "n_logicalAddress st \<noteq> 0xFF" "state = ePowerState_S0"
    | "n_logicalAddress st \<noteq> 0xFF" "state \<noteq> ePowerState_S0" by blast
  then show ?thesis
  proof cases
    case 1
    then show ?thesis
      by (intro exI [of _ False] exI [of _ "[GetStatus]"] exI [of _ "0 :: nat"] exI)
        (auto simp: cec_setPowerState_def getCecStatus_Some [OF st] cec_emit_def)
  next
    case 2
    with power_up [OF env st 2(1)] show ?thesis by simp
  next
    case 3
    with power_down [OF env st 3] show ?thesis by (simp add: exI [of _ "0 :: nat"])
  qed
qed

section \<open>A parameter that cannot be read\<close>

text \<open>
  When the second status read fails, the reply to Give Physical Address carries the physical address
  twice instead of the device type: the length and the buffer keep what the first parameter
  left in them.
\<close>

theorem cec_stale_parameter:
  assumes "length rbuf = 16" "length tbuf = 16"
    and "Cec_GetStatus env (cec_log s) = Some st" "Cec_GetStatus env (cec_log s @ [GetStatus]) = None"
  shows "\<exists>v s'. param_loop env 1 None [Some Fn_getPhysicalAddress, Some Fn_getDeviceType, None]
      \<lparr>rindex = 0, outLength = 0, param_index = 0, responseLength = 1, responseBuffer = rbuf[0 := NEXUS_CEC_OpReportPhysicalAddress], tmp = tbuf\<rparr> s
      = Some (True, v, s')
    \<and> take (responseLength v) (responseBuffer v) =
        (let (a, b) = n_physicalAddress st in [NEXUS_CEC_OpReportPhysicalAddress, a, b, a, b])"
proof -
  obtain a b where pa: "n_physicalAddress st = (a, b)" by fastforce
  have "getCecStatus env ((cec_emit GetStatus s)\<lparr>mLogicalAddress := x\<rparr>) = (None, cec_emit GetStatus ((cec_emit GetStatus s)\<lparr>mLogicalAddress := x\<rparr>))" for x
    using assms(4) by (simp add: getCecStatus_def cec_emit_def)
  moreover obtain r0 rs where "rbuf = r0 # rs" "length rs = 15" using assms(1) by (cases rbuf) auto
  ultimately show ?thesis using assms pa
    by (simp add: load_params_def add_param_def getPhysicalAddress_def getDeviceType_def getCecStatus_Some put_front_def
        NEXUS_CEC_MESSAGE_DATA_SIZE_def numeral_2_eq_2)
qed

section \<open>Initialisation and shutdown\<close>

lemma wait_loop_keeps:
  "wait_loop env n st s = (st', s') \<Longrightarrow> \<exists>cs. s' = s\<lparr>cec_log := cec_log s @ cs\<rparr>"
proof (induction n arbitrary: st s)
  case (Suc n)
  show ?case
  proof (cases "wait_ready env (cec_log s) = NO_ERROR")
    case True
    with Suc.prems show ?thesis by (auto simp: Let_def cec_emit_def)
  next
    case False
    with Suc.prems Suc.IH [of "wait_ready env (cec_log s)" "cec_emit WaitReady s"] show ?thesis
      by (auto simp: Let_def cec_emit_def)
  qed
qed (auto intro: exI [of _ "[]"])

text \<open>What initialisation promises: success and being usable are the same.\<close>

definition init_ok :: "status_t \<Rightarrow> CecServiceManager \<Rightarrow> bool" where
  "init_ok status s =
     ((status = NO_ERROR \<longleftrightarrow> isPlatformInitialised s) \<and>
      (isPlatformInitialised s \<longrightarrow> cecHandle s \<noteq> 0 \<and> mCecTxMessageLooper s \<and> mCecRxMessageLooper s \<and>
        (mCecDeviceType s = eCecDeviceType_eInvalid \<longrightarrow> mEventListener s = Some OwnListener \<and> mLogicalAddress s \<noteq> 0xFF)))"

lemma init_handlers_ok:
  assumes "\<not> isPlatformInitialised s" "cecHandle s \<noteq> 0" "mCecDeviceType s \<noteq> eCecDeviceType_eInvalid \<longrightarrow> st = NO_ERROR"
  shows "init_ok (fst (init_handlers env st s)) (snd (init_handlers env st s))"
  using assms
  by (cases "Cec_GetStatus env (cec_log s)")
    (auto simp: init_handlers_def init_ok_def getCecStatus_def setEventListener_def isPlatformInitialised_def cec_emit_def Let_def)

lemma init_wait_ok:
  assumes "\<not> isPlatformInitialised s" "cecHandle s \<noteq> 0"
  shows "init_ok (fst (init_wait env s)) (snd (init_wait env s))"
proof (cases "mCecDeviceType s = eCecDeviceType_eInvalid")
  case True
  obtain st' s' where w: "wait_loop env 5 NO_ERROR s = (st', s')" by fastforce
  then obtain cs where s': "s' = s\<lparr>cec_log := cec_log s @ cs\<rparr>" using wait_loop_keeps by blast
  have "init_ok (fst (init_handlers env st' s')) (snd (init_handlers env st' s'))"
    by (rule init_handlers_ok) (use assms True s' in \<open>simp_all add: isPlatformInitialised_def\<close>)
  with True w show ?thesis by (simp add: init_wait_def)
qed (use assms in \<open>simp add: init_handlers_ok init_wait_def\<close>)

lemma emit_keeps [simp]:
  "isPlatformInitialised (cec_emit c s) = isPlatformInitialised s" "cecHandle (cec_emit c s) = cecHandle s"
  "isPlatformInitialised (s\<lparr>cecHandle := h\<rparr>) = isPlatformInitialised s"
  by (simp_all add: isPlatformInitialised_def cec_emit_def)

lemma init_configure_ok:
  assumes "\<not> isPlatformInitialised s" "cecHandle s \<noteq> 0"
  shows "init_ok (fst (init_configure env pa s)) (snd (init_configure env pa s))"
proof -
  have bad: "init_ok UNKNOWN_ERROR t" if "\<not> isPlatformInitialised t" for t using that by (simp add: init_ok_def)
  show ?thesis using assms unfolding init_configure_def Let_def by (simp add: bad init_wait_ok)
qed

lemma uninit_unusable:
  assumes "isPlatformInitialised s \<longrightarrow> mCecTxMessageLooper s"
  shows "\<not> isPlatformInitialised (platformUninit alloc pc s)"
  using assms unfolding platformUninit_def isPlatformInitialised_def setEventListener_def cec_emit_def Let_def by auto

text \<open>
  Initialisation reports success exactly when the service can be used afterwards: it has a handle,
  both message handlers and, unless the device type was configured, its own listener and a
  logical address; shutting down makes it unusable again and closes a handle the service opened.
\<close>

theorem cec_init_uninit:
  assumes "\<not> isPlatformInitialised s" "platformInit env alloc pc hdmi s = (status, s')"
  shows "init_ok status s' \<and> \<not> isPlatformInitialised (platformUninit alloc' pc' s')"
proof -
  define t where "t = (let s = s\<lparr>cecHandle := pc\<rparr> in
    if cecHandle s = 0 then (cec_emit CecOpen s)\<lparr>cecHandle := Cec_Open env (cec_log s)\<rparr> else s)"
  have "\<not> isPlatformInitialised t" using assms(1) by (simp add: t_def Let_def)
  moreover have "platformInit env alloc pc hdmi s = (if \<not> alloc then (NO_MEMORY, s)
      else if cecHandle t \<noteq> 0 \<and> hdmi \<noteq> None then init_configure env (the hdmi) t else (NO_INIT, t))"
    unfolding platformInit_def t_def Let_def by simp
  moreover have "init_ok e u" if "\<not> isPlatformInitialised u" "e \<noteq> NO_ERROR" for e u using that by (simp add: init_ok_def)
  moreover have "init_ok status s'" if "init_configure env (the hdmi) t = (status, s')" "\<not> isPlatformInitialised t" "cecHandle t \<noteq> 0"
    using init_configure_ok [OF that(2,3), of env "the hdmi"] that(1) by simp
  ultimately have "init_ok status s'" using assms by (simp split: if_splits)
  then show ?thesis using uninit_unusable by (auto simp: init_ok_def)
qed

section \<open>Waiting for the driver and for the TV\<close>

text \<open>
  The two places where a sender waits for an event that its own call causes. \<open>held\<close>: the sender
  takes the lock before the call, as \<open>outputCecMessage\<close> does; otherwise only afterwards, as
  \<open>getPowerStatus\<close> does. The waking thread is \<open>msgTransmitted_callback\<close> or \<open>reportPowerStatus\<close>.
\<close>

datatype sender_pc = SStart | SLocked | SCalled | SReady | SWaiting | SWoken | STimedOut | SDone
datatype waker_pc = WIdle | WPending | WLocked | WBroadcast | WDone
datatype owner = Free | Sender | Waker

record wake =
  spc :: sender_pc
  wpc :: waker_pc
  mutex :: owner

definition wake_start :: wake where
  "wake_start = \<lparr>spc = SStart, wpc = WIdle, mutex = Free\<rparr>"

inductive wake_step :: "bool \<Rightarrow> wake \<Rightarrow> wake \<Rightarrow> bool" for held :: bool where
  lock_first: "held \<Longrightarrow> spc w = SStart \<Longrightarrow> mutex w = Free \<Longrightarrow> wake_step held w (w\<lparr>spc := SLocked, mutex := Sender\<rparr>)"
| call: "spc w = (if held then SLocked else SStart) \<Longrightarrow> wake_step held w (w\<lparr>spc := (if held then SReady else SCalled), wpc := WPending\<rparr>)"
| lock_late: "spc w = SCalled \<Longrightarrow> mutex w = Free \<Longrightarrow> wake_step held w (w\<lparr>spc := SReady, mutex := Sender\<rparr>)"
| wait: "spc w = SReady \<Longrightarrow> mutex w = Sender \<Longrightarrow> wake_step held w (w\<lparr>spc := SWaiting, mutex := Free\<rparr>)"
| timeout: "spc w = SWaiting \<Longrightarrow> mutex w = Free \<Longrightarrow> wake_step held w (w\<lparr>spc := STimedOut\<rparr>)"
| resume: "spc w = SWoken \<Longrightarrow> mutex w = Free \<Longrightarrow> wake_step held w (w\<lparr>spc := SDone\<rparr>)"
| waker_lock: "wpc w = WPending \<Longrightarrow> mutex w = Free \<Longrightarrow> wake_step held w (w\<lparr>wpc := WLocked, mutex := Waker\<rparr>)"
| broadcast: "wpc w = WLocked \<Longrightarrow> wake_step held w (w\<lparr>wpc := WBroadcast, spc := (if spc w = SWaiting then SWoken else spc w)\<rparr>)"
| waker_unlock: "wpc w = WBroadcast \<Longrightarrow> wake_step held w (w\<lparr>wpc := WDone, mutex := Free\<rparr>)"

definition held_inv :: "wake \<Rightarrow> bool" where
  "held_inv w =
     ((spc w \<in> {SLocked, SReady} \<longleftrightarrow> mutex w = Sender) \<and> (wpc w \<in> {WLocked, WBroadcast} \<longleftrightarrow> mutex w = Waker)
      \<and> spc w \<noteq> SCalled \<and> (spc w \<in> {SStart, SLocked} \<longrightarrow> wpc w = WIdle)
      \<and> (wpc w \<in> {WBroadcast, WDone} \<longrightarrow> spc w \<in> {SWoken, STimedOut, SDone}))"

lemma held_inv_step: "wake_step True w w' \<Longrightarrow> held_inv w \<Longrightarrow> held_inv w'"
  by (induction rule: wake_step.induct) (auto simp: held_inv_def, metis sender_pc.exhaust)

lemma held_inv_reach: "(wake_step True)\<^sup>*\<^sup>* wake_start w \<Longrightarrow> held_inv w"
  by (induction rule: rtranclp_induct) (auto simp: held_inv_step, simp add: held_inv_def wake_start_def)

text \<open>
  The sender of a message cannot miss the driver's transmitted callback: the callback's broadcast
  always finds it waiting, woken or already timed out, in every interleaving, because the lock
  is held from before the transmission until the wait.
\<close>

theorem cec_ack_not_lost:
  assumes "(wake_step True)\<^sup>*\<^sup>* wake_start w" "wpc w \<in> {WBroadcast, WDone}"
  shows "spc w \<in> {SWoken, SDone, STimedOut}"
  using held_inv_reach [OF assms(1)] assms(2) by (auto simp: held_inv_def)

definition woken :: wake where
  "woken = \<lparr>spc = SWoken, wpc = WBroadcast, mutex = Waker\<rparr>"

lemma woken_reach: "(wake_step True)\<^sup>*\<^sup>* wake_start woken"
proof -
  note step = converse_rtranclp_into_rtranclp [of "wake_step True"]
  have 5: "(wake_step True)\<^sup>*\<^sup>* \<lparr>spc = SWaiting, wpc = WLocked, mutex = Waker\<rparr> woken"
    using wake_step.broadcast [of "\<lparr>spc = SWaiting, wpc = WLocked, mutex = Waker\<rparr>" True] by (auto simp: woken_def)
  have 4: "(wake_step True)\<^sup>*\<^sup>* \<lparr>spc = SWaiting, wpc = WPending, mutex = Free\<rparr> woken"
    using wake_step.waker_lock [of "\<lparr>spc = SWaiting, wpc = WPending, mutex = Free\<rparr>" True] step [OF _ 5] by simp
  have 3: "(wake_step True)\<^sup>*\<^sup>* \<lparr>spc = SReady, wpc = WPending, mutex = Sender\<rparr> woken"
    using wake_step.wait [of "\<lparr>spc = SReady, wpc = WPending, mutex = Sender\<rparr>" True] step [OF _ 4] by simp
  have 2: "(wake_step True)\<^sup>*\<^sup>* \<lparr>spc = SLocked, wpc = WIdle, mutex = Sender\<rparr> woken"
    using wake_step.call [of "\<lparr>spc = SLocked, wpc = WIdle, mutex = Sender\<rparr>" True] step [OF _ 3] by simp
  show ?thesis
    using wake_step.lock_first [of True wake_start] step [OF _ 2] by (simp add: wake_start_def)
qed

theorem cec_ack_not_lost_witness:
  "(wake_step True)\<^sup>*\<^sup>* wake_start woken \<and> spc woken \<in> {SWoken, SDone, STimedOut}"
  using cec_ack_not_lost [OF woken_reach] woken_reach by (simp add: woken_def)

text \<open>
  A power status that the TV reports before the caller of \<open>getPowerStatus\<close> waits is missed: the
  caller can only time out, although the status was received, since the lock is not taken before
  the request is sent.
\<close>

theorem cec_power_status_lost:
  "\<exists>w. (wake_step False)\<^sup>*\<^sup>* wake_start w \<and> wpc w = WDone \<and> spc w = SWaiting
     \<and> {w'. wake_step False w w'} = {w\<lparr>spc := STimedOut\<rparr>}"
proof -
  note step = converse_rtranclp_into_rtranclp [of "wake_step False"]
  let ?w = "\<lparr>spc = SWaiting, wpc = WDone, mutex = Free\<rparr>"
  have 6: "(wake_step False)\<^sup>*\<^sup>* \<lparr>spc = SReady, wpc = WDone, mutex = Sender\<rparr> ?w"
    using wake_step.wait [of "\<lparr>spc = SReady, wpc = WDone, mutex = Sender\<rparr>" False] by auto
  have 5: "(wake_step False)\<^sup>*\<^sup>* \<lparr>spc = SCalled, wpc = WDone, mutex = Free\<rparr> ?w"
    using wake_step.lock_late [of "\<lparr>spc = SCalled, wpc = WDone, mutex = Free\<rparr>" False] step [OF _ 6] by simp
  have 4: "(wake_step False)\<^sup>*\<^sup>* \<lparr>spc = SCalled, wpc = WBroadcast, mutex = Waker\<rparr> ?w"
    using wake_step.waker_unlock [of "\<lparr>spc = SCalled, wpc = WBroadcast, mutex = Waker\<rparr>" False] step [OF _ 5] by simp
  have 3: "(wake_step False)\<^sup>*\<^sup>* \<lparr>spc = SCalled, wpc = WLocked, mutex = Waker\<rparr> ?w"
    using wake_step.broadcast [of "\<lparr>spc = SCalled, wpc = WLocked, mutex = Waker\<rparr>" False] step [OF _ 4] by simp
  have 2: "(wake_step False)\<^sup>*\<^sup>* \<lparr>spc = SCalled, wpc = WPending, mutex = Free\<rparr> ?w"
    using wake_step.waker_lock [of "\<lparr>spc = SCalled, wpc = WPending, mutex = Free\<rparr>" False] step [OF _ 3] by simp
  have "(wake_step False)\<^sup>*\<^sup>* wake_start ?w"
    using wake_step.call [of wake_start False] step [OF _ 2] by (simp add: wake_start_def)
  moreover have "{w'. wake_step False ?w w'} = {?w\<lparr>spc := STimedOut\<rparr>}"
  proof
    show "{w'. wake_step False ?w w'} \<subseteq> {?w\<lparr>spc := STimedOut\<rparr>}" by (auto elim!: wake_step.cases)
    show "{?w\<lparr>spc := STimedOut\<rparr>} \<subseteq> {w'. wake_step False ?w w'}" using wake_step.timeout [of ?w False] by simp
  qed
  ultimately show ?thesis by (intro exI [of _ ?w]) simp
qed


section \<open>Witnesses\<close>

definition demo_status :: NEXUS_CecStatus where
  "demo_status = \<lparr>n_ready = True, n_physicalAddress = (0x10, 0x00), n_logicalAddress = 4,
     n_deviceType = NEXUS_CecDeviceType_ePlaybackDevice, n_messageReceived = True, n_messageTransmitPending = False,
     n_transmitMessageAcknowledged = True, n_cecVersion = 5\<rparr>"

definition demo_message :: NEXUS_CecMessage where
  "demo_message = \<lparr>initiatorAddr = 0, destinationAddr = 4, msg_buffer = replicate 16 0, msg_length = 1\<rparr>"

definition demo_cec_env :: cec_env where
  "demo_cec_env = \<lparr>Cec_GetStatus = (\<lambda>_. Some demo_status), Cec_TransmitMessage = (\<lambda>_. True), Cec_ReceiveMessage = (\<lambda>_. Some demo_message),
     Cec_GetSettings = (\<lambda>_. \<lparr>set_enabled = False, set_callbacks = False, set_noPolling = False, set_logicalAddress = 4, set_physicalAddress = (0x10, 0)\<rparr>),
     Cec_SetSettings = (\<lambda>_. True), Cec_Open = (\<lambda>_. 7), default_message = demo_message, wait_transmitted = (\<lambda>_. True),
     wait_ready = (\<lambda>_. NO_ERROR), wait_power_status = (\<lambda>_. (True, Some 0)), post_and_await = (\<lambda>_. NO_ERROR), vendor_property = (\<lambda>_. 0x18C086)\<rparr>"

definition demo_cec :: CecServiceManager where
  "demo_cec = \<lparr>cecHandle = 7, mLogicalAddress = 4, mCecDeviceType = eCecDeviceType_eInvalid, mCecPowerStatus = 0,
     mCecRxMessageLooper = False, mCecRxMessageHandler = False, mCecTxMessageLooper = False, mCecTxMessageHandler = False,
     mEventListener = None, rx_queue = [], cec_log = []\<rparr>"

lemma demo_cec_sane: "sane_env demo_cec_env"
  by (simp add: sane_env_def demo_cec_env_def demo_message_def NEXUS_CEC_MESSAGE_DATA_SIZE_def)

lemma demo_cec_simps [simp]:
  "Cec_GetStatus demo_cec_env cs = Some demo_status" "vendor_property demo_cec_env cs = 0x18C086"
  "post_and_await demo_cec_env cs = NO_ERROR" "cecHandle demo_cec = 7" "mLogicalAddress demo_cec = 4" "cec_log demo_cec = []"
  "rx_queue demo_cec = []" "n_logicalAddress demo_status = 4" "n_physicalAddress demo_status = (0x10, 0x00)"
  "\<not> isPlatformInitialised demo_cec" "Cec_ReceiveMessage demo_cec_env cs = Some demo_message" "length (msg_buffer demo_message) = 16"
  by (simp_all add: demo_cec_env_def demo_cec_def demo_status_def isPlatformInitialised_def demo_message_def)

theorem cec_send_delivers_witness:
  "\<exists>err s' cs k. sendCecMessage demo_cec_env 4 0 1 [0x36] 5 demo_cec = Some (err, s') \<and> cec_log s' = cs
     \<and> transmits cs = replicate k (cec_frame demo_cec_env 4 0 1 [0x36])"
  using cec_send_delivers [OF demo_cec_sane, of demo_cec 1 "[0x36]" 4 0 5] by auto

theorem cec_retries_without_pause_witness:
  "\<exists>err s' k. sendCecMessage demo_cec_env 4 0 1 [0x36] 5 demo_cec = Some (err, s') \<and> sleeps (cec_log s') = replicate k 0"
  using cec_retries_without_pause [OF demo_cec_sane, of demo_cec 1 "[0x36]" 4 0 5] by auto

theorem cec_send_overrun_witness:
  "sendCecMessage demo_cec_env 4 0 17 (replicate 17 0x36) 5 demo_cec = None"
  by (rule cec_send_overrun [OF demo_cec_sane, where st = demo_status]) simp_all

theorem cec_receive_safe_witness:
  "\<exists>s'. cec_run demo_cec_env (replicate 16 0) (replicate 16 0) [EvMessageReceived, EvHandleMessage, EvMessageTransmitted] demo_cec = Some s'"
  by (rule cec_receive_safe [OF demo_cec_sane]) auto


theorem cec_power_sequence_witness:
  "\<exists>ok s' k l src1 src2. cec_setPowerState demo_cec_env (replicate 16 0) ePowerState_S0 demo_cec = Some (ok, s')
     \<and> transmits (cec_log s') = replicate k (cec_frame demo_cec_env src1 0 1 [0x04])
         @ replicate l (cec_frame demo_cec_env src2 0xF 3 [0x82, 0x10, 0x00])"
  using cec_power_sequence [OF demo_cec_sane, of demo_cec "replicate 16 0" demo_status ePowerState_S0]
  by simp blast

definition flaky_env :: cec_env where
  "flaky_env = demo_cec_env\<lparr>Cec_GetStatus := (\<lambda>cs. if cs = [GetStatus] then None else Some demo_status)\<rparr>"

theorem cec_stale_parameter_witness:
  "\<exists>v s'. param_loop flaky_env 1 None [Some Fn_getPhysicalAddress, Some Fn_getDeviceType, None]
      \<lparr>rindex = 0, outLength = 0, param_index = 0, responseLength = 1, responseBuffer = (replicate 16 0)[0 := NEXUS_CEC_OpReportPhysicalAddress],
        tmp = replicate 16 0\<rparr> demo_cec = Some (True, v, s')
    \<and> take (responseLength v) (responseBuffer v) = [0x84, 0x10, 0x00, 0x10, 0x00]"
  using cec_stale_parameter [of "replicate 16 0" "replicate 16 0" flaky_env demo_cec demo_status]
  by (simp add: flaky_env_def NEXUS_CEC_OpReportPhysicalAddress_def)

theorem cec_init_uninit_witness:
  "\<exists>status s'. platformInit demo_cec_env True 0 (Some (0x10, 0)) demo_cec = (status, s') \<and> init_ok status s'"
proof -
  obtain status s' where p: "platformInit demo_cec_env True 0 (Some (0x10, 0)) demo_cec = (status, s')" by fastforce
  show ?thesis using cec_init_uninit [OF _ p, of True 0] p by simp
qed

end
