(* ===== verification/Ir_Map.thy ===== *)
theory Ir_Map
  imports Prelude
begin

text \<open>
  \<open>nxif/libnexusir/nexusirmap.cpp\<close>: the map from infrared codes to Linux keys and the parser of the
  key map files. The Android tokenizer is a record of functions with its documented behaviour as
  a locale; the key numbers of the Linux input headers are a function of the key name. The keyed
  vector of the platform is a list kept sorted by code.
\<close>

section \<open>Key names\<close>

definition linux_keys :: "string list" where
  "linux_keys = [
    ''ESC'', ''1'', ''2'', ''3'', ''4'', ''5'', ''6'', ''7'', ''8'', ''9'', ''0'', ''MINUS'', ''EQUAL'',
    ''BACKSPACE'', ''TAB'', ''Q'', ''W'', ''E'', ''R'', ''T'', ''Y'', ''U'', ''I'', ''O'', ''P'', ''LEFTBRACE'',
    ''RIGHTBRACE'', ''ENTER'', ''LEFTCTRL'', ''A'', ''S'', ''D'', ''F'', ''G'', ''H'', ''J'', ''K'', ''L'',
    ''SEMICOLON'', ''APOSTROPHE'', ''GRAVE'', ''LEFTSHIFT'', ''BACKSLASH'', ''Z'', ''X'', ''C'', ''V'', ''B'', ''N'',
    ''M'', ''COMMA'', ''DOT'', ''SLASH'', ''RIGHTSHIFT'', ''KPASTERISK'', ''LEFTALT'', ''SPACE'', ''CAPSLOCK'',
    ''F1'', ''F2'', ''F3'', ''F4'', ''F5'', ''F6'', ''F7'', ''F8'', ''F9'', ''F10'', ''NUMLOCK'', ''SCROLLLOCK'',
    ''KP7'', ''KP8'', ''KP9'', ''KPMINUS'', ''KP4'', ''KP5'', ''KP6'', ''KPPLUS'', ''KP1'', ''KP2'', ''KP3'',
    ''KP0'', ''KPDOT'', ''ZENKAKUHANKAKU'', ''102ND'', ''F11'', ''F12'', ''RO'', ''KATAKANA'', ''HIRAGANA'',
    ''HENKAN'', ''KATAKANAHIRAGANA'', ''MUHENKAN'', ''KPJPCOMMA'', ''KPENTER'', ''RIGHTCTRL'', ''KPSLASH'',
    ''SYSRQ'', ''RIGHTALT'', ''LINEFEED'', ''HOME'', ''UP'', ''PAGEUP'', ''LEFT'', ''RIGHT'', ''END'', ''DOWN'',
    ''PAGEDOWN'', ''INSERT'', ''DELETE'', ''MACRO'', ''MUTE'', ''VOLUMEDOWN'', ''VOLUMEUP'', ''POWER'', ''KPEQUAL'',
    ''KPPLUSMINUS'', ''PAUSE'', ''SCALE'', ''KPCOMMA'', ''HANGEUL'', ''HANGUEL'', ''HANJA'', ''YEN'', ''LEFTMETA'',
    ''RIGHTMETA'', ''COMPOSE'', ''STOP'', ''AGAIN'', ''PROPS'', ''UNDO'', ''FRONT'', ''COPY'', ''OPEN'', ''PASTE'',
    ''FIND'', ''CUT'', ''HELP'', ''MENU'', ''CALC'', ''SETUP'', ''SLEEP'', ''WAKEUP'', ''FILE'', ''SENDFILE'',
    ''DELETEFILE'', ''XFER'', ''PROG1'', ''PROG2'', ''WWW'', ''MSDOS'', ''COFFEE'', ''SCREENLOCK'', ''DIRECTION'',
    ''CYCLEWINDOWS'', ''MAIL'', ''BOOKMARKS'', ''COMPUTER'', ''BACK'', ''FORWARD'', ''CLOSECD'', ''EJECTCD'',
    ''EJECTCLOSECD'', ''NEXTSONG'', ''PLAYPAUSE'', ''PREVIOUSSONG'', ''STOPCD'', ''RECORD'', ''REWIND'', ''PHONE'',
    ''ISO'', ''CONFIG'', ''HOMEPAGE'', ''REFRESH'', ''EXIT'', ''MOVE'', ''EDIT'', ''SCROLLUP'', ''SCROLLDOWN'',
    ''KPLEFTPAREN'', ''KPRIGHTPAREN'', ''NEW'', ''REDO'', ''F13'', ''F14'', ''F15'', ''F16'', ''F17'', ''F18'',
    ''F19'', ''F20'', ''F21'', ''F22'', ''F23'', ''F24'', ''PLAYCD'', ''PAUSECD'', ''PROG3'', ''PROG4'',
    ''DASHBOARD'', ''SUSPEND'', ''CLOSE'', ''PLAY'', ''FASTFORWARD'', ''BASSBOOST'', ''PRINT'', ''HP'', ''CAMERA'',
    ''SOUND'', ''QUESTION'', ''EMAIL'', ''CHAT'', ''SEARCH'', ''CONNECT'', ''FINANCE'', ''SPORT'', ''SHOP'',
    ''ALTERASE'', ''CANCEL'', ''BRIGHTNESSDOWN'', ''BRIGHTNESSUP'', ''MEDIA'', ''SWITCHVIDEOMODE'',
    ''KBDILLUMTOGGLE'', ''KBDILLUMDOWN'', ''KBDILLUMUP'', ''SEND'', ''REPLY'', ''FORWARDMAIL'', ''SAVE'',
    ''DOCUMENTS'', ''BATTERY'', ''BLUETOOTH'', ''WLAN'', ''UWB'', ''UNKNOWN'', ''VIDEO_NEXT'', ''VIDEO_PREV'',
    ''BRIGHTNESS_CYCLE'', ''BRIGHTNESS_AUTO'', ''BRIGHTNESS_ZERO'', ''DISPLAY_OFF'', ''WWAN'', ''WIMAX'', ''RFKILL'',
    ''MICMUTE'', ''OK'', ''SELECT'', ''GOTO'', ''CLEAR'', ''POWER2'', ''OPTION'', ''INFO'', ''TIME'', ''VENDOR'',
    ''ARCHIVE'', ''PROGRAM'', ''CHANNEL'', ''FAVORITES'', ''EPG'', ''PVR'', ''MHP'', ''LANGUAGE'', ''TITLE'',
    ''SUBTITLE'', ''ANGLE'', ''ZOOM'', ''MODE'', ''KEYBOARD'', ''SCREEN'', ''PC'', ''TV'', ''TV2'', ''VCR'',
    ''VCR2'', ''SAT'', ''SAT2'', ''CD'', ''TAPE'', ''RADIO'', ''TUNER'', ''PLAYER'', ''TEXT'', ''DVD'', ''AUX'',
    ''MP3'', ''AUDIO'', ''VIDEO'', ''DIRECTORY'', ''LIST'', ''MEMO'', ''CALENDAR'', ''RED'', ''GREEN'', ''YELLOW'',
    ''BLUE'', ''CHANNELUP'', ''CHANNELDOWN'', ''FIRST'', ''LAST'', ''AB'', ''NEXT'', ''RESTART'', ''SLOW'',
    ''SHUFFLE'', ''BREAK'', ''PREVIOUS'', ''DIGITS'', ''TEEN'', ''TWEN'', ''VIDEOPHONE'', ''GAMES'', ''ZOOMIN'',
    ''ZOOMOUT'', ''ZOOMRESET'', ''WORDPROCESSOR'', ''EDITOR'', ''SPREADSHEET'', ''GRAPHICSEDITOR'', ''PRESENTATION'',
    ''DATABASE'', ''NEWS'', ''VOICEMAIL'', ''ADDRESSBOOK'', ''MESSENGER'', ''DISPLAYTOGGLE'', ''BRIGHTNESS_TOGGLE'',
    ''SPELLCHECK'', ''LOGOFF'', ''DOLLAR'', ''EURO'', ''FRAMEBACK'', ''FRAMEFORWARD'', ''CONTEXT_MENU'',
    ''MEDIA_REPEAT'', ''10CHANNELSUP'', ''10CHANNELSDOWN'', ''IMAGES'', ''DEL_EOL'', ''DEL_EOS'', ''INS_LINE'',
    ''DEL_LINE'', ''FN'', ''FN_ESC'', ''FN_F1'', ''FN_F2'', ''FN_F3'', ''FN_F4'', ''FN_F5'', ''FN_F6'', ''FN_F7'',
    ''FN_F8'', ''FN_F9'', ''FN_F10'', ''FN_F11'', ''FN_F12'', ''FN_1'', ''FN_2'', ''FN_D'', ''FN_E'', ''FN_F'',
    ''FN_S'', ''FN_B'', ''BRL_DOT1'', ''BRL_DOT2'', ''BRL_DOT3'', ''BRL_DOT4'', ''BRL_DOT5'', ''BRL_DOT6'',
    ''BRL_DOT7'', ''BRL_DOT8'', ''BRL_DOT9'', ''BRL_DOT10'', ''NUMERIC_0'', ''NUMERIC_1'', ''NUMERIC_2'',
    ''NUMERIC_3'', ''NUMERIC_4'', ''NUMERIC_5'', ''NUMERIC_6'', ''NUMERIC_7'', ''NUMERIC_8'', ''NUMERIC_9'',
    ''NUMERIC_STAR'', ''NUMERIC_POUND'', ''CAMERA_FOCUS'', ''WPS_BUTTON'', ''TOUCHPAD_TOGGLE'', ''TOUCHPAD_ON'',
    ''TOUCHPAD_OFF'', ''CAMERA_ZOOMIN'', ''CAMERA_ZOOMOUT'', ''CAMERA_UP'', ''CAMERA_DOWN'', ''CAMERA_LEFT'',
    ''CAMERA_RIGHT'', ''ATTENDANT_ON'', ''ATTENDANT_OFF'', ''ATTENDANT_TOGGLE'', ''LIGHTS_TOGGLE'', ''ALS_TOGGLE'',
    ''BUTTONCONFIG'', ''TASKMANAGER'', ''JOURNAL'', ''CONTROLPANEL'', ''APPSELECT'', ''SCREENSAVER'',
    ''VOICECOMMAND'', ''BRIGHTNESS_MIN'', ''BRIGHTNESS_MAX'']"

text \<open>\<open>KEYCODE name\<close> is the number of a key in the Linux headers; \<open>KEY_RESERVED\<close> is 0.\<close>

definition key :: "(string \<Rightarrow> u16) \<Rightarrow> string \<Rightarrow> u16" where
  "key KEYCODE name = (case find (\<lambda>n. n = name) linux_keys of Some n \<Rightarrow> KEYCODE n | None \<Rightarrow> 0)"

section \<open>The map\<close>

type_synonym NexusIrMap = "(u32 \<times> u16) list"

fun kv_add :: "u32 \<Rightarrow> u16 \<Rightarrow> NexusIrMap \<Rightarrow> NexusIrMap" where
  "kv_add k v [] = [(k, v)]"
| "kv_add k v ((k', v') # m) =
     (if k < k' then (k, v) # (k', v') # m else if k = k' then (k, v) # m else (k', v') # kv_add k v m)"

definition map_get :: "NexusIrMap \<Rightarrow> u32 \<Rightarrow> u16" where
  "map_get m nexusCode = (case map_of m nexusCode of Some k \<Rightarrow> k | None \<Rightarrow> 0)"

definition linuxKeyAt :: "NexusIrMap \<Rightarrow> nat \<Rightarrow> u16" where "linuxKeyAt m i = snd (m ! i)"
definition nexusIrCodeAt :: "NexusIrMap \<Rightarrow> nat \<Rightarrow> u32" where "nexusIrCodeAt m i = fst (m ! i)"

section \<open>Numbers\<close>

text \<open>\<open>strtoul\<close> with base 0 on a platform whose \<open>unsigned long\<close> has \<open>bits\<close> bits: the value and the rest.\<close>

definition digit_val :: "char \<Rightarrow> nat" where
  "digit_val c = (let n = of_char c in if 48 \<le> n \<and> n \<le> 57 then n - 48 else if 97 \<le> n \<and> n \<le> 122 then n - 87
     else if 65 \<le> n \<and> n \<le> 90 then n - 55 else 36)"

definition isspace :: "char \<Rightarrow> bool" where
  "isspace c = (let n = of_char c :: nat in n = 32 \<or> (9 \<le> n \<and> n \<le> 13))"

definition number :: "nat \<Rightarrow> string \<Rightarrow> nat" where
  "number base ds = foldl (\<lambda>a c. a * base + digit_val c) 0 ds"

definition strtoul :: "nat \<Rightarrow> string \<Rightarrow> nat \<times> string" where
  "strtoul bits s =
     (let s1 = dropWhile isspace s;
          (neg, s2) = (case s1 of c # r \<Rightarrow> if c = CHR ''-'' then (True, r) else if c = CHR ''+'' then (False, r) else (False, s1) | [] \<Rightarrow> (False, s1));
          (base, s3) =
            (case s2 of
               z # x # d # r \<Rightarrow>
                 if z = CHR ''0'' \<and> (x = CHR ''x'' \<or> x = CHR ''X'') \<and> digit_val d < 16 then (16, d # r)
                 else if z = CHR ''0'' then (8, s2) else (10, s2)
             | z # r \<Rightarrow> if z = CHR ''0'' then (8, s2) else (10, s2)
             | [] \<Rightarrow> (10, s2));
          ds = takeWhile (\<lambda>c. digit_val c < base) s3 in
      if ds = [] then (0, s)
      else
        let v = number base ds in
        (if v \<ge> 2 ^ bits then 2 ^ bits - 1 else if neg then (2 ^ bits - v) mod 2 ^ bits else v, drop (length ds) s3))"

section \<open>The parser\<close>

definition WHITESPACE :: string where "WHITESPACE = [CHR '' '', CHR 0x09, CHR 0x0D]"

record 't tokenizer =
  isEof :: "'t \<Rightarrow> bool"
  isEol :: "'t \<Rightarrow> bool"
  peekChar :: "'t \<Rightarrow> char"
  nextToken :: "string \<Rightarrow> 't \<Rightarrow> string \<times> 't"
  skipDelimiters :: "string \<Rightarrow> 't \<Rightarrow> 't"
  nextLine :: "'t \<Rightarrow> 't"

definition parseKey ::
  "(string \<Rightarrow> u16) \<Rightarrow> nat \<Rightarrow> 't tokenizer \<Rightarrow> NexusIrMap \<Rightarrow> 't \<Rightarrow> status_t \<times> NexusIrMap \<times> 't" where
  "parseKey KEYCODE bits tk m t =
     (let (irCodeToken, t) = nextToken tk WHITESPACE t;
          (v, end') = strtoul bits irCodeToken;
          irCode = of_nat v :: u32 in
      if end' \<noteq> [] then (BAD_VALUE, m, t)
      else if map_of m irCode \<noteq> None then (BAD_VALUE, m, t)
      else
        let t = skipDelimiters tk WHITESPACE t;
            (keyCodeToken, t) = nextToken tk WHITESPACE t;
            keyCode = key KEYCODE keyCodeToken in
        if keyCode = 0 then (BAD_VALUE, m, t)
        else (NO_ERROR, kv_add irCode keyCode m, t))"

partial_function (option) parse ::
  "(string \<Rightarrow> u16) \<Rightarrow> nat \<Rightarrow> 't tokenizer \<Rightarrow> NexusIrMap \<Rightarrow> 't \<Rightarrow> (status_t \<times> NexusIrMap) option" where
  "parse KEYCODE bits tk m t =
     (if isEof tk t then Some (NO_ERROR, m)
      else
        let t = skipDelimiters tk WHITESPACE t in
        if \<not> isEol tk t \<and> peekChar tk t \<noteq> CHR ''#'' then
          (let (status, m, t) = parseKey KEYCODE bits tk m t in
           if status \<noteq> NO_ERROR then Some (status, m) else parse KEYCODE bits tk m (nextLine tk t))
        else parse KEYCODE bits tk m (nextLine tk t))"

text \<open>\<open>opened\<close> is the tokenizer of the file or the error of opening it; the map is returned on success.\<close>

definition load :: "(string \<Rightarrow> u16) \<Rightarrow> nat \<Rightarrow> 't tokenizer \<Rightarrow> status_t + 't \<Rightarrow> (status_t \<times> NexusIrMap option) option" where
  "load KEYCODE bits tk opened =
     (case opened of
        Inl err \<Rightarrow> Some (err, None)
      | Inr t \<Rightarrow> map_option (\<lambda>(status, m). (status, if status = NO_ERROR then Some m else None)) (parse KEYCODE bits tk [] t))"

section \<open>The tokenizer's contract\<close>

text \<open>\<open>remaining t\<close> is the text that is left.\<close>

definition at_delim :: "string \<Rightarrow> char \<Rightarrow> bool" where
  "at_delim d c = (c \<in> set d \<and> c \<noteq> CHR 0x0A)"

definition in_token :: "string \<Rightarrow> char \<Rightarrow> bool" where
  "in_token d c = (c \<notin> set d \<and> c \<noteq> CHR 0x0A)"

definition next_line :: "string \<Rightarrow> string" where
  "next_line s = tl (dropWhile (\<lambda>c. c \<noteq> CHR 0x0A) s)"

locale tokenizer_laws =
  fixes tk :: "'t tokenizer" and remaining :: "'t \<Rightarrow> string"
  assumes eof: "isEof tk t \<longleftrightarrow> remaining t = []"
    and eol: "isEol tk t \<longleftrightarrow> remaining t = [] \<or> hd (remaining t) = CHR 0x0A"
    and peek: "remaining t \<noteq> [] \<Longrightarrow> peekChar tk t = hd (remaining t)"
    and token: "nextToken tk d t = (s, t') \<Longrightarrow> s = takeWhile (in_token d) (remaining t) \<and> remaining t' = dropWhile (in_token d) (remaining t)"
    and skip: "remaining (skipDelimiters tk d t) = dropWhile (at_delim d) (remaining t)"
    and line: "remaining (nextLine tk t) = next_line (remaining t)"

text \<open>The instance that reads a string directly.\<close>

definition string_tokenizer :: "string tokenizer" where
  "string_tokenizer = \<lparr>isEof = (\<lambda>s. s = []), isEol = (\<lambda>s. s = [] \<or> hd s = CHR 0x0A), peekChar = (\<lambda>s. if s = [] then CHR 0x00 else hd s),
     nextToken = (\<lambda>d s. (takeWhile (in_token d) s, dropWhile (in_token d) s)),
     skipDelimiters = (\<lambda>d. dropWhile (at_delim d)), nextLine = next_line\<rparr>"

lemma string_tokenizer_simps [simp]:
  "isEof string_tokenizer s = (s = [])" "isEol string_tokenizer s = (s = [] \<or> hd s = CHR 0x0A)"
  "peekChar string_tokenizer s = (if s = [] then CHR 0x00 else hd s)"
  "nextToken string_tokenizer d s = (takeWhile (in_token d) s, dropWhile (in_token d) s)"
  "skipDelimiters string_tokenizer d s = dropWhile (at_delim d) s" "nextLine string_tokenizer s = next_line s"
  by (simp_all add: string_tokenizer_def)

interpretation string_tok: tokenizer_laws string_tokenizer "\<lambda>s. s"
  by unfold_locales (auto simp: string_tokenizer_def)

section \<open>The map\<close>

lemma map_of_kv_add: "map_of (kv_add k v m) = (map_of m)(k \<mapsto> v)"
  by (induction m) (auto simp: fun_eq_iff)

lemma map_get_kv_add [simp]: "map_get (kv_add k v m) c = (if c = k then v else map_get m c)"
  by (simp add: map_get_def map_of_kv_add)

lemma set_kv_add: "set (map fst (kv_add k v m)) = insert k (set (map fst m))"
  using map_of_kv_add [of k v m] dom_map_of_conv_image_fst [of "kv_add k v m"] dom_map_of_conv_image_fst [of m] by simp

lemma kv_add_sorted: "sorted_wrt (<) (map fst m) \<Longrightarrow> sorted_wrt (<) (map fst (kv_add k v m))"
proof (induction m)
  case (Cons e m)
  then show ?case using set_kv_add [of k v m] by (cases e) (auto simp: image_iff dest: less_trans)
qed simp

section \<open>Termination and independence of the tokenizer\<close>

lemma next_line_le: "length (next_line s) \<le> length s - 1"
  by (simp add: next_line_def length_dropWhile_le diff_le_mono)

lemma dropWhile_le [simp]: "length (dropWhile P s) \<le> length s"
  by (rule length_dropWhile_le)

context tokenizer_laws
begin

lemma parseKey_remaining:
  assumes "parseKey KEYCODE bits tk m t = (status, m', t')"
  shows "length (remaining t') \<le> length (remaining t)"
proof -
  obtain s1 t1 where 1: "nextToken tk WHITESPACE t = (s1, t1)" by fastforce
  obtain s2 t2 where 2: "nextToken tk WHITESPACE (skipDelimiters tk WHITESPACE t1) = (s2, t2)" by fastforce
  have "length (remaining t1) \<le> length (remaining t)" using token [OF 1] by simp
  moreover from this have "length (remaining t2) \<le> length (remaining t)"
    using token [OF 2] by (simp add: skip) (meson dropWhile_le order_trans)
  moreover have "t' = t1 \<or> t' = t2" using assms 1 2 by (auto simp: parseKey_def Let_def split: prod.splits if_splits)
  ultimately show ?thesis by auto
qed

text \<open>The parse of an equal text by the string tokenizer takes the same steps.\<close>

lemma parseKey_string:
  assumes "parseKey KEYCODE bits tk m t = (status, m', t')"
  shows "parseKey KEYCODE bits string_tokenizer m (remaining t) = (status, m', remaining t')"
proof -
  obtain s1 t1 where 1: "nextToken tk WHITESPACE t = (s1, t1)" by fastforce
  obtain s2 t2 where 2: "nextToken tk WHITESPACE (skipDelimiters tk WHITESPACE t1) = (s2, t2)" by fastforce
  have "nextToken string_tokenizer WHITESPACE (remaining t) = (s1, remaining t1)"
    "nextToken string_tokenizer WHITESPACE (skipDelimiters string_tokenizer WHITESPACE (remaining t1)) = (s2, remaining t2)"
    using token [OF 1] token [OF 2] skip by simp_all
  with assms 1 2 show ?thesis by (auto simp: parseKey_def Let_def split: prod.splits if_splits)
qed

lemma parse_string: "\<exists>r. parse KEYCODE bits tk m t = Some r \<and> parse KEYCODE bits string_tokenizer m (remaining t) = Some r"
proof (induction "length (remaining t)" arbitrary: m t rule: less_induct)
  case less
  let ?t1 = "skipDelimiters tk WHITESPACE t" and ?st = string_tokenizer
  show ?case
  proof (cases "isEof tk t")
    case True
    then have "isEof ?st (remaining t)" using eof by simp
    with True show ?thesis by (simp add: parse.simps)
  next
    case False
    then have ne: "remaining t \<noteq> []" "\<not> isEof ?st (remaining t)" using eof by simp_all
    have IH: "\<exists>r. parse KEYCODE bits tk m' (nextLine tk u) = Some r \<and> parse KEYCODE bits ?st m' (nextLine ?st (remaining u)) = Some r"
      if "length (remaining u) \<le> length (remaining t)" for m' u
    proof -
      have "length (remaining (nextLine tk u)) < length (remaining t)"
        using that ne(1) next_line_le [of "remaining u"] by (cases "remaining t") (auto simp: line)
      from less [OF this, of m'] show ?thesis by (simp add: line)
    qed
    have s1: "skipDelimiters ?st WHITESPACE (remaining t) = remaining ?t1" by (simp add: skip)
    have le1: "length (remaining ?t1) \<le> length (remaining t)" by (simp add: skip)
    have eol1: "isEol ?st (remaining ?t1) = isEol tk ?t1" using eol by simp
    show ?thesis
    proof (cases "\<not> isEol tk ?t1 \<and> peekChar tk ?t1 \<noteq> CHR ''#''")
      case True
      then have "remaining ?t1 \<noteq> []" using eol by blast
      then have pk: "peekChar ?st (remaining ?t1) = peekChar tk ?t1" using peek by simp
      obtain status m' t' where k: "parseKey KEYCODE bits tk m ?t1 = (status, m', t')" by (metis prod_cases3)
      note k' = parseKey_string [OF k]
      have "length (remaining t') \<le> length (remaining t)" using parseKey_remaining [OF k] le1 by simp
      from IH [OF this, of m'] show ?thesis
        using True False ne(2) s1 eol1 pk k k' parse.simps [of KEYCODE bits tk m t] parse.simps [of KEYCODE bits ?st m "remaining t"]
        by (simp add: Let_def)
    next
      case F2: False
      have c2: "\<not> (\<not> isEol ?st (remaining ?t1) \<and> peekChar ?st (remaining ?t1) \<noteq> CHR ''#'')"
      proof (cases "isEol tk ?t1")
        case True then show ?thesis using eol1 by simp
      next
        case neol: False
        then have "remaining ?t1 \<noteq> []" using eol by blast
        then have "peekChar ?st (remaining ?t1) = peekChar tk ?t1" using peek by simp
        with F2 neol show ?thesis by simp
      qed
      have "parse KEYCODE bits ?st m (remaining t) = parse KEYCODE bits ?st m (nextLine ?st (remaining ?t1))"
        unfolding parse.simps [of KEYCODE bits ?st m "remaining t"] Let_def s1 if_not_P [OF ne(2)] if_not_P [OF c2] ..
      moreover have "parse KEYCODE bits tk m t = parse KEYCODE bits tk m (nextLine tk ?t1)"
        unfolding parse.simps [of KEYCODE bits tk m t] Let_def if_not_P [OF False] if_not_P [OF F2] ..
      ultimately show ?thesis using IH [OF le1, of m] by (simp only:)
    qed
  qed
qed

end

text \<open>
  Parsing a key map ends on every text, whatever the tokenizer does behind its documented
  interface, and the result depends on the text alone.
\<close>

theorem ir_parse_ends:
  assumes "tokenizer_laws tk remaining"
  shows "\<exists>r. parse KEYCODE bits tk m t = Some r \<and> parse KEYCODE bits string_tokenizer m (remaining t) = Some r"
  by (rule tokenizer_laws.parse_string [OF assms])

theorem ir_parse_ends_witness:
  "\<exists>r. parse (\<lambda>_. 1) 64 string_tokenizer [] ''0x10 ESC'' = Some r"
  using ir_parse_ends [OF string_tok.tokenizer_laws_axioms, of "\<lambda>_. 1" 64 "[]" "''0x10 ESC''"] by auto

section \<open>Reading what was written\<close>

fun hexdigits :: "nat \<Rightarrow> nat \<Rightarrow> string" where
  "hexdigits 0 n = []"
| "hexdigits (Suc k) n = hexdigits k (n div 16) @ [let d = n mod 16 in char_of (if d < 10 then 48 + d else 87 + d)]"

definition print_entry :: "u32 \<times> string \<Rightarrow> string" where
  "print_entry e = ''0x'' @ hexdigits 8 (unat (fst e)) @ '' '' @ snd e @ [CHR 0x0A]"

lemma digit_val_hex: "d < 16 \<Longrightarrow> digit_val (char_of (if d < 10 then 48 + d else 87 + d)) = d"
  by (simp add: digit_val_def Let_def)

lemma number_append: "number b (xs @ [c]) = number b xs * b + digit_val c"
  by (simp add: number_def)

lemma number_hex: "number 16 (hexdigits k n) = n mod 16 ^ k"
proof (induction k arbitrary: n)
  case (Suc k)
  have "number 16 (hexdigits (Suc k) n) = (n div 16 mod 16 ^ k) * 16 + n mod 16"
    using Suc digit_val_hex [of "n mod 16"] by (simp add: number_append Let_def)
  also have "\<dots> = n mod 16 ^ Suc k" by (simp add: mod_mult2_eq mult.commute)
  finally show ?case .
qed (simp add: number_def)

lemma hexdigits_val: "c \<in> set (hexdigits k n) \<Longrightarrow> digit_val c < 16"
  using digit_val_hex by (induction k arbitrary: n) (auto simp: Let_def)

lemma length_hexdigits [simp]: "length (hexdigits k n) = k"
  by (induction k arbitrary: n) auto

lemma strtoul_hex:
  assumes "32 \<le> bits"
  shows "strtoul bits (''0x'' @ hexdigits 8 (unat (w :: u32))) = (unat w, [])"
proof -
  obtain d ds where h: "hexdigits 8 (unat w) = d # ds" by (cases "hexdigits 8 (unat w)") (metis length_hexdigits list.size(3) zero_neq_numeral, blast)
  have hex: "list_all (\<lambda>c. digit_val c < 16) (d # ds)" using hexdigits_val [of _ 8 "unat w"] h by (auto simp: list_all_iff)
  then have tw: "takeWhile (\<lambda>c. digit_val c < 16) ds = ds" by (simp add: list_all_iff takeWhile_eq_all_conv)
  have "unat w < 2 ^ 32" using u32_lt by simp
  also have "(2::nat) ^ 32 \<le> 2 ^ bits" using assms by (intro power_increasing) simp_all
  finally have lt: "unat w < 2 ^ bits" .
  have n: "number 16 (d # ds) = unat w" using number_hex [of 8 "unat w"] h u32_lt [of w] by simp
  have sp: "\<not> isspace (CHR ''0'')" by (simp add: isspace_def)
  show ?thesis unfolding strtoul_def h using sp hex n lt by (simp add: Let_def tw)
qed

text \<open>A printed entry is read as one entry; what follows it is the rest of the file.\<close>

definition readable :: "(string \<Rightarrow> u16) \<Rightarrow> string \<Rightarrow> bool" where
  "readable KEYCODE n = (n \<in> set linux_keys \<and> KEYCODE n \<noteq> 0)"

lemma linux_keys_tokens: "list_all (\<lambda>n. n \<noteq> [] \<and> list_all (in_token WHITESPACE) n) linux_keys"
  by code_simp

lemma key_readable: "readable KEYCODE n \<Longrightarrow> key KEYCODE n = KEYCODE n"
  by (auto simp: readable_def key_def find_None_iff find_Some_iff split: option.splits)


lemma in_token_digit: "digit_val c < 16 \<Longrightarrow> in_token WHITESPACE c"
  by (auto simp: in_token_def WHITESPACE_def digit_val_def)

lemma readable_name: "readable KEYCODE n \<Longrightarrow> n \<noteq> [] \<and> list_all (in_token WHITESPACE) n"
  using linux_keys_tokens by (auto simp: readable_def list_all_iff)

lemma takeWhile_token: "list_all P xs \<Longrightarrow> \<not> P c \<Longrightarrow> takeWhile P (xs @ c # r) = xs \<and> dropWhile P (xs @ c # r) = c # r"
  by (induction xs) auto

lemma not_delim: "in_token d c \<Longrightarrow> \<not> at_delim d c"
  by (simp add: in_token_def at_delim_def)

lemma token_chars: "in_token WHITESPACE (CHR ''0'')" "in_token WHITESPACE (CHR ''x'')" "\<not> in_token WHITESPACE (CHR '' '')"
  "\<not> in_token WHITESPACE (CHR 0x0A)" "at_delim WHITESPACE (CHR '' '')"
  by (simp_all add: in_token_def at_delim_def WHITESPACE_def)

text \<open>The tokens of a printed line.\<close>

lemma entry_tokens:
  assumes "readable KEYCODE n"
  shows "takeWhile (in_token WHITESPACE) (print_entry (c, n) @ rest) = ''0x'' @ hexdigits 8 (unat c)"
    "dropWhile (in_token WHITESPACE) (print_entry (c, n) @ rest) = CHR '' '' # n @ CHR 0x0A # rest"
    "dropWhile (at_delim WHITESPACE) (CHR '' '' # n @ CHR 0x0A # rest) = n @ CHR 0x0A # rest"
    "takeWhile (in_token WHITESPACE) (n @ CHR 0x0A # rest) = n"
    "dropWhile (in_token WHITESPACE) (n @ CHR 0x0A # rest) = CHR 0x0A # rest"
proof -
  have "list_all (in_token WHITESPACE) (''0x'' @ hexdigits 8 (unat c))"
    using hexdigits_val in_token_digit token_chars by (auto simp: list_all_iff)
  from takeWhile_token [OF this token_chars(3), of "n @ CHR 0x0A # rest"]
  show "takeWhile (in_token WHITESPACE) (print_entry (c, n) @ rest) = ''0x'' @ hexdigits 8 (unat c)"
    "dropWhile (in_token WHITESPACE) (print_entry (c, n) @ rest) = CHR '' '' # n @ CHR 0x0A # rest"
    by (simp_all add: print_entry_def)
  obtain d ds where n: "n = d # ds" "in_token WHITESPACE d" using readable_name [OF assms] by (cases n) auto
  then show "dropWhile (at_delim WHITESPACE) (CHR '' '' # n @ CHR 0x0A # rest) = n @ CHR 0x0A # rest"
    using not_delim token_chars by simp
  from takeWhile_token [OF conjunct2 [OF readable_name [OF assms]] token_chars(4)]
  show "takeWhile (in_token WHITESPACE) (n @ CHR 0x0A # rest) = n" "dropWhile (in_token WHITESPACE) (n @ CHR 0x0A # rest) = CHR 0x0A # rest"
    by simp_all
qed

lemma parseKey_entry:
  assumes "readable KEYCODE n" "32 \<le> bits"
  shows "parseKey KEYCODE bits string_tokenizer m (print_entry (c, n) @ rest) =
    (if map_of m c = None then (NO_ERROR, kv_add c (KEYCODE n) m, CHR 0x0A # rest) else (BAD_VALUE, m, CHR '' '' # n @ CHR 0x0A # rest))"
proof -
  have k: "key KEYCODE n \<noteq> 0" "key KEYCODE n = KEYCODE n" using key_readable [OF assms(1)] assms(1) by (simp_all add: readable_def)
  note str = strtoul_hex [OF assms(2), of c]
  show ?thesis
    unfolding parseKey_def string_tokenizer_simps entry_tokens [OF assms(1)] str Let_def case_prod_conv using k
    by (simp only: entry_tokens [OF assms(1)]) simp
qed

lemma parse_entry:
  assumes "readable KEYCODE n" "32 \<le> bits"
  shows "parse KEYCODE bits string_tokenizer m (print_entry (c, n) @ rest) =
    (if map_of m c = None then parse KEYCODE bits string_tokenizer (kv_add c (KEYCODE n) m) rest else Some (BAD_VALUE, m))"
proof -
  obtain u where u: "print_entry (c, n) @ rest = CHR ''0'' # u" by (simp add: print_entry_def)
  have s: "skipDelimiters string_tokenizer WHITESPACE (print_entry (c, n) @ rest) = print_entry (c, n) @ rest"
    unfolding u using not_delim [OF token_chars(1)] by simp
  have ne: "\<not> isEof string_tokenizer (print_entry (c, n) @ rest)"
    "\<not> isEol string_tokenizer (print_entry (c, n) @ rest) \<and> peekChar string_tokenizer (print_entry (c, n) @ rest) \<noteq> CHR ''#''"
    unfolding u by simp_all
  show ?thesis
    unfolding parse.simps [of KEYCODE bits string_tokenizer m "print_entry (c, n) @ rest"] if_not_P [OF ne(1)] Let_def s if_P [OF ne(2)]
      parseKey_entry [OF assms]
    by (simp add: next_line_def)
qed

lemma parse_entries:
  assumes "32 \<le> bits"
  shows "distinct (map fst es) \<Longrightarrow> list_all (\<lambda>e. readable KEYCODE (snd e)) es \<Longrightarrow> \<forall>c \<in> set (map fst es). map_of m c = None \<Longrightarrow>
    parse KEYCODE bits string_tokenizer m (concat (map print_entry es) @ rest) =
    parse KEYCODE bits string_tokenizer (foldl (\<lambda>m (c, n). kv_add c (KEYCODE n) m) m es) rest"
proof (induction es arbitrary: m)
  case (Cons e es)
  obtain c n where e: "e = (c, n)" by fastforce
  have "\<forall>x \<in> set (map fst es). map_of (kv_add c (KEYCODE n) m) x = None"
    using Cons.prems e by (auto simp: map_of_kv_add)
  with Cons.IH [of "kv_add c (KEYCODE n) m"] Cons.prems e parse_entry [of KEYCODE n bits m c "concat (map print_entry es) @ rest"] assms
  show ?case by simp
qed simp

lemma get_entries:
  "distinct (map fst es) \<Longrightarrow> map_get (foldl (\<lambda>m (c, n). kv_add c (KEYCODE n) m) m es) c =
    (case map_of es c of Some n \<Rightarrow> KEYCODE n | None \<Rightarrow> map_get m c)"
proof (induction es arbitrary: m)
  case (Cons e es)
  obtain c' n where e: "e = (c', n)" by fastforce
  have "map_of es c' = None" using Cons.prems e by (simp add: map_of_eq_None_iff)
  then show ?case using Cons.IH [of "kv_add c' (KEYCODE n) m"] Cons.prems e by (cases "c = c'") (simp_all split: option.split)
qed simp

text \<open>
  C29: A key map written as one line per entry, an eight digit hexadecimal code and a known key
  name, with no code twice, is loaded without error, and afterwards every code is mapped to the
  key named for it and every other code to no key.
\<close>

theorem ir_map_roundtrip:
  assumes laws: "tokenizer_laws tk remaining" and t: "remaining t = concat (map print_entry es)" and bits: "32 \<le> bits"
    and es: "distinct (map fst es)" "list_all (\<lambda>e. readable KEYCODE (snd e)) es"
  shows "\<exists>m. load KEYCODE bits tk (Inr t) = Some (NO_ERROR, Some m)
    \<and> (\<forall>c. map_get m c = (case map_of es c of Some n \<Rightarrow> KEYCODE n | None \<Rightarrow> 0))"
proof -
  let ?m = "foldl (\<lambda>m (c, n). kv_add c (KEYCODE n) m) [] es"
  have "parse KEYCODE bits string_tokenizer [] (remaining t) = Some (NO_ERROR, ?m)"
    using parse_entries [OF bits es, of "[]" "[]"] parse.simps [of KEYCODE bits string_tokenizer ?m "[]"] t by simp
  with tokenizer_laws.parse_string [OF laws, of KEYCODE bits "[]" t] have "parse KEYCODE bits tk [] t = Some (NO_ERROR, ?m)" by auto
  moreover have "map_get [] c = 0" for c by (simp add: map_get_def)
  ultimately show ?thesis using get_entries [OF es(1), of KEYCODE "[]"]
    by (intro exI [of _ ?m]) (simp add: load_def split: option.split)
qed

text \<open>
  A file that names a code a second time is refused and no map is handed out, whatever follows.
\<close>

theorem ir_map_duplicate:
  assumes laws: "tokenizer_laws tk remaining" and bits: "32 \<le> bits" and "c \<in> set (map fst es)"
    and t: "remaining t = concat (map print_entry es) @ print_entry (c, n) @ rest" and n: "readable KEYCODE n"
    and es: "distinct (map fst es)" "list_all (\<lambda>e. readable KEYCODE (snd e)) es"
  shows "load KEYCODE bits tk (Inr t) = Some (BAD_VALUE, None)"
proof -
  let ?m = "foldl (\<lambda>m (c, n). kv_add c (KEYCODE n) m) [] es"
  have dom: "dom (map_of (foldl (\<lambda>m (c, n). kv_add c (KEYCODE n) m) m es)) = dom (map_of m) \<union> set (map fst es)" for m
    by (induction es arbitrary: m) (auto simp: map_of_kv_add)
  have "\<exists>k. map_of ?m c = Some k" using dom [of "[]"] assms(3) by (auto simp del: set_map)
  then have "parse KEYCODE bits string_tokenizer [] (remaining t) = Some (BAD_VALUE, ?m)"
    using parse_entries [OF bits es, of "[]" "print_entry (c, n) @ rest"] parse_entry [OF n bits, of ?m c rest] t by auto
  with tokenizer_laws.parse_string [OF laws, of KEYCODE bits "[]" t] show ?thesis by (auto simp: load_def)
qed

theorem ir_map_roundtrip_witness:
  "\<exists>m. load (\<lambda>_. 7) 64 string_tokenizer (Inr (print_entry (0xd012, ''ESC'') @ print_entry (0xf001, ''1''))) = Some (NO_ERROR, Some m)
     \<and> map_get m 0xf001 = 7 \<and> map_get m 5 = 0"
  using ir_map_roundtrip [OF string_tok.tokenizer_laws_axioms, of "print_entry (0xd012, ''ESC'') @ print_entry (0xf001, ''1'')"
      "[(0xd012, ''ESC''), (0xf001, ''1'')]" 64 "\<lambda>_. 7"]
  by (auto simp: readable_def linux_keys_def)

theorem ir_map_duplicate_witness:
  "load (\<lambda>_. 7) 64 string_tokenizer (Inr (print_entry (0xd012, ''ESC'') @ print_entry (0xd012, ''1''))) = Some (BAD_VALUE, None)"
  by (rule ir_map_duplicate [OF string_tok.tokenizer_laws_axioms, of _ "0xd012" "[(0xd012, ''ESC'')]" _ "''1''" "[]"])
    (simp_all add: readable_def linux_keys_def)

end
