(* ===== verification/Ir_Handler.thy ===== *)
theory Ir_Handler
  imports Ir_Map
begin

unbundle bit_operations_syntax

text \<open>
  \<open>nxif/libnexusir/nexusirhandler.cpp\<close>, \<open>nexusirinput.cpp\<close> and \<open>linuxuinput.cpp\<close>: from infrared codes
  to key events. Nexus delivers codes, \<open>signal\<close> hands them to the key thread, and the thread emits
  presses and releases to the kernel's uinput device. What Nexus, the kernel and the properties
  answer is the record \<open>ir_env\<close>, which may depend on the log of calls so far; a null pointer
  dereference is \<open>None\<close>.
\<close>

section \<open>Data\<close>

datatype ir_call =
    UOpen | UWriteDevice | UCreate | UDestroy | UClose | USetEvent | USetKey u16
  | UKey u16 bool | USyn | UWriteFailed
  | IrOpen | IrClose | IrReadEvent | IrSetFilter "u32 \<times> u64 \<times> bool" "u32 \<times> u64 \<times> bool" | IrGetEvents
  | SetWakeupProperty bool | RunThread | JoinThread

record ir_event =
  ev_code :: u32
  ev_repeat :: bool
  ev_interval :: u32

record ir_env =
  open_fd :: "ir_call list \<Rightarrow> int"
  write_ok :: "ir_call list \<Rightarrow> bool"
  ioctl_ok :: "ir_call list \<Rightarrow> bool"
  IrInput_Open :: "ir_call list \<Rightarrow> nat"
  IrInput_ReadEvent :: "ir_call list \<Rightarrow> u32 option"
  woken_from_sleep :: "ir_call list \<Rightarrow> bool"
  boot_completed :: "ir_call list \<Rightarrow> bool"
  prop_initial_timeout :: u32
  prop_timeout :: u32
  mode_timeout :: u32
  prop_wakeup_button :: u32
  thread_run :: "ir_call list \<Rightarrow> bool"

definition NEXUSIRINPUT_NO_KEY :: u32 where "NEXUSIRINPUT_NO_KEY = 0xDEADC0DE"

text \<open>Where the key thread is: before taking the lock, waiting (with a timeout or not), notified, or ended.\<close>

datatype th_pc = ThTop | ThWaiting bool | ThNotified | ThEnded

text \<open>
  The handler with its parts: the uinput descriptor, the Nexus input and the key thread, whose local
  variable \<open>timeout\<close> is \<open>th_timeout\<close>.
\<close>

record ir_handler =
  m_fd :: int
  m_handle :: nat
  m_observer :: bool
  m_power_key :: u32
  m_power_key_two :: u32
  m_mask :: u64
  m_mask_two :: u64
  m_clear_on_boot :: bool
  m_map :: "NexusIrMap option"
  m_old_key :: u16
  m_key :: u16
  m_repeat :: bool
  m_interval :: u32
  m_initial_timeout :: nat
  m_timeout :: nat
  m_wakeup_key :: u32
  th_timeout :: nat
  exitPending :: bool
  pc :: th_pc
  ir_log :: "ir_call list"

definition ir_emit :: "ir_call \<Rightarrow> ir_handler \<Rightarrow> ir_handler" where
  "ir_emit c s = s\<lparr>ir_log := ir_log s @ [c]\<rparr>"

section \<open>The uinput device\<close>

definition uinput_open :: "ir_env \<Rightarrow> ir_handler \<Rightarrow> bool \<times> ir_handler" where
  "uinput_open env s = (let s' = (ir_emit UOpen s)\<lparr>m_fd := open_fd env (ir_log s)\<rparr> in (m_fd s' \<noteq> -1, s'))"

definition uinput_stop :: "ir_handler \<Rightarrow> ir_handler" where
  "uinput_stop s = (if m_fd s \<noteq> -1 then ir_emit UDestroy s else s)"

definition uinput_close :: "ir_handler \<Rightarrow> ir_handler" where
  "uinput_close s = (if m_fd s \<noteq> -1 then (ir_emit UClose (uinput_stop s))\<lparr>m_fd := -1\<rparr> else s)"

definition uinput_start :: "ir_env \<Rightarrow> ir_handler \<Rightarrow> bool \<times> ir_handler" where
  "uinput_start env s =
     (let ok = write_ok env (ir_log s); s = ir_emit UWriteDevice s in
      if \<not> ok then (False, uinput_stop s)
      else
        let ok = ioctl_ok env (ir_log s); s = ir_emit UCreate s in
        if \<not> ok then (False, uinput_stop s) else (True, s))"

definition register_event :: "ir_env \<Rightarrow> ir_handler \<Rightarrow> bool \<times> ir_handler" where
  "register_event env s = (ioctl_ok env (ir_log s), ir_emit USetEvent s)"

definition register_key :: "ir_env \<Rightarrow> u16 \<Rightarrow> ir_handler \<Rightarrow> bool \<times> ir_handler" where
  "register_key env code s = (ioctl_ok env (ir_log s), ir_emit (USetKey code) s)"

text \<open>An event that the kernel does not take is logged as a failed write.\<close>

definition uinput_emit :: "ir_env \<Rightarrow> ir_call \<Rightarrow> ir_handler \<Rightarrow> bool \<times> ir_handler" where
  "uinput_emit env ev s = (let ok = write_ok env (ir_log s) in (ok, ir_emit (if ok then ev else UWriteFailed) s))"

definition emit_syn :: "ir_env \<Rightarrow> ir_handler \<Rightarrow> bool \<times> ir_handler" where
  "emit_syn env s = uinput_emit env USyn s"

definition emit_key_state :: "ir_env \<Rightarrow> u16 \<Rightarrow> bool \<Rightarrow> ir_handler \<Rightarrow> bool \<times> ir_handler" where
  "emit_key_state env code pressed s = uinput_emit env (UKey code pressed) s"

definition and_then :: "bool \<times> ir_handler \<Rightarrow> (ir_handler \<Rightarrow> bool \<times> ir_handler) \<Rightarrow> bool \<times> ir_handler" where
  "and_then r f = (let (ok, s) = r in if ok then f s else (False, s))"

definition emit_key :: "ir_env \<Rightarrow> u16 \<Rightarrow> ir_handler \<Rightarrow> bool \<times> ir_handler" where
  "emit_key env code s =
     and_then (and_then (and_then (emit_key_state env code True s) (emit_syn env)) (emit_key_state env code False)) (emit_syn env)"

section \<open>The Nexus input\<close>

definition irinput_start :: "ir_env \<Rightarrow> u32 \<Rightarrow> u64 \<Rightarrow> u32 \<Rightarrow> u64 \<Rightarrow> ir_handler \<Rightarrow> bool \<times> ir_handler" where
  "irinput_start env power_key msk power_key_two mask_two s =
     (let s = s\<lparr>m_observer := True, m_power_key := power_key, m_power_key_two := power_key_two, m_mask := msk, m_mask_two := mask_two\<rparr>;
          h = IrInput_Open env (ir_log s);
          s = (ir_emit IrOpen s)\<lparr>m_handle := h\<rparr> in
      if h = 0 then (False, s)
      else
        let s = (if woken_from_sleep env (ir_log s) then
                   let ev = IrInput_ReadEvent env (ir_log s); s = ir_emit IrReadEvent s in
                   if ev = Some (m_power_key_two s) then (ir_emit (SetWakeupProperty True) s)\<lparr>m_clear_on_boot := True\<rparr> else s
                 else s);
            s = ir_emit (IrSetFilter (m_power_key s, m_mask s, m_power_key s \<noteq> NEXUSIRINPUT_NO_KEY)
                           (m_power_key_two s, m_mask_two s, m_power_key_two s \<noteq> NEXUSIRINPUT_NO_KEY)) s
        in (True, s))"

definition irinput_stop :: "ir_handler \<Rightarrow> ir_handler" where
  "irinput_stop s =
     (let s = (if m_handle s \<noteq> 0 then (ir_emit IrClose s)\<lparr>m_handle := 0\<rparr> else s) in s\<lparr>m_observer := False\<rparr>)"

definition repeatTimeout :: "ir_env \<Rightarrow> u32" where
  "repeatTimeout env = (if prop_timeout env \<noteq> 0 then prop_timeout env else mode_timeout env)"

definition initialRepeatTimeout :: "ir_env \<Rightarrow> u32" where
  "initialRepeatTimeout env = (if prop_initial_timeout env \<noteq> 0 then prop_initial_timeout env else repeatTimeout env)"

section \<open>The key thread\<close>

definition MS_TO_NS :: "nat \<Rightarrow> nat" where "MS_TO_NS t = t * 1000 * 1000"
definition DEFAULT_TIMEOUT :: nat where "DEFAULT_TIMEOUT = MS_TO_NS 250"

definition setMap :: "NexusIrMap option \<Rightarrow> ir_handler \<Rightarrow> ir_handler" where "setMap m s = s\<lparr>m_map := m\<rparr>"
definition setWakeupKey :: "u32 \<Rightarrow> ir_handler \<Rightarrow> ir_handler" where "setWakeupKey k s = s\<lparr>m_wakeup_key := k\<rparr>"

definition setInitialTimeout :: "u32 \<Rightarrow> ir_handler \<Rightarrow> ir_handler" where
  "setInitialTimeout t s = s\<lparr>m_initial_timeout := (if t \<noteq> 0 then MS_TO_NS (unat t) else DEFAULT_TIMEOUT)\<rparr>"

definition setTimeout :: "u32 \<Rightarrow> ir_handler \<Rightarrow> ir_handler" where
  "setTimeout t s = s\<lparr>m_timeout := (if t \<noteq> 0 then MS_TO_NS (unat t) else DEFAULT_TIMEOUT)\<rparr>"

text \<open>The notification reaches the thread only while it waits.\<close>

definition ir_signal :: "u32 \<Rightarrow> bool \<Rightarrow> u32 \<Rightarrow> ir_handler \<Rightarrow> ir_handler option" where
  "ir_signal nexus_key repeat interval s =
     (let repeat = (repeat \<and> m_old_key s \<noteq> 0) in
      case (if repeat then Some (m_old_key s) else map_option (\<lambda>m. map_get m nexus_key) (m_map s)) of
        None \<Rightarrow> None
      | Some k \<Rightarrow>
          Some (s\<lparr>m_key := k, m_repeat := repeat, m_interval := interval,
                  pc := (case pc s of ThWaiting _ \<Rightarrow> ThNotified | p \<Rightarrow> p)\<rparr>))"

datatype wait_result = WaitOK | WaitTimedOut | WaitError

text \<open>The body of the loop after the wait returned.\<close>

definition key_body :: "ir_env \<Rightarrow> u16 \<Rightarrow> wait_result \<Rightarrow> ir_handler \<Rightarrow> ir_handler" where
  "key_body env KEY_WAKEUP res s =
     (let s = (case res of
                 WaitOK \<Rightarrow> s\<lparr>th_timeout := m_timeout s\<rparr>
               | WaitTimedOut \<Rightarrow> s\<lparr>m_key := 0, m_repeat := False, m_interval := 0\<rparr>
               | WaitError \<Rightarrow> s);
          key_event = ((res = WaitOK \<or> res = WaitTimedOut) \<and> \<not> m_repeat s \<and> \<not> exitPending s) in
      if key_event then
        let s = (if m_old_key s \<noteq> 0 then snd (and_then (emit_key_state env (m_old_key s) False s) (emit_syn env)) else s);
            s = (if m_wakeup_key s \<noteq> 0 \<and> ucast (m_key s) = m_wakeup_key s then snd (emit_key env KEY_WAKEUP s) else s);
            s = (if m_key s \<noteq> 0
                 then (snd (and_then (emit_key_state env (m_key s) True s) (emit_syn env)))\<lparr>th_timeout := m_initial_timeout s\<rparr>
                 else s)
        in s\<lparr>m_old_key := m_key s\<rparr>
      else s)"

text \<open>
  The steps of the thread and of those that signal it. Between two iterations the lock is free and
  the thread does not wait yet (\<open>ThTop\<close>).
\<close>

inductive thread_step :: "ir_env \<Rightarrow> u16 \<Rightarrow> ir_handler \<Rightarrow> ir_handler \<Rightarrow> bool" for env KEY_WAKEUP where
  lock_wait: "pc s = ThTop \<Longrightarrow> thread_step env KEY_WAKEUP s (s\<lparr>pc := ThWaiting (m_key s \<noteq> 0)\<rparr>)"
| wake: "pc s = ThNotified \<Longrightarrow> thread_step env KEY_WAKEUP s ((key_body env KEY_WAKEUP WaitOK s)\<lparr>pc := ThTop\<rparr>)"
| spurious: "pc s = ThWaiting b \<Longrightarrow> thread_step env KEY_WAKEUP s ((key_body env KEY_WAKEUP WaitOK s)\<lparr>pc := ThTop\<rparr>)"
| timeout: "pc s = ThWaiting True \<Longrightarrow> thread_step env KEY_WAKEUP s ((key_body env KEY_WAKEUP WaitTimedOut s)\<lparr>pc := ThTop\<rparr>)"
| wait_error: "pc s = ThWaiting b \<Longrightarrow> thread_step env KEY_WAKEUP s ((key_body env KEY_WAKEUP WaitError s)\<lparr>pc := ThTop\<rparr>)"
| request_exit: "thread_step env KEY_WAKEUP s (s\<lparr>exitPending := True\<rparr>)"
| ended: "pc s = ThTop \<Longrightarrow> thread_step env KEY_WAKEUP s (s\<lparr>pc := ThEnded\<rparr>)"

inductive ir_step :: "ir_env \<Rightarrow> u16 \<Rightarrow> ir_handler \<Rightarrow> ir_handler \<Rightarrow> bool" for env KEY_WAKEUP where
  sig: "ir_signal k r i s = Some s' \<Longrightarrow> ir_step env KEY_WAKEUP s s'"
| thread: "thread_step env KEY_WAKEUP s s' \<Longrightarrow> ir_step env KEY_WAKEUP s s'"

text \<open>Runs in which no code arrives while the thread is between two iterations.\<close>

inductive delivered_step :: "ir_env \<Rightarrow> u16 \<Rightarrow> ir_handler \<Rightarrow> ir_handler \<Rightarrow> bool" for env KEY_WAKEUP where
  sig: "pc s \<noteq> ThTop \<Longrightarrow> ir_signal k r i s = Some s' \<Longrightarrow> delivered_step env KEY_WAKEUP s s'"
| thread: "thread_step env KEY_WAKEUP s s' \<Longrightarrow> delivered_step env KEY_WAKEUP s s'"

section \<open>Events from Nexus\<close>

text \<open>
  The loop of \<open>dataReady\<close>: \<open>answers\<close> are the results of \<open>NEXUS_IrInput_GetEvents\<close>: the event if
  there was one, and whether the call succeeded. \<open>None\<close>: the answers ran out, or a null pointer.
\<close>

fun data_loop :: "(ir_event option \<times> bool) list \<Rightarrow> bool \<Rightarrow> ir_handler \<Rightarrow> (bool \<times> ir_handler) option" where
  "data_loop [] wakeup s = None"
| "data_loop ((ev, rc) # rest) wakeup s =
     (let s = ir_emit IrGetEvents s in
      case ev of
        None \<Rightarrow> Some (wakeup, s)
      | Some e \<Rightarrow>
          if \<not> m_observer s then None
          else case ir_signal (ucast (ucast (ev_code e) AND NOT (m_mask s))) (ev_repeat e) (ev_interval e) s of
            None \<Rightarrow> None
          | Some s \<Rightarrow>
              let hit = (ev_code e = m_power_key s \<or> ev_code e = m_power_key_two s);
                  s = (if ev_code e = m_power_key s then s\<lparr>m_clear_on_boot := True\<rparr> else s) in
              if rc then data_loop rest (wakeup \<or> hit) s else Some (wakeup \<or> hit, s))"

definition dataReady :: "ir_env \<Rightarrow> (ir_event option \<times> bool) list \<Rightarrow> ir_handler \<Rightarrow> ir_handler option" where
  "dataReady env answers s =
     map_option (\<lambda>(wakeupKeyReceived, s).
         if m_clear_on_boot s \<and> \<not> wakeupKeyReceived \<and> boot_completed env (ir_log s)
         then (ir_emit (SetWakeupProperty False) s)\<lparr>m_clear_on_boot := False\<rparr> else s)
       (data_loop answers False s)"

section \<open>Starting and stopping\<close>

definition handler_stop :: "ir_handler \<Rightarrow> ir_handler option" where
  "handler_stop s =
     map_option (\<lambda>s. uinput_close (uinput_stop (irinput_stop (setMap None (ir_emit JoinThread s)))))
       (ir_signal NEXUSIRINPUT_NO_KEY False 0 (s\<lparr>exitPending := True\<rparr>))"

text \<open>The loop over the map registers every key; it stops at the first failure.\<close>

fun register_keys :: "ir_env \<Rightarrow> u16 \<Rightarrow> u16 \<Rightarrow> u32 \<Rightarrow> NexusIrMap \<Rightarrow> bool \<times> u32 \<times> u32 \<times> ir_handler \<Rightarrow> bool \<times> u32 \<times> u32 \<times> ir_handler" where
  "register_keys env KEY_POWER KEY_WAKEUP wakeup_key [] r = r"
| "register_keys env KEY_POWER KEY_WAKEUP wakeup_key ((code, k) # es) (success, power_key, power_key_two, s) =
     (if \<not> success then (success, power_key, power_key_two, s)
      else
        let power_key = (if k = KEY_POWER then code else power_key);
            (success, power_key_two, s) =
              (if wakeup_key \<noteq> 0 \<and> ucast k = wakeup_key
               then let (ok, s) = register_key env KEY_WAKEUP s in (ok, code, s)
               else (success, power_key_two, s));
            (success, s) = (if success then register_key env k s else (False, s))
        in register_keys env KEY_POWER KEY_WAKEUP wakeup_key es (success, power_key, power_key_two, s))"

definition handler_start ::
  "ir_env \<Rightarrow> u16 \<Rightarrow> u16 \<Rightarrow> NexusIrMap option \<Rightarrow> u64 \<Rightarrow> u64 \<Rightarrow> ir_handler \<Rightarrow> (bool \<times> ir_handler) option" where
  "handler_start env KEY_POWER KEY_WAKEUP irmap msk mask_two s =
     (let (success, s) = (if irmap \<noteq> None then and_then (uinput_open env s) (register_event env) else (False, s)) in
      case irmap of
        None \<Rightarrow> None
      | Some m \<Rightarrow>
          let wakeup_key = prop_wakeup_button env;
              (success, power_key, power_key_two, s) =
                register_keys env KEY_POWER KEY_WAKEUP wakeup_key m (success, NEXUSIRINPUT_NO_KEY, NEXUSIRINPUT_NO_KEY, s);
              (success, s) = (if success then and_then (uinput_start env s) (irinput_start env power_key msk power_key_two mask_two)
                              else (False, s));
              s = setWakeupKey wakeup_key (setTimeout (repeatTimeout env) (setInitialTimeout (initialRepeatTimeout env) (setMap (Some m) s)));
              (success, s) = (if success then (thread_run env (ir_log s), (ir_emit RunThread s)\<lparr>pc := ThTop, th_timeout := m_timeout s\<rparr>)
                              else (False, s)) in
          if success then Some (True, s)
          else map_option (\<lambda>s. (False, s)) (handler_stop s))"

section \<open>What the kernel sees\<close>

text \<open>The key held down after a log of events; \<open>None\<close> when a press or release does not fit.\<close>

fun held :: "ir_call list \<Rightarrow> u16 option \<Rightarrow> u16 option option" where
  "held [] h = Some h"
| "held (UKey k True # cs) h = (if h = None then held cs (Some k) else None)"
| "held (UKey k False # cs) h = (if h = Some k then held cs None else None)"
| "held (_ # cs) h = held cs h"

lemma keys_held_append: "held (xs @ ys) h = Option.bind (held xs h) (held ys)"
  by (induction xs h rule: held.induct) auto

definition key_opt :: "u16 \<Rightarrow> u16 option" where
  "key_opt k = (if k = 0 then None else Some k)"

definition writes_ok :: "ir_env \<Rightarrow> bool" where
  "writes_ok env = (\<forall>cs. write_ok env cs)"

definition press_release :: "ir_env \<Rightarrow> u16 \<Rightarrow> wait_result \<Rightarrow> ir_handler \<Rightarrow> ir_call list" where
  "press_release env KEY_WAKEUP res s =
     (let k = (if res = WaitTimedOut then 0 else m_key s) in
      if res \<noteq> WaitError \<and> (res = WaitTimedOut \<or> \<not> m_repeat s) \<and> \<not> exitPending s
      then (if m_old_key s \<noteq> 0 then [UKey (m_old_key s) False, USyn] else [])
           @ (if m_wakeup_key s \<noteq> 0 \<and> ucast k = m_wakeup_key s then [UKey KEY_WAKEUP True, USyn, UKey KEY_WAKEUP False, USyn] else [])
           @ (if k \<noteq> 0 then [UKey k True, USyn] else [])
      else [])"

definition handles :: "wait_result \<Rightarrow> ir_handler \<Rightarrow> bool" where
  "handles res s = (res \<noteq> WaitError \<and> (res = WaitTimedOut \<or> \<not> m_repeat s) \<and> \<not> exitPending s)"

lemma emit_ok:
  assumes "writes_ok env"
  shows "and_then (emit_key_state env k b s) (emit_syn env) = (True, s\<lparr>ir_log := ir_log s @ [UKey k b, USyn]\<rparr>)"
    "emit_key env k s = (True, s\<lparr>ir_log := ir_log s @ [UKey k True, USyn, UKey k False, USyn]\<rparr>)"
  using assms by (simp_all add: emit_key_def emit_key_state_def emit_syn_def and_then_def uinput_emit_def ir_emit_def writes_ok_def Let_def)

text \<open>The body on a key event, and without one.\<close>

lemma key_body_eq:
  assumes "writes_ok env"
  shows "\<exists>t. key_body env W WaitOK s = (if handles WaitOK s
      then s\<lparr>ir_log := ir_log s @ press_release env W WaitOK s, m_old_key := m_key s, th_timeout := t\<rparr>
      else s\<lparr>th_timeout := t\<rparr>)"
    "key_body env W WaitTimedOut s = (if handles WaitTimedOut s
      then s\<lparr>m_key := 0, m_repeat := False, m_interval := 0, ir_log := ir_log s @ press_release env W WaitTimedOut s, m_old_key := 0\<rparr>
      else s\<lparr>m_key := 0, m_repeat := False, m_interval := 0\<rparr>)"
    "key_body env W WaitError s = s"
proof -
  show "\<exists>t. key_body env W WaitOK s = (if handles WaitOK s
      then s\<lparr>ir_log := ir_log s @ press_release env W WaitOK s, m_old_key := m_key s, th_timeout := t\<rparr>
      else s\<lparr>th_timeout := t\<rparr>)"
    unfolding key_body_def press_release_def handles_def emit_ok [OF assms] Let_def
    by (intro exI [of _ "if m_key s \<noteq> 0 \<and> \<not> m_repeat s \<and> \<not> exitPending s then m_initial_timeout s else m_timeout s"]) auto
  show "key_body env W WaitTimedOut s = (if handles WaitTimedOut s
      then s\<lparr>m_key := 0, m_repeat := False, m_interval := 0, ir_log := ir_log s @ press_release env W WaitTimedOut s, m_old_key := 0\<rparr>
      else s\<lparr>m_key := 0, m_repeat := False, m_interval := 0\<rparr>)"
    unfolding key_body_def press_release_def handles_def emit_ok [OF assms] Let_def by auto
  show "key_body env W WaitError s = s" by (simp add: key_body_def)
qed

lemma key_body_effect:
  assumes "writes_ok env"
  shows "ir_log (key_body env W res s) = ir_log s @ press_release env W res s"
    "m_old_key (key_body env W res s) = (if handles res s then (if res = WaitTimedOut then 0 else m_key s) else m_old_key s)"
    "m_key (key_body env W res s) = (if res = WaitTimedOut then 0 else m_key s)"
    "m_map (key_body env W res s) = m_map s" "exitPending (key_body env W res s) = exitPending s"
proof -
  have none: "\<not> handles res s \<Longrightarrow> press_release env W res s = []" by (auto simp: handles_def press_release_def Let_def)
  obtain t where "key_body env W WaitOK s = (if handles WaitOK s
      then s\<lparr>ir_log := ir_log s @ press_release env W WaitOK s, m_old_key := m_key s, th_timeout := t\<rparr>
      else s\<lparr>th_timeout := t\<rparr>)" using key_body_eq(1) [OF assms] by blast
  note eqs = this key_body_eq(2,3) [OF assms, of W s]
  have e: "\<not> handles WaitError s" by (simp add: handles_def)
  show "ir_log (key_body env W res s) = ir_log s @ press_release env W res s" using none e by (cases res) (simp_all add: eqs)
  show "m_old_key (key_body env W res s) = (if handles res s then (if res = WaitTimedOut then 0 else m_key s) else m_old_key s)"
    using e by (cases res) (simp_all add: eqs)
  show "m_key (key_body env W res s) = (if res = WaitTimedOut then 0 else m_key s)" by (cases res) (simp_all add: eqs)
  show "m_map (key_body env W res s) = m_map s" by (cases res) (simp_all add: eqs)
  show "exitPending (key_body env W res s) = exitPending s" by (cases res) (simp_all add: eqs)
qed

lemma held_press_release:
  assumes "held (ir_log s) None = Some (key_opt (m_old_key s))"
  shows "held (ir_log s @ press_release env W res s) None
    = Some (key_opt (if handles res s then (if res = WaitTimedOut then 0 else m_key s) else m_old_key s))"
  using assms by (simp add: keys_held_append press_release_def handles_def key_opt_def Let_def)

text \<open>The part of the invariant that every step keeps.\<close>

definition keys_inv :: "ir_handler \<Rightarrow> bool" where
  "keys_inv s = (held (ir_log s) None = Some (key_opt (m_old_key s)))"

lemma signal_keeps:
  "ir_signal k r i s = Some s' \<Longrightarrow> ir_log s' = ir_log s \<and> m_old_key s' = m_old_key s \<and> m_map s' = m_map s \<and> exitPending s' = exitPending s"
  by (auto simp: ir_signal_def Let_def split: if_splits option.splits)

lemma thread_step_keys:
  assumes "writes_ok env" "thread_step env W s s'" "keys_inv s"
  shows "keys_inv s'"
  using assms(2,3)
  by (induction rule: thread_step.induct) (auto simp: keys_inv_def key_body_effect [OF assms(1)] held_press_release)

lemma ir_step_keys: "writes_ok env \<Longrightarrow> ir_step env W s s' \<Longrightarrow> keys_inv s \<Longrightarrow> keys_inv s'"
  by (auto elim!: ir_step.cases dest: signal_keeps thread_step_keys simp: keys_inv_def)



section \<open>Held keys are released\<close>

definition wait_inv :: "ir_handler \<Rightarrow> bool" where
  "wait_inv s = ((m_repeat s \<longrightarrow> m_key s = m_old_key s) \<and>
     (\<not> exitPending s \<longrightarrow> pc s = ThTop \<or> (\<exists>b. pc s = ThWaiting b) \<longrightarrow> m_key s = m_old_key s) \<and>
     (\<forall>b. pc s = ThWaiting b \<longrightarrow> b = (m_key s \<noteq> 0)))"

lemma m_repeat_body:
  assumes "writes_ok env"
  shows "m_repeat (key_body env W res s) = (if res = WaitTimedOut then False else m_repeat s)"
proof -
  obtain t where "key_body env W WaitOK s = (if handles WaitOK s
      then s\<lparr>ir_log := ir_log s @ press_release env W WaitOK s, m_old_key := m_key s, th_timeout := t\<rparr>
      else s\<lparr>th_timeout := t\<rparr>)" using key_body_eq(1) [OF assms] by blast
  with key_body_eq(2,3) [OF assms, of W s] show ?thesis by (cases res) simp_all
qed

lemma wait_inv_body:
  assumes "writes_ok env" "wait_inv s" "pc s = ThNotified \<or> (\<exists>b. pc s = ThWaiting b)" "res = WaitError \<longrightarrow> pc s \<noteq> ThNotified"
  shows "wait_inv ((key_body env W res s)\<lparr>pc := ThTop\<rparr>)"
  using assms(2-4) unfolding wait_inv_def
  by (cases res) (auto simp: key_body_effect [OF assms(1)] m_repeat_body [OF assms(1)] handles_def)

lemma wait_inv_thread:
  assumes "writes_ok env" "thread_step env W s s'" "wait_inv s"
  shows "wait_inv s'"
  using assms(2,3)
proof (induction rule: thread_step.induct)
  case (wake s)
  then show ?case by (intro wait_inv_body assms(1)) simp_all
next
  case (spurious s b)
  then show ?case by (intro wait_inv_body assms(1)) simp_all
next
  case (timeout s)
  then show ?case by (intro wait_inv_body assms(1)) auto
next
  case (wait_error s b)
  then show ?case by (intro wait_inv_body assms(1)) simp_all
qed (auto simp: wait_inv_def)

lemma wait_inv_signal: "pc s \<noteq> ThTop \<Longrightarrow> ir_signal k r i s = Some s' \<Longrightarrow> wait_inv s \<Longrightarrow> wait_inv s'"
  by (auto simp: ir_signal_def wait_inv_def Let_def split: if_splits option.splits th_pc.splits)

lemma delivered_inv:
  assumes "writes_ok env" "(delivered_step env W)\<^sup>*\<^sup>* s s'" "keys_inv s" "wait_inv s"
  shows "keys_inv s' \<and> wait_inv s'"
  using assms(2-4)
  by (induction rule: rtranclp_induct)
    (auto elim!: delivered_step.cases dest: wait_inv_signal wait_inv_thread [OF assms(1)] thread_step_keys [OF assms(1)] ir_step_keys [OF assms(1) ir_step.sig])


section \<open>Lost codes\<close>

definition demo_map :: NexusIrMap where "demo_map = [(0x10, 30), (0x20, 31)]"

definition demo_ir :: ir_handler where
  "demo_ir = \<lparr>m_fd = 3, m_handle = 7, m_observer = True, m_power_key = 0, m_power_key_two = 0, m_mask = 0, m_mask_two = 0,
     m_clear_on_boot = False, m_map = Some demo_map, m_old_key = 0, m_key = 0, m_repeat = False, m_interval = 0,
     m_initial_timeout = 250, m_timeout = 250, m_wakeup_key = 0, th_timeout = 250, exitPending = False, pc = ThTop, ir_log = []\<rparr>"

definition demo_ir_env :: ir_env where
  "demo_ir_env = \<lparr>open_fd = (\<lambda>_. 3), write_ok = (\<lambda>_. True), ioctl_ok = (\<lambda>_. True), IrInput_Open = (\<lambda>_. 7), IrInput_ReadEvent = (\<lambda>_. None),
     woken_from_sleep = (\<lambda>_. False), boot_completed = (\<lambda>_. True), prop_initial_timeout = 0, prop_timeout = 0, mode_timeout = 250,
     prop_wakeup_button = 0, thread_run = (\<lambda>_. True)\<rparr>"

lemma demo_ir_writes [simp]: "writes_ok demo_ir_env"
  by (simp add: writes_ok_def demo_ir_env_def)

text \<open>The first key pressed: the thread waits, is notified and emits the press.\<close>

definition demo_pressed :: ir_handler where
  "demo_pressed = demo_ir\<lparr>m_key := 30, m_old_key := 30, ir_log := [UKey 30 True, USyn]\<rparr>"

lemma demo_pressed_reach: "(delivered_step demo_ir_env W)\<^sup>*\<^sup>* demo_ir demo_pressed"
proof -
  let ?w = "demo_ir\<lparr>pc := ThWaiting False\<rparr>" and ?n = "demo_ir\<lparr>pc := ThNotified, m_key := 30\<rparr>"
  have 1: "thread_step demo_ir_env W demo_ir ?w" using thread_step.lock_wait [of demo_ir demo_ir_env W] by (simp add: demo_ir_def)
  have 2: "ir_signal 0x10 False 0 ?w = Some ?n" by (simp add: ir_signal_def demo_ir_def demo_map_def map_get_def)
  have 3: "thread_step demo_ir_env W ?n demo_pressed"
    using thread_step.wake [of ?n demo_ir_env W]
    by (simp add: demo_ir_def demo_pressed_def key_body_def emit_ok)
  have "delivered_step demo_ir_env W ?w ?n" by (rule delivered_step.sig [OF _ 2]) simp
  with delivered_step.thread [OF 1] delivered_step.thread [OF 3] show ?thesis
    by (meson converse_rtranclp_into_rtranclp r_into_rtranclp)
qed



text \<open>
  A code that arrives between two iterations is not noticed by the thread: if it is one without a key,
  the thread then waits without a timeout although a key is held, so the kernel sees the key
  pressed until the next code arrives.
\<close>

theorem ir_key_stuck:
  "\<exists>s. (ir_step demo_ir_env 143)\<^sup>*\<^sup>* demo_ir s \<and> pc s = ThWaiting False \<and> held (ir_log s) None = Some (Some 30) \<and> \<not> exitPending s"
proof -
  let ?s1 = "demo_pressed\<lparr>m_key := 0\<rparr>" and ?s2 = "demo_pressed\<lparr>m_key := 0, pc := ThWaiting False\<rparr>"
  have "(ir_step demo_ir_env 143)\<^sup>*\<^sup>* demo_ir demo_pressed"
    using demo_pressed_reach [of 143]
    by (rule rtranclp_mono [THEN predicate2D, rotated]) (auto elim!: delivered_step.cases intro: ir_step.intros)
  moreover have "ir_signal 0x99 False 0 demo_pressed = Some ?s1"
    by (simp add: ir_signal_def demo_ir_def demo_pressed_def demo_map_def map_get_def)
  moreover have "thread_step demo_ir_env 143 ?s1 ?s2"
    using thread_step.lock_wait [of ?s1 demo_ir_env 143] by (simp add: demo_ir_def demo_pressed_def)
  ultimately have "(ir_step demo_ir_env 143)\<^sup>*\<^sup>* demo_ir ?s2"
    by (meson ir_step.sig ir_step.thread rtranclp.rtrancl_into_rtrancl)
  then show ?thesis by (intro exI [of _ ?s2]) (simp add: demo_pressed_def demo_ir_def)
qed

text \<open>
  A press that is followed by its own repeat before the thread runs is lost while another key is held: the
  repeat is taken for one of the held key, the thread emits nothing, and that key stays pressed.
\<close>

theorem ir_press_lost:
  assumes "writes_ok env" "m_old_key s \<noteq> 0" "m_map s = Some m" "pc s = ThWaiting True" "map_get m code \<noteq> m_old_key s"
    and "ir_signal code False i s = Some s1" "ir_signal code True i s1 = Some s2"
  shows "pc s2 = ThNotified \<and> ir_log (key_body env W WaitOK s2) = ir_log s \<and> m_old_key (key_body env W WaitOK s2) = m_old_key s"
proof -
  have "pc s2 = ThNotified" "m_repeat s2" "m_old_key s2 = m_old_key s" "ir_log s2 = ir_log s"
    using assms by (auto simp: ir_signal_def Let_def)
  then show ?thesis by (simp add: key_body_effect [OF assms(1)] handles_def press_release_def)
qed

theorem ir_press_lost_witness:
  "\<exists>s1 s2. ir_signal 0x20 False 0 (demo_pressed\<lparr>pc := ThWaiting True\<rparr>) = Some s1 \<and> ir_signal 0x20 True 0 s1 = Some s2
     \<and> ir_log (key_body demo_ir_env 143 WaitOK s2) = [UKey 30 True, USyn]"
proof -
  let ?s = "demo_pressed\<lparr>pc := ThWaiting True\<rparr>"
  have 1: "ir_signal 0x20 False 0 ?s = Some (?s\<lparr>m_key := 31, pc := ThNotified\<rparr>)"
    by (simp add: ir_signal_def demo_ir_def demo_pressed_def demo_map_def map_get_def)
  have 2: "ir_signal 0x20 True 0 (?s\<lparr>m_key := 31, pc := ThNotified\<rparr>) = Some (?s\<lparr>m_key := 30, m_repeat := True, pc := ThNotified\<rparr>)"
    by (simp add: ir_signal_def demo_ir_def demo_pressed_def)
  from ir_press_lost [OF demo_ir_writes _ _ _ _ 1 2, of demo_map 143] 1 2 show ?thesis
    by (simp add: demo_pressed_def demo_ir_def demo_map_def map_get_def)
qed

section \<open>Starting and stopping\<close>

lemma register_keys_result:
  "register_keys env KP KW wk m (ok, p, q, s) = (ok', p', q', s') \<Longrightarrow>
   \<exists>cs. s' = s\<lparr>ir_log := ir_log s @ cs\<rparr> \<and> (ok' \<longrightarrow> ok \<and> (\<forall>e \<in> set m. USetKey (snd e) \<in> set cs))"
proof (induction m arbitrary: ok p q s)
  case Nil
  then show ?case by (auto intro: exI [of _ "[]"])
next
  case (Cons e m)
  obtain code k where e: "e = (code, k)" by fastforce
  show ?case
  proof (cases ok)
    case False
    with Cons.prems e have "s' = s" "\<not> ok'" by auto
    then show ?thesis by (intro exI [of _ "[]"]) simp
  next
    case True
    define s1 where "s1 = (if wk \<noteq> 0 \<and> ucast k = wk then ir_emit (USetKey KW) s else s)"
    define ok1 where "ok1 = (if wk \<noteq> 0 \<and> ucast k = wk then ioctl_ok env (ir_log s) else True)"
    define s2 where "s2 = (if ok1 then ir_emit (USetKey k) s1 else s1)"
    define ok2 where "ok2 = (ok1 \<and> ioctl_ok env (ir_log s1))"
    have "register_keys env KP KW wk (e # m) (ok, p, q, s) =
      register_keys env KP KW wk m (ok2, if k = KP then code else p, if wk \<noteq> 0 \<and> ucast k = wk then code else q, s2)"
      using True unfolding e s1_def ok1_def s2_def ok2_def by (simp add: register_key_def Let_def)
    with Cons.prems obtain cs where cs: "s' = s2\<lparr>ir_log := ir_log s2 @ cs\<rparr>" "ok' \<longrightarrow> ok2 \<and> (\<forall>e \<in> set m. USetKey (snd e) \<in> set cs)"
      using Cons.IH by metis
    obtain ds where ds: "s2 = s\<lparr>ir_log := ir_log s @ ds\<rparr>" "ok1 \<longrightarrow> USetKey k \<in> set ds"
    proof (rule that)
      let ?ds = "(if wk \<noteq> 0 \<and> ucast k = wk then [USetKey KW] else []) @ (if ok1 then [USetKey k] else [])"
      show "s2 = s\<lparr>ir_log := ir_log s @ ?ds\<rparr>" by (simp add: s2_def s1_def ir_emit_def)
      show "ok1 \<longrightarrow> USetKey k \<in> set ?ds" by simp
    qed
    show ?thesis using cs ds e True by (intro exI [of _ "ds @ cs"]) (auto simp: ok2_def)
  qed
qed

lemma signal_some: "m_map s = Some m \<Longrightarrow> \<exists>s'. ir_signal k r i s = Some s'"
  by (auto simp: ir_signal_def Let_def)

lemma handler_stop_closes:
  assumes "m_map s = Some m"
  shows "\<exists>s'. handler_stop s = Some s' \<and> m_fd s' = -1 \<and> m_handle s' = 0 \<and> m_map s' = None"
proof -
  have "m_map (s\<lparr>exitPending := True\<rparr>) = Some m" using assms by simp
  from signal_some [OF this] obtain t where "ir_signal NEXUSIRINPUT_NO_KEY False 0 (s\<lparr>exitPending := True\<rparr>) = Some t" by blast
  then show ?thesis
    by (simp add: handler_stop_def uinput_close_def uinput_stop_def irinput_stop_def setMap_def ir_emit_def Let_def)
qed

text \<open>The attempt to bring everything up, as far as the thread.\<close>

lemma irinput_start_result:
  assumes "irinput_start env p a q b s = (ok, s')"
  shows "ok = (m_handle s' \<noteq> 0) \<and> m_fd s' = m_fd s \<and> set (ir_log s) \<subseteq> set (ir_log s')"
  using assms by (auto simp: irinput_start_def ir_emit_def Let_def split: if_splits)

lemma uinput_start_result:
  "uinput_start env s = (ok, s') \<Longrightarrow> m_fd s' = m_fd s \<and> set (ir_log s) \<subseteq> set (ir_log s') \<and> (ok \<longrightarrow> UCreate \<in> set (ir_log s'))"
  by (auto simp: uinput_start_def uinput_stop_def ir_emit_def Let_def split: if_splits)

lemma handler_start_result:
  assumes "handler_start env KP KW (Some m) a b s = Some (ok, s')"
  shows "if ok then m_fd s' \<noteq> -1 \<and> m_handle s' \<noteq> 0 \<and> m_map s' = Some m \<and> UCreate \<in> set (ir_log s')
           \<and> (\<forall>e \<in> set m. USetKey (snd e) \<in> set (ir_log s'))
         else m_fd s' = -1 \<and> m_handle s' = 0 \<and> m_map s' = None"
proof -
  obtain ok1 s1 where 1: "and_then (uinput_open env s) (register_event env) = (ok1, s1)" by fastforce
  obtain ok2 p q s2 where 2: "register_keys env KP KW (prop_wakeup_button env) m (ok1, NEXUSIRINPUT_NO_KEY, NEXUSIRINPUT_NO_KEY, s1) = (ok2, p, q, s2)"
    by (metis prod_cases4)
  obtain ok3 s3 where 3: "(if ok2 then and_then (uinput_start env s2) (irinput_start env p a q b) else (False, s2)) = (ok3, s3)" by fastforce
  define s4 where "s4 = setWakeupKey (prop_wakeup_button env) (setTimeout (repeatTimeout env) (setInitialTimeout (initialRepeatTimeout env) (setMap (Some m) s3)))"
  have m4: "m_map s4 = Some m" "m_fd s4 = m_fd s3" "m_handle s4 = m_handle s3" "ir_log s4 = ir_log s3"
    by (simp_all add: s4_def setWakeupKey_def setTimeout_def setInitialTimeout_def setMap_def)
  define s5 where "s5 = (if ok3 then (ir_emit RunThread s4)\<lparr>pc := ThTop, th_timeout := m_timeout s4\<rparr> else s4)"
  have m5: "m_map s5 = Some m" "m_fd s5 = m_fd s3" "m_handle s5 = m_handle s3" "set (ir_log s3) \<subseteq> set (ir_log s5)"
    using m4 by (auto simp: s5_def ir_emit_def)
  define ok5 where "ok5 = (ok3 \<and> thread_run env (ir_log s4))"
  have run: "handler_start env KP KW (Some m) a b s = (if ok5 then Some (True, s5) else map_option (\<lambda>s. (False, s)) (handler_stop s5))"
    using 1 2 3 by (simp add: handler_start_def s4_def [symmetric] s5_def ok5_def Let_def)
  show ?thesis
  proof (cases ok5)
    case True
    then have ok: "ok3" "ok2" using 3 by (auto simp: ok5_def split: if_splits)
    obtain cs where r: "s2 = s1\<lparr>ir_log := ir_log s1 @ cs\<rparr>" "ok1" "\<forall>e \<in> set m. USetKey (snd e) \<in> set cs"
      using register_keys_result [OF 2] ok(2) by blast
    have fd1: "m_fd s1 \<noteq> -1" using 1 r(2) by (auto simp: and_then_def uinput_open_def register_event_def ir_emit_def Let_def split: if_splits)
    obtain oku su where u: "uinput_start env s2 = (oku, su)" by fastforce
    with 3 ok have oku: "oku" "irinput_start env p a q b su = (ok3, s3)" by (auto simp: and_then_def split: if_splits)
    note res = uinput_start_result [OF u] irinput_start_result [OF oku(2)]
    from res m5(4) have sub: "set (ir_log s2) \<subseteq> set (ir_log s5)" "set (ir_log su) \<subseteq> set (ir_log s5)" by blast+
    have "\<forall>e \<in> set m. USetKey (snd e) \<in> set (ir_log s5)" using r(1,3) sub(1) by auto
    moreover have "UCreate \<in> set (ir_log s5)" using res oku(1) sub(2) by blast
    ultimately show ?thesis using res r(1) fd1 ok(1) m5(1-3) run True assms by simp
  next
    case False
    moreover obtain t where "handler_stop s5 = Some t" "m_fd t = -1" "m_handle t = 0" "m_map t = None"
      using handler_stop_closes [OF m5(1)] by blast
    ultimately show ?thesis using run assms by simp
  qed
qed

text \<open>
  Starting is all or nothing. If it reports success, the uinput device and the Nexus input are open, the device was created
  after every key of the map was registered, and the thread has the map; otherwise everything is
  closed again.
\<close>

theorem ir_start_all_or_nothing:
  assumes "handler_start env KP KW (Some m) a b s = Some (ok, s')"
  shows "if ok then m_fd s' \<noteq> -1 \<and> m_handle s' \<noteq> 0 \<and> m_map s' = Some m \<and> UCreate \<in> set (ir_log s')
           \<and> (\<forall>e \<in> set m. USetKey (snd e) \<in> set (ir_log s'))
         else m_fd s' = -1 \<and> m_handle s' = 0 \<and> m_map s' = None"
  by (rule handler_start_result [OF assms])

theorem ir_start_all_or_nothing_witness:
  "\<exists>s'. handler_start demo_ir_env 116 143 (Some demo_map) 0 0 demo_ir = Some (True, s') \<and> m_fd s' \<noteq> -1 \<and> USetKey 31 \<in> set (ir_log s')"
proof -
  obtain s' where h: "handler_start demo_ir_env 116 143 (Some demo_map) 0 0 demo_ir = Some (True, s')"
    by (simp add: handler_start_def and_then_def uinput_open_def register_event_def register_key_def uinput_start_def irinput_start_def
        setMap_def setTimeout_def setInitialTimeout_def setWakeupKey_def demo_map_def demo_ir_def demo_ir_env_def ir_emit_def)
  show ?thesis using ir_start_all_or_nothing [OF h] h by (simp add: demo_map_def)
qed

text \<open>
  The handler cannot be stopped twice: stopping gives up the map that the next stop looks a key up in. The
  destructor always stops, so destroying a handler that was stopped, or whose start failed,
  dereferences a null pointer; so does starting without a map.
\<close>

theorem ir_stop_twice:
  "Option.bind (handler_stop s) handler_stop = None
   \<and> Option.bind (handler_start env KP KW (Some m) a b s) (\<lambda>(ok, s'). if ok then None else handler_stop s') = None
   \<and> handler_start env KP KW None a b s = None"
proof -
  have none: "handler_stop t = None" if "m_map t = None" for t using that by (simp add: handler_stop_def ir_signal_def)
  have "handler_stop t = None" if "handler_stop s = Some t" for t
  proof (cases "m_map s")
    case (Some m)
    with handler_stop_closes [OF Some] that none show ?thesis by auto
  qed (use that none in simp)
  then have "Option.bind (handler_stop s) handler_stop = None" by (cases "handler_stop s") simp_all
  moreover have "handler_stop s' = None" if "handler_start env KP KW (Some m) a b s = Some (False, s')" for s'
    using handler_start_result [OF that] none by simp
  then have "Option.bind (handler_start env KP KW (Some m) a b s) (\<lambda>(ok, s'). if ok then None else handler_stop s') = None"
    by (cases "handler_start env KP KW (Some m) a b s") auto
  ultimately show ?thesis by (simp add: handler_start_def)
qed

end
