(* ===== verification/Spec2Isabelle.thy ===== *)
theory Spec2Isabelle
  imports Bomx_Tracker Bomx_Pes Bomx_Aac Bomx_Core Bomx_Tunnels Bomx_Params Power_Gpio
    Adec_Tracking Adec_Life Nexus_Cec Ir_Handler
begin

text \<open>
  \<^bold>\<open>The Broadcom Android platform layer: a verification library.\<close>

  The repository adapts Android to Broadcom set-top boxes. Its own logic is in the media library
  (\<open>media/libstagefrighthw\<close>, the BOMX implementation of OpenMAX IL), in the hardware abstraction
  layers (\<open>hals\<close>) and in the Nexus interface (\<open>nxif\<close>); the rest is vendored code, firmware, Java
  applications and configuration.

  \<^bold>\<open>The media library.\<close> A client creates a component by name or role from the core, exchanges
  parameters with it, gives its ports buffers and sends it commands; a component answers through
  callbacks. The theories follow the files:

  \<^item> \<open>Bomx_Utils\<close> (\<open>bomx_utils.cpp\<close>, \<open>bomx_utils.h\<close>): error codes and tracing, structure checks,
    conversion between ticks and 45 kHz time stamps at their 64 and 32 bit widths. Shown: the two
    conversions are inverse up to rounding, and where they wrap.
  \<^item> \<open>Bomx_Buffer\<close> (\<open>bomx_buffer.cpp\<close>): the buffer header and the input and output windows.
    Shown: the window handed out lies in the client's buffer, except when the 32 bit sum wraps.
  \<^item> \<open>Drain\<close>: loops that empty a queue, as a locale with a termination proof; its instance in
    \<open>Bomx_Component\<close> returns the buffers of a port.
  \<^item> \<open>Bomx_Port\<close> (\<open>bomx_port.cpp\<close>): a port with its allocated and queued buffers in an explicit
    heap. Shown: every operation keeps the invariant, and the port refines an ownership
    specification in which each buffer is with the client or with the component.
  \<^item> \<open>Bomx_Tracker\<close> (\<open>bomx_buffer_tracker.cpp\<close>): the store of exact time stamps. Shown: it
    implements the contract of the locale \<open>timestamp_store\<close>: each time stamp comes back.
  \<^item> \<open>Biobits\<close>, \<open>Bomx_Pes\<close> (\<open>bomx_pes_formatter.cpp\<close>), \<open>Bomx_Aac\<close> (\<open>bomx_aac_parser.cpp\<close>): the
    writers of PES and ADTS headers and the AudioSpecificConfig parser, with readers of both
    header formats as specification. The bit field macros and the bit reader are not in the
    repository: they are records of functions whose laws are the locales \<open>biobits_laws\<close> and
    \<open>batom_laws\<close>, interpreted on concrete implementations.
  \<^item> \<open>Bomx_Component\<close>, \<open>Bomx_Params\<close>, \<open>Bomx_Tunnels\<close> (\<open>bomx_component.cpp\<close>): the OMX state machine,
    the command queue and its handler, the client entry points, the walk over tunnelled
    components and the resources they share. What a subclass implements is the record \<open>hooks\<close>
    (command handlers) and the record \<open>virtuals\<close> (methods of the handle); the platform's message
    queue is a record whose laws are the locale \<open>fifo_queue\<close>. Shown: no run leaves the
    transition diagram of the OMX specification, every command is answered once and in order
    with the mutex released, all buffers are returned, resources are shared by exactly the
    components of a tunnel graph.
  \<^item> \<open>Bomx_Core\<close> (\<open>bomx_core.cpp\<close>, \<open>bomx_android_plugin.cpp\<close>): the component table, reference
    counted initialisation, names and roles, handles, tunnel set-up and the stagefright plugin.

  \<^bold>\<open>The audio decoder\<close> (\<open>bomx_audio_decoder.cpp\<close>) is the component that turns encoded frames of the
  client into samples; it drives a playpump and a decoder of Nexus. Its members are the record
  \<open>BOMX_AudioDecoder\<close>, which is the subclass part of a \<open>BOMX_Component\<close>; memory is a map from blocks
  to bytes; Nexus is the record \<open>adec_env\<close>, whose answers may depend on all calls made before.

  \<^item> \<open>Adec_Data\<close>: members, allocation and release of buffers, codec configuration data.
  \<^item> \<open>Adec_Input\<close>: the way of an input buffer: packets, submission, completion, return.
  \<^item> \<open>Adec_Packets\<close>: the bytes behind the descriptors, read back by a reader of PES packets. Shown:
    configuration, codec header, data and time stamp of a frame come back, exactly when they fit.
  \<^item> \<open>Adec_Queue\<close>: the invariant of the input queue and its two counters. Shown: which buffers the
    playpump event completes, that buffers return in order, once and only when consumed, and that
    none is stuck.
  \<^item> \<open>Adec_Empty\<close>: \<open>EmptyThisBuffer\<close> as a whole, over the two theories before.
  \<^item> \<open>Adec_Output\<close>: the output buffers, decoded frames and the end of the stream, operation by
    operation; \<open>Adec_Delivery\<close> composes them. Shown: a frame of the decoder reaches the client with
    its samples and time stamp, the end of the stream is delivered once and after all frames, and no
    buffer is queued at the decoder twice.
  \<^item> \<open>Adec_Commands\<close>: the four command handlers, with the state changes of both ports and the
    waits for the client. \<open>Adec_Tracking\<close> replays the recorded Nexus calls. Shown: over every
    sequence of commands the member for the decoder state agrees with what was called, and a stop
    returns every buffer.
  \<^item> \<open>Adec_Params\<close>: \<open>GetParameter\<close> and \<open>SetParameter\<close>: roles, port formats and definitions, the
    format of the samples, the parameters of the codecs. That Nexus keeps settings is the locale
    \<open>settings_store\<close>, the fields of an audio format the locale \<open>format_layout\<close>. Shown: the format of the
    samples comes back, which formats are refused, every call keeps the component well-formed, and
    the role decides which codec the decoder is started for.
  \<^item> \<open>Adec_Life\<close>: the constructor as a list of steps, each of which may give up, the destructor, and
    the functions that create a decoder. What is acquired and not released is read off the recorded
    calls. Shown: creation gives a well-formed decoder or releases everything that it had acquired,
    whichever step fails, and the destructor frees the buffers left at the ports.

  \<^bold>\<open>The power HAL.\<close>

  \<^item> \<open>Power_Hal\<close> (\<open>hals/power/power.cpp\<close>): the wake lock, the doze and off states, the suspend
    protocol and its threads, Wake-on-LAN set-up. Threads interleave in an inductive step
    relation; what Nexus, properties, sysfs and the kernel driver answer is the record \<open>pm_env\<close>,
    and an answer may depend on all calls made before. Shown: the wake lock is used in balance,
    a suspend is acknowledged only after the off state was entered, the Wake-on-LAN thread stops.
  \<^item> \<open>Power_Gpio\<close> (\<open>hals/power/nexus_power.cpp\<close>): the GPIO configuration file, the pin table and
    the sequence of a power state change. Shown: the parser returns the parameters written, the
    table has no gaps and every output a level per state, pins and platform change in order.

  \<^bold>\<open>The Nexus interface.\<close>

  \<^item> \<open>Nexus_Cec\<close> (\<open>nxif/libnexusservice/nexuscecservice.cpp\<close>): the HDMI CEC service, which answers
    messages of the bus from a table of replies, sends messages with retries, changes the power
    state of the television and reads its status. Shown: what a sent message looks like on the
    bus and when sending succeeds, the reply to every request in the table, that receiving
    keeps to the buffers, and which wake-up of a waiting thread can be lost.
  \<^item> \<open>Ir_Map\<close> (\<open>nxif/libnexusir/nexusirmap.cpp\<close>): the parser of infrared key maps, over a tokenizer
    whose laws are the locale \<open>tokenizer_laws\<close>. Shown: it ends, and reads back a written map.
  \<^item> \<open>Ir_Handler\<close> (\<open>nexusirhandler.cpp\<close>, \<open>nexusirinput.cpp\<close>, \<open>linuxuinput.cpp\<close>): infrared codes to
    key events, by a callback and a thread that interleave. Shown: presses and releases
    alternate in every interleaving, a delivered key is released after the timeout, starting
    registers all keys or nothing.

  \<^bold>\<open>Conventions.\<close> A pointer is an address (0 is NULL), a queue of the BLST library a list, a C++
  object a record passed along. \<open>None\<close> as the result of an operation means that an assertion
  failed or memory outside an object was accessed; error codes are values. Integers keep their
  width where the code depends on it. What \<open>new\<close> returns is an argument. Calls into other code
  are entries of a log in the order made.

  \<^bold>\<open>Bounds.\<close> The tunnel walk takes fuel; 17 is enough, because each nested call has put a new
  component into an array of 16. Loops whose end is not evident are partial functions or take the
  list of answers they receive, and their termination is a theorem.

  \<^bold>\<open>Properties that fail.\<close> Some theorems state what the code does where a comment, a
  specification or the surrounding code expects something else: lost errors of commands on all
  ports, the wrap-around in the input window, the plugin's role query, the negative index of the
  name table, a closed descriptor kept after a failed initialisation, two monitor threads at once,
  the overrun of the GPIO parameter array, the display settings loop that does not end, CEC
  retries without a pause, an overlong CEC message, a stale CEC reply parameter, a power status
  report that is not seen, infrared keys that stay pressed or get lost, stopping twice, an audio
  decoder that asserts at the end of the stream, refuses to pause, forgets that it resumed, refuses
  the format of its own output, keeps arrays that are too short after a refused definition, frees a
  pointer that was never set when it is the third, and hangs in its destructor on a queued buffer.

  \<^bold>\<open>Not modelled.\<close> Of the audio decoder, debug dumps and cache flushes. The video decoder and
  the encoder drive Nexus hardware in the same way as the audio decoder. The composer, audio,
  camera and graphics HALs, the servers and the tools are mostly calls to Nexus; the extractor is
  a modified copy of Android's; the wireless driver is vendored; applications are Java.
\<close>

end
